(* ===== verification/Prelude.thy ===== *)
theory Prelude
  imports Main "HOL-Library.Word" "HOL-Library.Char_ord" "HOL-Library.List_Lexorder"
    "HOL-Library.Sublist"
begin

text \<open>
  Shared ground of the development: the model's basic types (paths, blobs, machine words),
  the part of Rust's standard library that several components use (\<open>Ordering\<close> and
  comparators, string joining, decimal printing, hexadecimal digits) and the generic lemmas about them.

  A \<open>str\<close> is the list of its bytes, so \<open>length\<close> is \<open>str::len\<close> and the order of
  \<^typ>\<open>string\<close> (lexicographic, bytes by code) is Rust's \<open>str::cmp\<close>.
  A relative \<open>PathBuf\<close> is the list of its components, so the lexicographic order of
  \<^typ>\<open>string list\<close> is the component-wise \<open>Path::cmp\<close>, which is not the order of the path strings.
\<close>

section \<open>Basic types\<close>

type_synonym u8 = "8 word"
type_synonym u32 = "32 word"
type_synonym u64 = "64 word"
type_synonym path = "string list"
type_synonym blob = "string"

named_theorems result_simps \<open>characterisations of operations that return an error or a value\<close>

section \<open>Results\<close>

text \<open>\<open>Result<T, E>\<close> is the sum type with the error on the left; the \<open>?\<close> operator is \<open>res_bind\<close>.\<close>

fun res_bind :: "'e + 'a \<Rightarrow> ('a \<Rightarrow> 'e + 'b) \<Rightarrow> 'e + 'b" where
  "res_bind (Inl e) f = Inl e"
| "res_bind (Inr x) f = f x"

lemma not_Inl_iff: "(\<forall>e. r \<noteq> Inl e) \<longleftrightarrow> (\<exists>y. r = Inr y)"
  by (cases r) auto

lemma res_bind_cong [fundef_cong]:
  "r = r' \<Longrightarrow> (\<And>x. r' = Inr x \<Longrightarrow> f x = g x) \<Longrightarrow> res_bind r f = res_bind r' g"
  by (cases r') auto

lemma res_bind_eq_Inr [result_simps]:
  "res_bind r f = Inr y \<longleftrightarrow> (\<exists>x. r = Inr x \<and> f x = Inr y)"
  by (cases r) auto

lemma res_bind_eq_Inl [result_simps]:
  "res_bind r f = Inl e \<longleftrightarrow> r = Inl e \<or> (\<exists>x. r = Inr x \<and> f x = Inl e)"
  by (cases r) auto

definition ok_or :: "'e \<Rightarrow> 'a option \<Rightarrow> 'e + 'a" where
  "ok_or e x = (case x of None \<Rightarrow> Inl e | Some y \<Rightarrow> Inr y)"

lemma ok_or_simps [simp]: "ok_or e None = Inl e" "ok_or e (Some y) = Inr y"
  by (simp_all add: ok_or_def)

lemma ok_or_eq_Inr [result_simps]: "ok_or e x = Inr y \<longleftrightarrow> x = Some y"
  by (cases x) auto

text \<open>A \<open>for\<close> loop whose body may return early with an error.\<close>

fun res_fold :: "('a \<Rightarrow> 's \<Rightarrow> 'e + 's) \<Rightarrow> 'a list \<Rightarrow> 's \<Rightarrow> 'e + 's" where
  "res_fold f [] s = Inr s"
| "res_fold f (x # xs) s = res_bind (f x s) (res_fold f xs)"

lemma res_fold_append:
  "res_fold f (xs @ ys) s = res_bind (res_fold f xs s) (res_fold f ys)"
proof (induction xs arbitrary: s)
  case Nil
  then show ?case by simp
next
  case (Cons x xs)
  then show ?case by (cases "f x s") auto
qed

lemma res_fold_invariant:
  assumes step: "\<And>x s s'. P s \<Longrightarrow> f x s = Inr s' \<Longrightarrow> P s'"
    and "P s" "res_fold f xs s = Inr s'"
  shows "P s'"
  using assms(2,3)
  by (induction xs arbitrary: s) (auto simp: result_simps intro: step)

section \<open>Comparators\<close>

datatype rust_ordering = Less | Equal | Greater

fun then_with :: "rust_ordering \<Rightarrow> rust_ordering \<Rightarrow> rust_ordering" where
  "then_with Equal o2 = o2"
| "then_with o1 o2 = o1"

fun rev_ordering :: "rust_ordering \<Rightarrow> rust_ordering" where
  "rev_ordering Less = Greater"
| "rev_ordering Equal = Equal"
| "rev_ordering Greater = Less"

definition cmp_of :: "'a::linorder \<Rightarrow> 'a \<Rightarrow> rust_ordering" where
  "cmp_of x y = (if x < y then Less else if x = y then Equal else Greater)"

lemma cmp_of_iff [simp]:
  "cmp_of x y = Less \<longleftrightarrow> x < y"
  "cmp_of x y = Equal \<longleftrightarrow> x = y"
  "cmp_of x y = Greater \<longleftrightarrow> y < x"
  by (auto simp: cmp_of_def)

lemma then_with_iff:
  "then_with o1 o2 = Less \<longleftrightarrow> o1 = Less \<or> (o1 = Equal \<and> o2 = Less)"
  "then_with o1 o2 = Equal \<longleftrightarrow> o1 = Equal \<and> o2 = Equal"
  "then_with o1 o2 = Greater \<longleftrightarrow> o1 = Greater \<or> (o1 = Equal \<and> o2 = Greater)"
  by (cases o1; simp)+

text \<open>
  What \<open>Ord\<close> promises of \<open>cmp\<close>, as an interface: swapping the arguments reverses the answer and
  the induced weak order is transitive.
\<close>

locale total_cmp =
  fixes cmp :: "'a \<Rightarrow> 'a \<Rightarrow> rust_ordering"
  assumes cmp_swap: "cmp y x = rev_ordering (cmp x y)"
    and cmp_trans: "cmp x y \<noteq> Greater \<Longrightarrow> cmp y z \<noteq> Greater \<Longrightarrow> cmp x z \<noteq> Greater"
begin

lemma cmp_refl: "cmp x x = Equal"
  using cmp_swap [of x x] by (cases "cmp x x") auto

lemma cmp_total: "cmp x y \<noteq> Greater \<or> cmp y x \<noteq> Greater"
  using cmp_swap [of x y] by (cases "cmp x y") auto

lemma cmp_less_trans: "cmp x y = Less \<Longrightarrow> cmp y z \<noteq> Greater \<Longrightarrow> cmp x z = Less"
proof -
  assume xy: "cmp x y = Less" and yz: "cmp y z \<noteq> Greater"
  then have xz: "cmp x z \<noteq> Greater" using cmp_trans [of x y z] by simp
  show "cmp x z = Less"
  proof (rule ccontr)
    assume "cmp x z \<noteq> Less"
    with xz have "cmp x z = Equal" by (cases "cmp x z") auto
    then have "cmp z x \<noteq> Greater" using cmp_swap [of z x] by simp
    with yz have "cmp y x \<noteq> Greater" using cmp_trans [of y z x] by simp
    with xy show False using cmp_swap [of y x] by simp
  qed
qed

lemma cmp_trans_less: "cmp x y \<noteq> Greater \<Longrightarrow> cmp y z = Less \<Longrightarrow> cmp x z = Less"
proof -
  assume xy: "cmp x y \<noteq> Greater" and yz: "cmp y z = Less"
  then have xz: "cmp x z \<noteq> Greater" using cmp_trans [of x y z] by simp
  show "cmp x z = Less"
  proof (rule ccontr)
    assume "cmp x z \<noteq> Less"
    with xz have "cmp x z = Equal" by (cases "cmp x z") auto
    then have "cmp z x \<noteq> Greater" using cmp_swap [of z x] by simp
    then have "cmp z y \<noteq> Greater" using xy cmp_trans [of z x y] by simp
    with yz show False using cmp_swap [of z y] by simp
  qed
qed

lemma cmp_equal_trans: "cmp x y = Equal \<Longrightarrow> cmp y z = Equal \<Longrightarrow> cmp x z = Equal"
proof -
  assume xy: "cmp x y = Equal" and yz: "cmp y z = Equal"
  then have "cmp x z \<noteq> Greater" "cmp z x \<noteq> Greater"
    using cmp_trans [of x y z] cmp_trans [of z y x] cmp_swap [of y x] cmp_swap [of z y] by simp_all
  then show "cmp x z = Equal" using cmp_swap [of z x] by (cases "cmp x z") auto
qed

end

text \<open>Comparing a component, and chaining two comparators with \<open>then_with\<close>, keep the promise.\<close>

lemma total_cmp_on: "total_cmp c \<Longrightarrow> total_cmp (\<lambda>x y. c (f x) (f y))"
  unfolding total_cmp_def by blast

lemma total_cmp_then:
  assumes c: "total_cmp c" and d: "total_cmp d"
  shows "total_cmp (\<lambda>x y. then_with (c x y) (d x y))"
proof
  fix x y z
  show "then_with (c y x) (d y x) = rev_ordering (then_with (c x y) (d x y))"
    using total_cmp.cmp_swap [OF c, of y x] total_cmp.cmp_swap [OF d, of y x]
    by (cases "c x y") auto
  assume "then_with (c x y) (d x y) \<noteq> Greater" "then_with (c y z) (d y z) \<noteq> Greater"
  then consider "c x y = Less" "c y z \<noteq> Greater" | "c x y \<noteq> Greater" "c y z = Less"
    | "c x y = Equal" "c y z = Equal" "d x y \<noteq> Greater" "d y z \<noteq> Greater"
    by (cases "c x y"; cases "c y z") auto
  then show "then_with (c x z) (d x z) \<noteq> Greater"
  proof cases
    case 1
    then show ?thesis using total_cmp.cmp_less_trans [OF c] by simp
  next
    case 2
    then show ?thesis using total_cmp.cmp_trans_less [OF c] by simp
  next
    case 3
    then show ?thesis using total_cmp.cmp_equal_trans [OF c, of x y z] total_cmp.cmp_trans [OF d, of x y z]
      by simp
  qed
qed

interpretation linorder_cmp: total_cmp "cmp_of :: 'a::linorder \<Rightarrow> 'a \<Rightarrow> rust_ordering"
  by unfold_locales (auto simp: cmp_of_def split: if_splits)

text \<open>\<open>sort_by\<close> is stable, as \<open>insort_by\<close> is: an element goes before the later ones it does not exceed.\<close>

fun insort_by :: "('a \<Rightarrow> 'a \<Rightarrow> rust_ordering) \<Rightarrow> 'a \<Rightarrow> 'a list \<Rightarrow> 'a list" where
  "insort_by cmp x [] = [x]"
| "insort_by cmp x (y # ys) =
     (if cmp x y = Greater then y # insort_by cmp x ys else x # y # ys)"

fun sort_by :: "('a \<Rightarrow> 'a \<Rightarrow> rust_ordering) \<Rightarrow> 'a list \<Rightarrow> 'a list" where
  "sort_by cmp [] = []"
| "sort_by cmp (x # xs) = insort_by cmp x (sort_by cmp xs)"

lemma set_insort_by [simp]: "set (insort_by cmp x xs) = insert x (set xs)"
  by (induction xs) auto

lemma length_insort_by [simp]: "length (insort_by cmp x xs) = Suc (length xs)"
  by (induction xs) auto

lemma set_sort_by [simp]: "set (sort_by cmp xs) = set xs"
  by (induction xs) auto

lemma length_sort_by [simp]: "length (sort_by cmp xs) = length xs"
  by (induction xs) auto

lemma sort_by_eq_Nil [simp]: "sort_by cmp xs = [] \<longleftrightarrow> xs = []"
  by (metis length_0_conv length_sort_by)

lemma insort_by_key: "insort_by (\<lambda>a b. cmp_of (f a) (f b)) x xs = insort_key f x xs"
  by (induction xs) auto

lemma sort_by_key: "sort_by (\<lambda>a b. cmp_of (f a) (f b)) xs = sort_key f xs"
  by (induction xs) (auto simp: insort_by_key)

context total_cmp begin

lemma sorted_insort_by:
  "sorted_wrt (\<lambda>a b. cmp a b \<noteq> Greater) xs \<Longrightarrow>
   sorted_wrt (\<lambda>a b. cmp a b \<noteq> Greater) (insort_by cmp x xs)"
proof (induction xs)
  case Nil
  then show ?case by simp
next
  case (Cons y ys)
  show ?case
  proof (cases "cmp x y = Greater")
    case True
    then have "cmp y x \<noteq> Greater" using cmp_swap [of y x] by simp
    with True Cons show ?thesis by auto
  next
    case False
    have "cmp x z \<noteq> Greater" if "z \<in> set ys" for z
      using False Cons.prems that cmp_trans [of x y z] by simp
    with False Cons.prems show ?thesis by simp
  qed
qed

lemma sorted_sort_by: "sorted_wrt (\<lambda>a b. cmp a b \<noteq> Greater) (sort_by cmp xs)"
  by (induction xs) (auto intro: sorted_insort_by)

end

text \<open>\<open>Vec::dedup_by\<close> drops an element equivalent to the one kept just before it.\<close>

fun dedup_from :: "('a \<Rightarrow> 'a \<Rightarrow> bool) \<Rightarrow> 'a \<Rightarrow> 'a list \<Rightarrow> 'a list" where
  "dedup_from same x [] = [x]"
| "dedup_from same x (y # ys) =
     (if same y x then dedup_from same x ys else x # dedup_from same y ys)"

fun dedup_by :: "('a \<Rightarrow> 'a \<Rightarrow> bool) \<Rightarrow> 'a list \<Rightarrow> 'a list" where
  "dedup_by same [] = []"
| "dedup_by same (x # xs) = dedup_from same x xs"

lemma set_dedup_from: "set (dedup_from same x xs) \<subseteq> insert x (set xs)"
  by (induction xs arbitrary: x) auto

lemma set_dedup_by: "set (dedup_by same xs) \<subseteq> set xs"
  using set_dedup_from by (cases xs) (simp, force)

lemma dedup_from_keys:
  "f ` set (dedup_from (\<lambda>a b. f a = f b) x xs) = f ` insert x (set xs)"
proof (induction xs arbitrary: x)
  case Nil
  then show ?case by simp
next
  case (Cons y ys)
  show ?case by (cases "f y = f x") (auto simp: Cons.IH)
qed

lemma dedup_by_keys: "f ` set (dedup_by (\<lambda>a b. f a = f b) xs) = f ` set xs"
  by (cases xs) (auto simp: dedup_from_keys)

lemma dedup_from_sorted:
  fixes f :: "'a \<Rightarrow> 'k::linorder"
  assumes "sorted (map f (x # xs))"
  shows "sorted_wrt (<) (map f (dedup_from (\<lambda>a b. f a = f b) x xs))"
  using assms
proof (induction xs arbitrary: x)
  case Nil
  then show ?case by simp
next
  case (Cons y ys)
  show ?case
  proof (cases "f y = f x")
    case True
    with Cons show ?thesis by simp
  next
    case False
    with Cons.prems have lt: "f x < f y" by auto
    have ge: "f y \<le> f z" if "z \<in> set (dedup_from (\<lambda>a b. f a = f b) y ys)" for z
      using that set_dedup_from Cons.prems by fastforce
    from False lt ge Cons show ?thesis by fastforce
  qed
qed

lemma dedup_by_sorted:
  fixes f :: "'a \<Rightarrow> 'k::linorder"
  shows "sorted (map f xs) \<Longrightarrow> sorted_wrt (<) (map f (dedup_by (\<lambda>a b. f a = f b) xs))"
  by (cases xs) (auto simp: dedup_from_sorted)

lemma find_SomeD: "find P xs = Some x \<Longrightarrow> x \<in> set xs \<and> P x"
  by (induction xs) (auto split: if_splits)

lemma strict_keys_unique:
  fixes f :: "'a \<Rightarrow> 'k::linorder"
  assumes "set xs = set ys" "sorted_wrt (<) (map f xs)" "sorted_wrt (<) (map f ys)"
  shows "xs = ys"
proof -
  have "inj_on f (set xs \<union> set ys)"
    using assms(1,3) by (simp add: strict_sorted_iff distinct_map)
  then show ?thesis
    using assms by (intro map_sorted_distinct_set_unique) (auto simp: strict_sorted_iff)
qed

section \<open>Strings and paths\<close>

fun join_with :: "'a list \<Rightarrow> 'a list list \<Rightarrow> 'a list" where
  "join_with sep [] = []"
| "join_with sep [x] = x"
| "join_with sep (x # y # zs) = x @ sep @ join_with sep (y # zs)"

lemma join_with_Cons: "xs \<noteq> [] \<Longrightarrow> join_with sep (x # xs) = x @ sep @ join_with sep xs"
  by (cases xs) auto

lemma join_with_append:
  "xs \<noteq> [] \<Longrightarrow> ys \<noteq> [] \<Longrightarrow> join_with sep (xs @ ys) = join_with sep xs @ sep @ join_with sep ys"
proof (induction sep xs rule: join_with.induct)
  case (2 sep x)
  then show ?case by (simp add: join_with_Cons)
qed auto

text \<open>\<open>str::split(c)\<close>: the pieces between the separators, at least one.\<close>

fun split_on :: "'a \<Rightarrow> 'a list \<Rightarrow> 'a list list" where
  "split_on c [] = [[]]"
| "split_on c (x # xs) =
     (if x = c then [] # split_on c xs
      else (x # hd (split_on c xs)) # tl (split_on c xs))"

lemma split_on_ne [simp]: "split_on c xs \<noteq> []"
  by (cases xs) auto

lemma join_split_on: "join_with [c] (split_on c xs) = xs"
proof (induction xs)
  case (Cons x xs)
  show ?case
  proof (cases "x = c")
    case True
    with Cons show ?thesis by (simp add: join_with_Cons)
  next
    case False
    obtain w ws where "split_on c xs = w # ws" by (cases "split_on c xs") auto
    with Cons False show ?thesis by (cases ws) auto
  qed
qed simp

lemma split_on_parts: "w \<in> set (split_on c xs) \<Longrightarrow> c \<notin> set w"
proof (induction xs arbitrary: w)
  case (Cons x xs)
  obtain v vs where "split_on c xs = v # vs" by (cases "split_on c xs") auto
  with Cons show ?case by (auto split: if_splits)
qed simp

lemma split_on_without: "c \<notin> set xs \<Longrightarrow> split_on c xs = [xs]"
  by (induction xs) auto

lemma split_on_app: "c \<notin> set w \<Longrightarrow> split_on c (w @ c # xs) = w # split_on c xs"
  by (induction w) auto

lemma split_on_join:
  "ws \<noteq> [] \<Longrightarrow> \<forall>w \<in> set ws. c \<notin> set w \<Longrightarrow> split_on c (join_with [c] ws) = ws"
proof (induction "[c]" ws rule: join_with.induct)
  case (3 x y zs)
  then show ?case by (simp add: split_on_app)
qed (simp_all add: split_on_without)

lemma set_join_with:
  "x \<in> set (join_with [c] ws) \<Longrightarrow> x = c \<or> (\<exists>w \<in> set ws. x \<in> set w)"
  by (induction "[c]" ws rule: join_with.induct) auto

lemma set_join_with_part: "w \<in> set ws \<Longrightarrow> set w \<subseteq> set (join_with sep ws)"
  by (induction sep ws rule: join_with.induct) auto

lemma split_on_hd_empty: "hd (split_on c xs) = [] \<longleftrightarrow> xs = [] \<or> hd xs = c"
  by (cases xs) auto

lemma sublist_pair_Cons:
  "sublist [c, c] (x # xs) \<longleftrightarrow> (x = c \<and> xs \<noteq> [] \<and> hd xs = c) \<or> sublist [c, c] xs"
  by (cases xs) (auto simp: sublist_Cons_right)

lemma split_on_tl_empty:
  "[] \<in> set (tl (split_on c xs)) \<longleftrightarrow> (xs \<noteq> [] \<and> last xs = c) \<or> sublist [c, c] xs"
proof (induction xs)
  case (Cons x xs)
  have "[] \<in> set (split_on c xs) \<longleftrightarrow>
      hd (split_on c xs) = [] \<or> [] \<in> set (tl (split_on c xs))"
    by (cases "split_on c xs") auto
  with Cons show ?case
    by (auto simp: split_on_hd_empty sublist_pair_Cons)
qed simp

lemma split_on_empty_part:
  "[] \<in> set (split_on c xs) \<longleftrightarrow>
   xs = [] \<or> hd xs = c \<or> last xs = c \<or> sublist [c, c] xs"
proof -
  have "[] \<in> set (split_on c xs) \<longleftrightarrow>
      hd (split_on c xs) = [] \<or> [] \<in> set (tl (split_on c xs))"
    by (cases "split_on c xs") auto
  then show ?thesis by (auto simp: split_on_hd_empty split_on_tl_empty)
qed

text \<open>\<open>path.to_string_lossy()\<close> of a relative path.\<close>

definition path_str :: "path \<Rightarrow> string" where
  "path_str p = join_with ''/'' p"

text \<open>\<open>Path::parent\<close>: the root path (no components) has none.\<close>

definition path_parent :: "path \<Rightarrow> path option" where
  "path_parent p = (if p = [] then None else Some (butlast p))"

definition path_file_name :: "path \<Rightarrow> string option" where
  "path_file_name p = (if p = [] then None else Some (last p))"

text \<open>Decimal printing of an unsigned number.\<close>

fun show_nat :: "nat \<Rightarrow> string" where
  "show_nat n =
     (if n < 10 then [''0123456789'' ! n]
      else show_nat (n div 10) @ [''0123456789'' ! (n mod 10)])"

declare show_nat.simps [simp del]

definition ascii_lower :: "char \<Rightarrow> bool" where
  "ascii_lower c \<longleftrightarrow> c \<in> set ''abcdefghijklmnopqrstuvwxyz''"

definition ascii_digit :: "char \<Rightarrow> bool" where
  "ascii_digit c \<longleftrightarrow> c \<in> set ''0123456789''"

text \<open>\<open>str::trim\<close> on ASCII text.\<close>

definition ascii_space :: "char \<Rightarrow> bool" where
  "ascii_space c \<longleftrightarrow> c \<in> set [CHR '' '', CHR 0x09, CHR 0x0A, CHR 0x0B, CHR 0x0C, CHR 0x0D]"

definition trim :: "string \<Rightarrow> string" where
  "trim s = rev (dropWhile ascii_space (rev (dropWhile ascii_space s)))"

text \<open>\<open>is_ascii_hexdigit() && !is_ascii_uppercase()\<close>.\<close>

definition lower_hex :: "char \<Rightarrow> bool" where
  "lower_hex c \<longleftrightarrow> c \<in> set ''0123456789abcdef''"

section \<open>Hexadecimal numerals\<close>

definition hex_char :: "nat \<Rightarrow> char" where
  "hex_char n = ''0123456789abcdef'' ! n"

fun index_from :: "nat \<Rightarrow> 'a \<Rightarrow> 'a list \<Rightarrow> nat option" where
  "index_from i x [] = None"
| "index_from i x (y # ys) = (if x = y then Some i else index_from (Suc i) x ys)"

definition hex_digit :: "char \<Rightarrow> nat option" where
  "hex_digit c = index_from 0 c ''0123456789abcdef''"

lemma index_from_Some:
  "index_from i x xs = Some j \<Longrightarrow> i \<le> j \<and> j < i + length xs \<and> xs ! (j - i) = x"
proof (induction xs arbitrary: i)
  case Nil
  then show ?case by simp
next
  case (Cons y ys)
  show ?case
  proof (cases "x = y")
    case True
    with Cons.prems show ?thesis by auto
  next
    case False
    with Cons.prems have "index_from (Suc i) x ys = Some j" by simp
    from Cons.IH [OF this] show ?thesis by (auto simp: nth_Cons')
  qed
qed

lemma index_from_nth:
  "distinct xs \<Longrightarrow> j < length xs \<Longrightarrow> index_from i (xs ! j) xs = Some (i + j)"
  by (induction xs arbitrary: i j) (auto simp: nth_Cons' split: if_splits)

lemma index_from_None: "index_from i x xs = None \<longleftrightarrow> x \<notin> set xs"
  by (induction xs arbitrary: i) auto

lemma hex_digit_char [simp]: "n < 16 \<Longrightarrow> hex_digit (hex_char n) = Some n"
  using index_from_nth [of "''0123456789abcdef''" n 0]
  by (simp add: hex_digit_def hex_char_def)

lemma hex_digit_Some: "hex_digit c = Some n \<Longrightarrow> n < 16 \<and> hex_char n = c"
  unfolding hex_digit_def hex_char_def by (drule index_from_Some) auto

lemma hex_digit_eq_None: "hex_digit c = None \<longleftrightarrow> \<not> lower_hex c"
  by (simp only: hex_digit_def index_from_None lower_hex_def)

lemma lower_hex_hex_char: "n < 16 \<Longrightarrow> lower_hex (hex_char n)"
  unfolding lower_hex_def hex_char_def by (rule nth_mem) simp

text \<open>The value of a digit string, most significant digit first, and the digits of a value.\<close>

definition radix_value :: "nat list \<Rightarrow> nat" where
  "radix_value ds = foldl (\<lambda>acc d. acc * 16 + d) 0 ds"

fun radix_digits :: "nat \<Rightarrow> nat \<Rightarrow> nat list" where
  "radix_digits 0 v = []"
| "radix_digits (Suc n) v = radix_digits n (v div 16) @ [v mod 16]"

lemma radix_value_snoc: "radix_value (ds @ [d]) = radix_value ds * 16 + d"
  by (simp add: radix_value_def)

lemma length_radix_digits [simp]: "length (radix_digits n v) = n"
  by (induction n arbitrary: v) auto

lemma radix_digits_bound: "d \<in> set (radix_digits n v) \<Longrightarrow> d < 16"
  by (induction n arbitrary: v) auto

lemma radix_value_digits: "radix_value (radix_digits n v) = v mod 16 ^ n"
proof (induction n arbitrary: v)
  case 0
  then show ?case by (simp add: radix_value_def)
next
  case (Suc n)
  have "v mod 16 ^ Suc n = 16 * (v div 16 mod 16 ^ n) + v mod 16"
    by (simp add: mod_mult2_eq)
  with Suc show ?case by (simp add: radix_value_snoc)
qed

lemma radix_digits_value:
  "\<forall>d \<in> set ds. d < 16 \<Longrightarrow> radix_digits (length ds) (radix_value ds) = ds"
proof (induction ds rule: rev_induct)
  case Nil
  then show ?case by simp
next
  case (snoc d ds)
  then show ?case by (simp add: radix_value_snoc)
qed

lemma radix_value_bound: "\<forall>d \<in> set ds. d < 16 \<Longrightarrow> radix_value ds < 16 ^ length ds"
proof (induction ds rule: rev_induct)
  case Nil
  then show ?case by (simp add: radix_value_def)
next
  case (snoc d ds)
  then have "radix_value ds < 16 ^ length ds" "d < 16" by auto
  then have "radix_value ds * 16 + d < 16 ^ length ds * 16" by linarith
  then show ?case by (simp add: radix_value_snoc mult.commute)
qed

end
