(* ===== verification/Ordered_Map.thy ===== *)
theory Ordered_Map
  imports Prelude
begin

text \<open>
  Rust's \<open>BTreeMap\<close>: a finite map that iterates in key order. The model is the type of
  association lists with strictly increasing keys, so iteration is the list itself and two maps are
  equal exactly when they answer every lookup alike. The interface the components rely on is the
  locale \<open>ordered_map\<close>; what holds of a loop that groups or collects entries is proved in it once.
\<close>

section \<open>Sorted association lists\<close>

fun al_insert :: "'k::linorder \<Rightarrow> 'v \<Rightarrow> ('k \<times> 'v) list \<Rightarrow> ('k \<times> 'v) list" where
  "al_insert k v [] = [(k, v)]"
| "al_insert k v ((j, w) # m) =
     (if k < j then (k, v) # (j, w) # m
      else if k = j then (k, v) # m
      else (j, w) # al_insert k v m)"

definition al_remove :: "'k \<Rightarrow> ('k \<times> 'v) list \<Rightarrow> ('k \<times> 'v) list" where
  "al_remove k m = filter (\<lambda>(j, w). j \<noteq> k) m"

abbreviation increasing :: "('k::linorder \<times> 'v) list \<Rightarrow> bool" where
  "increasing m \<equiv> sorted_wrt (<) (map fst m)"

lemma keys_al_insert: "fst ` set (al_insert k v m) = insert k (fst ` set m)"
  by (induction k v m rule: al_insert.induct) auto

lemma increasing_al_insert: "increasing m \<Longrightarrow> increasing (al_insert k v m)"
proof (induction k v m rule: al_insert.induct)
  case (2 k v j w m)
  have "x = k \<or> x \<in> fst ` set m" if "(x, y) \<in> set (al_insert k v m)" for x y
    using that keys_al_insert [of k v m] by (metis fst_conv image_eqI insertE)
  with 2 show ?case by fastforce
qed simp

lemma increasing_filter: "increasing m \<Longrightarrow> increasing (filter P m)"
  by (induction m) auto

lemma map_of_al_insert:
  "increasing m \<Longrightarrow> map_of (al_insert k v m) j = (if j = k then Some v else map_of m j)"
proof (induction k v m rule: al_insert.induct)
  case (2 k v i w m)
  then show ?case by auto
qed simp

lemma map_of_al_remove: "map_of (al_remove k m) j = (if j = k then None else map_of m j)"
  by (induction m) (auto simp: al_remove_def)

lemma increasing_distinct: "increasing m \<Longrightarrow> distinct (map fst m)"
  by (simp add: strict_sorted_iff)

lemma map_of_below: "\<forall>x \<in> set m. (k::'k::linorder) < fst x \<Longrightarrow> map_of m k = None"
  by (induction m) (auto simp: less_le)

lemma increasing_unique:
  "increasing m \<Longrightarrow> increasing n \<Longrightarrow> map_of m = map_of n \<Longrightarrow> m = n"
proof (induction m arbitrary: n)
  case Nil
  then have "map_of n = Map.empty" by (metis map_of.simps(1))
  then show ?case by simp
next
  case (Cons x m)
  obtain k v where x: "x = (k, v)" by force
  have look: "map_of n j = (if j = k then Some v else map_of m j)" for j
    using Cons.prems(3) by (metis x fst_conv snd_conv fun_upd_apply map_of.simps(2))
  then have "n \<noteq> []" by (metis map_of.simps(1) option.distinct(1))
  then obtain k' v' n' where n: "n = (k', v') # n'" by (metis neq_Nil_conv surj_pair)
  have below_m: "j \<le> k \<Longrightarrow> map_of m j = None" for j
    using Cons.prems(1) by (intro map_of_below) (auto simp: x)
  have below_n: "j \<le> k' \<Longrightarrow> map_of n' j = None" for j
    using Cons.prems(2) by (intro map_of_below) (auto simp: n)
  have "k = k'"
  proof (rule linorder_cases [of k k'])
    assume "k < k'"
    then show ?thesis using look [of k] below_n [of k] by (simp add: n less_imp_le split: if_splits)
  next
    assume "k' < k"
    then show ?thesis using look [of k'] below_m [of k'] by (simp add: n less_imp_le split: if_splits)
  qed
  moreover from this have "v = v'" using look [of k] by (simp add: n)
  moreover have "map_of m = map_of n'"
  proof
    fix j
    show "map_of m j = map_of n' j"
      using look [of j] below_m [of k] below_n [of k] \<open>k = k'\<close> by (cases "j = k") (auto simp: n)
  qed
  moreover have "increasing m" "increasing n'" using Cons.prems(1,2) by (simp_all add: x n)
  ultimately show ?case using Cons.IH [of n'] by (simp add: x n)
qed

lemma map_of_rev_distinct: "distinct (map fst m) \<Longrightarrow> map_of (rev m) k = map_of m k"
proof (induction m)
  case (Cons x m)
  then have "map_of m (fst x) = None" by (simp add: map_of_eq_None_iff)
  with Cons show ?case by (cases x) (auto simp: map_add_def split: option.splits)
qed simp

lemma map_of_rev_increasing: "increasing m \<Longrightarrow> map_of (rev m) = map_of m"
  by (rule ext) (simp add: map_of_rev_distinct increasing_distinct)

lemma map_of_filter_increasing:
  "increasing m \<Longrightarrow> map_of (filter (\<lambda>(j, w). P j w) m) k =
   (case map_of m k of None \<Rightarrow> None | Some v \<Rightarrow> if P k v then Some v else None)"
proof (induction m)
  case (Cons x m)
  then have "map_of m (fst x) = None" by (intro map_of_below) auto
  with Cons show ?case by (cases x) (auto split: option.splits)
qed simp

section \<open>The type and its operations\<close>

typedef (overloaded) ('k::linorder, 'v) btree = "{m :: ('k \<times> 'v) list. increasing m}"
  by (rule exI [of _ "[]"]) simp

setup_lifting type_definition_btree

lift_definition bm_empty :: "('k::linorder, 'v) btree" is "[]"
  by simp

lift_definition bm_entries :: "('k::linorder, 'v) btree \<Rightarrow> ('k \<times> 'v) list" is "\<lambda>m. m" .

lift_definition bm_get :: "('k::linorder, 'v) btree \<Rightarrow> 'k \<Rightarrow> 'v option" is map_of .

lift_definition bm_insert :: "'k::linorder \<Rightarrow> 'v \<Rightarrow> ('k, 'v) btree \<Rightarrow> ('k, 'v) btree" is al_insert
  by (rule increasing_al_insert)

lift_definition bm_remove :: "'k::linorder \<Rightarrow> ('k, 'v) btree \<Rightarrow> ('k, 'v) btree" is al_remove
  by (simp add: al_remove_def increasing_filter)

lift_definition bm_filter :: "('k::linorder \<Rightarrow> 'v \<Rightarrow> bool) \<Rightarrow> ('k, 'v) btree \<Rightarrow> ('k, 'v) btree"
  is "\<lambda>P. filter (\<lambda>(k, v). P k v)"
  by (rule increasing_filter)

definition bm_contains :: "('k::linorder, 'v) btree \<Rightarrow> 'k \<Rightarrow> bool" where
  "bm_contains m k \<longleftrightarrow> bm_get m k \<noteq> None"

definition bm_keys :: "('k::linorder, 'v) btree \<Rightarrow> 'k list" where
  "bm_keys m = map fst (bm_entries m)"

definition bm_values :: "('k::linorder, 'v) btree \<Rightarrow> 'v list" where
  "bm_values m = map snd (bm_entries m)"

definition bm_len :: "('k::linorder, 'v) btree \<Rightarrow> nat" where
  "bm_len m = length (bm_entries m)"

definition bm_is_empty :: "('k::linorder, 'v) btree \<Rightarrow> bool" where
  "bm_is_empty m \<longleftrightarrow> bm_entries m = []"

text \<open>\<open>collect::<BTreeMap<_, _>>()\<close>: later entries overwrite earlier ones.\<close>

definition bm_of_list :: "('k::linorder \<times> 'v) list \<Rightarrow> ('k, 'v) btree" where
  "bm_of_list xs = fold (\<lambda>(k, v). bm_insert k v) xs bm_empty"

text \<open>\<open>map.entry(k).or_default().push(v)\<close> on a map of vectors.\<close>

definition bm_push :: "'k::linorder \<Rightarrow> 'v \<Rightarrow> ('k, 'v list) btree \<Rightarrow> ('k, 'v list) btree" where
  "bm_push k v m = bm_insert k ((case bm_get m k of None \<Rightarrow> [] | Some vs \<Rightarrow> vs) @ [v]) m"

text \<open>\<open>m.entry(k).or_insert(v)\<close>.\<close>

definition bm_or_insert :: "'k::linorder \<Rightarrow> 'v \<Rightarrow> ('k, 'v) btree \<Rightarrow> ('k, 'v) btree" where
  "bm_or_insert k v m = (if bm_contains m k then m else bm_insert k v m)"

section \<open>The interface\<close>

locale ordered_map =
  fixes empty :: "'m"
    and get :: "'m \<Rightarrow> 'k::linorder \<Rightarrow> 'v option"
    and insert :: "'k \<Rightarrow> 'v \<Rightarrow> 'm \<Rightarrow> 'm"
    and remove :: "'k \<Rightarrow> 'm \<Rightarrow> 'm"
    and entries :: "'m \<Rightarrow> ('k \<times> 'v) list"
  assumes get_empty: "get empty k = None"
    and get_insert: "get (insert k v m) j = (if j = k then Some v else get m j)"
    and get_remove: "get (remove k m) j = (if j = k then None else get m j)"
    and get_entries: "get m = map_of (entries m)"
    and entries_increasing: "increasing (entries m)"
    and extensional: "get m = get n \<Longrightarrow> m = n"
begin

lemma in_entries: "(k, v) \<in> set (entries m) \<longleftrightarrow> get m k = Some v"
  using increasing_distinct [OF entries_increasing] by (simp add: get_entries)

lemma keys_entries: "fst ` set (entries m) = dom (get m)"
  by (simp add: dom_map_of_conv_image_fst get_entries)

lemma eqI: "(\<And>k. get m k = get n k) \<Longrightarrow> m = n"
  by (rule extensional) auto

lemma entries_eqI: "increasing xs \<Longrightarrow> map_of xs = get m \<Longrightarrow> entries m = xs"
  by (rule increasing_unique [OF entries_increasing]) (simp_all add: get_entries)

lemma entries_empty: "entries empty = []"
  by (rule entries_eqI) (auto simp: get_empty)

lemma insert_idem: "get m k = Some v \<Longrightarrow> insert k v m = m"
  by (rule eqI) (simp add: get_insert)

lemma insert_commute: "j \<noteq> k \<Longrightarrow> insert j w (insert k v m) = insert k v (insert j w m)"
  by (rule eqI) (simp add: get_insert)

lemma remove_insert: "get m k = None \<Longrightarrow> remove k (insert k v m) = m"
  by (rule eqI) (simp add: get_insert get_remove)

lemma get_fold_insert:
  "get (fold (\<lambda>(k, v). insert k v) xs m) j =
   (case map_of (rev xs) j of None \<Rightarrow> get m j | Some v \<Rightarrow> Some v)"
proof (induction xs arbitrary: m)
  case Nil
  then show ?case by simp
next
  case (Cons x xs)
  obtain k v where x: "x = (k, v)" by force
  show ?case
    by (cases "map_of (rev xs) j") (auto simp: x Cons.IH get_insert map_add_def)
qed

lemma fold_insert_entries: "fold (\<lambda>(k, v). insert k v) (entries m) empty = m"
proof (rule eqI)
  fix k
  show "get (fold (\<lambda>(k, v). insert k v) (entries m) empty) k = get m k"
    unfolding get_fold_insert map_of_rev_increasing [OF entries_increasing] get_entries [symmetric]
    by (simp add: get_empty split: option.split)
qed

text \<open>A loop that updates the entry of every key of a list, \<open>*map.entry(k).or_default() = f(old, v)\<close>.\<close>

lemma get_fold_update:
  "distinct (map fst xs) \<Longrightarrow>
   get (fold (\<lambda>(k, v) m. insert k (f (get m k) v) m) xs m) j =
   (case map_of xs j of None \<Rightarrow> get m j | Some v \<Rightarrow> Some (f (get m j) v))"
proof (induction xs arbitrary: m)
  case (Cons x xs)
  obtain k v where x: "x = (k, v)" by force
  with Cons.prems have "map_of xs k = None" by (simp add: map_of_eq_None_iff)
  with Cons show ?case by (auto simp: x get_insert split: option.splits)
qed simp

lemma get_fold_remove:
  "get (fold remove ks m) j = (if j \<in> set ks then None else get m j)"
  by (induction ks arbitrary: m) (auto simp: get_remove)

end

text \<open>A map of vectors that a loop fills by \<open>entry(key).or_default().push(item)\<close>.\<close>

locale grouped_map = ordered_map empty get insert remove entries
  for empty :: "'m" and get :: "'m \<Rightarrow> 'k::linorder \<Rightarrow> 'x list option"
    and insert :: "'k \<Rightarrow> 'x list \<Rightarrow> 'm \<Rightarrow> 'm" and remove :: "'k \<Rightarrow> 'm \<Rightarrow> 'm"
    and entries :: "'m \<Rightarrow> ('k \<times> 'x list) list" +
  fixes push :: "'k \<Rightarrow> 'x \<Rightarrow> 'm \<Rightarrow> 'm"
  assumes push_insert: "push k x m = insert k ((case get m k of None \<Rightarrow> [] | Some xs \<Rightarrow> xs) @ [x]) m"
begin

definition group_of :: "'m \<Rightarrow> 'k \<Rightarrow> 'x list" where
  "group_of m k = (case get m k of None \<Rightarrow> [] | Some xs \<Rightarrow> xs)"

lemma group_of_push: "group_of (push k x m) j = group_of m j @ (if j = k then [x] else [])"
  by (simp add: group_of_def push_insert get_insert)

lemma group_of_fold:
  "group_of (fold (\<lambda>x. push (key x) (val x)) xs m) j =
   group_of m j @ map val (filter (\<lambda>x. key x = j) xs)"
  by (induction xs arbitrary: m) (auto simp: group_of_push)

lemma dom_fold_push:
  "dom (get (fold (\<lambda>x. push (key x) (val x)) xs m)) = dom (get m) \<union> key ` set xs"
  by (induction xs arbitrary: m) (auto simp: push_insert get_insert dom_def)

lemma get_fold_push:
  "get (fold (\<lambda>x. push (key x) (val x)) xs empty) k =
   (if k \<in> key ` set xs then Some (map val (filter (\<lambda>x. key x = k) xs)) else None)"
proof (cases "get (fold (\<lambda>x. push (key x) (val x)) xs empty) k")
  case None
  with dom_fold_push [of key val xs empty] show ?thesis by (auto simp: get_empty)
next
  case (Some ys)
  with dom_fold_push [of key val xs empty] have "k \<in> key ` set xs" by (auto simp: get_empty)
  moreover from Some have "ys = map val (filter (\<lambda>x. key x = k) xs)"
    using group_of_fold [of key val xs empty k] by (simp add: group_of_def get_empty)
  ultimately show ?thesis using Some by simp
qed

end

interpretation bm: ordered_map bm_empty bm_get bm_insert bm_remove bm_entries
proof (unfold_locales, goal_cases)
  case 1 show ?case by transfer simp
next
  case 2 show ?case by transfer (rule map_of_al_insert)
next
  case 3 show ?case by transfer (rule map_of_al_remove)
next
  case 4 show ?case by transfer simp
next
  case 5 show ?case by transfer simp
next
  case 6 then show ?case by transfer (rule increasing_unique)
qed

interpretation bmg: grouped_map bm_empty bm_get bm_insert bm_remove bm_entries bm_push
  by unfold_locales (simp add: bm_push_def)

lemmas bm_get_simps [simp] = bm.get_empty bm.get_insert bm.get_remove bm.entries_empty

lemma bm_get_filter [simp]:
  "bm_get (bm_filter P m) k =
   (case bm_get m k of None \<Rightarrow> None | Some v \<Rightarrow> if P k v then Some v else None)"
  by transfer (rule map_of_filter_increasing)

lemma bm_contains_simps [simp]:
  "\<not> bm_contains bm_empty k"
  "bm_contains (bm_insert k v m) j \<longleftrightarrow> j = k \<or> bm_contains m j"
  "bm_contains (bm_remove k m) j \<longleftrightarrow> j \<noteq> k \<and> bm_contains m j"
  by (simp_all add: bm_contains_def)

lemma bm_get_fold_or_insert:
  "bm_get (fold (\<lambda>x. bm_or_insert (key x) x) xs m) k =
   (case bm_get m k of None \<Rightarrow> find (\<lambda>x. key x = k) xs | Some v \<Rightarrow> Some v)"
  by (induction xs arbitrary: m) (auto simp: bm_or_insert_def bm_contains_def split: option.splits)

lemma set_bm_keys: "set (bm_keys m) = dom (bm_get m)"
  by (simp add: bm_keys_def bm.keys_entries)

lemma bm_keys_increasing: "sorted_wrt (<) (bm_keys m)"
  using bm.entries_increasing by (simp add: bm_keys_def)

lemma bm_get_of_list:
  "bm_get (bm_of_list xs) k = map_of (rev xs) k"
  by (simp add: bm_of_list_def bm.get_fold_insert split: option.splits)

lemma map_of_bm_entries: "map_of (bm_entries m) k = bm_get m k"
proof -
  have "distinct (map fst (bm_entries m))"
    using bm_keys_increasing [of m] by (simp add: bm_keys_def strict_sorted_iff)
  then show ?thesis by (metis (no_types) bm.in_entries map_of_SomeD map_of_eq_Some_iff not_None_eq)
qed

lemma bm_get_fold_entries:
  "bm_get (fold (\<lambda>(k, v). bm_insert k (f v)) (bm_entries m) n) k =
   (case bm_get m k of None \<Rightarrow> bm_get n k | Some v \<Rightarrow> Some (f v))"
proof -
  have fold: "distinct (map fst xs) \<Longrightarrow> bm_get (fold (\<lambda>(k, v). bm_insert k (f v)) xs n) k =
      (case map_of xs k of None \<Rightarrow> bm_get n k | Some v \<Rightarrow> Some (f v))" for xs n
  proof (induction xs arbitrary: n)
    case (Cons x xs)
    have "map_of xs (fst x) = None" using Cons.prems by (simp add: map_of_eq_None_iff)
    then show ?case using Cons by (cases x) (auto split: option.split)
  qed simp
  have "distinct (map fst (bm_entries m))"
    using bm_keys_increasing [of m] by (simp add: bm_keys_def strict_sorted_iff)
  from fold [OF this, of n] show ?thesis by (simp add: map_of_bm_entries)
qed

lemma bm_of_list_entries [simp]: "bm_of_list (bm_entries m) = m"
  by (simp add: bm_of_list_def bm.fold_insert_entries)

lemma bm_is_empty_iff: "bm_is_empty m \<longleftrightarrow> m = bm_empty"
proof
  assume "bm_is_empty m"
  then show "m = bm_empty"
    by (intro bm.eqI) (simp add: bm_is_empty_def bm.get_entries)
qed (simp add: bm_is_empty_def)

instantiation btree :: (linorder, equal) equal
begin

definition equal_btree :: "('a, 'b) btree \<Rightarrow> ('a, 'b) btree \<Rightarrow> bool" where
  "equal_btree m n \<longleftrightarrow> bm_entries m = bm_entries n"

instance
  by standard (auto simp: equal_btree_def bm.get_entries intro: bm.extensional)

end

instantiation btree :: (linorder, type) size
begin

definition size_btree :: "('a, 'b) btree \<Rightarrow> nat" where
  "size_btree m = bm_len m"

instance ..

end

lemma size_btree_card: "size (m :: ('k::linorder, 'v) btree) = card (dom (bm_get m))"
  using distinct_card [of "bm_keys m"] bm_keys_increasing [of m]
  by (simp add: size_btree_def bm_len_def bm_keys_def bm.keys_entries strict_sorted_iff)

end
