(* ===== verification/Core_Types.thy ===== *)
theory Core_Types
  imports Prelude
begin

text \<open>
  The foundation types of \<open>crates/maw-core/src/model/types.rs\<close>: git object ids, epoch ids (and
  the two newtypes that keep a workspace's base epoch apart from the current one), workspace ids,
  workspace state and mode. A newtype is a datatype with the source's constructor; values that
  a constructor function admits satisfy \<open>git_oid_ok\<close> and \<open>workspace_id_ok\<close>.
\<close>

section \<open>Validation errors\<close>

datatype error_kind = KGitOid | KEpochId | KWorkspaceId

record validation_error =
  ve_kind :: error_kind
  ve_value :: string
  ve_reason :: string

definition error_kind_str :: "error_kind \<Rightarrow> string" where
  "error_kind_str k = (case k of
     KGitOid \<Rightarrow> ''GitOid'' | KEpochId \<Rightarrow> ''EpochId'' | KWorkspaceId \<Rightarrow> ''WorkspaceId'')"

definition validation_error :: "error_kind \<Rightarrow> string \<Rightarrow> string \<Rightarrow> validation_error" where
  "validation_error k v r = \<lparr>ve_kind = k, ve_value = v, ve_reason = r\<rparr>"

text \<open>The message quotes the value; the values that reach a message hold nothing that \<open>{:?}\<close> would escape.\<close>

definition debug_str :: "string \<Rightarrow> string" where
  "debug_str s = CHR 0x22 # s @ [CHR 0x22]"

definition validation_error_str :: "validation_error \<Rightarrow> string" where
  "validation_error_str e = ''invalid '' @ error_kind_str (ve_kind e) @ '': '' @ debug_str (ve_value e)
     @ [CHR '' '', CHR 0xE2, CHR 0x80, CHR 0x94, CHR '' ''] @ ve_reason e"

section \<open>Git object ids\<close>

datatype git_oid = GitOid (oid_str: string)

definition git_oid_validate :: "string \<Rightarrow> validation_error + unit" where
  "git_oid_validate s =
     (if length s \<noteq> 40 then
        Inl (validation_error KGitOid s (''expected 40 hex characters, got '' @ show_nat (length s)))
      else if \<not> list_all lower_hex s then
        Inl (validation_error KGitOid s ''must contain only lowercase hex characters (0-9, a-f)'')
      else Inr ())"

definition git_oid_new :: "string \<Rightarrow> validation_error + git_oid" where
  "git_oid_new s = res_bind (git_oid_validate s) (\<lambda>_. Inr (GitOid s))"

definition git_oid_try_from :: "string \<Rightarrow> validation_error + git_oid" where
  "git_oid_try_from s = res_bind (git_oid_validate s) (\<lambda>_. Inr (GitOid s))"

definition git_oid_ok :: "git_oid \<Rightarrow> bool" where
  "git_oid_ok g \<longleftrightarrow> length (oid_str g) = 40 \<and> list_all lower_hex (oid_str g)"

lemma git_oid_validate_ok [result_simps]:
  "git_oid_validate s = Inr u \<longleftrightarrow> git_oid_ok (GitOid s)"
  by (simp add: git_oid_validate_def git_oid_ok_def)

lemma git_oid_new_ok [result_simps]: "git_oid_new s = Inr g \<longleftrightarrow> g = GitOid s \<and> git_oid_ok g"
  by (auto simp: git_oid_new_def result_simps)

lemma git_oid_new_err: "git_oid_new s = Inl e \<Longrightarrow> ve_kind e = KGitOid \<and> ve_value e = s"
  by (auto simp: git_oid_new_def git_oid_validate_def validation_error_def result_simps split: if_splits)

section \<open>Epoch ids\<close>

datatype epoch_id = EpochId (epoch_oid: git_oid)

definition epoch_str :: "epoch_id \<Rightarrow> string" where
  "epoch_str e = oid_str (epoch_oid e)"

fun as_epoch_error :: "validation_error + 'a \<Rightarrow> validation_error + 'a" where
  "as_epoch_error (Inl e) = Inl (e\<lparr>ve_kind := KEpochId\<rparr>)"
| "as_epoch_error (Inr x) = Inr x"

definition epoch_id_new :: "string \<Rightarrow> validation_error + epoch_id" where
  "epoch_id_new s = res_bind (as_epoch_error (git_oid_new s)) (\<lambda>oid. Inr (EpochId oid))"

definition epoch_id_try_from :: "string \<Rightarrow> validation_error + epoch_id" where
  "epoch_id_try_from s =
     res_bind (as_epoch_error (git_oid_validate s)) (\<lambda>_. Inr (EpochId (GitOid s)))"

lemma as_epoch_error_ok [result_simps]: "as_epoch_error r = Inr x \<longleftrightarrow> r = Inr x"
  by (cases r) auto

lemma epoch_id_new_ok [result_simps]:
  "epoch_id_new s = Inr e \<longleftrightarrow> e = EpochId (GitOid s) \<and> git_oid_ok (epoch_oid e)"
  by (auto simp: epoch_id_new_def result_simps)

lemma epoch_id_new_err: "epoch_id_new s = Inl e \<Longrightarrow> ve_kind e = KEpochId \<and> ve_value e = s"
  by (cases "git_oid_new s") (auto simp: epoch_id_new_def dest: git_oid_new_err)

lemma epoch_id_try_from_new: "epoch_id_try_from s = epoch_id_new s"
  by (cases "git_oid_validate s") (auto simp: epoch_id_try_from_def epoch_id_new_def git_oid_new_def)

text \<open>\<open>BaseEpoch\<close> and \<open>CurrentEpoch\<close> wrap an oid and convert to an \<open>EpochId\<close>, never to each other.\<close>

datatype base_epoch = BaseEpoch (base_oid: git_oid)

datatype current_epoch = CurrentEpoch (current_oid: git_oid)

definition base_epoch_new :: "string \<Rightarrow> validation_error + base_epoch" where
  "base_epoch_new s = res_bind (as_epoch_error (git_oid_new s)) (\<lambda>oid. Inr (BaseEpoch oid))"

definition base_epoch_to_epoch_id :: "base_epoch \<Rightarrow> epoch_id" where
  "base_epoch_to_epoch_id b = EpochId (base_oid b)"

definition base_epoch_from_epoch :: "epoch_id \<Rightarrow> base_epoch" where
  "base_epoch_from_epoch e = BaseEpoch (epoch_oid e)"

definition current_epoch_new :: "string \<Rightarrow> validation_error + current_epoch" where
  "current_epoch_new s = res_bind (as_epoch_error (git_oid_new s)) (\<lambda>oid. Inr (CurrentEpoch oid))"

definition current_epoch_to_epoch_id :: "current_epoch \<Rightarrow> epoch_id" where
  "current_epoch_to_epoch_id c = EpochId (current_oid c)"

definition current_epoch_from_epoch :: "epoch_id \<Rightarrow> current_epoch" where
  "current_epoch_from_epoch e = CurrentEpoch (epoch_oid e)"

section \<open>Workspace ids\<close>

datatype workspace_id = WorkspaceId (ws_str: string)

text \<open>\<open>Ord\<close> is derived from the only field.\<close>

instantiation workspace_id :: linorder
begin

definition less_eq_workspace_id :: "workspace_id \<Rightarrow> workspace_id \<Rightarrow> bool" where
  "less_eq_workspace_id a b \<longleftrightarrow> ws_str a \<le> ws_str b"

definition less_workspace_id :: "workspace_id \<Rightarrow> workspace_id \<Rightarrow> bool" where
  "less_workspace_id a b \<longleftrightarrow> ws_str a < ws_str b"

instance
  by standard (auto simp: less_eq_workspace_id_def less_workspace_id_def workspace_id.expand)

end

definition MAX_LEN :: nat where
  "MAX_LEN = 64"

definition EPOCH_DELTA :: string where
  "EPOCH_DELTA = ''epoch-delta''"

definition workspace_char :: "char \<Rightarrow> bool" where
  "workspace_char c \<longleftrightarrow> ascii_lower c \<or> ascii_digit c \<or> c = CHR ''-''"

definition workspace_id_validate :: "string \<Rightarrow> validation_error + unit" where
  "workspace_id_validate s =
     (if s = [] then
        Inl (validation_error KWorkspaceId s ''workspace name must not be empty'')
      else if length s > MAX_LEN then
        Inl (validation_error KWorkspaceId s
          (''workspace name must be at most '' @ show_nat MAX_LEN @ '' characters, got '' @
           show_nat (length s)))
      else if hd s = CHR ''-'' \<or> last s = CHR ''-'' then
        Inl (validation_error KWorkspaceId s
          ''workspace name must not start or end with a hyphen'')
      else if \<not> list_all workspace_char s then
        Inl (validation_error KWorkspaceId s
          ''workspace name must contain only lowercase letters (a-z), digits (0-9), and hyphens (-)'')
      else if sublist ''--'' s then
        Inl (validation_error KWorkspaceId s
          ''workspace name must not contain consecutive hyphens'')
      else Inr ())"

definition workspace_id_new :: "string \<Rightarrow> validation_error + workspace_id" where
  "workspace_id_new s = res_bind (workspace_id_validate s) (\<lambda>_. Inr (WorkspaceId s))"

definition workspace_id_try_from :: "string \<Rightarrow> validation_error + workspace_id" where
  "workspace_id_try_from s = res_bind (workspace_id_validate s) (\<lambda>_. Inr (WorkspaceId s))"

definition epoch_delta :: workspace_id where
  "epoch_delta = WorkspaceId EPOCH_DELTA"

definition is_epoch_delta :: "workspace_id \<Rightarrow> bool" where
  "is_epoch_delta w \<longleftrightarrow> ws_str w = EPOCH_DELTA"

text \<open>What the checks amount to: hyphen-separated nonempty words of lowercase letters and digits.\<close>

definition workspace_word :: "string \<Rightarrow> bool" where
  "workspace_word w \<longleftrightarrow> w \<noteq> [] \<and> list_all (\<lambda>c. ascii_lower c \<or> ascii_digit c) w"

definition workspace_name_ok :: "string \<Rightarrow> bool" where
  "workspace_name_ok s \<longleftrightarrow> length s \<le> 64 \<and> list_all workspace_word (split_on CHR ''-'' s)"

lemma hyphen_not_word [simp]: "\<not> ascii_lower CHR ''-''" "\<not> ascii_digit CHR ''-''"
  by (simp_all add: ascii_lower_def ascii_digit_def)

lemma set_split_on: "set s = \<Union> (set ` set (split_on c s)) \<union> (set s \<inter> {c})"
proof -
  have "x \<in> \<Union> (set ` set (split_on c s))" if "x \<in> set s" "x \<noteq> c" for x
    using that set_join_with [of x c "split_on c s"] by (simp add: join_split_on)
  moreover have "w \<in> set (split_on c s) \<Longrightarrow> set w \<subseteq> set s" for w
    using set_join_with_part [of w "split_on c s" "[c]"] by (simp add: join_split_on)
  ultimately show ?thesis by auto
qed

lemma workspace_words:
  "list_all workspace_word (split_on CHR ''-'' s) \<longleftrightarrow>
   [] \<notin> set (split_on CHR ''-'' s) \<and> list_all workspace_char s"
  using set_split_on [of s "CHR ''-''"] split_on_parts [of _ "CHR ''-''" s]
  by (auto simp: list_all_iff workspace_word_def workspace_char_def)

lemma workspace_id_validate_ok [result_simps]:
  "workspace_id_validate s = Inr u \<longleftrightarrow> workspace_name_ok s"
  by (auto simp: workspace_id_validate_def workspace_name_ok_def workspace_words
      split_on_empty_part MAX_LEN_def)

lemma workspace_id_new_ok [result_simps]:
  "workspace_id_new s = Inr w \<longleftrightarrow> w = WorkspaceId s \<and> workspace_name_ok s"
  by (auto simp: workspace_id_new_def result_simps)

lemma epoch_delta_ok: "workspace_name_ok (ws_str epoch_delta)"
  by (simp add: workspace_name_ok_def epoch_delta_def EPOCH_DELTA_def workspace_word_def
      ascii_lower_def)

section \<open>Workspace state and mode\<close>

datatype workspace_state = Active | Stale (behind_epochs: u32) | Destroyed

definition is_active :: "workspace_state \<Rightarrow> bool" where
  "is_active s = (case s of Active \<Rightarrow> True | _ \<Rightarrow> False)"

definition is_stale :: "workspace_state \<Rightarrow> bool" where
  "is_stale s = (case s of Stale _ \<Rightarrow> True | _ \<Rightarrow> False)"

definition is_destroyed :: "workspace_state \<Rightarrow> bool" where
  "is_destroyed s = (case s of Destroyed \<Rightarrow> True | _ \<Rightarrow> False)"

definition workspace_state_str :: "workspace_state \<Rightarrow> string" where
  "workspace_state_str s = (case s of
     Active \<Rightarrow> ''active''
   | Stale n \<Rightarrow> ''stale (behind by '' @ show_nat (unat n) @ '' epoch(s))''
   | Destroyed \<Rightarrow> ''destroyed'')"

datatype workspace_mode = Ephemeral | Persistent

definition is_persistent :: "workspace_mode \<Rightarrow> bool" where
  "is_persistent m = (case m of Persistent \<Rightarrow> True | _ \<Rightarrow> False)"

definition is_ephemeral :: "workspace_mode \<Rightarrow> bool" where
  "is_ephemeral m = (case m of Ephemeral \<Rightarrow> True | _ \<Rightarrow> False)"

definition workspace_mode_str :: "workspace_mode \<Rightarrow> string" where
  "workspace_mode_str m = (case m of Ephemeral \<Rightarrow> ''ephemeral'' | Persistent \<Rightarrow> ''persistent'')"

record workspace_info =
  wi_id :: workspace_id
  wi_path :: path
  wi_epoch :: epoch_id
  wi_state :: workspace_state
  wi_mode :: workspace_mode
  wi_commits_ahead :: u32

lemma workspace_state_exclusive:
  "of_bool (is_active s) + of_bool (is_stale s) + of_bool (is_destroyed s) = (1 :: nat)"
  by (cases s) (auto simp: is_active_def is_stale_def is_destroyed_def)

section \<open>Sample values for the witnesses\<close>

definition sample_oid :: "char \<Rightarrow> git_oid" where
  "sample_oid c = GitOid (replicate 40 c)"

definition sample_epoch :: "char \<Rightarrow> epoch_id" where
  "sample_epoch c = EpochId (sample_oid c)"

definition sample_ws :: "string \<Rightarrow> workspace_id" where
  "sample_ws s = WorkspaceId s"

section \<open>Property\<close>

text \<open>A workspace id is accepted exactly when it is, within 64 characters, a hyphen-separated sequence
  of nonempty words of lowercase letters and digits, and the accepted id is the text unchanged; the
  reserved id of the epoch delta is one of them.\<close>

theorem workspace_id_grammar:
  "(workspace_id_new s = Inr w \<longleftrightarrow>
      w = WorkspaceId s \<and> length s \<le> 64 \<and> list_all workspace_word (split_on CHR ''-'' s))
   \<and> workspace_id_new (ws_str epoch_delta) = Inr epoch_delta"
  using epoch_delta_ok by (auto simp: result_simps workspace_name_ok_def)

end
