(* ===== verification/Patch_Model.thy ===== *)
theory Patch_Model
  imports Ordered_Map Core_Types
begin

text \<open>
  Patch sets, \<open>crates/maw-core/src/model/patch.rs\<close>: the 128-bit file identity with its hexadecimal
  text form, the four kinds of change to a path, and the map of changed paths relative to an epoch.
\<close>

section \<open>File identities\<close>

datatype file_id = FileId (as_u128: "128 word")

instantiation file_id :: linorder
begin

definition less_eq_file_id :: "file_id \<Rightarrow> file_id \<Rightarrow> bool" where
  "less_eq_file_id a b \<longleftrightarrow> as_u128 a \<le> as_u128 b"

definition less_file_id :: "file_id \<Rightarrow> file_id \<Rightarrow> bool" where
  "less_file_id a b \<longleftrightarrow> as_u128 a < as_u128 b"

instance
  by standard (auto simp: less_eq_file_id_def less_file_id_def file_id.expand)

end

record file_id_error =
  fie_value :: string
  fie_reason :: string

text \<open>\<open>u128::from_str_radix(s, 16)\<close> on a nonempty string without a sign: fails on a character that
  is no digit and on overflow.\<close>

fun from_str_radix_16 :: "string \<Rightarrow> nat \<Rightarrow> string + nat" where
  "from_str_radix_16 [] acc = Inr acc"
| "from_str_radix_16 (c # cs) acc =
     (case hex_digit c of
        None \<Rightarrow> Inl ''invalid digit found in string''
      | Some d \<Rightarrow>
          if acc * 16 + d \<ge> 2 ^ 128 then Inl ''number too large to fit in target type''
          else from_str_radix_16 cs (acc * 16 + d))"

definition from_hex :: "string \<Rightarrow> file_id_error + file_id" where
  "from_hex s =
     (if length s \<noteq> 32 then
        Inl \<lparr>fie_value = s, fie_reason = ''expected 32 hex characters, got '' @ show_nat (length s)\<rparr>
      else if \<not> list_all lower_hex s then
        Inl \<lparr>fie_value = s,
             fie_reason = ''must contain only lowercase hex characters (0-9, a-f)''\<rparr>
      else (case from_str_radix_16 s 0 of
              Inl e \<Rightarrow> Inl \<lparr>fie_value = s, fie_reason = e\<rparr>
            | Inr n \<Rightarrow> Inr (FileId (word_of_nat n))))"

definition to_hex :: "file_id \<Rightarrow> string" where
  "to_hex f = map hex_char (radix_digits 32 (unat (as_u128 f)))"

lemma from_str_radix_16_run:
  assumes "list_all lower_hex s"
  shows "from_str_radix_16 s acc =
    (let v = foldl (\<lambda>a d. a * 16 + d) acc (map (the \<circ> hex_digit) s)
     in if s = [] \<or> v < 2 ^ 128 then Inr v else Inl ''number too large to fit in target type'')"
  using assms
proof (induction s arbitrary: acc)
  case (Cons c cs)
  then obtain d where d: "hex_digit c = Some d"
    using hex_digit_eq_None [of c] by (cases "hex_digit c") auto
  have grow: "a \<le> foldl (\<lambda>a d. a * 16 + d) a ds" for a :: nat and ds
  proof (induction ds arbitrary: a)
    case (Cons d ds)
    show ?case using Cons [of "a * 16 + d"] by simp
  qed simp
  show ?case
    using Cons d grow [of "acc * 16 + d" "map (the \<circ> hex_digit) cs"]
    by (auto simp: Let_def comp_def)
qed (simp add: Let_def)

lemma lower_hex_digit: "lower_hex c \<Longrightarrow> the (hex_digit c) < 16 \<and> hex_char (the (hex_digit c)) = c"
  using hex_digit_Some [of c] hex_digit_eq_None [of c] by (cases "hex_digit c") auto

lemma hex_digits_bound: "list_all lower_hex s \<Longrightarrow> \<forall>d \<in> set (map (the \<circ> hex_digit) s). d < 16"
  by (induction s) (auto dest: lower_hex_digit)

lemma hex_chars_digits: "list_all lower_hex s \<Longrightarrow> map hex_char (map (the \<circ> hex_digit) s) = s"
  by (induction s) (auto dest: lower_hex_digit)

lemma from_hex_valid:
  assumes "length s = 32" "list_all lower_hex s"
  shows "from_hex s = Inr (FileId (word_of_nat (radix_value (map (the \<circ> hex_digit) s))))"
    and "radix_value (map (the \<circ> hex_digit) s) < 2 ^ 128"
proof -
  show b: "radix_value (map (the \<circ> hex_digit) s) < 2 ^ 128"
    using radix_value_bound [OF hex_digits_bound [OF assms(2)]] assms(1) by simp
  then show "from_hex s = Inr (FileId (word_of_nat (radix_value (map (the \<circ> hex_digit) s))))"
    using assms by (simp add: from_hex_def from_str_radix_16_run radix_value_def)
qed

lemma to_hex_shape: "length (to_hex f) = 32" "list_all lower_hex (to_hex f)"
  by (auto simp: to_hex_def list_all_iff intro: lower_hex_hex_char radix_digits_bound
      simp del: radix_digits.simps)

lemma from_hex_to_hex: "from_hex (to_hex f) = Inr f"
proof -
  have "map (the \<circ> hex_digit) (to_hex f) = radix_digits 32 (unat (as_u128 f))"
    unfolding to_hex_def map_map by (rule map_idI) (auto dest: radix_digits_bound)
  moreover have "unat (as_u128 f) < 2 ^ 128"
    using unsigned_less [of "as_u128 f", where ?'a = nat] by simp
  ultimately show ?thesis
    using from_hex_valid(1) [OF to_hex_shape] by (simp add: radix_value_digits)
qed

lemma to_hex_from_hex: "from_hex s = Inr f \<Longrightarrow> to_hex f = s"
proof -
  assume ok: "from_hex s = Inr f"
  then have s: "length s = 32" "list_all lower_hex s"
    by (auto simp: from_hex_def split: if_splits)
  with ok from_hex_valid [OF s]
  have "unat (as_u128 f) = radix_value (map (the \<circ> hex_digit) s)"
    by (auto simp: unat_of_nat)
  moreover have "radix_digits 32 (radix_value (map (the \<circ> hex_digit) s)) = map (the \<circ> hex_digit) s"
    using radix_digits_value [OF hex_digits_bound [OF s(2)]] s(1) by simp
  ultimately show "to_hex f = s" by (simp add: to_hex_def hex_chars_digits [OF s(2)] del: map_map)
qed

section \<open>Changes\<close>

datatype patch_value =
    PAdd git_oid file_id
  | PDelete git_oid file_id
  | PModify git_oid git_oid file_id
  | PRename path file_id "git_oid option"

fun patch_file_id :: "patch_value \<Rightarrow> file_id" where
  "patch_file_id (PAdd blob f) = f"
| "patch_file_id (PDelete previous_blob f) = f"
| "patch_file_id (PModify base_blob new_blob f) = f"
| "patch_file_id (PRename from f new_blob) = f"

section \<open>Patch sets\<close>

type_synonym patch_map = "(path, patch_value) btree"

record patch_set =
  ps_base_epoch :: epoch_id
  ps_patches :: patch_map

definition patch_set_empty :: "epoch_id \<Rightarrow> patch_set" where
  "patch_set_empty e = \<lparr>ps_base_epoch = e, ps_patches = bm_empty\<rparr>"

definition patch_set_is_empty :: "patch_set \<Rightarrow> bool" where
  "patch_set_is_empty p = bm_is_empty (ps_patches p)"

definition patch_set_len :: "patch_set \<Rightarrow> nat" where
  "patch_set_len p = bm_len (ps_patches p)"

lemma patch_set_empty_iff:
  "patch_set_is_empty p \<longleftrightarrow> p = patch_set_empty (ps_base_epoch p)"
  by (cases p) (simp add: patch_set_is_empty_def patch_set_empty_def bm_is_empty_iff)

section \<open>Property\<close>

text \<open>The hexadecimal text form of file identities is a bijection: a text parses to an identity exactly
  when it is what the identity prints as, which is 32 lowercase hexadecimal digits.\<close>

theorem file_id_hex_roundtrip:
  "(from_hex s = Inr f \<longleftrightarrow> to_hex f = s) \<and> length (to_hex f) = 32 \<and> list_all lower_hex (to_hex f)"
  using from_hex_to_hex to_hex_from_hex to_hex_shape by blast

end
