(* ===== verification/Patch_Join.thy ===== *)
theory Patch_Join
  imports Patch_Model
begin

text \<open>
  The join of two patch sets, \<open>crates/maw-core/src/model/join.rs\<close>: the union of the two path maps,
  a conflict record where both change a path differently. \<open>serde_json::to_string\<close> is the argument
  \<open>to_json\<close>; it only orders the two sides of a conflict.
\<close>

section \<open>Data\<close>

datatype join_reason =
  DivergentAdd | DivergentModify | ModifyDelete | RenameConflict | DivergentRename | Incompatible

record path_conflict =
  pc_path :: path
  pc_sides :: "patch_value \<times> patch_value"
  pc_reason :: join_reason

record join_result =
  jr_merged :: patch_set
  jr_conflicts :: "path_conflict list"

record epoch_mismatch =
  em_left :: epoch_id
  em_right :: epoch_id

definition join_is_clean :: "join_result \<Rightarrow> bool" where
  "join_is_clean r \<longleftrightarrow> jr_conflicts r = []"

section \<open>Conflict classification\<close>

fun classify_conflict :: "patch_value \<Rightarrow> patch_value \<Rightarrow> join_reason" where
  "classify_conflict (PAdd _ _) (PAdd _ _) = DivergentAdd"
| "classify_conflict (PModify _ _ _) (PModify _ _ _) = DivergentModify"
| "classify_conflict (PModify _ _ _) (PDelete _ _) = ModifyDelete"
| "classify_conflict (PDelete _ _) (PModify _ _ _) = ModifyDelete"
| "classify_conflict (PRename from_l _ _) (PRename from_r _ _) =
     (if from_l = from_r then DivergentRename else Incompatible)"
| "classify_conflict (PRename _ _ _) _ = RenameConflict"
| "classify_conflict _ (PRename _ _ _) = RenameConflict"
| "classify_conflict _ _ = Incompatible"

lemma classify_conflict_sym: "classify_conflict l r = classify_conflict r l"
  by (cases l; cases r) auto

text \<open>\<open>to_string(..).unwrap_or_default()\<close>.\<close>

definition json_or_default :: "('a \<Rightarrow> string option) \<Rightarrow> 'a \<Rightarrow> string" where
  "json_or_default to_json v = (case to_json v of Some s \<Rightarrow> s | None \<Rightarrow> [])"

definition sorted_sides ::
  "(patch_value \<Rightarrow> string option) \<Rightarrow> patch_value \<Rightarrow> patch_value \<Rightarrow> patch_value \<times> patch_value" where
  "sorted_sides to_json l r =
     (if json_or_default to_json l \<le> json_or_default to_json r then (l, r) else (r, l))"

lemma sorted_sides_sym:
  "json_or_default to_json l = json_or_default to_json r \<Longrightarrow> l = r \<Longrightarrow>
   sorted_sides to_json l r = sorted_sides to_json r l"
  "json_or_default to_json l \<noteq> json_or_default to_json r \<Longrightarrow>
   sorted_sides to_json l r = sorted_sides to_json r l"
  by (auto simp: sorted_sides_def)

section \<open>Join\<close>

text \<open>\<open>entry(path).or_insert((None, None))\<close>, then one component is set.\<close>

definition join_all_paths ::
  "patch_map \<Rightarrow> patch_map \<Rightarrow> (path, patch_value option \<times> patch_value option) btree" where
  "join_all_paths a b =
     (let m = fold (\<lambda>(p, v) m. bm_insert p
                 (case bm_get m p of None \<Rightarrow> (Some v, None) | Some (_, r) \<Rightarrow> (Some v, r)) m)
               (bm_entries a) bm_empty
      in fold (\<lambda>(p, v) m. bm_insert p
                 (case bm_get m p of None \<Rightarrow> (None, Some v) | Some (l, _) \<Rightarrow> (l, Some v)) m)
               (bm_entries b) m)"

definition join_step ::
  "(patch_value \<Rightarrow> string option) \<Rightarrow> path \<times> patch_value option \<times> patch_value option \<Rightarrow>
   patch_map \<times> path_conflict list \<Rightarrow> patch_map \<times> path_conflict list" where
  "join_step to_json = (\<lambda>(p, sides) (merged, conflicts).
     (case sides of
        (Some l, None) \<Rightarrow> (bm_insert p l merged, conflicts)
      | (None, Some r) \<Rightarrow> (bm_insert p r merged, conflicts)
      | (Some l, Some r) \<Rightarrow>
          if l = r then (bm_insert p l merged, conflicts)
          else (merged, conflicts @ [\<lparr>pc_path = p, pc_sides = sorted_sides to_json l r,
                                      pc_reason = classify_conflict l r\<rparr>])
      | (None, None) \<Rightarrow> (merged, conflicts)))"

definition join ::
  "(patch_value \<Rightarrow> string option) \<Rightarrow> patch_set \<Rightarrow> patch_set \<Rightarrow> epoch_mismatch + join_result" where
  "join to_json a b =
     (if ps_base_epoch a \<noteq> ps_base_epoch b then
        Inl \<lparr>em_left = ps_base_epoch a, em_right = ps_base_epoch b\<rparr>
      else
        (let (merged, conflicts) =
           fold (join_step to_json) (bm_entries (join_all_paths (ps_patches a) (ps_patches b)))
             (bm_empty, [])
         in Inr \<lparr>jr_merged = \<lparr>ps_base_epoch = ps_base_epoch a, ps_patches = merged\<rparr>,
                 jr_conflicts = conflicts\<rparr>))"

section \<open>What the loop computes\<close>

text \<open>The agreed value of a path, and the conflict record of a path the sides disagree on.\<close>

fun join_value :: "patch_value option \<Rightarrow> patch_value option \<Rightarrow> patch_value option" where
  "join_value (Some l) (Some r) = (if l = r then Some l else None)"
| "join_value (Some l) None = Some l"
| "join_value None r = r"

fun join_clash ::
  "(patch_value \<Rightarrow> string option) \<Rightarrow> path \<times> patch_value option \<times> patch_value option \<Rightarrow>
   path_conflict list" where
  "join_clash to_json (p, Some l, Some r) =
     (if l = r then [] else [\<lparr>pc_path = p, pc_sides = sorted_sides to_json l r,
                              pc_reason = classify_conflict l r\<rparr>])"
| "join_clash to_json _ = []"

lemma join_value_sym: "join_value l r = join_value r l"
  by (cases l; cases r) auto

lemma join_value_clean:
  assumes "A = None \<or> B = None \<or> A = B" "B = None \<or> C = None \<or> B = C"
  shows "join_value (join_value A B) C = join_value A (join_value B C)"
    and "join_value A B = Some x \<and> C = Some y \<and> x \<noteq> y \<longleftrightarrow> A = Some x \<and> join_value B C = Some y \<and> x \<noteq> y"
  using assms by (cases A; cases B; cases C; auto)+

lemma bm_get_all_paths:
  "bm_get (join_all_paths a b) p =
   (if bm_get a p = None \<and> bm_get b p = None then None else Some (bm_get a p, bm_get b p))"
proof -
  let ?f = "\<lambda>old v. case old of None \<Rightarrow> (Some v, None) | Some (_, r) \<Rightarrow> (Some v, r)"
  let ?g = "\<lambda>old v. case old of None \<Rightarrow> (None, Some v) | Some (l, _) \<Rightarrow> (l, Some v)"
  have d: "distinct (map fst (bm_entries m))" for m :: patch_map
    by (rule increasing_distinct [OF bm.entries_increasing])
  show ?thesis
    unfolding join_all_paths_def Let_def
      bm.get_fold_update [OF d, where f = ?f] bm.get_fold_update [OF d, where f = ?g]
    by (simp add: bm.get_entries [symmetric] split: option.splits)
qed

lemma join_step_run:
  assumes "distinct (map fst xs)"
  shows "fold (join_step to_json) xs (m, cs) = (m', cs') \<Longrightarrow>
    bm_get m' p = (case map_of xs p of None \<Rightarrow> bm_get m p
                   | Some (l, r) \<Rightarrow> (case join_value l r of None \<Rightarrow> bm_get m p | Some v \<Rightarrow> Some v))
    \<and> cs' = cs @ concat (map (join_clash to_json) xs)"
  using assms
proof (induction xs arbitrary: m cs)
  case (Cons x xs)
  obtain q l r where x: "x = (q, l, r)" by (cases x)
  with Cons.prems(2) have q: "map_of xs q = None" by (simp add: map_of_eq_None_iff)
  obtain m1 cs1 where one: "join_step to_json x (m, cs) = (m1, cs1)" by force
  then have "bm_get m1 p = (if p = q then (case join_value l r of None \<Rightarrow> bm_get m p | Some v \<Rightarrow> Some v)
      else bm_get m p)" "cs1 = cs @ join_clash to_json x"
    by (auto simp: x join_step_def split: option.splits if_splits)
  with Cons.IH [of m1 cs1] Cons.prems one q show ?case
    by (cases "p = q") (auto simp: x split: option.splits)
qed simp

lemma join_Inr:
  assumes "join to_json a b = Inr r"
  shows "ps_base_epoch a = ps_base_epoch b" "ps_base_epoch (jr_merged r) = ps_base_epoch a"
    and "bm_get (ps_patches (jr_merged r)) p =
      join_value (bm_get (ps_patches a) p) (bm_get (ps_patches b) p)"
    and "jr_conflicts r = concat (map (join_clash to_json)
      (bm_entries (join_all_paths (ps_patches a) (ps_patches b))))"
proof -
  let ?xs = "bm_entries (join_all_paths (ps_patches a) (ps_patches b))"
  obtain m cs where run: "fold (join_step to_json) ?xs (bm_empty, []) = (m, cs)" by force
  have d: "distinct (map fst ?xs)" by (rule increasing_distinct [OF bm.entries_increasing])
  from assms run have e: "ps_base_epoch a = ps_base_epoch b"
    and r: "r = \<lparr>jr_merged = \<lparr>ps_base_epoch = ps_base_epoch a, ps_patches = m\<rparr>, jr_conflicts = cs\<rparr>"
    by (auto simp: join_def split: if_splits)
  from e show "ps_base_epoch a = ps_base_epoch b" .
  from r show "ps_base_epoch (jr_merged r) = ps_base_epoch a" by simp
  note loop = join_step_run [OF d run, of p]
  then show "jr_conflicts r = concat (map (join_clash to_json) ?xs)" by (simp add: r)
  show "bm_get (ps_patches (jr_merged r)) p =
      join_value (bm_get (ps_patches a) p) (bm_get (ps_patches b) p)"
    using loop by (auto simp: r bm.get_entries [symmetric] bm_get_all_paths split: option.splits)
qed

lemma join_defined: "ps_base_epoch a = ps_base_epoch b \<Longrightarrow> \<exists>r. join to_json a b = Inr r"
  by (auto simp: join_def split: prod.splits)

lemma join_conflict_iff:
  assumes "join to_json a b = Inr j"
  shows "c \<in> set (jr_conflicts j) \<longleftrightarrow>
    (\<exists>l r. bm_get (ps_patches a) (pc_path c) = Some l \<and> bm_get (ps_patches b) (pc_path c) = Some r \<and> l \<noteq> r
       \<and> c = \<lparr>pc_path = pc_path c, pc_sides = sorted_sides to_json l r, pc_reason = classify_conflict l r\<rparr>)"
proof -
  let ?all = "join_all_paths (ps_patches a) (ps_patches b)"
  have clash: "c \<in> set (join_clash to_json (p, l, r)) \<longleftrightarrow> p = pc_path c \<and>
      (\<exists>x y. l = Some x \<and> r = Some y \<and> x \<noteq> y \<and> c = \<lparr>pc_path = pc_path c,
         pc_sides = sorted_sides to_json x y, pc_reason = classify_conflict x y\<rparr>)" for p l r
    by (cases l; cases r; cases c) auto
  have "c \<in> set (jr_conflicts j) \<longleftrightarrow>
      (\<exists>p l r. bm_get ?all p = Some (l, r) \<and> c \<in> set (join_clash to_json (p, l, r)))"
    unfolding join_Inr(4) [OF assms] by (simp add: bm.in_entries [symmetric] Bex_def split_paired_Ex)
  also have "\<dots> \<longleftrightarrow> (\<exists>l r. bm_get ?all (pc_path c) = Some (l, r) \<and>
      c \<in> set (join_clash to_json (pc_path c, l, r)))"
    by (auto simp: clash)
  finally show ?thesis
    by (auto simp: clash bm_get_all_paths)
qed

lemma sorted_concat_keys:
  assumes "sorted_wrt (<) (map f xs)" "\<And>x y. x \<in> set xs \<Longrightarrow> y \<in> set (g x) \<Longrightarrow> h y = (f x :: 'k::linorder)"
    and "\<And>x. length (g x) \<le> 1"
  shows "sorted_wrt (<) (map h (concat (map g xs)))"
  using assms(1,2)
proof (induction xs)
  case (Cons x xs)
  have "sorted_wrt (<) (map h (g x))"
    using assms(3) [of x] by (cases "g x") auto
  with Cons show ?case by (fastforce simp: sorted_wrt_append)
qed simp

lemma join_conflicts_sorted:
  assumes "join to_json a b = Inr j"
  shows "sorted_wrt (<) (map pc_path (jr_conflicts j))"
  unfolding join_Inr(4) [OF assms]
proof (rule sorted_concat_keys [where f = fst])
  show "sorted_wrt (<) (map fst (bm_entries (join_all_paths (ps_patches a) (ps_patches b))))"
    by (rule bm.entries_increasing)
  show "h \<in> set (join_clash to_json x) \<Longrightarrow> pc_path h = fst x" for x h
    by (cases "(to_json, x)" rule: join_clash.cases) (auto split: if_splits)
  show "length (join_clash to_json x) \<le> 1" for x
    by (cases "(to_json, x)" rule: join_clash.cases) auto
qed

lemma join_resultI:
  fixes x y :: join_result
  assumes "ps_base_epoch (jr_merged x) = ps_base_epoch (jr_merged y)"
    and "\<And>p. bm_get (ps_patches (jr_merged x)) p = bm_get (ps_patches (jr_merged y)) p"
    and "jr_conflicts x = jr_conflicts y"
  shows "x = y"
  using assms bm.eqI [of "ps_patches (jr_merged x)" "ps_patches (jr_merged y)"]
  by (metis (full_types) join_result.surjective old.unit.exhaust patch_set.surjective)

lemma join_clean_iff:
  assumes "join to_json a b = Inr j"
  shows "join_is_clean j \<longleftrightarrow>
    (\<forall>p l r. bm_get (ps_patches a) p = Some l \<longrightarrow> bm_get (ps_patches b) p = Some r \<longrightarrow> l = r)"
proof -
  have "join_is_clean j \<longleftrightarrow> (\<forall>c. c \<notin> set (jr_conflicts j))"
    by (cases "jr_conflicts j") (auto simp: join_is_clean_def)
  then show ?thesis
    unfolding join_conflict_iff [OF assms]
    by (metis path_conflict.select_convs(1))
qed

section \<open>Properties\<close>

text \<open>C3. A successful join changes a path as the one side that touches it does, or as both sides do
  when they agree, and drops every path they disagree on; those paths, in increasing order, are the
  conflicts, each with the two values and their classification.\<close>

theorem join_lookup:
  assumes "join to_json a b = Inr j"
  shows "bm_get (ps_patches (jr_merged j)) p =
      (case (bm_get (ps_patches a) p, bm_get (ps_patches b) p) of
         (None, r) \<Rightarrow> r | (Some l, None) \<Rightarrow> Some l | (Some l, Some r) \<Rightarrow> if l = r then Some l else None)
    \<and> sorted_wrt (<) (map pc_path (jr_conflicts j))
    \<and> set (jr_conflicts j) =
        {\<lparr>pc_path = q, pc_sides = sorted_sides to_json l r, pc_reason = classify_conflict l r\<rparr> | q l r.
           bm_get (ps_patches a) q = Some l \<and> bm_get (ps_patches b) q = Some r \<and> l \<noteq> r}"
proof (intro conjI)
  show "set (jr_conflicts j) = {\<lparr>pc_path = q, pc_sides = sorted_sides to_json l r,
      pc_reason = classify_conflict l r\<rparr> | q l r.
      bm_get (ps_patches a) q = Some l \<and> bm_get (ps_patches b) q = Some r \<and> l \<noteq> r}" (is "?L = ?R")
  proof
    show "?L \<subseteq> ?R" using join_conflict_iff [OF assms] by blast
    show "?R \<subseteq> ?L" using join_conflict_iff [OF assms] by fastforce
  qed
qed (auto simp: join_Inr(3) [OF assms] join_conflicts_sorted [OF assms] split: option.splits)

text \<open>C36. Swapping the arguments of \<open>join\<close> changes nothing but the order of the two epochs in the
  mismatch error, provided the serialization tells the values of the two patch sets apart.\<close>

theorem join_commutes:
  assumes "inj_on (json_or_default to_json)
      (set (bm_values (ps_patches a)) \<union> set (bm_values (ps_patches b)))"
  shows "join to_json b a = (case join to_json a b of
      Inl e \<Rightarrow> Inl \<lparr>em_left = em_right e, em_right = em_left e\<rparr> | Inr j \<Rightarrow> Inr j)"
proof (cases "ps_base_epoch a = ps_base_epoch b")
  case False
  then show ?thesis by (simp add: join_def)
next
  case True
  then obtain j k where jk: "join to_json a b = Inr j" "join to_json b a = Inr k"
    using join_defined by metis
  have val: "v \<in> set (bm_values m)" if "bm_get m p = Some v" for m :: patch_map and p v
    using that bm.in_entries [of p v m] by (force simp: bm_values_def)
  have sides: "sorted_sides to_json l r = sorted_sides to_json r l"
    if "bm_get (ps_patches a) p = Some l" "bm_get (ps_patches b) p = Some r" for l r p
  proof (cases "l = r")
    case False
    then have "json_or_default to_json l \<noteq> json_or_default to_json r"
      using inj_onD [OF assms, of l r] val [OF that(1)] val [OF that(2)] by blast
    then show ?thesis by (rule sorted_sides_sym(2))
  qed simp
  have "set (jr_conflicts j) = set (jr_conflicts k)"
    unfolding set_eq_iff join_conflict_iff [OF jk(1)] join_conflict_iff [OF jk(2)]
    using sides by (metis classify_conflict_sym)
  then have "jr_conflicts j = jr_conflicts k"
    by (rule strict_keys_unique) (rule join_conflicts_sorted [OF jk(1)] join_conflicts_sorted [OF jk(2)])+
  then have "j = k"
    using True join_Inr(2,3) [OF jk(1)] join_Inr(2,3) [OF jk(2)]
    by (intro join_resultI) (auto simp: join_value_sym)
  with jk show ?thesis by simp
qed

text \<open>Joining a patch set with itself gives it back, without conflicts.\<close>

theorem join_idempotent: "join to_json a a = Inr \<lparr>jr_merged = a, jr_conflicts = []\<rparr>"
proof -
  obtain j where j: "join to_json a a = Inr j" using join_defined by blast
  have "join_is_clean j" by (subst join_clean_iff [OF j]) simp
  moreover have "join_value x x = x" for x by (cases x) auto
  ultimately have "j = \<lparr>jr_merged = a, jr_conflicts = []\<rparr>"
    using join_Inr(2,3) [OF j] by (intro join_resultI) (auto simp: join_is_clean_def)
  with j show ?thesis by simp
qed

text \<open>Joining three patch sets left to right or right to left gives the same merged patch set and
  the same conflicts, as long as neither inner join has a conflict.\<close>

theorem join_associative_when_clean:
  assumes ab: "join to_json a b = Inr ab" "join_is_clean ab"
    and bc: "join to_json b c = Inr bc" "join_is_clean bc"
  shows "join to_json (jr_merged ab) c = join to_json a (jr_merged bc)"
proof -
  have "ps_base_epoch (jr_merged ab) = ps_base_epoch c" "ps_base_epoch a = ps_base_epoch (jr_merged bc)"
    using join_Inr(1,2) [OF ab(1)] join_Inr(1,2) [OF bc(1)] by simp_all
  then obtain l r where lr: "join to_json (jr_merged ab) c = Inr l" "join to_json a (jr_merged bc) = Inr r"
    using join_defined by metis
  have agree: "bm_get (ps_patches a) p = None \<or> bm_get (ps_patches b) p = None
      \<or> bm_get (ps_patches a) p = bm_get (ps_patches b) p"
    "bm_get (ps_patches b) p = None \<or> bm_get (ps_patches c) p = None
      \<or> bm_get (ps_patches b) p = bm_get (ps_patches c) p" for p
    using ab(2) [unfolded join_clean_iff [OF ab(1)]] bc(2) [unfolded join_clean_iff [OF bc(1)]]
    by (metis not_None_eq)+
  note get = join_Inr(3) [OF ab(1)] join_Inr(3) [OF bc(1)]
  have pair: "bm_get (ps_patches (jr_merged ab)) p = Some x \<and> bm_get (ps_patches c) p = Some y \<and> x \<noteq> y
      \<longleftrightarrow> bm_get (ps_patches a) p = Some x \<and> bm_get (ps_patches (jr_merged bc)) p = Some y \<and> x \<noteq> y" for p x y
    unfolding get by (rule join_value_clean(2) [OF agree])
  then have "set (jr_conflicts l) = set (jr_conflicts r)"
    unfolding set_eq_iff join_conflict_iff [OF lr(1)] join_conflict_iff [OF lr(2)] by metis
  then have "jr_conflicts l = jr_conflicts r"
    by (rule strict_keys_unique) (rule join_conflicts_sorted [OF lr(1)] join_conflicts_sorted [OF lr(2)])+
  moreover have "bm_get (ps_patches (jr_merged l)) p = bm_get (ps_patches (jr_merged r)) p" for p
    unfolding get join_Inr(3) [OF lr(1)] join_Inr(3) [OF lr(2)]
    by (rule join_value_clean(1) [OF agree])
  ultimately have "l = r"
    using join_Inr(2) [OF lr(1)] join_Inr(2) [OF lr(2)] join_Inr(2) [OF ab(1)]
    by (intro join_resultI) auto
  with lr show ?thesis by simp
qed

text \<open>In general the grouping matters: the first join drops a path its two sides disagree on, so
  a third patch set that changes the path brings its own value back.\<close>

theorem join_grouping_matters:
  assumes "join to_json a b = Inr ab" "join to_json (jr_merged ab) c = Inr l"
    and "join to_json b c = Inr bc" "join to_json a (jr_merged bc) = Inr r"
    and "bm_get (ps_patches a) p = Some x" "bm_get (ps_patches b) p = Some y" "x \<noteq> y"
    and "bm_get (ps_patches c) p = Some z"
  shows "bm_get (ps_patches (jr_merged l)) p = Some z
    \<and> bm_get (ps_patches (jr_merged r)) p = (if y = z then None else Some x)"
  using assms(5-8) by (auto simp: join_Inr(3) [OF assms(1)] join_Inr(3) [OF assms(2)]
      join_Inr(3) [OF assms(3)] join_Inr(3) [OF assms(4)])

section \<open>Witnesses\<close>

text \<open>A serialization of the operation and its blobs, enough to tell the sample values apart.\<close>

definition patch_json :: "patch_value \<Rightarrow> string option" where
  "patch_json v = Some (case v of
     PAdd b f \<Rightarrow> ''add:'' @ oid_str b
   | PDelete b f \<Rightarrow> ''delete:'' @ oid_str b
   | PModify b n f \<Rightarrow> ''modify:'' @ oid_str b @ oid_str n
   | PRename p f n \<Rightarrow> ''rename:'' @ (case n of None \<Rightarrow> ''-'' | Some b \<Rightarrow> oid_str b) @ path_str p)"

definition sample_add :: "char \<Rightarrow> patch_value" where
  "sample_add c = PAdd (sample_oid c) (FileId 7)"

definition sample_patches :: "(path \<times> patch_value) list \<Rightarrow> patch_set" where
  "sample_patches xs = \<lparr>ps_base_epoch = sample_epoch CHR ''e'', ps_patches = bm_of_list xs\<rparr>"

abbreviation "sample_left \<equiv> sample_patches [([''a''], sample_add CHR ''1''), ([''b''], sample_add CHR ''2'')]"
abbreviation "sample_right \<equiv> sample_patches [([''a''], sample_add CHR ''3''), ([''c''], sample_add CHR ''4'')]"
abbreviation "sample_third \<equiv> sample_patches [([''a''], sample_add CHR ''5''), ([''b''], sample_add CHR ''2'')]"

lemma sample_join_example:
  "join patch_json sample_left sample_right = Inr \<lparr>
     jr_merged = sample_patches [([''b''], sample_add CHR ''2''), ([''c''], sample_add CHR ''4'')],
     jr_conflicts = [\<lparr>pc_path = [''a''], pc_sides = (sample_add CHR ''1'', sample_add CHR ''3''),
                       pc_reason = DivergentAdd\<rparr>]\<rparr>"
  by code_simp

definition sample_join :: "patch_set \<Rightarrow> patch_set \<Rightarrow> join_result" where
  "sample_join a b = (case join patch_json a b of Inr j \<Rightarrow> j | Inl e \<Rightarrow> \<lparr>jr_merged = a, jr_conflicts = []\<rparr>)"

lemma sample_joinI: "ps_base_epoch a = ps_base_epoch b \<Longrightarrow> join patch_json a b = Inr (sample_join a b)"
  by (auto simp: sample_join_def dest: join_defined [where to_json = patch_json])

lemma sample_base [simp]:
  "ps_base_epoch (sample_patches xs) = sample_epoch CHR ''e''"
  "ps_base_epoch a = ps_base_epoch b \<Longrightarrow> ps_base_epoch (jr_merged (sample_join a b)) = ps_base_epoch a"
  using join_Inr(2) [OF sample_joinI] by (simp_all add: sample_patches_def)

lemma sample_lookups:
  "bm_get (ps_patches sample_left) [''a''] = Some (sample_add CHR ''1'')"
  "bm_get (ps_patches sample_right) [''a''] = Some (sample_add CHR ''3'')"
  "bm_get (ps_patches sample_third) [''a''] = Some (sample_add CHR ''5'')"
  "sample_add CHR ''1'' \<noteq> sample_add CHR ''3''" "sample_add CHR ''3'' \<noteq> sample_add CHR ''5''"
  by code_simp+

lemma join_lookup_witness:
  "bm_get (ps_patches (jr_merged (sample_join sample_left sample_right))) [''a''] = None
   \<and> sorted_wrt (<) (map pc_path (jr_conflicts (sample_join sample_left sample_right)))"
proof -
  have "join patch_json sample_left sample_right = Inr (sample_join sample_left sample_right)"
    by (rule sample_joinI) simp
  from join_lookup [OF this, of "[''a'']"] show ?thesis by (simp add: sample_lookups)
qed

lemma join_commutes_witness:
  "join patch_json sample_right sample_left = (case join patch_json sample_left sample_right of
      Inl e \<Rightarrow> Inl \<lparr>em_left = em_right e, em_right = em_left e\<rparr> | Inr j \<Rightarrow> Inr j)"
  by (rule join_commutes) (unfold inj_on_def, code_simp)

abbreviation "sample_extra \<equiv> sample_patches [([''b''], sample_add CHR ''2''), ([''d''], sample_add CHR ''9'')]"

lemma join_associative_when_clean_witness:
  "join patch_json (jr_merged (sample_join sample_left sample_extra)) sample_extra =
   join patch_json sample_left (jr_merged (sample_join sample_extra sample_extra))"
proof (rule join_associative_when_clean)
  show "join patch_json sample_left sample_extra = Inr (sample_join sample_left sample_extra)"
    "join patch_json sample_extra sample_extra = Inr (sample_join sample_extra sample_extra)"
    by (simp_all add: sample_joinI)
  show "join_is_clean (sample_join sample_left sample_extra)" by code_simp
  show "join_is_clean (sample_join sample_extra sample_extra)" by code_simp
qed

lemma join_grouping_matters_witness:
  "bm_get (ps_patches (jr_merged (sample_join (jr_merged (sample_join sample_left sample_right)) sample_third)))
     [''a''] = Some (sample_add CHR ''5'')
   \<and> bm_get (ps_patches (jr_merged (sample_join sample_left (jr_merged (sample_join sample_right sample_third)))))
     [''a''] = Some (sample_add CHR ''1'')"
  using join_grouping_matters [OF sample_joinI sample_joinI sample_joinI sample_joinI sample_lookups(1,2,4,3)]
  by (simp add: sample_lookups)

end
