(* ===== verification/Disk.thy ===== *)
theory Disk
  imports Ordered_Map
begin

text \<open>
  The part of \<open>std::fs\<close> the persistence code uses, over a disk that maps paths to contents. Every
  call may fail: \<open>io_fault\<close> names the calls that do and \<open>io_torn\<close> how much a failing write leaves
  behind. A process that dies in a call leaves the disk as a failure of that call does, so the
  disks reached under some \<open>io_env\<close> are also the disks a crash leaves.
  The locale \<open>atomic_writer\<close> is the contract of the write-then-rename routines.
\<close>

section \<open>Calls\<close>

type_synonym disk = "(path, string) btree"

datatype io_error = IoNotFound | IoAlreadyExists | IoOther string

datatype io_step = MkDirs | OpenNew | Create | WriteAll | SyncAll | SyncDir | Rename | Remove | ReadAll

record io_env =
  io_fault :: "io_step \<Rightarrow> string option"
  io_torn :: nat

type_synonym ('e, 'a) io = "disk \<Rightarrow> ('e + 'a) \<times> disk"

definition io_ok :: "'a \<Rightarrow> ('e, 'a) io" where
  "io_ok x d = (Inr x, d)"

definition io_err :: "'e \<Rightarrow> ('e, 'a) io" where
  "io_err e d = (Inl e, d)"

definition io_bind :: "('e, 'a) io \<Rightarrow> ('a \<Rightarrow> ('e, 'b) io) \<Rightarrow> ('e, 'b) io" where
  "io_bind m f d = (case m d of (Inl e, d') \<Rightarrow> (Inl e, d') | (Inr x, d') \<Rightarrow> f x d')"

definition io_map_err :: "('e \<Rightarrow> 'f) \<Rightarrow> ('e, 'a) io \<Rightarrow> ('f, 'a) io" where
  "io_map_err f m d = (case m d of (Inl e, d') \<Rightarrow> (Inl (f e), d') | (Inr x, d') \<Rightarrow> (Inr x, d'))"

definition io_guard :: "io_env \<Rightarrow> io_step \<Rightarrow> (io_error, 'a) io \<Rightarrow> (io_error, 'a) io" where
  "io_guard env step m d =
     (case io_fault env step of Some e \<Rightarrow> (Inl (IoOther e), d) | None \<Rightarrow> m d)"

definition fs_create_dir_all :: "io_env \<Rightarrow> (io_error, unit) io" where
  "fs_create_dir_all env = io_guard env MkDirs (io_ok ())"

definition fs_create :: "io_env \<Rightarrow> path \<Rightarrow> (io_error, unit) io" where
  "fs_create env p = io_guard env Create (\<lambda>d. (Inr (), bm_insert p [] d))"

definition fs_create_new :: "io_env \<Rightarrow> path \<Rightarrow> (io_error, unit) io" where
  "fs_create_new env p = io_guard env OpenNew
     (\<lambda>d. if bm_contains d p then (Inl IoAlreadyExists, d) else (Inr (), bm_insert p [] d))"

text \<open>\<open>write_all\<close> on a handle that has been at the end of the file since it was created.\<close>

definition fs_write_all :: "io_env \<Rightarrow> path \<Rightarrow> string \<Rightarrow> (io_error, unit) io" where
  "fs_write_all env p s d =
     (let old = (case bm_get d p of Some c \<Rightarrow> c | None \<Rightarrow> [])
      in case io_fault env WriteAll of
           Some e \<Rightarrow> (Inl (IoOther e), bm_insert p (old @ take (io_torn env) s) d)
         | None \<Rightarrow> (Inr (), bm_insert p (old @ s) d))"

definition fs_sync_all :: "io_env \<Rightarrow> (io_error, unit) io" where
  "fs_sync_all env = io_guard env SyncAll (io_ok ())"

definition fs_sync_dir :: "io_env \<Rightarrow> (io_error, unit) io" where
  "fs_sync_dir env = io_guard env SyncDir (io_ok ())"

definition fs_rename :: "io_env \<Rightarrow> path \<Rightarrow> path \<Rightarrow> (io_error, unit) io" where
  "fs_rename env p q = io_guard env Rename
     (\<lambda>d. case bm_get d p of
            None \<Rightarrow> (Inl IoNotFound, d)
          | Some s \<Rightarrow> (Inr (), bm_insert q s (bm_remove p d)))"

definition fs_remove_file :: "io_env \<Rightarrow> path \<Rightarrow> (io_error, unit) io" where
  "fs_remove_file env p = io_guard env Remove
     (\<lambda>d. if bm_contains d p then (Inr (), bm_remove p d) else (Inl IoNotFound, d))"

definition fs_read_to_string :: "io_env \<Rightarrow> path \<Rightarrow> (io_error, string) io" where
  "fs_read_to_string env p = io_guard env ReadAll
     (\<lambda>d. case bm_get d p of None \<Rightarrow> (Inl IoNotFound, d) | Some s \<Rightarrow> (Inr s, d))"

definition fs_write :: "io_env \<Rightarrow> path \<Rightarrow> string \<Rightarrow> (io_error, unit) io" where
  "fs_write env p s = io_bind (fs_create env p) (\<lambda>_. fs_write_all env p s)"

definition io_healthy :: io_env where
  "io_healthy = \<lparr>io_fault = (\<lambda>_. None), io_torn = 0\<rparr>"

lemmas io_defs = io_ok_def io_err_def io_bind_def io_map_err_def io_guard_def
lemmas fs_defs = fs_create_dir_all_def fs_create_def fs_create_new_def fs_write_all_def fs_sync_all_def fs_sync_dir_def
  fs_rename_def fs_remove_file_def fs_read_to_string_def fs_write_def

definition io_message :: "string \<Rightarrow> path \<Rightarrow> io_error \<Rightarrow> string" where
  "io_message what p e = what @ '' '' @ path_str p @ '': '' @
     (case e of IoNotFound \<Rightarrow> ''not found'' | IoAlreadyExists \<Rightarrow> ''already exists'' | IoOther m \<Rightarrow> m)"

section \<open>Atomic replacement of a file\<close>

locale atomic_writer =
  fixes put :: "io_env \<Rightarrow> path \<Rightarrow> string \<Rightarrow> ('e, unit) io"
    and tmp :: "path \<Rightarrow> path"
  assumes w_done: "tmp p \<noteq> p \<Longrightarrow> put env p s d = (Inr u, d') \<Longrightarrow> bm_get d' p = Some s"
    and w_failed: "tmp p \<noteq> p \<Longrightarrow> put env p s d = (Inl e, d') \<Longrightarrow> bm_get d' p = bm_get d p"
    and w_frame: "put env p s d = (r, d') \<Longrightarrow> q \<noteq> p \<Longrightarrow> q \<noteq> tmp p \<Longrightarrow> bm_get d' q = bm_get d q"
begin

lemma old_or_new:
  "tmp p \<noteq> p \<Longrightarrow> bm_get (snd (put env p s d)) p = (if isl (fst (put env p s d)) then bm_get d p else Some s)"
  by (cases "put env p s d"; cases "fst (put env p s d)") (auto dest: w_done w_failed)

fun run_writes :: "path \<Rightarrow> (io_env \<times> string) list \<Rightarrow> disk \<Rightarrow> disk" where
  "run_writes p [] d = d"
| "run_writes p ((env, s) # ws) d = run_writes p ws (snd (put env p s d))"

text \<open>After any run of attempts, failed ones included, the file holds one of the texts in full.\<close>

lemma run_writes_content:
  "tmp p \<noteq> p \<Longrightarrow> bm_get (run_writes p ws d) p \<in> insert (bm_get d p) (Some ` snd ` set ws)"
proof (induction ws arbitrary: d)
  case (Cons w ws)
  obtain env s where w: "w = (env, s)" by force
  show ?case
    using Cons.IH [OF Cons.prems, of "snd (put env p s d)"]
      old_or_new [OF Cons.prems, of env s d]
    by (auto simp: w split: if_splits)
qed simp

end

text \<open>\<open>Path::with_extension\<close>: the part of the file name after its last dot is replaced, a dot
  that starts the name is part of the stem.\<close>

definition file_stem :: "string \<Rightarrow> string" where
  "file_stem n =
     (let parts = split_on CHR ''.'' n
      in if length parts \<le> 1 \<or> (length parts = 2 \<and> hd parts = []) then n
         else join_with ''.'' (butlast parts))"

definition with_tmp_extension :: "path \<Rightarrow> path" where
  "with_tmp_extension p = (if p = [] then [] else butlast p @ [file_stem (last p) @ ''.tmp''])"

end
