(* ===== verification/File_Id_Map.thy ===== *)
theory File_Id_Map
  imports Patch_Model Disk
begin

text \<open>
  The index between file identities and paths, \<open>crates/maw-core/src/model/file_id.rs\<close>. A mutating
  method returns its result together with the map it leaves behind, also when it fails. The random
  number \<open>FileId::random\<close> draws is an argument; that it is not in use yet is a hypothesis of the
  theorems that need it. JSON parsing and printing are arguments of \<open>fid_load\<close> and \<open>fid_save\<close>.
\<close>

section \<open>State and errors\<close>

record file_id_map =
  path_to_id :: "(path, file_id) btree"
  id_to_path :: "(file_id, path) btree"

record file_id_record =
  fr_path :: path
  fr_file_id :: file_id

datatype file_id_map_error =
    PathAlreadyTracked path
  | PathNotTracked path
  | DuplicatePath path
  | DuplicateFileId file_id
  | FidIo string
  | FidJson string

type_synonym 'a fid_result = "(file_id_map_error + 'a) \<times> file_id_map"

definition fid_new :: file_id_map where
  "fid_new = \<lparr>path_to_id = bm_empty, id_to_path = bm_empty\<rparr>"

section \<open>File lifecycle\<close>

definition track_new :: "file_id \<Rightarrow> path \<Rightarrow> file_id_map \<Rightarrow> file_id fid_result" where
  "track_new fresh p m =
     (if bm_contains (path_to_id m) p then (Inl (PathAlreadyTracked p), m)
      else (Inr fresh, \<lparr>path_to_id = bm_insert p fresh (path_to_id m),
                        id_to_path = bm_insert fresh p (id_to_path m)\<rparr>))"

definition track_rename :: "path \<Rightarrow> path \<Rightarrow> file_id_map \<Rightarrow> file_id fid_result" where
  "track_rename old_path new_path m =
     (case bm_get (path_to_id m) old_path of
        None \<Rightarrow> (Inl (PathNotTracked old_path), m)
      | Some fid \<Rightarrow>
          let removed = m\<lparr>path_to_id := bm_remove old_path (path_to_id m)\<rparr>
          in if (case bm_get (path_to_id removed) new_path of
                   Some existing_id \<Rightarrow> existing_id \<noteq> fid | None \<Rightarrow> False)
             then (Inl (PathAlreadyTracked new_path),
                   removed\<lparr>path_to_id := bm_insert old_path fid (path_to_id removed)\<rparr>)
             else (Inr fid, \<lparr>path_to_id = bm_insert new_path fid (path_to_id removed),
                            id_to_path = bm_insert fid new_path (id_to_path removed)\<rparr>))"

definition track_copy :: "file_id \<Rightarrow> path \<Rightarrow> path \<Rightarrow> file_id_map \<Rightarrow> file_id fid_result" where
  "track_copy fresh src_path dst_path m =
     (if \<not> bm_contains (path_to_id m) src_path then (Inl (PathNotTracked src_path), m)
      else if bm_contains (path_to_id m) dst_path then (Inl (PathAlreadyTracked dst_path), m)
      else (Inr fresh, \<lparr>path_to_id = bm_insert dst_path fresh (path_to_id m),
                        id_to_path = bm_insert fresh dst_path (id_to_path m)\<rparr>))"

definition track_delete :: "path \<Rightarrow> file_id_map \<Rightarrow> file_id fid_result" where
  "track_delete p m =
     (case bm_get (path_to_id m) p of
        None \<Rightarrow> (Inl (PathNotTracked p), m)
      | Some fid \<Rightarrow> (Inr fid, \<lparr>path_to_id = bm_remove p (path_to_id m),
                             id_to_path = bm_remove fid (id_to_path m)\<rparr>))"

section \<open>Lookup\<close>

definition id_for_path :: "file_id_map \<Rightarrow> path \<Rightarrow> file_id option" where
  "id_for_path m p = bm_get (path_to_id m) p"

definition path_for_id :: "file_id_map \<Rightarrow> file_id \<Rightarrow> path option" where
  "path_for_id m i = bm_get (id_to_path m) i"

definition contains_path :: "file_id_map \<Rightarrow> path \<Rightarrow> bool" where
  "contains_path m p = bm_contains (path_to_id m) p"

definition contains_id :: "file_id_map \<Rightarrow> file_id \<Rightarrow> bool" where
  "contains_id m i = bm_contains (id_to_path m) i"

definition fid_len :: "file_id_map \<Rightarrow> nat" where
  "fid_len m = bm_len (path_to_id m)"

definition fid_is_empty :: "file_id_map \<Rightarrow> bool" where
  "fid_is_empty m = bm_is_empty (path_to_id m)"

section \<open>Persistence\<close>

text \<open>The records that \<open>save\<close> serializes, in path order.\<close>

definition fid_records :: "file_id_map \<Rightarrow> file_id_record list" where
  "fid_records m = map (\<lambda>(p, i). \<lparr>fr_path = p, fr_file_id = i\<rparr>) (bm_entries (path_to_id m))"

definition from_records_step :: "file_id_record \<Rightarrow> file_id_map \<Rightarrow> file_id_map_error + file_id_map" where
  "from_records_step r m =
     (if bm_contains (path_to_id m) (fr_path r) then Inl (DuplicatePath (fr_path r))
      else if bm_contains (id_to_path m) (fr_file_id r) then Inl (DuplicateFileId (fr_file_id r))
      else Inr \<lparr>path_to_id = bm_insert (fr_path r) (fr_file_id r) (path_to_id m),
                id_to_path = bm_insert (fr_file_id r) (fr_path r) (id_to_path m)\<rparr>)"

definition from_records :: "file_id_record list \<Rightarrow> file_id_map_error + file_id_map" where
  "from_records rs = res_fold from_records_step rs fid_new"

fun fid_io_error :: "io_error \<Rightarrow> file_id_map_error" where
  "fid_io_error e = FidIo (io_message ''fileids'' [] e)"

definition fid_load ::
  "(string \<Rightarrow> string + file_id_record list) \<Rightarrow> io_env \<Rightarrow> path \<Rightarrow> (file_id_map_error, file_id_map) io" where
  "fid_load parse env p d =
     (case fs_read_to_string env p d of
        (Inr content, d') \<Rightarrow> (case parse content of
            Inl e \<Rightarrow> (Inl (FidJson e), d')
          | Inr records \<Rightarrow> (from_records records, d'))
      | (Inl IoNotFound, d') \<Rightarrow> (Inr fid_new, d')
      | (Inl e, d') \<Rightarrow> (Inl (fid_io_error e), d'))"

text \<open>\<open>save\<close> after serialization: write beside the file, then rename over it.\<close>

definition fid_replace :: "io_env \<Rightarrow> path \<Rightarrow> string \<Rightarrow> (file_id_map_error, unit) io" where
  "fid_replace env p json =
     io_map_err fid_io_error
       (io_bind (fs_write env (with_tmp_extension p) json)
         (\<lambda>_. fs_rename env (with_tmp_extension p) p))"

definition fid_save ::
  "(file_id_record list \<Rightarrow> string + string) \<Rightarrow> io_env \<Rightarrow> path \<Rightarrow> file_id_map \<Rightarrow>
   (file_id_map_error, unit) io" where
  "fid_save print env p m =
     io_bind (if path_parent p = None then io_ok ()
              else io_map_err fid_io_error (fs_create_dir_all env))
       (\<lambda>_. case print (fid_records m) of
              Inl e \<Rightarrow> io_err (FidJson e)
            | Inr json \<Rightarrow> fid_replace env p json)"

interpretation fid_file: atomic_writer fid_replace with_tmp_extension
  by unfold_locales
    (auto simp: fid_replace_def io_defs fs_defs split: option.splits if_splits prod.splits sum.splits)

section \<open>The invariant\<close>

definition fid_ok :: "file_id_map \<Rightarrow> bool" where
  "fid_ok m \<longleftrightarrow> (\<forall>p i. id_for_path m p = Some i \<longleftrightarrow> path_for_id m i = Some p)"

lemma fid_ok_iff:
  "fid_ok m \<longleftrightarrow> (\<forall>p i. bm_get (path_to_id m) p = Some i \<longleftrightarrow> bm_get (id_to_path m) i = Some p)"
  by (simp add: fid_ok_def id_for_path_def path_for_id_def)

lemma fid_okD: "fid_ok m \<Longrightarrow> bm_get (path_to_id m) p = Some i \<longleftrightarrow> bm_get (id_to_path m) i = Some p"
  by (simp add: fid_ok_def id_for_path_def path_for_id_def)

lemma fid_ok_inj:
  "fid_ok m \<Longrightarrow> bm_get (path_to_id m) p = Some i \<Longrightarrow> bm_get (path_to_id m) q = Some i \<Longrightarrow> p = q"
  by (simp add: fid_okD)

lemma fid_ok_key:
  "fid_ok m \<Longrightarrow> bm_get (path_to_id m) p = Some i \<Longrightarrow> bm_get (path_to_id m) q = Some i \<longleftrightarrow> q = p"
  using fid_ok_inj by blast

lemma fid_ok_new: "fid_ok fid_new"
  by (simp add: fid_ok_def fid_new_def id_for_path_def path_for_id_def)

text \<open>Adding a pair whose path and identity are both free keeps the invariant.\<close>

lemma fid_ok_add:
  assumes "fid_ok m" "bm_get (path_to_id m) p = None" "bm_get (id_to_path m) i = None"
  shows "fid_ok \<lparr>path_to_id = bm_insert p i (path_to_id m), id_to_path = bm_insert i p (id_to_path m)\<rparr>"
proof -
  have "bm_get (path_to_id m) q \<noteq> Some i" "bm_get (id_to_path m) j \<noteq> Some p" for q j
    using assms fid_okD [OF assms(1)] by (metis option.distinct(1))+
  then show ?thesis
    using fid_okD [OF assms(1)] by (auto simp: fid_ok_def id_for_path_def path_for_id_def)
qed

lemma fid_ok_track_new:
  "fid_ok m \<Longrightarrow> \<not> contains_id m fresh \<Longrightarrow> fid_ok (snd (track_new fresh p m))"
  by (auto simp: track_new_def contains_id_def bm_contains_def intro: fid_ok_add)

lemma fid_ok_track_copy:
  "fid_ok m \<Longrightarrow> \<not> contains_id m fresh \<Longrightarrow> fid_ok (snd (track_copy fresh p q m))"
  by (auto simp: track_copy_def contains_id_def bm_contains_def intro: fid_ok_add)

text \<open>So does taking a pair out, and moving an identity to a path that is free once it has moved.\<close>

lemma fid_ok_remove:
  assumes ok: "fid_ok m" and i: "bm_get (path_to_id m) p = Some i"
  shows "fid_ok \<lparr>path_to_id = bm_remove p (path_to_id m), id_to_path = bm_remove i (id_to_path m)\<rparr>"
  unfolding fid_ok_iff
proof (intro allI)
  fix q j
  show "bm_get (path_to_id \<lparr>path_to_id = bm_remove p (path_to_id m),
        id_to_path = bm_remove i (id_to_path m)\<rparr>) q = Some j \<longleftrightarrow>
      bm_get (id_to_path \<lparr>path_to_id = bm_remove p (path_to_id m),
        id_to_path = bm_remove i (id_to_path m)\<rparr>) j = Some q"
    by (auto simp: fid_okD [OF ok, symmetric] fid_ok_key [OF ok i] i)
qed

lemma fid_ok_move:
  assumes ok: "fid_ok m" and i: "bm_get (path_to_id m) p = Some i"
    and free: "p = q \<or> bm_get (path_to_id m) q = None"
  shows "fid_ok \<lparr>path_to_id = bm_insert q i (bm_remove p (path_to_id m)),
                 id_to_path = bm_insert i q (id_to_path m)\<rparr>" (is "fid_ok ?m")
  unfolding fid_ok_iff
proof (intro allI)
  fix r j
  show "bm_get (path_to_id ?m) r = Some j \<longleftrightarrow> bm_get (id_to_path ?m) j = Some r"
  proof (cases "p = q")
    case True
    with i have q: "bm_get (path_to_id m) q = Some i" by simp
    show ?thesis
      unfolding True by (auto simp: fid_okD [OF ok, symmetric] fid_ok_key [OF ok q] q)
  next
    case False
    then show ?thesis
      using free by (auto simp: fid_okD [OF ok, symmetric] fid_ok_key [OF ok i] i)
  qed
qed

lemma fid_ok_track_delete: "fid_ok m \<Longrightarrow> fid_ok (snd (track_delete p m))"
  by (auto simp: track_delete_def fid_ok_remove split: option.splits)

lemma track_rename_cases:
  assumes "fid_ok m"
  obtains (untracked) "bm_get (path_to_id m) p = None" "track_rename p q m = (Inl (PathNotTracked p), m)"
  | (taken) i j where "bm_get (path_to_id m) p = Some i" "bm_get (path_to_id m) q = Some j" "p \<noteq> q"
      "track_rename p q m = (Inl (PathAlreadyTracked q), m)"
  | (moved) i where "bm_get (path_to_id m) p = Some i" "p = q \<or> bm_get (path_to_id m) q = None"
      "track_rename p q m = (Inr i, \<lparr>path_to_id = bm_insert q i (bm_remove p (path_to_id m)),
                                     id_to_path = bm_insert i q (id_to_path m)\<rparr>)"
proof (cases "bm_get (path_to_id m) p")
  case None
  then show ?thesis using untracked by (simp add: track_rename_def)
next
  case (Some i)
  show ?thesis
  proof (cases "p = q \<or> bm_get (path_to_id m) q = None")
    case True
    then show ?thesis using Some by (intro moved) (auto simp: track_rename_def Let_def)
  next
    case False
    then obtain j where j: "bm_get (path_to_id m) q = Some j" "p \<noteq> q" by auto
    then have "j \<noteq> i" using fid_ok_inj [OF assms Some] by blast
    moreover have "bm_insert p i (bm_remove p (path_to_id m)) = path_to_id m"
      by (rule bm.eqI) (simp add: Some)
    ultimately show ?thesis
      using Some j by (intro taken) (auto simp: track_rename_def Let_def)
  qed
qed

lemma fid_ok_track_rename: "fid_ok m \<Longrightarrow> fid_ok (snd (track_rename p q m))"
proof -
  assume ok: "fid_ok m"
  from ok show ?thesis
  proof (cases rule: track_rename_cases [of m p q])
    case (moved i)
    then show ?thesis using fid_ok_move [OF ok moved(1,2)] by simp
  qed (use ok in auto)
qed

section \<open>Sequences of operations\<close>

datatype fid_op =
    TrackNew path file_id
  | TrackRename path path
  | TrackCopy path path file_id
  | TrackDelete path

fun run_fid_op :: "fid_op \<Rightarrow> file_id_map \<Rightarrow> file_id fid_result" where
  "run_fid_op (TrackNew p fresh) m = track_new fresh p m"
| "run_fid_op (TrackRename p q) m = track_rename p q m"
| "run_fid_op (TrackCopy p q fresh) m = track_copy fresh p q m"
| "run_fid_op (TrackDelete p) m = track_delete p m"

fun fid_op_fresh :: "fid_op \<Rightarrow> file_id_map \<Rightarrow> bool" where
  "fid_op_fresh (TrackNew p fresh) m = (\<not> contains_id m fresh)"
| "fid_op_fresh (TrackCopy p q fresh) m = (\<not> contains_id m fresh)"
| "fid_op_fresh _ m = True"

fun fid_ops_fresh :: "fid_op list \<Rightarrow> file_id_map \<Rightarrow> bool" where
  "fid_ops_fresh [] m = True"
| "fid_ops_fresh (op # ops) m = (fid_op_fresh op m \<and> fid_ops_fresh ops (snd (run_fid_op op m)))"

definition run_fid_ops :: "fid_op list \<Rightarrow> file_id_map \<Rightarrow> file_id_map" where
  "run_fid_ops ops m = fold (\<lambda>op. snd \<circ> run_fid_op op) ops m"

lemma fid_ok_run_op: "fid_ok m \<Longrightarrow> fid_op_fresh op m \<Longrightarrow> fid_ok (snd (run_fid_op op m))"
  by (cases op) (auto intro: fid_ok_track_new fid_ok_track_copy fid_ok_track_delete fid_ok_track_rename)

lemma fid_ok_run_ops: "fid_ok m \<Longrightarrow> fid_ops_fresh ops m \<Longrightarrow> fid_ok (run_fid_ops ops m)"
  by (induction ops arbitrary: m) (auto simp: run_fid_ops_def fid_ok_run_op)

lemma fid_error_unchanged:
  assumes "fid_ok m" "run_fid_op op m = (Inl e, m')"
  shows "m' = m"
proof (cases op)
  case (TrackRename p q)
  with assms(1) show ?thesis
    by (cases rule: track_rename_cases [of m p q]) (use assms(2) TrackRename in auto)
qed (use assms in \<open>auto simp: track_new_def track_copy_def track_delete_def split: if_splits option.splits\<close>)

section \<open>Records\<close>

lemma from_records_run:
  assumes "fid_ok m"
  shows "res_fold from_records_step rs m = Inr m' \<longleftrightarrow>
    distinct (map fr_path rs) \<and> distinct (map fr_file_id rs)
    \<and> (\<forall>r \<in> set rs. bm_get (path_to_id m) (fr_path r) = None \<and> bm_get (id_to_path m) (fr_file_id r) = None)
    \<and> m' = \<lparr>path_to_id = fold (\<lambda>r. bm_insert (fr_path r) (fr_file_id r)) rs (path_to_id m),
            id_to_path = fold (\<lambda>r. bm_insert (fr_file_id r) (fr_path r)) rs (id_to_path m)\<rparr>"
  using assms
proof (induction rs arbitrary: m)
  case Nil
  then show ?case by auto
next
  case (Cons r rs)
  show ?case
  proof (cases "from_records_step r m")
    case (Inl e)
    then show ?thesis by (auto simp: from_records_step_def bm_contains_def split: if_splits)
  next
    case (Inr k)
    then have free: "bm_get (path_to_id m) (fr_path r) = None" "bm_get (id_to_path m) (fr_file_id r) = None"
      and k: "k = \<lparr>path_to_id = bm_insert (fr_path r) (fr_file_id r) (path_to_id m),
                id_to_path = bm_insert (fr_file_id r) (fr_path r) (id_to_path m)\<rparr>"
      by (auto simp: from_records_step_def bm_contains_def split: if_splits)
    then have "fid_ok k" using Cons.prems by (simp add: fid_ok_add)
    then show ?thesis using Inr free by (auto simp: Cons.IH k) (metis image_eqI)+
  qed
qed

lemma fid_ok_from_records: "from_records rs = Inr m \<Longrightarrow> fid_ok m"
  unfolding from_records_def
proof (rule res_fold_invariant [where P = fid_ok and f = from_records_step])
  show "fid_ok s'" if "fid_ok s" "from_records_step x s = Inr s'" for x s s'
    using that fid_ok_add [of s] by (auto simp: from_records_step_def bm_contains_def split: if_splits)
qed (auto simp: fid_ok_new)

lemma fold_records: "fold (\<lambda>r. bm_insert (fr_path r) (fr_file_id r)) (fid_records m) bm_empty = path_to_id m"
  using bm.fold_insert_entries [of "path_to_id m"]
  by (simp add: fid_records_def fold_map comp_def split_def)

lemma id_to_path_unique:
  assumes "fid_ok m" "fid_ok n" "path_to_id m = path_to_id n"
  shows "m = n"
proof -
  have "bm_get (id_to_path m) i = Some p \<longleftrightarrow> bm_get (id_to_path n) i = Some p" for i p
    using fid_okD [OF assms(1)] fid_okD [OF assms(2)] assms(3) by metis
  then have "bm_get (id_to_path m) i = bm_get (id_to_path n) i" for i
    by (metis not_None_eq)
  then have "id_to_path m = id_to_path n" by (rule bm.eqI)
  with assms(3) show ?thesis by simp
qed

section \<open>Properties\<close>

text \<open>C39. The two indexes stay inverse to each other through any sequence of creations, renames,
  copies and deletions, failing ones included, as long as every drawn identity is unused.\<close>

theorem file_id_map_invariant:
  assumes "fid_ops_fresh ops fid_new"
  shows "id_for_path (run_fid_ops ops fid_new) p = Some i \<longleftrightarrow>
         path_for_id (run_fid_ops ops fid_new) i = Some p"
  using fid_ok_run_ops [OF fid_ok_new assms] by (simp add: fid_ok_def)

text \<open>On a consistent map a failing operation leaves the map as it was, and a rename that succeeds
  moves the identity of the old path to the new one and leaves every other path alone.\<close>

theorem track_rename_moves_identity:
  assumes "fid_ok m"
  shows "case track_rename p q m of
      (Inl e, m') \<Rightarrow> m' = m \<and> (id_for_path m p = None \<or> (p \<noteq> q \<and> id_for_path m q \<noteq> None))
    | (Inr i, m') \<Rightarrow> id_for_path m p = Some i \<and>
        (\<forall>r. id_for_path m' r = (if r = q then Some i else if r = p then None else id_for_path m r))"
  by (cases rule: track_rename_cases [OF assms, of p q]) (auto simp: id_for_path_def)

lemma from_records_records: "fid_ok m \<Longrightarrow> from_records (fid_records m) = Inr m"
proof -
  assume ok: "fid_ok m"
  let ?rs = "fid_records m"
  have paths: "map fr_path ?rs = bm_keys (path_to_id m)"
    and ids: "map fr_file_id ?rs = bm_values (path_to_id m)"
    by (simp_all add: fid_records_def bm_keys_def bm_values_def split_def comp_def)
  have "distinct (bm_keys (path_to_id m))"
    using bm_keys_increasing [of "path_to_id m"] by (simp add: strict_sorted_iff)
  moreover have "distinct (bm_values (path_to_id m))"
    unfolding bm_values_def
  proof (rule distinct_map [THEN iffD2, OF conjI])
    have d: "distinct (map fst (bm_entries (path_to_id m)))"
      by (rule increasing_distinct [OF bm.entries_increasing])
    then show "distinct (bm_entries (path_to_id m))" by (simp add: distinct_map)
    show "inj_on snd (set (bm_entries (path_to_id m)))"
      using fid_ok_inj [OF ok] by (auto simp: inj_on_def bm.in_entries)
  qed
  ultimately have "\<exists>n. from_records ?rs = Inr n \<and> path_to_id n = path_to_id m"
    unfolding from_records_def from_records_run [OF fid_ok_new]
    by (simp add: paths ids fold_records fid_new_def)
  then obtain n where n: "from_records ?rs = Inr n" "path_to_id n = path_to_id m" by blast
  then have "n = m" using fid_ok_from_records ok id_to_path_unique by blast
  with n show ?thesis by simp
qed

text \<open>Saving a consistent map and loading the file gives the map back, whatever text the
  serializer writes as long as the parser reads it back; a save that fails at any call, or dies there,
  leaves the file as it was.\<close>

theorem fid_save_load:
  assumes "fid_ok m" "with_tmp_extension p \<noteq> p"
    and "print (fid_records m) = Inr json" "parse json = Inr (fid_records m)"
    and "fid_save print env p m d = (r, d')"
  shows "case r of
      Inl e \<Rightarrow> bm_get d' p = bm_get d p
    | Inr u \<Rightarrow> fst (fid_load parse io_healthy p d') = Inr m"
proof (cases "path_parent p \<noteq> None \<and> io_fault env MkDirs \<noteq> None")
  case True
  then show ?thesis using assms(5) by (auto simp: fid_save_def io_defs fs_defs split: if_splits)
next
  case False
  then have "fid_replace env p json d = (r, d')"
    using assms(3,5) by (auto simp: fid_save_def io_defs fs_defs split: if_splits)
  then show ?thesis
    using fid_file.w_done [OF assms(2)] fid_file.w_failed [OF assms(2)] assms(1,4)
    by (cases r) (auto simp: fid_load_def fs_defs io_defs io_healthy_def from_records_records)
qed

text \<open>The records of a file that loads have distinct paths and distinct identities, they are the
  map, and the map is consistent.\<close>

theorem from_records_sound:
  assumes "from_records rs = Inr m"
  shows "fid_ok m \<and> distinct (map fr_path rs) \<and> distinct (map fr_file_id rs)
    \<and> (\<forall>p. id_for_path m p = map_of (map (\<lambda>r. (fr_path r, fr_file_id r)) rs) p)"
proof -
  note run = assms [unfolded from_records_def from_records_run [OF fid_ok_new]]
  have "id_for_path m p = map_of (map (\<lambda>r. (fr_path r, fr_file_id r)) rs) p" for p
  proof -
    have "id_for_path m p = bm_get (fold (\<lambda>(k, v). bm_insert k v)
        (map (\<lambda>r. (fr_path r, fr_file_id r)) rs) bm_empty) p"
      using run by (simp add: id_for_path_def fid_new_def fold_map comp_def)
    also have "\<dots> = map_of (rev (map (\<lambda>r. (fr_path r, fr_file_id r)) rs)) p"
      by (simp add: bm.get_fold_insert split: option.splits)
    also have "\<dots> = map_of (map (\<lambda>r. (fr_path r, fr_file_id r)) rs) p"
      using run by (intro map_of_rev_distinct) (simp add: comp_def)
    finally show ?thesis .
  qed
  with run fid_ok_from_records [OF assms] show ?thesis by blast
qed

section \<open>Witnesses\<close>

abbreviation "sample_fid_ops \<equiv>
  [TrackNew [''a''] (FileId 1), TrackNew [''b''] (FileId 2), TrackRename [''a''] [''c''],
   TrackCopy [''b''] [''a''] (FileId 3), TrackRename [''b''] [''c''], TrackDelete [''b'']]"

lemma file_id_map_invariant_witness:
  "id_for_path (run_fid_ops sample_fid_ops fid_new) [''c''] = Some (FileId 1) \<longleftrightarrow>
   path_for_id (run_fid_ops sample_fid_ops fid_new) (FileId 1) = Some [''c'']"
  by (rule file_id_map_invariant) code_simp

lemma sample_map_ok: "fid_ok (run_fid_ops sample_fid_ops fid_new)"
  by (rule fid_ok_run_ops [OF fid_ok_new]) code_simp

lemma track_rename_moves_identity_witness:
  "case track_rename [''c''] [''d''] (run_fid_ops sample_fid_ops fid_new) of
      (Inl e, m') \<Rightarrow> False
    | (Inr i, m') \<Rightarrow> id_for_path m' [''d''] = Some i"
proof -
  have "isl (fst (track_rename [''c''] [''d''] (run_fid_ops sample_fid_ops fid_new))) = False"
    by code_simp
  then show ?thesis
    using track_rename_moves_identity [OF sample_map_ok, of "[''c'']" "[''d'']"]
    by (auto split: prod.splits sum.splits)
qed

lemma fid_save_load_witness:
  "case fid_save (\<lambda>_. Inr ''[..]'') io_healthy [''.manifold'', ''fileids''] (run_fid_ops sample_fid_ops fid_new)
          bm_empty of
     (Inl e, d') \<Rightarrow> False
   | (Inr u, d') \<Rightarrow> fst (fid_load (\<lambda>_. Inr (fid_records (run_fid_ops sample_fid_ops fid_new))) io_healthy
        [''.manifold'', ''fileids''] d') = Inr (run_fid_ops sample_fid_ops fid_new)"
proof -
  let ?m = "run_fid_ops sample_fid_ops fid_new"
  obtain r d' where run: "fid_save (\<lambda>_. Inr ''[..]'') io_healthy [''.manifold'', ''fileids''] ?m bm_empty = (r, d')"
    by force
  have "with_tmp_extension [''.manifold'', ''fileids''] \<noteq> [''.manifold'', ''fileids'']" by code_simp
  from fid_save_load [OF sample_map_ok this _ _ run, of "''[..]''" "\<lambda>_. Inr (fid_records ?m)"]
  have "case r of Inl e \<Rightarrow> True | Inr u \<Rightarrow>
      fst (fid_load (\<lambda>_. Inr (fid_records ?m)) io_healthy [''.manifold'', ''fileids''] d') = Inr ?m"
    by (cases r) auto
  moreover have "r = Inr ()"
    using run by (auto simp: fid_save_def fid_replace_def io_defs fs_defs io_healthy_def
        split: option.splits if_splits)
  ultimately show ?thesis using run by simp
qed

lemma from_records_sound_witness:
  "fid_ok (run_fid_ops sample_fid_ops fid_new)
   \<and> distinct (map fr_path (fid_records (run_fid_ops sample_fid_ops fid_new)))"
proof -
  have "from_records (fid_records (run_fid_ops sample_fid_ops fid_new)) = Inr (run_fid_ops sample_fid_ops fid_new)"
    by code_simp
  from from_records_sound [OF this] show ?thesis by blast
qed

end
