(* ===== verification/Merge_State.thy ===== *)
theory Merge_State
  imports Core_Types Disk
begin

text \<open>
  The persisted merge state machine, \<open>crates/maw-core/src/merge_state.rs\<close>: the phases, the state
  file with its ownership stamp, liveness and staleness of the owner, atomic and exclusive writes,
  crash recovery by phase, cleanup and explicit abort. The JSON codec, what the process reads
  of \<open>/proc\<close> and the environment, and the callback that destroys a workspace are arguments.
\<close>

section \<open>Phases\<close>

datatype merge_phase = Prepare | Build | Validate | Commit | Cleanup | Complete | Aborted

definition is_terminal :: "merge_phase \<Rightarrow> bool" where
  "is_terminal p \<longleftrightarrow> p = Complete \<or> p = Aborted"

fun valid_transitions :: "merge_phase \<Rightarrow> merge_phase list" where
  "valid_transitions Prepare = [Build, Aborted]"
| "valid_transitions Build = [Validate, Aborted]"
| "valid_transitions Validate = [Commit, Aborted]"
| "valid_transitions Commit = [Cleanup, Aborted]"
| "valid_transitions Cleanup = [Complete, Aborted]"
| "valid_transitions Complete = []"
| "valid_transitions Aborted = []"

definition can_transition_to :: "merge_phase \<Rightarrow> merge_phase \<Rightarrow> bool" where
  "can_transition_to p next_p \<longleftrightarrow> next_p \<in> set (valid_transitions p)"

fun phase_str :: "merge_phase \<Rightarrow> string" where
  "phase_str Prepare = ''prepare''"
| "phase_str Build = ''build''"
| "phase_str Validate = ''validate''"
| "phase_str Commit = ''commit''"
| "phase_str Cleanup = ''cleanup''"
| "phase_str Complete = ''complete''"
| "phase_str Aborted = ''aborted''"

section \<open>The state file\<close>

record command_result =
  cr_command :: string
  cr_passed :: bool
  cr_exit_code :: "32 word option"
  cr_stdout :: string
  cr_stderr :: string
  cr_duration_ms :: u64

record validation_result =
  vr_passed :: bool
  vr_exit_code :: "32 word option"
  vr_stdout :: string
  vr_stderr :: string
  vr_duration_ms :: u64
  vr_command_results :: "command_result list"

record merge_state_file =
  ms_phase :: merge_phase
  ms_sources :: "workspace_id list"
  ms_epoch_before :: epoch_id
  ms_frozen_heads :: "(workspace_id, git_oid) btree"
  ms_epoch_candidate :: "git_oid option"
  ms_validation_result :: "validation_result option"
  ms_epoch_after :: "epoch_id option"
  ms_started_at :: u64
  ms_updated_at :: u64
  ms_abort_reason :: "string option"
  ms_commit_message :: "string option"
  ms_target_branch :: "string option"
  ms_owner_pid :: "u32 option"
  ms_owner_host :: "string option"
  ms_owner_boot_id :: "string option"

datatype merge_state_error =
    InvalidTransition merge_phase merge_phase
  | MsNotFound path
  | MsSerialize string
  | MsDeserialize string
  | MsIo string

definition merge_state_new :: "workspace_id list \<Rightarrow> epoch_id \<Rightarrow> u64 \<Rightarrow> merge_state_file" where
  "merge_state_new sources epoch_before now =
     \<lparr>ms_phase = Prepare, ms_sources = sources, ms_epoch_before = epoch_before,
      ms_frozen_heads = bm_empty, ms_epoch_candidate = None, ms_validation_result = None,
      ms_epoch_after = None, ms_started_at = now, ms_updated_at = now, ms_abort_reason = None,
      ms_commit_message = None, ms_target_branch = None, ms_owner_pid = None,
      ms_owner_host = None, ms_owner_boot_id = None\<rparr>"

definition advance ::
  "merge_phase \<Rightarrow> u64 \<Rightarrow> merge_state_file \<Rightarrow> (merge_state_error + unit) \<times> merge_state_file" where
  "advance next_p now s =
     (if \<not> can_transition_to (ms_phase s) next_p then
        (Inl (InvalidTransition (ms_phase s) next_p), s)
      else (Inr (), s\<lparr>ms_phase := next_p, ms_updated_at := now\<rparr>))"

definition abort_state ::
  "string \<Rightarrow> u64 \<Rightarrow> merge_state_file \<Rightarrow> (merge_state_error + unit) \<times> merge_state_file" where
  "abort_state reason now s =
     (if is_terminal (ms_phase s) then
        (Inl (InvalidTransition (ms_phase s) Aborted), s)
      else (Inr (), s\<lparr>ms_phase := Aborted, ms_abort_reason := Some reason, ms_updated_at := now\<rparr>))"

section \<open>Owner identity\<close>

text \<open>What the process can see of the machine: its pid, the contents of two files below \<open>/proc\<close>,
  the \<open>HOSTNAME\<close> variable, and which paths exist.\<close>

record machine =
  mc_pid :: u32
  mc_hostname_file :: "string option"
  mc_boot_id_file :: "string option"
  mc_hostname_var :: "string option"
  mc_exists :: "path \<Rightarrow> bool"

definition current_hostname :: "machine \<Rightarrow> string option" where
  "current_hostname mc =
     (case mc_hostname_file mc of
        Some h \<Rightarrow> if trim h \<noteq> [] then Some (trim h)
                  else (case mc_hostname_var mc of Some v \<Rightarrow> if v \<noteq> [] then Some v else None | None \<Rightarrow> None)
      | None \<Rightarrow> (case mc_hostname_var mc of Some v \<Rightarrow> if v \<noteq> [] then Some v else None | None \<Rightarrow> None))"

definition current_boot_id :: "machine \<Rightarrow> string option" where
  "current_boot_id mc =
     (case mc_boot_id_file mc of
        Some s \<Rightarrow> if trim s \<noteq> [] then Some (trim s) else None
      | None \<Rightarrow> None)"

definition process_is_alive :: "machine \<Rightarrow> u32 \<Rightarrow> bool option" where
  "process_is_alive mc pid =
     (if \<not> mc_exists mc [''proc'', ''self''] then None
      else Some (mc_exists mc [''proc'', show_nat (unat pid)]))"

definition stamp_owner :: "machine \<Rightarrow> merge_state_file \<Rightarrow> merge_state_file" where
  "stamp_owner mc s = s\<lparr>ms_owner_pid := Some (mc_pid mc), ms_owner_host := current_hostname mc,
     ms_owner_boot_id := current_boot_id mc\<rparr>"

datatype liveness = Alive | Dead | Unknown

datatype staleness = Live | Orphaned | Indeterminate

text \<open>\<open>if let Some(x) = a && let Some(y) = b && x != y\<close>.\<close>

definition known_to_differ :: "string option \<Rightarrow> string option \<Rightarrow> bool" where
  "known_to_differ a b = (case (a, b) of (Some x, Some y) \<Rightarrow> x \<noteq> y | _ \<Rightarrow> False)"

definition owner_liveness :: "machine \<Rightarrow> merge_state_file \<Rightarrow> liveness" where
  "owner_liveness mc s =
     (case ms_owner_pid s of
        None \<Rightarrow> Unknown
      | Some pid \<Rightarrow>
          if known_to_differ (ms_owner_host s) (current_hostname mc) then Unknown
          else if known_to_differ (ms_owner_boot_id s) (current_boot_id mc) then Dead
          else if pid = mc_pid mc then Alive
          else (case process_is_alive mc pid of
                  Some True \<Rightarrow> Alive | Some False \<Rightarrow> Dead | None \<Rightarrow> Unknown))"

definition saturating_sub :: "u64 \<Rightarrow> u64 \<Rightarrow> u64" where
  "saturating_sub a b = (if b \<le> a then a - b else 0)"

definition staleness_of :: "machine \<Rightarrow> u64 \<Rightarrow> u64 \<Rightarrow> merge_state_file \<Rightarrow> staleness" where
  "staleness_of mc now stale_after_secs s =
     (case owner_liveness mc s of
        Alive \<Rightarrow> Live
      | Dead \<Rightarrow> Orphaned
      | Unknown \<Rightarrow>
          let age = saturating_sub now (ms_updated_at s)
          in if ms_owner_pid s = None \<and> age \<ge> stale_after_secs then Orphaned else Indeterminate)"

definition DEFAULT_STALE_AFTER_SECS :: u64 where
  "DEFAULT_STALE_AFTER_SECS = 3600"

section \<open>Reading and writing the file\<close>

text \<open>The serde derives, a serializer and a parser that may fail with a message.\<close>

record merge_state_codec =
  mk_print :: "merge_state_file \<Rightarrow> string + string"
  mk_parse :: "string \<Rightarrow> string + merge_state_file"

definition to_json :: "merge_state_codec \<Rightarrow> merge_state_file \<Rightarrow> merge_state_error + string" where
  "to_json k s = (case mk_print k s of Inl e \<Rightarrow> Inl (MsSerialize e) | Inr j \<Rightarrow> Inr j)"

definition from_json :: "merge_state_codec \<Rightarrow> string \<Rightarrow> merge_state_error + merge_state_file" where
  "from_json k j = (case mk_parse k j of Inl e \<Rightarrow> Inl (MsDeserialize e) | Inr s \<Rightarrow> Inr s)"

definition ms_io :: "string \<Rightarrow> path \<Rightarrow> io_error \<Rightarrow> merge_state_error" where
  "ms_io what p e = MsIo (io_message what p e)"

text \<open>The message names both paths, with an arrow between them.\<close>

definition ms_rename_error :: "path \<Rightarrow> path \<Rightarrow> io_error \<Rightarrow> merge_state_error" where
  "ms_rename_error tmp p e =
     MsIo (io_message (''rename '' @ path_str tmp @ [CHR '' '', CHR 0xE2, CHR 0x86, CHR 0x92]) p e)"

definition write_exclusive ::
  "merge_state_codec \<Rightarrow> io_env \<Rightarrow> path \<Rightarrow> merge_state_file \<Rightarrow> (merge_state_error, bool) io" where
  "write_exclusive k env p s d =
     (case to_json k s of
        Inl e \<Rightarrow> (Inl e, d)
      | Inr json \<Rightarrow>
          (case fs_create_new env p d of
             (Inr _, d') \<Rightarrow>
               io_bind (io_map_err (ms_io ''write'' p) (fs_write_all env p json)) (\<lambda>_.
               io_bind (io_map_err (ms_io ''fsync'' p) (fs_sync_all env)) (\<lambda>_. io_ok True)) d'
           | (Inl IoAlreadyExists, d') \<Rightarrow> (Inr False, d')
           | (Inl e, d') \<Rightarrow> (Inl (ms_io ''create_new'' p e), d')))"

definition merge_state_tmp :: "path \<Rightarrow> path" where
  "merge_state_tmp p = butlast p @ [''.merge-state.tmp'']"

definition replace_merge_state :: "io_env \<Rightarrow> path \<Rightarrow> string \<Rightarrow> (merge_state_error, unit) io" where
  "replace_merge_state env p json =
     (case path_parent p of
        None \<Rightarrow> io_err (MsIo (''no parent directory for '' @ path_str p))
      | Some dir \<Rightarrow>
          let tmp = dir @ [''.merge-state.tmp'']
          in io_bind (io_map_err (ms_io ''create'' tmp) (fs_create env tmp)) (\<lambda>_.
             io_bind (io_map_err (ms_io ''write'' tmp) (fs_write_all env tmp json)) (\<lambda>_.
             io_bind (io_map_err (ms_io ''fsync'' tmp) (fs_sync_all env)) (\<lambda>_.
             io_map_err (ms_rename_error tmp p) (fs_rename env tmp p)))))"

definition write_atomic ::
  "merge_state_codec \<Rightarrow> io_env \<Rightarrow> path \<Rightarrow> merge_state_file \<Rightarrow> (merge_state_error, unit) io" where
  "write_atomic k env p s =
     (case to_json k s of
        Inl e \<Rightarrow> io_err e
      | Inr json \<Rightarrow> replace_merge_state env p json)"

definition read_merge_state ::
  "merge_state_codec \<Rightarrow> io_env \<Rightarrow> path \<Rightarrow> (merge_state_error, merge_state_file) io" where
  "read_merge_state k env p d =
     (case fs_read_to_string env p d of
        (Inl IoNotFound, d') \<Rightarrow> (Inl (MsNotFound p), d')
      | (Inl e, d') \<Rightarrow> (Inl (ms_io ''read'' p e), d')
      | (Inr contents, d') \<Rightarrow> (from_json k contents, d'))"

definition default_path :: "path \<Rightarrow> path" where
  "default_path manifold_dir = manifold_dir @ [''merge-state.json'']"

definition remove_merge_state_if_exists :: "io_env \<Rightarrow> path \<Rightarrow> (merge_state_error, unit) io" where
  "remove_merge_state_if_exists env p d =
     (case fs_remove_file env p d of
        (Inr _, d') \<Rightarrow> (Inr (), d')
      | (Inl IoNotFound, d') \<Rightarrow> (Inr (), d')
      | (Inl e, d') \<Rightarrow> (Inl (ms_io ''remove'' p e), d'))"

section \<open>Recovery, cleanup and abort\<close>

datatype recovery_outcome =
    NoMergeInProgress
  | AbortedPreCommit merge_phase
  | RetryValidate
  | CheckCommit
  | RetryCleanup
  | Terminal merge_phase

fun recovery_outcome_for_phase :: "merge_phase \<Rightarrow> recovery_outcome" where
  "recovery_outcome_for_phase Prepare = AbortedPreCommit Prepare"
| "recovery_outcome_for_phase Build = AbortedPreCommit Build"
| "recovery_outcome_for_phase Validate = RetryValidate"
| "recovery_outcome_for_phase Commit = CheckCommit"
| "recovery_outcome_for_phase Cleanup = RetryCleanup"
| "recovery_outcome_for_phase Complete = Terminal Complete"
| "recovery_outcome_for_phase Aborted = Terminal Aborted"

definition outcome_removes :: "recovery_outcome \<Rightarrow> bool" where
  "outcome_removes r = (case r of AbortedPreCommit _ \<Rightarrow> True | RetryCleanup \<Rightarrow> True | _ \<Rightarrow> False)"

definition recover_from_merge_state ::
  "merge_state_codec \<Rightarrow> io_env \<Rightarrow> path \<Rightarrow> (merge_state_error, recovery_outcome) io" where
  "recover_from_merge_state k env p d =
     (case read_merge_state k env p d of
        (Inl (MsNotFound _), d') \<Rightarrow> (Inr NoMergeInProgress, d')
      | (Inl e, d') \<Rightarrow> (Inl e, d')
      | (Inr state, d') \<Rightarrow>
          let outcome = recovery_outcome_for_phase (ms_phase state)
          in if outcome_removes outcome
             then io_bind (remove_merge_state_if_exists env p) (\<lambda>_. io_ok outcome) d'
             else (Inr outcome, d'))"

text \<open>The callback acts on a state of its own, here \<open>'w\<close>; the first error stops the loop.\<close>

fun destroy_all ::
  "(workspace_id \<Rightarrow> 'w \<Rightarrow> (merge_state_error + unit) \<times> 'w) \<Rightarrow> workspace_id list \<Rightarrow> 'w \<Rightarrow>
   (merge_state_error + unit) \<times> 'w" where
  "destroy_all destroy [] w = (Inr (), w)"
| "destroy_all destroy (x # xs) w =
     (case destroy x w of
        (Inl e, w') \<Rightarrow> (Inl e, w')
      | (Inr _, w') \<Rightarrow> destroy_all destroy xs w')"

definition run_cleanup_phase ::
  "io_env \<Rightarrow> merge_state_file \<Rightarrow> path \<Rightarrow> bool \<Rightarrow>
   (workspace_id \<Rightarrow> 'w \<Rightarrow> (merge_state_error + unit) \<times> 'w) \<Rightarrow> 'w \<times> disk \<Rightarrow>
   (merge_state_error + unit) \<times> 'w \<times> disk" where
  "run_cleanup_phase env state p destroy_workspaces destroy = (\<lambda>(w, d).
     (case (if destroy_workspaces then destroy_all destroy (ms_sources state) w else (Inr (), w)) of
        (Inl e, w') \<Rightarrow> (Inl e, w', d)
      | (Inr _, w') \<Rightarrow> (let (r, d') = remove_merge_state_if_exists env p d in (r, w', d'))))"

datatype abort_outcome =
    NothingToAbort
  | Cleared merge_phase
  | RefusedPostCommit merge_phase string

definition refuse_advanced :: "merge_state_file \<Rightarrow> bool \<Rightarrow> abort_outcome" where
  "refuse_advanced s epoch_at_candidate = RefusedPostCommit (ms_phase s)
     (''merge reached '' @ phase_str (ms_phase s) @ '' and the '' @
      (if epoch_at_candidate then ''epoch'' else ''target branch'') @
      '' already advanced to the merged commit; clearing now could orphan committed work'')"

definition refuse_drifted :: "merge_state_file \<Rightarrow> string \<Rightarrow> abort_outcome" where
  "refuse_drifted s observed = RefusedPostCommit (ms_phase s)
     (''epoch advanced since this merge started (was '' @ take 12 (epoch_str (ms_epoch_before s)) @
      '', now '' @ take 12 observed @
      ''); refusing to clear merge-state to avoid clobbering newer state'')"

definition abort_merge_state ::
  "merge_state_codec \<Rightarrow> io_env \<Rightarrow> path \<Rightarrow> string option \<Rightarrow> string option \<Rightarrow>
   (merge_state_error, abort_outcome) io" where
  "abort_merge_state k env p current_epoch current_target_head d =
     (case read_merge_state k env p d of
        (Inl (MsNotFound _), d') \<Rightarrow> (Inr NothingToAbort, d')
      | (Inl e, d') \<Rightarrow> (Inl e, d')
      | (Inr s, d') \<Rightarrow>
          let cleared = io_bind (remove_merge_state_if_exists env p) (\<lambda>_. io_ok (Cleared (ms_phase s)));
              post_commit = (ms_phase s = Commit \<or> ms_phase s = Cleanup);
              at_candidate = (\<lambda>head. case ms_epoch_candidate s of
                 Some c \<Rightarrow> head = Some (oid_str c) | None \<Rightarrow> False)
          in if is_terminal (ms_phase s) then cleared d'
             else if post_commit \<and> (at_candidate current_epoch \<or> at_candidate current_target_head) then
               (Inr (refuse_advanced s (at_candidate current_epoch)), d')
             else (case current_epoch of
                 Some observed \<Rightarrow>
                   if observed \<noteq> epoch_str (ms_epoch_before s) then (Inr (refuse_drifted s observed), d')
                   else cleared d'
               | None \<Rightarrow> cleared d'))"

section \<open>The phase machine\<close>

inductive ms_step :: "merge_state_file \<Rightarrow> merge_state_file \<Rightarrow> bool" where
  ms_advance: "advance next_p now s = (Inr (), s') \<Longrightarrow> ms_step s s'"
| ms_abort: "abort_state reason now s = (Inr (), s') \<Longrightarrow> ms_step s s'"

inductive_cases ms_stepE: "ms_step s s'"

definition phase_order :: "merge_phase list" where
  "phase_order = [Prepare, Build, Validate, Commit, Cleanup, Complete]"

lemma can_transition_iff:
  "can_transition_to p q \<longleftrightarrow> \<not> is_terminal p \<and>
     (q = Aborted \<or> (\<exists>i < 5. p = phase_order ! i \<and> q = phase_order ! Suc i))"
proof -
  have five: "(\<exists>i < 5. P i) \<longleftrightarrow> P 0 \<or> P 1 \<or> P 2 \<or> P 3 \<or> P (4 :: nat)" for P
    by (auto simp: eval_nat_numeral less_Suc_eq)
  show ?thesis
    by (cases p; cases q) (simp_all add: five can_transition_to_def is_terminal_def phase_order_def)
qed

lemma can_abort: "\<not> is_terminal p \<Longrightarrow> can_transition_to p Aborted"
  by (cases p) (simp_all add: can_transition_to_def is_terminal_def)

lemma ms_step_fields:
  assumes "ms_step s s'"
  shows "ms_sources s' = ms_sources s" "ms_epoch_before s' = ms_epoch_before s"
    "ms_started_at s' = ms_started_at s" "ms_epoch_candidate s' = ms_epoch_candidate s"
    "can_transition_to (ms_phase s) (ms_phase s')"
    "ms_abort_reason s' = ms_abort_reason s \<or> ms_phase s' = Aborted"
  using assms
  by (auto elim!: ms_stepE simp: advance_def abort_state_def can_abort split: if_splits)

lemma ms_stuck_iff: "(\<exists>s'. ms_step s s') \<longleftrightarrow> \<not> is_terminal (ms_phase s)"
proof
  assume "\<not> is_terminal (ms_phase s)"
  then have "abort_state [] 0 s = (Inr (), snd (abort_state [] 0 s))"
    by (simp add: abort_state_def)
  then show "\<exists>s'. ms_step s s'" by (blast intro: ms_abort)
qed (auto dest: ms_step_fields(5) simp: can_transition_iff)

lemma ms_run:
  assumes "(ms_step ^^ n) (merge_state_new src e now) s"
  shows "ms_sources s = src \<and> ms_epoch_before s = e \<and> ms_started_at s = now \<and> n \<le> 5
    \<and> (ms_phase s = Aborted \<or> (ms_phase s = phase_order ! n \<and> ms_abort_reason s = None))"
  using assms
proof (induction n arbitrary: s)
  case 0
  then show ?case by (auto simp: merge_state_new_def phase_order_def)
next
  case (Suc n)
  then obtain u where u: "(ms_step ^^ n) (merge_state_new src e now) u" "ms_step u s" by auto
  note IH = Suc.IH [OF u(1)]
  note st = ms_step_fields [OF u(2)]
  from st(5) have nt: "\<not> is_terminal (ms_phase u)" by (simp add: can_transition_iff)
  with IH have ph: "ms_phase u = phase_order ! n" "ms_abort_reason u = None"
    by (auto simp: is_terminal_def)
  with nt IH have n: "n < 5" by (cases "n = 5") (auto simp: phase_order_def is_terminal_def)
  have distinct: "distinct phase_order" by (simp add: phase_order_def)
  have "ms_phase s = Aborted \<or> ms_phase s = phase_order ! Suc n"
    using st(5) ph n nth_eq_iff_index_eq [OF distinct]
    by (auto simp: can_transition_iff phase_order_def [THEN arg_cong [where f = length]])
  with IH st n ph show ?case by auto
qed

section \<open>Files\<close>

interpretation ms_file: atomic_writer replace_merge_state merge_state_tmp
proof (unfold_locales, goal_cases)
  case (1 p env s d u d')
  then show ?case
    by (auto simp: replace_merge_state_def merge_state_tmp_def path_parent_def io_defs fs_defs Let_def
        split: option.splits if_splits)
next
  case (2 p env s d e d')
  then show ?case
    by (auto simp: replace_merge_state_def merge_state_tmp_def path_parent_def io_defs fs_defs Let_def
        split: option.splits if_splits)
next
  case (3 env p s d r d' q)
  then show ?case
    by (auto simp: replace_merge_state_def merge_state_tmp_def path_parent_def io_defs fs_defs Let_def
        split: option.splits if_splits)
qed

lemma read_merge_state_disk: "snd (read_merge_state k env p d) = d"
  by (auto simp: read_merge_state_def fs_defs io_defs split: option.splits sum.splits prod.splits io_error.splits)

lemma read_merge_state_healthy:
  "read_merge_state k io_healthy p d =
     (case bm_get d p of None \<Rightarrow> Inl (MsNotFound p) | Some j \<Rightarrow> from_json k j, d)"
  by (simp add: read_merge_state_def fs_defs io_defs io_healthy_def split: option.splits)

lemma remove_healthy:
  "remove_merge_state_if_exists io_healthy p d = (Inr (), bm_remove p d)"
proof (cases "bm_contains d p")
  case False
  then have "bm_remove p d = d" by (intro bm.eqI) (simp add: bm_contains_def)
  with False show ?thesis by (simp add: remove_merge_state_if_exists_def fs_defs io_defs io_healthy_def)
qed (simp add: remove_merge_state_if_exists_def fs_defs io_defs io_healthy_def)

lemma remove_ok:
  "remove_merge_state_if_exists env p d = (Inr u, d') \<Longrightarrow> bm_get d' p = None \<and> (\<forall>q. q \<noteq> p \<longrightarrow> bm_get d' q = bm_get d q)"
  by (auto simp: remove_merge_state_if_exists_def fs_defs io_defs bm_contains_def split: option.splits if_splits)

lemma outcome_for_phase:
  "outcome_removes (recovery_outcome_for_phase ph) \<longleftrightarrow> ph = Prepare \<or> ph = Build \<or> ph = Cleanup"
  "recovery_outcome_for_phase ph \<noteq> NoMergeInProgress"
  by (cases ph; simp add: outcome_removes_def)+

lemma destroy_all_ok:
  "destroy_all destroy xs w = (Inr u, w') \<Longrightarrow> w' = fold (\<lambda>x. snd \<circ> destroy x) xs w"
  by (induction xs arbitrary: w) (auto split: prod.splits sum.splits)

section \<open>Properties\<close>

text \<open>A merge that has made \<open>n\<close> transitions has made at most five, keeps its sources, starting
  epoch and start time, is aborted or in the \<open>n\<close>-th phase of the forward order with no abort reason,
  and can go on exactly when its phase is not terminal.\<close>

theorem merge_phases_bounded:
  assumes "(ms_step ^^ n) (merge_state_new src e now) s"
  shows "n \<le> 5 \<and> ms_sources s = src \<and> ms_epoch_before s = e \<and> ms_started_at s = now
    \<and> (ms_phase s = Aborted \<or> (ms_phase s = phase_order ! n \<and> ms_abort_reason s = None))
    \<and> ((\<exists>s'. ms_step s s') \<longleftrightarrow> \<not> is_terminal (ms_phase s))"
  using ms_run [OF assms] ms_stuck_iff by blast

text \<open>A merge state counts as orphaned only on proof: either it has no recorded owner and has not
  been touched for the threshold, or its owner is not known to be on another host and either the
  machine has rebooted or the process, which is not this one, is gone. The state a process has just
  stamped is live for that process.\<close>

theorem staleness_orphaned_iff:
  "(staleness_of mc now limit s = Orphaned \<longleftrightarrow>
      (case ms_owner_pid s of
         None \<Rightarrow> limit \<le> saturating_sub now (ms_updated_at s)
       | Some pid \<Rightarrow> \<not> known_to_differ (ms_owner_host s) (current_hostname mc)
           \<and> (known_to_differ (ms_owner_boot_id s) (current_boot_id mc)
              \<or> (pid \<noteq> mc_pid mc \<and> process_is_alive mc pid = Some False))))
   \<and> staleness_of mc now limit (stamp_owner mc s) = Live"
proof -
  have [simp]: "\<not> known_to_differ x x" for x by (cases x) (simp_all add: known_to_differ_def)
  show ?thesis
    by (auto simp: staleness_of_def owner_liveness_def stamp_owner_def Let_def
        split: option.splits bool.splits)
qed

text \<open>C5. \<open>write_atomic\<close> either succeeds, and then the file reads back as the state written, or fails
  at some call, and then the file holds what it held before.\<close>

theorem write_atomic_crash_safe:
  assumes "merge_state_tmp p \<noteq> p" "mk_print k s = Inr json" "mk_parse k json = Inr s"
    and "write_atomic k env p s d = (r, d')"
  shows "case r of
      Inl e \<Rightarrow> bm_get d' p = bm_get d p
    | Inr u \<Rightarrow> read_merge_state k io_healthy p d' = (Inr s, d')"
proof -
  have "replace_merge_state env p json d = (r, d')"
    using assms(2,4) by (simp add: write_atomic_def to_json_def)
  then show ?thesis
    using ms_file.w_done [OF assms(1)] ms_file.w_failed [OF assms(1)] assms(3)
    by (cases r) (auto simp: read_merge_state_healthy from_json_def)
qed

text \<open>Processes that take their turns at the exclusive write.\<close>

fun contend ::
  "merge_state_codec \<Rightarrow> path \<Rightarrow> merge_state_file list \<Rightarrow> disk \<Rightarrow> (merge_state_error + bool) list \<times> disk" where
  "contend k p [] d = ([], d)"
| "contend k p (s # ss) d =
     (let (r, d') = write_exclusive k io_healthy p s d; (rs, d'') = contend k p ss d' in (r # rs, d''))"

lemma contend_taken:
  "\<forall>s \<in> set ss. \<exists>j. mk_print k s = Inr j \<Longrightarrow> bm_contains d p \<Longrightarrow>
   contend k p ss d = (replicate (length ss) (Inr False), d)"
  by (induction ss) (auto simp: write_exclusive_def to_json_def fs_defs io_defs io_healthy_def)

text \<open>Of several processes that create the merge state exclusively, one after the other on a disk
  without the file, exactly the first wins and the file is its own.\<close>

theorem write_exclusive_one_winner:
  assumes "\<forall>x \<in> set (s # ss). \<exists>j. mk_print k x = Inr j" "mk_print k s = Inr json"
    and "bm_get d p = None"
  shows "contend k p (s # ss) d = (Inr True # replicate (length ss) (Inr False), bm_insert p json d)"
proof -
  have "bm_insert p json (bm_insert p [] d) = bm_insert p json d"
    by (rule bm.eqI) simp
  then have "write_exclusive k io_healthy p s d = (Inr True, bm_insert p json d)"
    using assms(2,3)
    by (simp add: write_exclusive_def to_json_def fs_defs io_defs io_healthy_def bm_contains_def)
  moreover have "contend k p ss (bm_insert p json d) = (replicate (length ss) (Inr False), bm_insert p json d)"
    using assms(1) by (intro contend_taken) auto
  ultimately show ?thesis by simp
qed

text \<open>The exclusive write itself is not crash safe: dying while the text is written leaves the
  first part of it under the final name; later exclusive writers then take the merge for running, and
  recovery fails with a parse error and leaves the file where it is.\<close>

theorem write_exclusive_torn:
  assumes "bm_get d p = None" "mk_print k s = Inr json" "mk_print k s2 = Inr json2"
    and "io_fault env OpenNew = None" "io_fault env WriteAll = Some msg"
    and "mk_parse k (take (io_torn env) json) = Inl e"
    and "write_exclusive k env p s d = (r, d')"
  shows "bm_get d' p = Some (take (io_torn env) json)
    \<and> write_exclusive k io_healthy p s2 d' = (Inr False, d')
    \<and> recover_from_merge_state k io_healthy p d' = (Inl (MsDeserialize e), d')"
proof -
  have d': "bm_get d' p = Some (take (io_torn env) json)"
    using assms by (auto simp: write_exclusive_def to_json_def fs_defs io_defs bm_contains_def)
  then have "write_exclusive k io_healthy p s2 d' = (Inr False, d')"
    using assms(3) by (simp add: write_exclusive_def to_json_def fs_defs io_defs io_healthy_def bm_contains_def)
  with d' show ?thesis
    using assms(6) by (simp add: recover_from_merge_state_def read_merge_state_healthy from_json_def)
qed

text \<open>Recovery removes the merge state exactly in the phases before validation and in cleanup,
  touches no other file, and when run again reports what is left to do: the same action if the file
  is kept, no merge in progress if it was removed.\<close>

theorem recovery_idempotent:
  assumes "bm_get d p = Some json" "mk_parse k json = Inr s"
    and "recover_from_merge_state k io_healthy p d = (r, d')"
  shows "r = Inr (recovery_outcome_for_phase (ms_phase s))
    \<and> d' = (if ms_phase s \<in> {Prepare, Build, Cleanup} then bm_remove p d else d)
    \<and> recover_from_merge_state k io_healthy p d' =
        (if ms_phase s \<in> {Prepare, Build, Cleanup} then Inr NoMergeInProgress else r, d')"
proof -
  have run: "recover_from_merge_state k io_healthy p d =
      (Inr (recovery_outcome_for_phase (ms_phase s)),
       if ms_phase s \<in> {Prepare, Build, Cleanup} then bm_remove p d else d)"
    using assms(1,2)
    by (simp add: recover_from_merge_state_def read_merge_state_healthy from_json_def Let_def
        outcome_for_phase(1) remove_healthy io_defs)
  moreover have "recover_from_merge_state k io_healthy p (bm_remove p d) = (Inr NoMergeInProgress, bm_remove p d)"
    by (simp add: recover_from_merge_state_def read_merge_state_healthy)
  ultimately show ?thesis using assms(3) by auto
qed

text \<open>Explicit abort clears a running merge only while the epoch reference, when it is there, still
  is the one the merge started from and, once committing has begun, neither the epoch nor the target
  branch is at the candidate; a refusal changes nothing.\<close>

theorem abort_keeps_committed_work:
  assumes "bm_get d p = Some json" "mk_parse k json = Inr s"
    and "abort_merge_state k io_healthy p cur_epoch cur_head d = (r, d')"
  shows "case r of
      Inr (Cleared ph) \<Rightarrow> ph = ms_phase s \<and> d' = bm_remove p d \<and>
        (is_terminal ph \<or>
          ((cur_epoch = None \<or> cur_epoch = Some (epoch_str (ms_epoch_before s)))
           \<and> (ph \<notin> {Commit, Cleanup} \<or> (\<forall>c. ms_epoch_candidate s = Some c \<longrightarrow>
                 cur_epoch \<noteq> Some (oid_str c) \<and> cur_head \<noteq> Some (oid_str c)))))
    | Inr (RefusedPostCommit ph why) \<Rightarrow> ph = ms_phase s \<and> d' = d \<and> \<not> is_terminal ph
    | _ \<Rightarrow> False"
  using assms
  by (auto simp: abort_merge_state_def read_merge_state_healthy from_json_def Let_def io_defs
      remove_healthy refuse_advanced_def refuse_drifted_def split: if_splits option.splits)

section \<open>Witnesses\<close>

definition sample_state :: "merge_phase \<Rightarrow> merge_state_file" where
  "sample_state ph = (merge_state_new [sample_ws ''alice'', sample_ws ''bob''] (sample_epoch CHR ''a'') 100)
     \<lparr>ms_phase := ph, ms_epoch_candidate := Some (sample_oid CHR ''c'')\<rparr>"

text \<open>A codec for the sample states: the text is the name of the phase in brackets.\<close>

definition sample_codec :: merge_state_codec where
  "sample_codec = \<lparr>mk_print = (\<lambda>s. Inr (''{'' @ phase_str (ms_phase s) @ ''}'')),
     mk_parse = (\<lambda>j. if j = ''{prepare}'' then Inr (sample_state Prepare)
                     else if j = ''{commit}'' then Inr (sample_state Commit) else Inl ''EOF'')\<rparr>"

abbreviation "sample_path \<equiv> default_path [''.manifold'']"
abbreviation "sample_disk j \<equiv> bm_insert sample_path j bm_empty"

lemma merge_phases_bounded_witness:
  "(1 :: nat) \<le> 5 \<and> (ms_phase (snd (advance Build 7 (merge_state_new [] (sample_epoch CHR ''a'') 3))) = Build)"
proof -
  have "(ms_step ^^ 1) (merge_state_new [] (sample_epoch CHR ''a'') 3)
      (snd (advance Build 7 (merge_state_new [] (sample_epoch CHR ''a'') 3)))"
    using ms_advance [of Build 7] by (auto simp: advance_def can_transition_to_def merge_state_new_def)
  from merge_phases_bounded [OF this] show ?thesis
    by (auto simp: phase_order_def advance_def can_transition_to_def merge_state_new_def)
qed

lemma write_atomic_crash_safe_witness:
  "case write_atomic sample_codec io_healthy sample_path (sample_state Prepare) bm_empty of
     (Inl e, d') \<Rightarrow> bm_get d' sample_path = None
   | (Inr u, d') \<Rightarrow> read_merge_state sample_codec io_healthy sample_path d' = (Inr (sample_state Prepare), d')"
proof -
  obtain r d' where run: "write_atomic sample_codec io_healthy sample_path (sample_state Prepare) bm_empty = (r, d')"
    by force
  have "merge_state_tmp sample_path \<noteq> sample_path" by code_simp
  from write_atomic_crash_safe [OF this _ _ run, of "''{prepare}''"] run show ?thesis
    by (cases r) (auto simp: sample_codec_def sample_state_def)
qed

lemma write_exclusive_one_winner_witness:
  "contend sample_codec sample_path [sample_state Prepare, sample_state Commit] bm_empty =
     ([Inr True, Inr False], sample_disk ''{prepare}'')"
  using write_exclusive_one_winner [of "sample_state Prepare" "[sample_state Commit]" sample_codec
      "''{prepare}''" bm_empty sample_path]
  by (simp add: sample_codec_def sample_state_def)

lemma write_exclusive_torn_witness:
  "let d' = snd (write_exclusive sample_codec \<lparr>io_fault = (\<lambda>c. if c = WriteAll then Some ''killed'' else None), io_torn = 3\<rparr>
        sample_path (sample_state Prepare) bm_empty)
   in recover_from_merge_state sample_codec io_healthy sample_path d' = (Inl (MsDeserialize ''EOF''), d')"
proof -
  let ?env = "\<lparr>io_fault = (\<lambda>c. if c = WriteAll then Some ''killed'' else None), io_torn = 3\<rparr>"
  obtain r d' where run: "write_exclusive sample_codec ?env sample_path (sample_state Prepare) bm_empty = (r, d')"
    by force
  from write_exclusive_torn [OF _ _ _ _ _ _ run, of "''{prepare}''" "sample_state Commit" "''{commit}''" "''killed''" "''EOF''"]
  show ?thesis unfolding run by (simp add: sample_codec_def sample_state_def)
qed

lemma recovery_idempotent_witness:
  "recover_from_merge_state sample_codec io_healthy sample_path (sample_disk ''{prepare}'') =
     (Inr (AbortedPreCommit Prepare), bm_remove sample_path (sample_disk ''{prepare}''))"
proof -
  obtain r d' where run: "recover_from_merge_state sample_codec io_healthy sample_path (sample_disk ''{prepare}'') = (r, d')"
    by force
  from recovery_idempotent [OF _ _ run, of "''{prepare}''" "sample_state Prepare"] run show ?thesis
    by (simp add: sample_codec_def sample_state_def)
qed

lemma abort_keeps_committed_work_witness:
  "\<exists>why. abort_merge_state sample_codec io_healthy sample_path (Some (oid_str (sample_oid CHR ''c''))) None
     (sample_disk ''{commit}'') = (Inr (RefusedPostCommit Commit why), sample_disk ''{commit}'')"
proof -
  let ?d = "sample_disk ''{commit}''"
  obtain r d' where run: "abort_merge_state sample_codec io_healthy sample_path
      (Some (oid_str (sample_oid CHR ''c''))) None ?d = (r, d')"
    by force
  have "sample_epoch CHR ''a'' \<noteq> EpochId (sample_oid CHR ''c'')" by code_simp
  with abort_keeps_committed_work [OF _ _ run, of "''{commit}''" "sample_state Commit"] run show ?thesis
    by (auto simp: sample_codec_def sample_state_def is_terminal_def split: sum.splits abort_outcome.splits)
qed

end
