(* ===== verification/Git_Refs.thy ===== *)
theory Git_Refs
  imports Core_Types Ordered_Map
begin

unbundle bit_operations_syntax

text \<open>
  References: the object ids, reference names and errors of \<open>crates/maw-git/src/types.rs\<close> and
  \<open>error.rs\<close>, and the reference helpers of \<open>crates/maw-core/src/refs.rs\<close> above them. The backend is
  the trait object \<open>dyn GitRepo\<close>, a record of functions over a repository state of any type; what its
  documentation promises of the reference operations is the predicate \<open>ref_backend_ok\<close>.
\<close>

section \<open>Raw object ids\<close>

datatype raw_oid = RawOid (oid_bytes: "u8 list")

definition ZERO :: raw_oid where
  "ZERO = RawOid (replicate 20 0)"

definition is_zero :: "raw_oid \<Rightarrow> bool" where
  "is_zero oid \<longleftrightarrow> oid = ZERO"

text \<open>Two digits per byte, \<open>{byte:02x}\<close>; the parser also takes uppercase digits.\<close>

definition byte_hex :: "u8 \<Rightarrow> string" where
  "byte_hex b = [hex_char (unat b div 16), hex_char (unat b mod 16)]"

definition raw_oid_str :: "raw_oid \<Rightarrow> string" where
  "raw_oid_str oid = concat (map byte_hex (oid_bytes oid))"

definition oid_hex_digit :: "char \<Rightarrow> nat option" where
  "oid_hex_digit c =
     (case hex_digit c of Some d \<Rightarrow> Some d | None \<Rightarrow> index_from 10 c ''ABCDEF'')"

record oid_parse_error =
  ope_value :: string
  ope_reason :: string

definition oid_parse_error_str :: "oid_parse_error \<Rightarrow> string" where
  "oid_parse_error_str e = ''invalid OID '' @ debug_str (ope_value e) @ '': '' @ ope_reason e"

fun parse_oid_bytes :: "string \<Rightarrow> string \<Rightarrow> oid_parse_error + u8 list" where
  "parse_oid_bytes s (c1 # c2 # cs) =
     (case oid_hex_digit c1 of
        None \<Rightarrow> Inl \<lparr>ope_value = s, ope_reason = ''invalid hex digit '' @ [c1]\<rparr>
      | Some hi \<Rightarrow>
          (case oid_hex_digit c2 of
             None \<Rightarrow> Inl \<lparr>ope_value = s, ope_reason = ''invalid hex digit '' @ [c2]\<rparr>
           | Some lo \<Rightarrow>
               res_bind (parse_oid_bytes s cs)
                 (\<lambda>bs. Inr ((push_bit 4 (word_of_nat hi) OR word_of_nat lo) # bs))))"
| "parse_oid_bytes s _ = Inr []"

definition raw_oid_from_str :: "string \<Rightarrow> oid_parse_error + raw_oid" where
  "raw_oid_from_str s =
     (if length s \<noteq> 40 then
        Inl \<lparr>ope_value = s, ope_reason = ''expected 40 hex characters, got '' @ show_nat (length s)\<rparr>
      else res_bind (parse_oid_bytes s s) (\<lambda>bs. Inr (RawOid bs)))"

lemma byte_from_digits:
  assumes "hi < 16" "lo < 16"
  shows "unat (push_bit 4 (word_of_nat hi) OR word_of_nat lo :: u8) = hi * 16 + lo"
proof -
  have "\<forall>hi \<in> set [0..<16]. \<forall>lo \<in> set [0..<16].
      unat (push_bit 4 (word_of_nat hi) OR word_of_nat lo :: u8) = hi * 16 + lo"
    by code_simp
  with assms show ?thesis by simp
qed

lemma parse_oid_lower:
  "list_all lower_hex t \<Longrightarrow> even (length t) \<Longrightarrow>
   \<exists>bs. parse_oid_bytes s t = Inr bs \<and> length bs = length t div 2 \<and> concat (map byte_hex bs) = t"
proof (induction s t rule: parse_oid_bytes.induct)
  case (1 s c1 c2 cs)
  obtain hi where hi: "hex_digit c1 = Some hi" using 1 hex_digit_eq_None [of c1] by auto
  obtain lo where lo: "hex_digit c2 = Some lo" using 1 hex_digit_eq_None [of c2] by auto
  note digits = hex_digit_Some [OF hi] hex_digit_Some [OF lo]
  have "\<exists>bs. parse_oid_bytes s cs = Inr bs \<and> length bs = length cs div 2 \<and> concat (map byte_hex bs) = cs"
    using 1 hi lo by (auto simp: oid_hex_digit_def)
  moreover have "byte_hex (push_bit 4 (word_of_nat hi) OR word_of_nat lo) = [c1, c2]"
    using digits byte_from_digits [of hi lo] by (simp add: byte_hex_def)
  ultimately show ?case
    using hi lo by (auto simp: oid_hex_digit_def)
qed auto

text \<open>A valid object id survives the conversion to bytes and back.\<close>

lemma raw_oid_roundtrip:
  assumes "length s = 40" "list_all lower_hex s"
  shows "\<exists>r. raw_oid_from_str s = Inr r \<and> raw_oid_str r = s"
  using parse_oid_lower [OF assms(2), of s] assms(1)
  by (auto simp: raw_oid_from_str_def raw_oid_str_def)

lemma byte_hex_inj: "byte_hex a = byte_hex b \<longleftrightarrow> a = b"
proof
  assume eq: "byte_hex a = byte_hex b"
  have digits: "hex_char i = hex_char j \<Longrightarrow> i < 16 \<Longrightarrow> j < 16 \<Longrightarrow> i = j" for i j
    by (metis hex_digit_char option.inject)
  have bound: "unat c div 16 < 16" for c :: u8
    using unsigned_less [of c, where ?'a = nat] by (simp add: less_mult_imp_div_less)
  from eq have "unat a div 16 = unat b div 16" "unat a mod 16 = unat b mod 16"
    using digits bound by (auto simp: byte_hex_def)
  then have "unat a = unat b" by (metis mult_div_mod_eq)
  then show "a = b" by (simp add: word_unat_eq_iff)
qed simp

lemma raw_oid_str_inj: "raw_oid_str a = raw_oid_str b \<longleftrightarrow> a = b"
proof
  have "concat (map byte_hex xs) = concat (map byte_hex ys) \<Longrightarrow> xs = ys" for xs ys
  proof (induction xs arbitrary: ys)
    case Nil
    then show ?case by (cases ys) (auto simp: byte_hex_def)
  next
    case (Cons x xs)
    from Cons.prems obtain y zs where ys: "ys = y # zs" by (cases ys) (auto simp: byte_hex_def)
    have "byte_hex x @ concat (map byte_hex xs) = byte_hex y @ concat (map byte_hex zs)"
      using Cons.prems by (simp add: ys)
    then have "byte_hex x = byte_hex y" "concat (map byte_hex xs) = concat (map byte_hex zs)"
      by (simp_all add: byte_hex_def)
    with Cons.IH show ?case by (simp add: ys byte_hex_inj)
  qed
  then show "raw_oid_str a = raw_oid_str b \<Longrightarrow> a = b"
    by (simp add: raw_oid_str_def raw_oid.expand)
qed simp

section \<open>Reference names and edits\<close>

datatype ref_name = RefName (ref_str: string)

definition BARE_REFS :: "string list" where
  "BARE_REFS = [''HEAD'', ''FETCH_HEAD'', ''MERGE_HEAD'', ''ORIG_HEAD'', ''CHERRY_PICK_HEAD'']"

record ref_name_error =
  rne_value :: string
  rne_reason :: string

definition ref_name_new :: "string \<Rightarrow> ref_name_error + ref_name" where
  "ref_name_new name =
     (if name = [] then Inl \<lparr>rne_value = name, rne_reason = ''ref name must not be empty''\<rparr>
      else if prefix ''refs/'' name \<or> name \<in> set BARE_REFS then Inr (RefName name)
      else Inl \<lparr>rne_value = name,
                rne_reason = ''ref name must start with 'refs/' or be a well-known ref (HEAD, etc.)''\<rparr>)"

record ref_edit =
  re_name :: ref_name
  re_new_oid :: raw_oid
  re_expected_old_oid :: raw_oid

section \<open>Errors\<close>

datatype git_error =
    GitNotFound string
  | RefConflict string string
  | DirtyWorktree path string
  | GitInvalidOid string string
  | GitIoError string
  | PushFailed string string
  | MergeConflict string
  | BackendError string

fun git_error_str :: "git_error \<Rightarrow> string" where
  "git_error_str (GitNotFound m) = ''not found: '' @ m"
| "git_error_str (RefConflict r m) = ''ref conflict on `'' @ r @ ''`: '' @ m"
| "git_error_str (DirtyWorktree p m) = ''dirty worktree at '' @ path_str p @ '': '' @ m"
| "git_error_str (GitInvalidOid v r) = ''invalid OID `'' @ v @ ''`: '' @ r"
| "git_error_str (GitIoError e) = ''I/O error: '' @ e"
| "git_error_str (PushFailed r m) = ''push to `'' @ r @ ''` failed: '' @ m"
| "git_error_str (MergeConflict m) = ''merge conflict: '' @ m"
| "git_error_str (BackendError m) = ''git backend error: '' @ m"

datatype ref_error =
    GitCommand string string "32 word option"
  | RefIo string
  | InvalidOid string string
  | CasMismatch string

fun map_git_error :: "string \<Rightarrow> git_error \<Rightarrow> ref_error" where
  "map_git_error name (RefConflict r m) = CasMismatch r"
| "map_git_error name (GitIoError e) = RefIo e"
| "map_git_error name (GitInvalidOid v r) = InvalidOid name (v @ '': '' @ r)"
| "map_git_error name (BackendError m) =
     (if sublist ''should have content'' m \<or> sublist ''cannot lock ref'' m \<or> sublist ''but expected'' m
      then CasMismatch name
      else GitCommand name (git_error_str (BackendError m)) None)"
| "map_git_error name e = GitCommand name (git_error_str e) None"

section \<open>The backend\<close>

record 's ref_backend =
  rb_open :: "path \<Rightarrow> 's \<Rightarrow> git_error option"
  rb_read_ref :: "ref_name \<Rightarrow> 's \<Rightarrow> git_error + raw_oid option"
  rb_write_ref :: "ref_name \<Rightarrow> raw_oid \<Rightarrow> string \<Rightarrow> 's \<Rightarrow> (git_error + unit) \<times> 's"
  rb_delete_ref :: "ref_name \<Rightarrow> 's \<Rightarrow> (git_error + unit) \<times> 's"
  rb_atomic_ref_update :: "ref_edit list \<Rightarrow> 's \<Rightarrow> (git_error + unit) \<times> 's"
  rb_rev_parse_opt :: "string \<Rightarrow> 's \<Rightarrow> git_error + raw_oid option"

text \<open>The documented contract of the reference operations, where \<open>view s\<close> is what the references of
  the repository state \<open>s\<close> point at: reads report it, a failed call leaves it alone, and a batch of
  edits is applied as a whole if every expected value is current (zero: absent) or not at all.\<close>

definition edit_matches :: "(string \<Rightarrow> raw_oid option) \<Rightarrow> ref_edit \<Rightarrow> bool" where
  "edit_matches v e \<longleftrightarrow> v (ref_str (re_name e)) =
     (if is_zero (re_expected_old_oid e) then None else Some (re_expected_old_oid e))"

definition apply_edits :: "ref_edit list \<Rightarrow> (string \<Rightarrow> raw_oid option) \<Rightarrow> string \<Rightarrow> raw_oid option" where
  "apply_edits es v = fold (\<lambda>e v. v(ref_str (re_name e) \<mapsto> re_new_oid e)) es v"

definition ref_backend_ok :: "'s ref_backend \<Rightarrow> ('s \<Rightarrow> string \<Rightarrow> raw_oid option) \<Rightarrow> bool" where
  "ref_backend_ok B view \<longleftrightarrow>
     (\<forall>n s x. rb_read_ref B n s = Inr x \<longrightarrow> x = view s (ref_str n)) \<and>
     (\<forall>n s m. rb_read_ref B n s = Inl (GitNotFound m) \<longrightarrow> view s (ref_str n) = None) \<and>
     (\<forall>es s s'. rb_atomic_ref_update B es s = (Inr (), s') \<longrightarrow>
        (\<forall>e \<in> set es. edit_matches (view s) e) \<and> view s' = apply_edits es (view s)) \<and>
     (\<forall>es s s' e. rb_atomic_ref_update B es s = (Inl e, s') \<longrightarrow> view s' = view s)"

section \<open>Reference helpers\<close>

definition EPOCH_CURRENT :: string where
  "EPOCH_CURRENT = ''refs/manifold/epoch/current''"

definition HEAD_PREFIX :: string where
  "HEAD_PREFIX = ''refs/manifold/head/''"

definition WORKSPACE_STATE_PREFIX :: string where
  "WORKSPACE_STATE_PREFIX = ''refs/manifold/ws/''"

definition WORKSPACE_EPOCH_PREFIX :: string where
  "WORKSPACE_EPOCH_PREFIX = ''refs/manifold/epoch/ws/''"

definition workspace_head_ref :: "string \<Rightarrow> string" where
  "workspace_head_ref n = HEAD_PREFIX @ n"

definition workspace_state_ref :: "string \<Rightarrow> string" where
  "workspace_state_ref n = WORKSPACE_STATE_PREFIX @ n"

definition workspace_epoch_ref :: "string \<Rightarrow> string" where
  "workspace_epoch_ref n = WORKSPACE_EPOCH_PREFIX @ n"

definition workspace_owned_refs :: "string \<Rightarrow> string list" where
  "workspace_owned_refs n = [workspace_state_ref n, workspace_epoch_ref n, workspace_head_ref n]"

definition workspace_recovery_refs_prefix :: "string \<Rightarrow> string" where
  "workspace_recovery_refs_prefix n = ''refs/manifold/recovery/'' @ n @ ''/''"

definition to_git_oid :: "git_oid \<Rightarrow> ref_error + raw_oid" where
  "to_git_oid oid = (case raw_oid_from_str (oid_str oid) of
     Inl e \<Rightarrow> Inl (InvalidOid [] (''invalid OID '' @ ope_value e @ '': '' @ ope_reason e))
   | Inr r \<Rightarrow> Inr r)"

definition from_git_oid :: "raw_oid \<Rightarrow> ref_error + git_oid" where
  "from_git_oid r = (case git_oid_new (raw_oid_str r) of
     Inl e \<Rightarrow> Inl (InvalidOid [] (raw_oid_str r))
   | Inr g \<Rightarrow> Inr g)"

definition to_ref_name :: "string \<Rightarrow> ref_error + ref_name" where
  "to_ref_name n = (case ref_name_new n of
     Inl e \<Rightarrow> Inl (GitCommand (''ref name validation: '' @ n)
                 (''invalid ref name '' @ rne_value e @ '': '' @ rne_reason e) None)
   | Inr r \<Rightarrow> Inr r)"

definition map_err :: "('e \<Rightarrow> 'f) \<Rightarrow> 'e + 'a \<Rightarrow> 'f + 'a" where
  "map_err f r = (case r of Inl e \<Rightarrow> Inl (f e) | Inr x \<Rightarrow> Inr x)"

definition open_repo :: "'s ref_backend \<Rightarrow> path \<Rightarrow> 's \<Rightarrow> ref_error + unit" where
  "open_repo B root s = (case rb_open B root s of
     Some e \<Rightarrow> Inl (GitCommand (''open repo at '' @ path_str root) (git_error_str e) None)
   | None \<Rightarrow> Inr ())"

definition lift_oid :: "raw_oid option \<Rightarrow> ref_error + git_oid option" where
  "lift_oid x = (case x of
     None \<Rightarrow> Inr None
   | Some oid \<Rightarrow> res_bind (from_git_oid oid) (\<lambda>g. Inr (Some g)))"

definition read_ref_via :: "'s ref_backend \<Rightarrow> string \<Rightarrow> 's \<Rightarrow> ref_error + git_oid option" where
  "read_ref_via B name s =
     (case to_ref_name name of
        Inr ref_name \<Rightarrow>
          (case rb_read_ref B ref_name s of
             Inr x \<Rightarrow> lift_oid x
           | Inl (GitNotFound m) \<Rightarrow> Inr None
           | Inl e \<Rightarrow> Inl (map_git_error name e))
      | Inl _ \<Rightarrow>
          (case rb_rev_parse_opt B name s of
             Inr x \<Rightarrow> lift_oid x
           | Inl e \<Rightarrow> Inl (map_git_error name e)))"

definition read_ref :: "'s ref_backend \<Rightarrow> path \<Rightarrow> string \<Rightarrow> 's \<Rightarrow> ref_error + git_oid option" where
  "read_ref B root name s = res_bind (open_repo B root s) (\<lambda>_. read_ref_via B name s)"

definition write_ref_via ::
  "'s ref_backend \<Rightarrow> string \<Rightarrow> git_oid \<Rightarrow> 's \<Rightarrow> (ref_error + unit) \<times> 's" where
  "write_ref_via B name oid s =
     (case res_bind (to_ref_name name) (\<lambda>n. res_bind (to_git_oid oid) (\<lambda>o'. Inr (n, o'))) of
        Inl e \<Rightarrow> (Inl e, s)
      | Inr (ref_name, git_oid) \<Rightarrow>
          (let (r, s') = rb_write_ref B ref_name git_oid [] s in (map_err (map_git_error name) r, s')))"

definition write_ref ::
  "'s ref_backend \<Rightarrow> path \<Rightarrow> string \<Rightarrow> git_oid \<Rightarrow> 's \<Rightarrow> (ref_error + unit) \<times> 's" where
  "write_ref B root name oid s =
     (case open_repo B root s of Inl e \<Rightarrow> (Inl e, s) | Inr _ \<Rightarrow> write_ref_via B name oid s)"

definition write_ref_cas_via ::
  "'s ref_backend \<Rightarrow> string \<Rightarrow> git_oid \<Rightarrow> git_oid \<Rightarrow> 's \<Rightarrow> (ref_error + unit) \<times> 's" where
  "write_ref_cas_via B name old_oid new_oid s =
     (case res_bind (to_ref_name name) (\<lambda>n. res_bind (to_git_oid old_oid) (\<lambda>old.
             res_bind (to_git_oid new_oid) (\<lambda>new. Inr (n, old, new)))) of
        Inl e \<Rightarrow> (Inl e, s)
      | Inr (ref_name, old, new) \<Rightarrow>
          if is_zero old \<and> (case rb_read_ref B ref_name s of Inr (Some _) \<Rightarrow> True | _ \<Rightarrow> False)
          then (Inl (CasMismatch name), s)
          else (let (r, s') = rb_atomic_ref_update B
                  [\<lparr>re_name = ref_name, re_new_oid = new, re_expected_old_oid = old\<rparr>] s
                in (map_err (map_git_error name) r, s')))"

definition write_ref_cas ::
  "'s ref_backend \<Rightarrow> path \<Rightarrow> string \<Rightarrow> git_oid \<Rightarrow> git_oid \<Rightarrow> 's \<Rightarrow> (ref_error + unit) \<times> 's" where
  "write_ref_cas B root name old_oid new_oid s =
     (case open_repo B root s of Inl e \<Rightarrow> (Inl e, s) | Inr _ \<Rightarrow> write_ref_cas_via B name old_oid new_oid s)"

fun collect_edits :: "(string \<times> git_oid \<times> git_oid) list \<Rightarrow> ref_error + ref_edit list" where
  "collect_edits [] = Inr []"
| "collect_edits ((name, old_oid, new_oid) # us) =
     res_bind (to_ref_name name) (\<lambda>n. res_bind (to_git_oid new_oid) (\<lambda>new.
     res_bind (to_git_oid old_oid) (\<lambda>old. res_bind (collect_edits us) (\<lambda>es.
       Inr (\<lparr>re_name = n, re_new_oid = new, re_expected_old_oid = old\<rparr> # es)))))"

definition update_refs_atomic_via ::
  "'s ref_backend \<Rightarrow> (string \<times> git_oid \<times> git_oid) list \<Rightarrow> 's \<Rightarrow> (ref_error + unit) \<times> 's" where
  "update_refs_atomic_via B updates s =
     (case collect_edits updates of
        Inl e \<Rightarrow> (Inl e, s)
      | Inr edits \<Rightarrow>
          (let (r, s') = rb_atomic_ref_update B edits s;
               first_ref = (case updates of [] \<Rightarrow> ''unknown'' | u # _ \<Rightarrow> fst u)
           in (map_err (map_git_error first_ref) r, s')))"

definition update_refs_atomic ::
  "'s ref_backend \<Rightarrow> path \<Rightarrow> (string \<times> git_oid \<times> git_oid) list \<Rightarrow> 's \<Rightarrow> (ref_error + unit) \<times> 's" where
  "update_refs_atomic B root updates s =
     (case open_repo B root s of Inl e \<Rightarrow> (Inl e, s) | Inr _ \<Rightarrow> update_refs_atomic_via B updates s)"

definition delete_ref_via :: "'s ref_backend \<Rightarrow> string \<Rightarrow> 's \<Rightarrow> (ref_error + unit) \<times> 's" where
  "delete_ref_via B name s =
     (case to_ref_name name of
        Inl e \<Rightarrow> (Inl e, s)
      | Inr ref_name \<Rightarrow>
          (case rb_delete_ref B ref_name s of
             (Inr _, s') \<Rightarrow> (Inr (), s')
           | (Inl (GitNotFound m), s') \<Rightarrow> (Inr (), s')
           | (Inl e, s') \<Rightarrow> (Inl (map_git_error name e), s')))"

definition delete_ref :: "'s ref_backend \<Rightarrow> path \<Rightarrow> string \<Rightarrow> 's \<Rightarrow> (ref_error + unit) \<times> 's" where
  "delete_ref B root name s =
     (case open_repo B root s of Inl e \<Rightarrow> (Inl e, s) | Inr _ \<Rightarrow> delete_ref_via B name s)"

definition read_epoch_current :: "'s ref_backend \<Rightarrow> path \<Rightarrow> 's \<Rightarrow> ref_error + git_oid option" where
  "read_epoch_current B root = read_ref B root EPOCH_CURRENT"

definition write_epoch_current :: "'s ref_backend \<Rightarrow> path \<Rightarrow> git_oid \<Rightarrow> 's \<Rightarrow> (ref_error + unit) \<times> 's" where
  "write_epoch_current B root oid = write_ref B root EPOCH_CURRENT oid"

definition advance_epoch ::
  "'s ref_backend \<Rightarrow> path \<Rightarrow> git_oid \<Rightarrow> git_oid \<Rightarrow> 's \<Rightarrow> (ref_error + unit) \<times> 's" where
  "advance_epoch B root old_epoch new_epoch = write_ref_cas B root EPOCH_CURRENT old_epoch new_epoch"

section \<open>Facts\<close>

lemma to_git_oid_ok:
  assumes "git_oid_ok g"
  shows "\<exists>r. to_git_oid g = Inr r \<and> raw_oid_str r = oid_str g \<and> from_git_oid r = Inr g"
proof -
  obtain r where r: "raw_oid_from_str (oid_str g) = Inr r" "raw_oid_str r = oid_str g"
    using raw_oid_roundtrip [of "oid_str g"] assms by (auto simp: git_oid_ok_def)
  moreover have "git_oid_new (oid_str g) = Inr g" using assms by (simp add: git_oid_new_ok)
  ultimately show ?thesis by (simp add: to_git_oid_def from_git_oid_def)
qed

lemma to_git_oid_raw:
  assumes "git_oid_new (raw_oid_str r) = Inr g"
  shows "to_git_oid g = Inr r" "raw_oid_from_str (oid_str g) = Inr r" "git_oid_ok g"
proof -
  have g: "g = GitOid (raw_oid_str r)" "git_oid_ok g" using assms by (auto simp: result_simps)
  then obtain q where q: "raw_oid_from_str (oid_str g) = Inr q" "raw_oid_str q = oid_str g"
    using raw_oid_roundtrip [of "oid_str g"] by (auto simp: git_oid_ok_def)
  with g(1) have "q = r" using raw_oid_str_inj by simp
  with q show "to_git_oid g = Inr r" "raw_oid_from_str (oid_str g) = Inr r" by (simp_all add: to_git_oid_def)
  show "git_oid_ok g" by (rule g(2))
qed

lemma to_git_oid_inj:
  assumes "git_oid_ok g" "git_oid_ok h" "to_git_oid g = Inr r" "to_git_oid h = Inr r"
  shows "g = h"
  using to_git_oid_ok [OF assms(1)] to_git_oid_ok [OF assms(2)] assms(3,4) by simp

lemma to_ref_name_refs: "prefix ''refs/'' n \<Longrightarrow> to_ref_name n = Inr (RefName n)"
  by (auto simp: to_ref_name_def ref_name_new_def)

lemma epoch_current_name [simp]: "to_ref_name EPOCH_CURRENT = Inr (RefName EPOCH_CURRENT)"
  by (rule to_ref_name_refs) (simp add: EPOCH_CURRENT_def)

lemma workspace_name_no_slash:
  assumes "workspace_name_ok n"
  shows "CHR ''/'' \<notin> set n" "n \<noteq> []"
proof -
  have n: "list_all workspace_char n" "[] \<notin> set (split_on CHR ''-'' n)"
    using assms by (auto simp: workspace_name_ok_def workspace_words)
  have "\<not> workspace_char CHR ''/''"
    by (simp add: workspace_char_def ascii_lower_def ascii_digit_def)
  with n(1) show "CHR ''/'' \<notin> set n" unfolding list_all_iff by blast
  show "n \<noteq> []" using n(2) by auto
qed

lemma prefix_with_slash:
  assumes "p @ n = q @ m" "CHR ''/'' \<notin> set n" "CHR ''/'' \<notin> set m"
    and "p \<noteq> []" "q \<noteq> []" "last p = CHR ''/''" "last q = CHR ''/''"
  shows "p = q \<and> n = m"
proof -
  from assms(1) obtain us where "p @ us = q \<and> n = us @ m \<or> p = q @ us \<and> us @ n = m"
    by (auto simp: append_eq_append_conv2)
  then have "us = []"
  proof
    assume "p @ us = q \<and> n = us @ m"
    then show ?thesis using assms by (cases us rule: rev_cases) auto
  next
    assume "p = q @ us \<and> us @ n = m"
    then show ?thesis using assms by (cases us rule: rev_cases) auto
  qed
  with \<open>p @ us = q \<and> n = us @ m \<or> p = q @ us \<and> us @ n = m\<close> show ?thesis by auto
qed

definition owned_prefixes :: "string set" where
  "owned_prefixes = {HEAD_PREFIX, WORKSPACE_STATE_PREFIX, WORKSPACE_EPOCH_PREFIX}"

lemma owned_refs_prefixes:
  "r \<in> set (workspace_owned_refs n) \<longleftrightarrow>
   (\<exists>p \<in> owned_prefixes. r = p @ n)"
  by (auto simp: owned_prefixes_def workspace_owned_refs_def workspace_head_ref_def workspace_state_ref_def
      workspace_epoch_ref_def)

lemma owned_prefix_slash:
  "p \<in> owned_prefixes \<Longrightarrow> p \<noteq> [] \<and> last p = CHR ''/''"
  by (auto simp: owned_prefixes_def HEAD_PREFIX_def WORKSPACE_STATE_PREFIX_def WORKSPACE_EPOCH_PREFIX_def)

section \<open>A store in memory\<close>

text \<open>References kept in a map, with the transactions of the contract.\<close>

definition mem_backend :: "(string, raw_oid) btree ref_backend" where
  "mem_backend =
     \<lparr>rb_open = (\<lambda>root s. None),
      rb_read_ref = (\<lambda>n s. Inr (bm_get s (ref_str n))),
      rb_write_ref = (\<lambda>n oid msg s. (Inr (), bm_insert (ref_str n) oid s)),
      rb_delete_ref = (\<lambda>n s. (Inr (), bm_remove (ref_str n) s)),
      rb_atomic_ref_update = (\<lambda>es s.
        if list_all (edit_matches (bm_get s)) es
        then (Inr (), fold (\<lambda>e. bm_insert (ref_str (re_name e)) (re_new_oid e)) es s)
        else (Inl (RefConflict (case es of [] \<Rightarrow> [] | e # _ \<Rightarrow> ref_str (re_name e)) ''did not match''), s)),
      rb_rev_parse_opt = (\<lambda>spec s. Inr (bm_get s spec))\<rparr>"

lemma mem_backend_ok: "ref_backend_ok mem_backend bm_get"
proof -
  have "bm_get (fold (\<lambda>e. bm_insert (ref_str (re_name e)) (re_new_oid e)) es s) = apply_edits es (bm_get s)" for es s
    by (induction es arbitrary: s) (auto simp: apply_edits_def fun_upd_def [symmetric] bm.get_insert [abs_def] fun_eq_iff
        intro!: arg_cong [where f = "\<lambda>v. fold _ _ v _"])
  then show ?thesis
    by (auto simp: ref_backend_ok_def mem_backend_def list_all_iff)
qed

definition sample_raw :: "char \<Rightarrow> raw_oid" where
  "sample_raw c = (case raw_oid_from_str (oid_str (sample_oid c)) of Inr r \<Rightarrow> r | Inl _ \<Rightarrow> ZERO)"

lemma sample_oid_ok: "lower_hex c \<Longrightarrow> git_oid_ok (sample_oid c)"
  by (simp add: sample_oid_def git_oid_ok_def list_all_iff)

lemma sample_raw_str: "lower_hex c \<Longrightarrow> raw_oid_str (sample_raw c) = oid_str (sample_oid c)"
  using raw_oid_roundtrip [of "oid_str (sample_oid c)"] sample_oid_ok [of c]
  by (auto simp: sample_raw_def git_oid_ok_def)

lemma sample_hex [simp]: "lower_hex CHR ''a''" "lower_hex CHR ''b''" "lower_hex CHR ''c''"
  by (simp_all add: lower_hex_def)

section \<open>Properties\<close>

text \<open>The references that belong to a workspace with a valid name are three different ones, none
  is the current epoch or lies below the recovery references of any workspace, and no other valid name
  owns any of them.\<close>

theorem workspace_refs_disjoint:
  assumes "workspace_name_ok n" "workspace_name_ok m"
  shows "distinct (workspace_owned_refs n)
    \<and> (\<forall>r \<in> set (workspace_owned_refs n). r \<noteq> EPOCH_CURRENT \<and> prefix ''refs/manifold/'' r
         \<and> \<not> prefix (workspace_recovery_refs_prefix m) r)
    \<and> (n \<noteq> m \<longrightarrow> set (workspace_owned_refs n) \<inter> set (workspace_owned_refs m) = {})"
proof (intro conjI ballI impI)
  note slash = workspace_name_no_slash [OF assms(1)] workspace_name_no_slash [OF assms(2)]
  show "distinct (workspace_owned_refs n)"
    by (simp add: workspace_owned_refs_def workspace_head_ref_def workspace_state_ref_def
        workspace_epoch_ref_def HEAD_PREFIX_def WORKSPACE_STATE_PREFIX_def WORKSPACE_EPOCH_PREFIX_def)
  fix r assume r: "r \<in> set (workspace_owned_refs n)"
  show "prefix ''refs/manifold/'' r"
    using r by (auto simp: owned_refs_prefixes owned_prefixes_def HEAD_PREFIX_def WORKSPACE_STATE_PREFIX_def WORKSPACE_EPOCH_PREFIX_def)
  show "\<not> prefix (workspace_recovery_refs_prefix m) r"
    using r by (auto simp: owned_refs_prefixes owned_prefixes_def HEAD_PREFIX_def WORKSPACE_STATE_PREFIX_def
        WORKSPACE_EPOCH_PREFIX_def workspace_recovery_refs_prefix_def)
  show "r \<noteq> EPOCH_CURRENT"
  proof
    assume "r = EPOCH_CURRENT"
    then have "''refs/manifold/epoch/'' @ ''current'' = r" by (simp add: EPOCH_CURRENT_def)
    moreover from r obtain p where "r = p @ n" "p \<in> owned_prefixes"
      by (auto simp: owned_refs_prefixes)
    ultimately have "''refs/manifold/epoch/'' = p"
      using prefix_with_slash [of "''refs/manifold/epoch/''" "''current''" p n] slash(1)
        owned_prefix_slash [of p] by simp
    with \<open>p \<in> _\<close> show False
      by (auto simp: owned_prefixes_def HEAD_PREFIX_def WORKSPACE_STATE_PREFIX_def WORKSPACE_EPOCH_PREFIX_def)
  qed
next
  assume "n \<noteq> m"
  show "set (workspace_owned_refs n) \<inter> set (workspace_owned_refs m) = {}"
  proof (rule equals0I)
    fix r assume "r \<in> set (workspace_owned_refs n) \<inter> set (workspace_owned_refs m)"
    then obtain p q where pq: "p \<in> owned_prefixes" "q \<in> owned_prefixes" "p @ n = q @ m"
      by (auto simp: owned_refs_prefixes)
    have "n = m"
      using prefix_with_slash [OF pq(3)] workspace_name_no_slash(1) [OF assms(1)]
        workspace_name_no_slash(1) [OF assms(2)] owned_prefix_slash [OF pq(1)]
        owned_prefix_slash [OF pq(2)] by simp
    with \<open>n \<noteq> m\<close> show False ..
  qed
qed

lemma workspace_refs_disjoint_witness:
  "set (workspace_owned_refs ''alice'') \<inter> set (workspace_owned_refs ''current'') = {}"
proof -
  have "workspace_name_ok ''alice''" "workspace_name_ok ''current''"
    by (simp_all add: workspace_name_ok_def workspace_word_def ascii_lower_def)
  from workspace_refs_disjoint [OF this] show ?thesis by simp
qed

end
