(* ===== verification/Commit_Phase.thy ===== *)
theory Commit_Phase
  imports Git_Refs Disk
begin

text \<open>
  The COMMIT phase, \<open>src/merge/commit.rs\<close>: both references move to the candidate in one
  compare-and-swap, with a state file written before and after; and the recovery that inspects the
  references after a crash. The world is the repository state and the disk; the context holds the
  backend, where the files are, the serializer, and per write which calls fail, and which failpoint
  fires (a process that dies at a failpoint leaves the world a returned failpoint error leaves).
\<close>

section \<open>State and errors\<close>

datatype commit_result = Committed

datatype commit_recovery = AlreadyCommitted | FinalizedMainRef | NotCommitted

datatype commit_error =
    CRef ref_error
  | CIo io_error
  | CSerde string
  | PartialCommit
  | InconsistentRefState "git_oid option" "git_oid option"
  | Failpoint string

datatype commit_phase = PhaseCommit | PhaseCommitted

record commit_state_file =
  cs_phase :: commit_phase
  cs_epoch_before :: git_oid
  cs_epoch_candidate :: git_oid
  cs_epoch_ref_updated :: bool
  cs_branch_ref_updated :: bool
  cs_updated_at_unix_ms :: "128 word"

record 's commit_ctx =
  cx_backend :: "'s ref_backend"
  cx_root :: path
  cx_manifold_dir :: path
  cx_print :: "commit_state_file \<Rightarrow> string + string"
  cx_parse :: "string \<Rightarrow> string + commit_state_file"
  cx_env :: "nat \<Rightarrow> io_env"
  cx_now :: "nat \<Rightarrow> 128 word"
  cx_failpoint :: "string \<Rightarrow> string option"

section \<open>The state file\<close>

definition COMMIT_STATE_FILE :: string where
  "COMMIT_STATE_FILE = ''commit-state.json''"

definition commit_state_path :: "'s commit_ctx \<Rightarrow> path" where
  "commit_state_path cx = cx_manifold_dir cx @ [COMMIT_STATE_FILE]"

definition replace_commit_state :: "io_env \<Rightarrow> path \<Rightarrow> string \<Rightarrow> (io_error, unit) io" where
  "replace_commit_state env p contents =
     (let tmp = with_tmp_extension p
      in io_bind (fs_create env tmp) (\<lambda>_.
         io_bind (fs_write_all env tmp contents) (\<lambda>_.
         io_bind (fs_sync_all env) (\<lambda>_.
         fs_rename env tmp p))))"

definition write_commit_state ::
  "'s commit_ctx \<Rightarrow> io_env \<Rightarrow> commit_state_file \<Rightarrow> (commit_error, unit) io" where
  "write_commit_state cx env state =
     io_bind (io_map_err CIo (fs_create_dir_all env)) (\<lambda>_.
       case cx_print cx state of
         Inl e \<Rightarrow> io_err (CSerde e)
       | Inr json \<Rightarrow>
           io_map_err CIo
             (io_bind (replace_commit_state env (commit_state_path cx) (json @ [CHR 0x0A]))
               (\<lambda>_. fs_sync_dir env)))"

definition read_commit_state :: "'s commit_ctx \<Rightarrow> io_env \<Rightarrow> (commit_error, commit_state_file) io" where
  "read_commit_state cx env =
     io_bind (io_map_err CIo (fs_read_to_string env (commit_state_path cx))) (\<lambda>bytes.
       case cx_parse cx bytes of Inl e \<Rightarrow> io_err (CSerde e) | Inr st \<Rightarrow> io_ok st)"

section \<open>Running the phase\<close>

definition fp_commit :: "'s commit_ctx \<Rightarrow> string \<Rightarrow> commit_error + unit" where
  "fp_commit cx name = (case cx_failpoint cx name of Some m \<Rightarrow> Inl (Failpoint m) | None \<Rightarrow> Inr ())"

definition branch_ref :: "string \<Rightarrow> string" where
  "branch_ref branch = ''refs/heads/'' @ branch"

definition run_commit_phase_with_branch_base ::
  "'s commit_ctx \<Rightarrow> string \<Rightarrow> git_oid \<Rightarrow> git_oid \<Rightarrow> git_oid \<Rightarrow> 's \<times> disk \<Rightarrow>
   (commit_error + commit_result) \<times> 's \<times> disk" where
  "run_commit_phase_with_branch_base cx branch epoch_before branch_before epoch_candidate = (\<lambda>(s, d).
     let state = \<lparr>cs_phase = PhaseCommit, cs_epoch_before = epoch_before,
                  cs_epoch_candidate = epoch_candidate, cs_epoch_ref_updated = False,
                  cs_branch_ref_updated = False, cs_updated_at_unix_ms = cx_now cx 0\<rparr>
     in case write_commit_state cx (cx_env cx 0) state d of
          (Inl e, d1) \<Rightarrow> (Inl e, s, d1)
        | (Inr _, d1) \<Rightarrow>
      (case fp_commit cx ''FP_COMMIT_BEFORE_BRANCH_CAS'' of
          Inl e \<Rightarrow> (Inl e, s, d1)
        | Inr _ \<Rightarrow>
      (case update_refs_atomic (cx_backend cx) (cx_root cx)
              [(EPOCH_CURRENT, epoch_before, epoch_candidate),
               (branch_ref branch, branch_before, epoch_candidate)] s of
          (Inl e, s1) \<Rightarrow> (Inl (CRef e), s1, d1)
        | (Inr _, s1) \<Rightarrow>
      (case res_bind (fp_commit cx ''FP_COMMIT_BETWEEN_CAS_OPS'')
              (\<lambda>_. fp_commit cx ''FP_COMMIT_AFTER_EPOCH_CAS'') of
          Inl e \<Rightarrow> (Inl e, s1, d1)
        | Inr _ \<Rightarrow>
          (let state' = state\<lparr>cs_phase := PhaseCommitted, cs_epoch_ref_updated := True,
                              cs_branch_ref_updated := True, cs_updated_at_unix_ms := cx_now cx 1\<rparr>
           in case write_commit_state cx (cx_env cx 1) state' d1 of
                (Inl e, d2) \<Rightarrow> (Inl e, s1, d2)
              | (Inr _, d2) \<Rightarrow> (Inr Committed, s1, d2))))))"

definition run_commit_phase ::
  "'s commit_ctx \<Rightarrow> string \<Rightarrow> git_oid \<Rightarrow> git_oid \<Rightarrow> 's \<times> disk \<Rightarrow>
   (commit_error + commit_result) \<times> 's \<times> disk" where
  "run_commit_phase cx branch epoch_before epoch_candidate =
     run_commit_phase_with_branch_base cx branch epoch_before epoch_before epoch_candidate"

section \<open>Recovery\<close>

definition recover_partial_commit_with_branch_base ::
  "'s commit_ctx \<Rightarrow> string \<Rightarrow> git_oid \<Rightarrow> git_oid \<Rightarrow> git_oid \<Rightarrow> 's \<times> disk \<Rightarrow>
   (commit_error + commit_recovery) \<times> 's \<times> disk" where
  "recover_partial_commit_with_branch_base cx branch epoch_before branch_before epoch_candidate = (\<lambda>(s, d).
     (case read_ref (cx_backend cx) (cx_root cx) EPOCH_CURRENT s of
        Inl e \<Rightarrow> (Inl (CRef e), s, d)
      | Inr epoch \<Rightarrow>
     (case read_ref (cx_backend cx) (cx_root cx) (branch_ref branch) s of
        Inl e \<Rightarrow> (Inl (CRef e), s, d)
      | Inr branch_head \<Rightarrow>
     if epoch = Some epoch_candidate \<and> branch_head = Some epoch_candidate then
       (Inr AlreadyCommitted, s, d)
     else if epoch = Some epoch_candidate \<and> branch_head = Some branch_before then
       (case write_ref_cas (cx_backend cx) (cx_root cx) (branch_ref branch) branch_before epoch_candidate s of
          (Inl e, s1) \<Rightarrow> (Inl (CRef e), s1, d)
        | (Inr _, s1) \<Rightarrow>
          (case write_commit_state cx (cx_env cx 0)
                  \<lparr>cs_phase = PhaseCommitted, cs_epoch_before = epoch_before,
                   cs_epoch_candidate = epoch_candidate, cs_epoch_ref_updated = True,
                   cs_branch_ref_updated = True, cs_updated_at_unix_ms = cx_now cx 0\<rparr> d of
             (Inl e, d1) \<Rightarrow> (Inl e, s1, d1)
           | (Inr _, d1) \<Rightarrow> (Inr FinalizedMainRef, s1, d1)))
     else if epoch = Some epoch_before \<and> branch_head = Some branch_before then
       (Inr NotCommitted, s, d)
     else (Inl (InconsistentRefState epoch branch_head), s, d))))"

definition recover_partial_commit ::
  "'s commit_ctx \<Rightarrow> string \<Rightarrow> git_oid \<Rightarrow> git_oid \<Rightarrow> 's \<times> disk \<Rightarrow>
   (commit_error + commit_recovery) \<times> 's \<times> disk" where
  "recover_partial_commit cx branch epoch_before epoch_candidate =
     recover_partial_commit_with_branch_base cx branch epoch_before epoch_before epoch_candidate"

section \<open>What a reference points at\<close>

definition points_at :: "('s \<Rightarrow> string \<Rightarrow> raw_oid option) \<Rightarrow> 's \<Rightarrow> string \<Rightarrow> git_oid \<Rightarrow> bool" where
  "points_at view s name g \<longleftrightarrow> (\<exists>r. view s name = Some r \<and> raw_oid_str r = oid_str g)"

lemma branch_ref_facts [simp]:
  "to_ref_name (branch_ref b) = Inr (RefName (branch_ref b))"
  "branch_ref b \<noteq> EPOCH_CURRENT" "EPOCH_CURRENT \<noteq> branch_ref b"
  by (rule to_ref_name_refs) (simp_all add: branch_ref_def EPOCH_CURRENT_def)

interpretation commit_file: atomic_writer replace_commit_state with_tmp_extension
  by unfold_locales
    (auto simp: replace_commit_state_def io_defs fs_defs Let_def
      split: option.splits if_splits prod.splits sum.splits)

lemma update_refs_atomic_cases:
  assumes ok: "ref_backend_ok B view" and oids: "git_oid_ok e" "git_oid_ok b" "git_oid_ok c"
    and run: "update_refs_atomic B root [(EPOCH_CURRENT, e, c), (branch_ref br, b, c)] s = (r, s')"
  shows "case r of
      Inl _ \<Rightarrow> view s' = view s
    | Inr _ \<Rightarrow> points_at view s' EPOCH_CURRENT c \<and> points_at view s' (branch_ref br) c
        \<and> (\<forall>n. n \<noteq> EPOCH_CURRENT \<longrightarrow> n \<noteq> branch_ref br \<longrightarrow> view s' n = view s n)"
proof -
  obtain re rb rc where raw: "to_git_oid e = Inr re" "to_git_oid b = Inr rb" "to_git_oid c = Inr rc"
    "raw_oid_str rc = oid_str c"
    using to_git_oid_ok oids by metis
  let ?es = "[\<lparr>re_name = RefName EPOCH_CURRENT, re_new_oid = rc, re_expected_old_oid = re\<rparr>,
              \<lparr>re_name = RefName (branch_ref br), re_new_oid = rc, re_expected_old_oid = rb\<rparr>]"
  show ?thesis
  proof (cases "open_repo B root s")
    case (Inl err)
    then show ?thesis using run by (auto simp: update_refs_atomic_def split: sum.splits)
  next
    case (Inr u)
    obtain r1 where up: "rb_atomic_ref_update B ?es s = (r1, s')"
      and r: "r = map_err (map_git_error EPOCH_CURRENT) r1"
      using run raw Inr by (auto simp: update_refs_atomic_def update_refs_atomic_via_def split: prod.splits)
    show ?thesis
    proof (cases r1)
      case Inl
      then have "view s' = view s" using ok up unfolding ref_backend_ok_def by blast
      with Inl show ?thesis by (simp add: r map_err_def)
    next
      case (Inr v)
      then have "view s' = apply_edits ?es (view s)"
        using ok up unfolding ref_backend_ok_def by (metis old.unit.exhaust)
      then show ?thesis
        using raw(4) by (auto simp: r map_err_def Inr points_at_def apply_edits_def)
    qed
  qed
qed

lemma update_refs_atomic_before:
  assumes ok: "ref_backend_ok B view" and oids: "git_oid_ok e" "git_oid_ok b" "git_oid_ok c"
    and nz: "to_git_oid e \<noteq> Inr ZERO" "to_git_oid b \<noteq> Inr ZERO"
    and run: "update_refs_atomic B root [(EPOCH_CURRENT, e, c), (branch_ref br, b, c)] s = (Inr u, s')"
  shows "points_at view s EPOCH_CURRENT e \<and> points_at view s (branch_ref br) b"
proof -
  obtain re rb rc where raw: "to_git_oid e = Inr re" "to_git_oid b = Inr rb" "to_git_oid c = Inr rc"
    "raw_oid_str re = oid_str e" "raw_oid_str rb = oid_str b"
    using to_git_oid_ok oids by metis
  let ?es = "[\<lparr>re_name = RefName EPOCH_CURRENT, re_new_oid = rc, re_expected_old_oid = re\<rparr>,
              \<lparr>re_name = RefName (branch_ref br), re_new_oid = rc, re_expected_old_oid = rb\<rparr>]"
  have "rb_atomic_ref_update B ?es s = (Inr (), s')"
    using run raw by (auto simp: update_refs_atomic_def update_refs_atomic_via_def map_err_def
        split: prod.splits sum.splits)
  then have "\<forall>x \<in> set ?es. edit_matches (view s) x"
    using ok unfolding ref_backend_ok_def by blast
  then show ?thesis
    using nz raw by (simp add: edit_matches_def points_at_def is_zero_def)
qed

lemma read_ref_points:
  assumes "ref_backend_ok B view" "read_ref B root n s = Inr x" "to_ref_name n = Inr (RefName n)" "git_oid_ok g"
  shows "x = Some g \<longleftrightarrow> points_at view s n g"
proof -
  have res: "case x of None \<Rightarrow> view s n = None | Some h \<Rightarrow> \<exists>r. view s n = Some r \<and> oid_str h = raw_oid_str r"
  proof (cases "rb_read_ref B (RefName n) s")
    case (Inl err)
    then have "x = None \<and> (\<exists>m. err = GitNotFound m)"
      using assms(2,3) by (cases err) (auto simp: read_ref_def read_ref_via_def result_simps)
    moreover from this Inl have "view s n = None"
      using assms(1) unfolding ref_backend_ok_def by (metis ref_name.sel)
    ultimately show ?thesis by simp
  next
    case (Inr y)
    then have "y = view s n" using assms(1) unfolding ref_backend_ok_def by (metis ref_name.sel)
    moreover have "lift_oid y = Inr x"
      using assms(2,3) Inr by (auto simp: read_ref_def read_ref_via_def result_simps)
    ultimately show ?thesis
      by (auto simp: lift_oid_def from_git_oid_def result_simps split: option.splits sum.splits)
  qed
  then show ?thesis
    by (auto simp: points_at_def git_oid.expand split: option.splits)
qed

text \<open>Both references moved to the candidate, every other one as before.\<close>

definition refs_moved ::
  "('s \<Rightarrow> string \<Rightarrow> raw_oid option) \<Rightarrow> 's \<Rightarrow> 's \<Rightarrow> string \<Rightarrow> git_oid \<Rightarrow> bool" where
  "refs_moved view s s' branch c \<longleftrightarrow>
     points_at view s' EPOCH_CURRENT c \<and> points_at view s' (branch_ref branch) c
     \<and> (\<forall>n. n \<noteq> EPOCH_CURRENT \<longrightarrow> n \<noteq> branch_ref branch \<longrightarrow> view s' n = view s n)"

lemma run_commit_cases:
  assumes "ref_backend_ok (cx_backend cx) view" "git_oid_ok e" "git_oid_ok b" "git_oid_ok c"
    and run: "run_commit_phase_with_branch_base cx branch e b c (s, d) = (r, s', d')"
  shows "(view s' = view s \<and> isl r) \<or> refs_moved view s s' branch c"
proof -
  obtain r1 s1 where up: "update_refs_atomic (cx_backend cx) (cx_root cx)
      [(EPOCH_CURRENT, e, c), (branch_ref branch, b, c)] s = (r1, s1)" by force
  have "view s1 = view s \<or> refs_moved view s s1 branch c" "isl r1 \<Longrightarrow> view s1 = view s"
    "\<not> isl r1 \<Longrightarrow> refs_moved view s s1 branch c"
    using update_refs_atomic_cases [OF assms(1-4) up] by (cases r1; simp add: refs_moved_def)+
  then show ?thesis
    using run up
    by (auto simp: run_commit_phase_with_branch_base_def Let_def split: prod.splits sum.splits)
qed

lemma points_at_unique: "points_at view s n g \<Longrightarrow> points_at view s n h \<Longrightarrow> g = h"
  by (auto simp: points_at_def git_oid.expand)

lemma recover_read:
  assumes ok: "ref_backend_ok (cx_backend cx) view" and oids: "git_oid_ok e" "git_oid_ok b" "git_oid_ok c"
    and run: "recover_partial_commit_with_branch_base cx branch e b c (s, d) = (r, s', d')"
  obtains (unreadable) err where "r = Inl (CRef err)" "s' = s" "d' = d"
  | (both) "points_at view s EPOCH_CURRENT c" "points_at view s (branch_ref branch) c"
      "r = Inr AlreadyCommitted" "s' = s" "d' = d"
  | (half) "points_at view s EPOCH_CURRENT c" "points_at view s (branch_ref branch) b"
      "\<not> points_at view s (branch_ref branch) c"
      "s' = snd (write_ref_cas (cx_backend cx) (cx_root cx) (branch_ref branch) b c s)"
      "isl (fst (write_ref_cas (cx_backend cx) (cx_root cx) (branch_ref branch) b c s)) \<Longrightarrow> isl r"
  | (neither) "points_at view s EPOCH_CURRENT e" "points_at view s (branch_ref branch) b"
      "\<not> points_at view s EPOCH_CURRENT c" "r = Inr NotCommitted" "s' = s" "d' = d"
  | (other) x y where "\<not> (points_at view s EPOCH_CURRENT e \<and> points_at view s (branch_ref branch) b)"
      "\<not> (points_at view s EPOCH_CURRENT c \<and> points_at view s (branch_ref branch) b)"
      "\<not> (points_at view s EPOCH_CURRENT c \<and> points_at view s (branch_ref branch) c)"
      "r = Inl (InconsistentRefState x y)" "s' = s" "d' = d"
proof (cases "read_ref (cx_backend cx) (cx_root cx) EPOCH_CURRENT s")
  case (Inl err)
  then show thesis using run by (intro unreadable) (auto simp: recover_partial_commit_with_branch_base_def)
next
  case (Inr x)
  note rx = this
  show thesis
  proof (cases "read_ref (cx_backend cx) (cx_root cx) (branch_ref branch) s")
    case (Inl err)
    then show thesis
      using run rx by (intro unreadable) (auto simp: recover_partial_commit_with_branch_base_def)
  next
    case (Inr y)
    have ex: "x = Some g \<longleftrightarrow> points_at view s EPOCH_CURRENT g" if "git_oid_ok g" for g
      using read_ref_points [OF ok rx _ that] by simp
    have by_: "y = Some g \<longleftrightarrow> points_at view s (branch_ref branch) g" if "git_oid_ok g" for g
      using read_ref_points [OF ok Inr _ that] by simp
    note run' = run [unfolded recover_partial_commit_with_branch_base_def, simplified, simplified rx Inr, simplified]
    show thesis
    proof (cases "x = Some c \<and> y = Some c")
      case True
      then show thesis using run' ex [OF oids(3)] by_ [OF oids(3)] by (intro both) auto
    next
      case no1: False
      show thesis
      proof (cases "x = Some c \<and> y = Some b")
        case True
        obtain rc sc where cas: "write_ref_cas (cx_backend cx) (cx_root cx) (branch_ref branch) b c s = (rc, sc)"
          by force
        have "s' = sc \<and> (isl rc \<longrightarrow> isl r)"
          using run' True no1 cas by (auto split: sum.splits prod.splits)
        then show thesis
          using True no1 ex [OF oids(3)] by_ [OF oids(2)] by_ [OF oids(3)] cas by (intro half) auto
      next
        case no2: False
        show thesis
        proof (cases "x = Some e \<and> y = Some b")
          case True
          then show thesis
            using run' no1 no2 ex [OF oids(1)] ex [OF oids(3)] by_ [OF oids(2)] by_ [OF oids(3)]
            by (intro neither) auto
        next
          case no3: False
          have "r = Inl (InconsistentRefState x y) \<and> s' = s \<and> d' = d"
            using run' no1 no2 no3 by auto
          then show thesis
            using no1 no2 no3 ex [OF oids(1)] ex [OF oids(3)] by_ [OF oids(2)] by_ [OF oids(3)]
            by (intro other [of x y]) auto
        qed
      qed
    qed
  qed
qed

section \<open>Properties\<close>

text \<open>C1. The COMMIT phase moves both references or neither, wherever it fails or dies: if it reports
  success they are both at the candidate, and if it reports an error they are both there or nothing
  has changed.\<close>

theorem commit_phase_atomic:
  assumes "ref_backend_ok (cx_backend cx) view" "git_oid_ok e" "git_oid_ok b" "git_oid_ok c"
    and "run_commit_phase_with_branch_base cx branch e b c (s, d) = (r, s', d')"
  shows "case r of
      Inr Committed \<Rightarrow> refs_moved view s s' branch c
    | Inl err \<Rightarrow> view s' = view s \<or> refs_moved view s s' branch c"
  using run_commit_cases [OF assms] by (auto split: sum.splits commit_result.splits)

text \<open>C6. Recovery after a COMMIT phase that started with the references at their recorded places,
  whatever became of the phase, changes nothing and tells the two cases apart (unless it cannot read a
  reference): already committed when both references are at the candidate, not committed when
  neither has moved. The half-moved state that recovery can also repair never arises.\<close>

theorem commit_then_recover:
  assumes "ref_backend_ok (cx_backend cx) view" "git_oid_ok e" "git_oid_ok b" "git_oid_ok c" "e \<noteq> c"
    and "points_at view s EPOCH_CURRENT e" "points_at view s (branch_ref branch) b"
    and "run_commit_phase_with_branch_base cx branch e b c (s, d) = (r, s', d')"
    and "recover_partial_commit_with_branch_base cx branch e b c (s', d') = (r2, s2, d2)"
  shows "s2 = s' \<and> d2 = d' \<and>
    (case r2 of
       Inr AlreadyCommitted \<Rightarrow> refs_moved view s s' branch c
     | Inr NotCommitted \<Rightarrow> view s' = view s \<and> isl r
     | Inr FinalizedMainRef \<Rightarrow> False
     | Inl err \<Rightarrow> \<exists>x. err = CRef x)"
proof -
  consider (same) "view s' = view s" "isl r" | (moved) "refs_moved view s s' branch c"
    using run_commit_cases [OF assms(1-4,8)] by blast
  then show ?thesis
  proof cases
    case same
    then have pts: "points_at view s' EPOCH_CURRENT e" "points_at view s' (branch_ref branch) b"
      using assms(6,7) by (simp_all add: points_at_def)
    then have "\<not> points_at view s' EPOCH_CURRENT c"
      using assms(5) points_at_unique by metis
    with pts same show ?thesis
      by (cases rule: recover_read [OF assms(1-4,9)]) auto
  next
    case moved
    then have pts: "points_at view s' EPOCH_CURRENT c" "points_at view s' (branch_ref branch) c"
      by (simp_all add: refs_moved_def)
    with moved show ?thesis
      by (cases rule: recover_read [OF assms(1-4,9)]) auto
  qed
qed

text \<open>Recovery moves a reference only in the half-moved state, and then only the branch, from its
  recorded base to the candidate.\<close>

theorem recovery_finalizes_branch:
  assumes "ref_backend_ok (cx_backend cx) view" "git_oid_ok e" "git_oid_ok b" "git_oid_ok c"
    and "recover_partial_commit_with_branch_base cx branch e b c (s, d) = (r, s', d')"
  shows "if points_at view s EPOCH_CURRENT c \<and> points_at view s (branch_ref branch) b
            \<and> \<not> points_at view s (branch_ref branch) c
         then (view s' = view s \<and> isl r) \<or>
              (points_at view s' (branch_ref branch) c
               \<and> (\<forall>n. n \<noteq> branch_ref branch \<longrightarrow> view s' n = view s n))
         else s' = s \<and> r \<noteq> Inr FinalizedMainRef"
proof (cases rule: recover_read [OF assms, case_names unreadable both half neither other])
  case half
  obtain rb rc where raw: "to_git_oid b = Inr rb" "to_git_oid c = Inr rc" "raw_oid_str rc = oid_str c"
    using to_git_oid_ok assms(3,4) by metis
  let ?cas = "write_ref_cas (cx_backend cx) (cx_root cx) (branch_ref branch) b c s"
  have cas: "(view (snd ?cas) = view s \<and> isl (fst ?cas)) \<or>
      (points_at view (snd ?cas) (branch_ref branch) c
       \<and> (\<forall>n. n \<noteq> branch_ref branch \<longrightarrow> view (snd ?cas) n = view s n))"
  proof -
    let ?es = "[\<lparr>re_name = RefName (branch_ref branch), re_new_oid = rc, re_expected_old_oid = rb\<rparr>]"
    obtain r1 s1 where up: "rb_atomic_ref_update (cx_backend cx) ?es s = (r1, s1)" by force
    have failed: "view s1 = view s" if "r1 = Inl x" for x
      using assms(1) up that unfolding ref_backend_ok_def by blast
    have succeeded: "view s1 = apply_edits ?es (view s)" if "r1 = Inr u" for u
      using assms(1) up that unfolding ref_backend_ok_def by (metis old.unit.exhaust)
    show ?thesis using failed succeeded
      using up raw
      by (cases r1) (auto simp: write_ref_cas_def write_ref_cas_via_def apply_edits_def points_at_def
          map_err_def split: sum.splits)
  qed
  show ?thesis using half cas by auto
qed auto

section \<open>Witnesses\<close>

definition sample_ctx :: "(string, raw_oid) btree commit_ctx" where
  "sample_ctx = \<lparr>cx_backend = mem_backend, cx_root = [], cx_manifold_dir = [''.manifold''],
     cx_print = (\<lambda>st. Inr ''{}''), cx_parse = (\<lambda>j. Inl ''unused''), cx_env = (\<lambda>_. io_healthy),
     cx_now = (\<lambda>_. 0), cx_failpoint = (\<lambda>_. None)\<rparr>"

abbreviation sample_refs :: "char \<Rightarrow> char \<Rightarrow> (string, raw_oid) btree" where
  "sample_refs e b \<equiv> bm_insert EPOCH_CURRENT (sample_raw e) (bm_insert (branch_ref ''main'') (sample_raw b) bm_empty)"

lemma sample_refs_points:
  "lower_hex e \<Longrightarrow> points_at bm_get (sample_refs e b) EPOCH_CURRENT (sample_oid e)"
  "lower_hex b \<Longrightarrow> points_at bm_get (sample_refs e b) (branch_ref ''main'') (sample_oid b)"
  by (simp_all add: points_at_def sample_raw_str)

abbreviation "sample_run \<equiv> run_commit_phase_with_branch_base sample_ctx ''main'' (sample_oid CHR ''a'')
  (sample_oid CHR ''b'') (sample_oid CHR ''c'') (sample_refs CHR ''a'' CHR ''b'', bm_empty)"

abbreviation "sample_recover w \<equiv> recover_partial_commit_with_branch_base sample_ctx ''main'' (sample_oid CHR ''a'')
  (sample_oid CHR ''b'') (sample_oid CHR ''c'') w"

lemma sample_ctx_ok: "ref_backend_ok (cx_backend sample_ctx) bm_get"
  by (simp add: sample_ctx_def mem_backend_ok)

lemma commit_phase_atomic_witness:
  "case fst sample_run of
     Inr Committed \<Rightarrow> refs_moved bm_get (sample_refs CHR ''a'' CHR ''b'') (fst (snd sample_run)) ''main'' (sample_oid CHR ''c'')
   | Inl err \<Rightarrow> bm_get (fst (snd sample_run)) = bm_get (sample_refs CHR ''a'' CHR ''b'') \<or>
       refs_moved bm_get (sample_refs CHR ''a'' CHR ''b'') (fst (snd sample_run)) ''main'' (sample_oid CHR ''c'')"
  by (rule commit_phase_atomic [OF sample_ctx_ok sample_oid_ok sample_oid_ok sample_oid_ok,
        of "CHR ''a''" "CHR ''b''" "CHR ''c''" "''main''" _ bm_empty _ _ "snd (snd sample_run)"]) simp_all

lemma commit_then_recover_witness:
  "fst (sample_recover (snd sample_run)) \<noteq> Inr FinalizedMainRef"
proof -
  have "sample_oid CHR ''a'' \<noteq> sample_oid CHR ''c''" by (simp add: sample_oid_def)
  from commit_then_recover [OF sample_ctx_ok sample_oid_ok sample_oid_ok sample_oid_ok this,
      of "CHR ''b''" "sample_refs CHR ''a'' CHR ''b''" "''main''" bm_empty "fst sample_run"
      "fst (snd sample_run)" "snd (snd sample_run)" "fst (sample_recover (snd sample_run))"
      "fst (snd (sample_recover (snd sample_run)))" "snd (snd (sample_recover (snd sample_run)))"]
  show ?thesis by (auto simp: sample_refs_points split: sum.splits)
qed

lemma recovery_finalizes_branch_witness:
  "fst (snd (sample_recover (sample_refs CHR ''a'' CHR ''b'', bm_empty))) = sample_refs CHR ''a'' CHR ''b''"
proof -
  let ?w = "sample_recover (sample_refs CHR ''a'' CHR ''b'', bm_empty)"
  have "\<not> points_at bm_get (sample_refs CHR ''a'' CHR ''b'') EPOCH_CURRENT (sample_oid CHR ''c'')"
    using points_at_unique [OF sample_refs_points(1), of "CHR ''a''" "CHR ''b''" "sample_oid CHR ''c''"]
    by (auto simp: sample_oid_def)
  then show ?thesis
    using recovery_finalizes_branch [OF sample_ctx_ok sample_oid_ok sample_oid_ok sample_oid_ok,
        of "CHR ''a''" "CHR ''b''" "CHR ''c''" "''main''" "sample_refs CHR ''a'' CHR ''b''" bm_empty "fst ?w"
        "fst (snd ?w)" "snd (snd ?w)"] by simp
qed

end
