(* ===== verification/Merge_Protocol.thy ===== *)
theory Merge_Protocol
  imports Ordered_Map
begin

text \<open>
  The merge protocol of \<open>crates/maw-assurance/src/model.rs\<close>, a Stateright model that the repository
  checks for two workspaces by enumeration. Here its states, actions and transitions are
  definitions, its three invariants are theorems for every list of workspaces, and every reachable
  state is shown to have a way to the end.
\<close>

section \<open>States and actions\<close>

type_synonym oid = u64

datatype phase =
    PhIdle | PhPrepare | PhBuild | PhValidate | PhCommitEpoch | PhCommitBranch
  | PhCleanup | PhCrashed | PhRecovering | PhComplete | PhAborted

record ws_model =
  wm_head :: oid
  wm_dirty :: bool
  wm_exists :: bool

record proto_state =
  pr_phase :: phase
  pr_epoch_ref :: oid
  pr_branch_ref :: oid
  pr_candidate :: oid
  pr_recovery_refs :: "oid set"
  pr_workspaces :: "(string, ws_model) btree"
  pr_on_disk :: bool
  pr_committed_pre :: "oid set"
  pr_recovery_captured :: "string set"

datatype action =
    APrepare | ABuild | AValidatePass | AValidateFail | ACommitEpoch | ACommitBranch | ACleanup
  | ACaptureRecovery string | ADestroyWorkspace string | AAbort | ACrash | ARecover

record merge_model =
  mm_workspace_names :: "string list"
  mm_initial_epoch :: oid
  mm_candidate_oid :: oid

definition merge_model_new :: "string list \<Rightarrow> merge_model" where
  "merge_model_new names =
     \<lparr>mm_workspace_names = names, mm_initial_epoch = 1, mm_candidate_oid = 2\<rparr>"

definition initial_workspaces :: "string list \<Rightarrow> (string, ws_model) btree" where
  "initial_workspaces names =
     fold (\<lambda>(i, name). bm_insert name \<lparr>wm_head = 10 + word_of_nat i, wm_dirty = False, wm_exists = True\<rparr>)
       (zip [0..<length names] names) bm_empty"

definition initial_state :: "merge_model \<Rightarrow> proto_state" where
  "initial_state M =
     (let workspaces = initial_workspaces (mm_workspace_names M)
      in \<lparr>pr_phase = PhIdle, pr_epoch_ref = mm_initial_epoch M, pr_branch_ref = mm_initial_epoch M,
          pr_candidate = 0, pr_recovery_refs = {}, pr_workspaces = workspaces, pr_on_disk = False,
          pr_committed_pre = insert (mm_initial_epoch M) (wm_head ` set (bm_values workspaces)),
          pr_recovery_captured = {}\<rparr>)"

definition ws_exists :: "proto_state \<Rightarrow> string \<Rightarrow> bool" where
  "ws_exists s name = (case bm_get (pr_workspaces s) name of Some ws \<Rightarrow> wm_exists ws | None \<Rightarrow> False)"

definition all_handled :: "merge_model \<Rightarrow> proto_state \<Rightarrow> bool" where
  "all_handled M s = list_all (\<lambda>name. name \<in> pr_recovery_captured s \<or>
     (case bm_get (pr_workspaces s) name of None \<Rightarrow> True | Some ws \<Rightarrow> \<not> wm_exists ws))
     (mm_workspace_names M)"

definition actions :: "merge_model \<Rightarrow> proto_state \<Rightarrow> action list" where
  "actions M s = (case pr_phase s of
     PhIdle \<Rightarrow> [APrepare]
   | PhPrepare \<Rightarrow> [ABuild, AAbort, ACrash]
   | PhBuild \<Rightarrow> [AValidatePass, AValidateFail, AAbort, ACrash]
   | PhValidate \<Rightarrow> [ACommitEpoch, AAbort, ACrash]
   | PhCommitEpoch \<Rightarrow> [ACommitBranch, ACrash]
   | PhCommitBranch \<Rightarrow> [ACleanup, ACrash]
   | PhCleanup \<Rightarrow>
       map ACaptureRecovery
         (filter (\<lambda>n. n \<notin> pr_recovery_captured s \<and> ws_exists s n) (mm_workspace_names M))
       @ map ADestroyWorkspace
         (filter (\<lambda>n. n \<in> pr_recovery_captured s \<and> ws_exists s n) (mm_workspace_names M))
       @ (if all_handled M s then [ACleanup] else []) @ [ACrash]
   | PhCrashed \<Rightarrow> [ARecover]
   | PhRecovering \<Rightarrow> []
   | PhComplete \<Rightarrow> []
   | PhAborted \<Rightarrow> [])"

fun next_state :: "merge_model \<Rightarrow> proto_state \<Rightarrow> action \<Rightarrow> proto_state" where
  "next_state M s APrepare = s\<lparr>pr_phase := PhPrepare, pr_on_disk := True\<rparr>"
| "next_state M s ABuild = s\<lparr>pr_phase := PhBuild, pr_candidate := mm_candidate_oid M\<rparr>"
| "next_state M s AValidatePass = s\<lparr>pr_phase := PhValidate\<rparr>"
| "next_state M s AValidateFail = s\<lparr>pr_phase := PhAborted, pr_on_disk := False\<rparr>"
| "next_state M s ACommitEpoch = s\<lparr>pr_epoch_ref := pr_candidate s, pr_phase := PhCommitEpoch\<rparr>"
| "next_state M s ACommitBranch = s\<lparr>pr_branch_ref := pr_candidate s, pr_phase := PhCommitBranch\<rparr>"
| "next_state M s ACleanup =
     (if pr_phase s = PhCommitBranch then s\<lparr>pr_phase := PhCleanup\<rparr>
      else s\<lparr>pr_phase := PhComplete, pr_on_disk := False\<rparr>)"
| "next_state M s (ACaptureRecovery name) =
     (case bm_get (pr_workspaces s) name of
        Some ws \<Rightarrow> s\<lparr>pr_recovery_refs := insert (wm_head ws) (pr_recovery_refs s),
                     pr_recovery_captured := insert name (pr_recovery_captured s)\<rparr>
      | None \<Rightarrow> s)"
| "next_state M s (ADestroyWorkspace name) =
     (case bm_get (pr_workspaces s) name of
        Some ws \<Rightarrow> s\<lparr>pr_workspaces := bm_insert name (ws\<lparr>wm_exists := False\<rparr>) (pr_workspaces s)\<rparr>
      | None \<Rightarrow> s)"
| "next_state M s AAbort = s\<lparr>pr_phase := PhAborted, pr_on_disk := False\<rparr>"
| "next_state M s ACrash = s\<lparr>pr_phase := PhCrashed\<rparr>"
| "next_state M s ARecover =
     (if \<not> pr_on_disk s then s\<lparr>pr_phase := PhIdle\<rparr>
      else if pr_epoch_ref s = pr_candidate s \<and> pr_branch_ref s = pr_candidate s then
        s\<lparr>pr_phase := PhCleanup\<rparr>
      else if pr_epoch_ref s = pr_candidate s \<and> pr_branch_ref s = mm_initial_epoch M then
        s\<lparr>pr_branch_ref := pr_candidate s, pr_phase := PhCleanup\<rparr>
      else s\<lparr>pr_phase := PhAborted, pr_on_disk := False\<rparr>)"

inductive proto_step :: "merge_model \<Rightarrow> proto_state \<Rightarrow> proto_state \<Rightarrow> bool" for M where
  "a \<in> set (actions M s) \<Longrightarrow> proto_step M s (next_state M s a)"

inductive_cases proto_stepE: "proto_step M s s'"

definition proto_reachable :: "merge_model \<Rightarrow> proto_state \<Rightarrow> bool" where
  "proto_reachable M s \<longleftrightarrow> (proto_step M)\<^sup>*\<^sup>* (initial_state M) s"

section \<open>The checked properties\<close>

definition g1_no_silent_loss :: "proto_state \<Rightarrow> bool" where
  "g1_no_silent_loss s \<longleftrightarrow>
     (if pr_phase s \<notin> {PhIdle, PhComplete, PhAborted, PhCleanup} then True
      else
        (let found = {pr_epoch_ref s, pr_branch_ref s} \<union> pr_recovery_refs s
               \<union> wm_head ` set (filter wm_exists (bm_values (pr_workspaces s)))
               \<union> (if pr_epoch_ref s \<noteq> 0 then {1} else {})
         in pr_committed_pre s \<subseteq> found))"

definition g3_commit_atomicity :: "proto_state \<Rightarrow> bool" where
  "g3_commit_atomicity s \<longleftrightarrow>
     (if pr_phase s = PhCleanup \<or> pr_phase s = PhComplete
      then pr_epoch_ref s = pr_candidate s \<and> pr_branch_ref s = pr_candidate s else True)"

definition g4_destructive_gate :: "proto_state \<Rightarrow> bool" where
  "g4_destructive_gate s \<longleftrightarrow>
     list_all (\<lambda>(name, ws). wm_exists ws \<or> name \<in> pr_recovery_captured s)
       (bm_entries (pr_workspaces s))"

section \<open>The inductive invariant\<close>

text \<open>Where the references and the candidate are in each phase.\<close>

definition proto_refs_ok :: "proto_state \<Rightarrow> bool" where
  "proto_refs_ok s \<longleftrightarrow>
     (let refs = (pr_epoch_ref s, pr_branch_ref s, pr_candidate s)
      in case pr_phase s of
           PhIdle \<Rightarrow> refs = (1, 1, 0)
         | PhPrepare \<Rightarrow> refs = (1, 1, 0) \<and> pr_on_disk s
         | PhBuild \<Rightarrow> refs = (1, 1, 2) \<and> pr_on_disk s
         | PhValidate \<Rightarrow> refs = (1, 1, 2) \<and> pr_on_disk s
         | PhCommitEpoch \<Rightarrow> refs = (2, 1, 2) \<and> pr_on_disk s
         | PhCommitBranch \<Rightarrow> refs = (2, 2, 2) \<and> pr_on_disk s
         | PhCleanup \<Rightarrow> refs = (2, 2, 2) \<and> pr_on_disk s
         | PhCrashed \<Rightarrow> refs \<in> {(1, 1, 0), (1, 1, 2), (2, 1, 2), (2, 2, 2)} \<and> pr_on_disk s
         | PhRecovering \<Rightarrow> False
         | PhComplete \<Rightarrow> refs = (2, 2, 2)
         | PhAborted \<Rightarrow> refs \<in> {(1, 1, 0), (1, 1, 2)})"

text \<open>What is known of the workspaces: heads never change, a captured workspace has its head among the
  recovery references and only captured ones are gone.\<close>

definition proto_ws_ok :: "merge_model \<Rightarrow> proto_state \<Rightarrow> bool" where
  "proto_ws_ok M s \<longleftrightarrow>
     pr_committed_pre s = insert 1 {wm_head ws | name ws. bm_get (pr_workspaces s) name = Some ws}
   \<and> (\<forall>name ws. bm_get (pr_workspaces s) name = Some ws \<longrightarrow>
        (name \<in> pr_recovery_captured s \<longrightarrow> wm_head ws \<in> pr_recovery_refs s)
        \<and> (\<not> wm_exists ws \<longrightarrow> name \<in> pr_recovery_captured s))"

definition proto_inv :: "merge_model \<Rightarrow> proto_state \<Rightarrow> bool" where
  "proto_inv M s \<longleftrightarrow> proto_refs_ok s \<and> proto_ws_ok M s"

lemma values_get: "set (bm_values m) = {v. \<exists>k. bm_get m k = Some v}"
  unfolding bm_values_def bm.in_entries [symmetric] by force

lemma initial_workspaces_exist: "bm_get (initial_workspaces names) name = Some ws \<Longrightarrow> wm_exists ws"
proof -
  have "bm_get (fold (\<lambda>(i, name). bm_insert name \<lparr>wm_head = 10 + word_of_nat i, wm_dirty = False,
      wm_exists = True\<rparr>) xs m) name = Some ws \<Longrightarrow> wm_exists ws \<or> bm_get m name = Some ws"
    for xs and m :: "(string, ws_model) btree"
    by (induction xs arbitrary: m) (force split: if_splits)+
  then show "bm_get (initial_workspaces names) name = Some ws \<Longrightarrow> wm_exists ws"
    unfolding initial_workspaces_def by fastforce
qed

lemma proto_inv_initial: "proto_inv (merge_model_new names) (initial_state (merge_model_new names))"
  using initial_workspaces_exist
  by (auto simp: proto_inv_def proto_refs_ok_def proto_ws_ok_def initial_state_def merge_model_new_def
      Let_def values_get)

text \<open>The phases an action is offered in.\<close>

fun action_phases :: "action \<Rightarrow> phase set" where
  "action_phases APrepare = {PhIdle}"
| "action_phases ABuild = {PhPrepare}"
| "action_phases AValidatePass = {PhBuild}"
| "action_phases AValidateFail = {PhBuild}"
| "action_phases ACommitEpoch = {PhValidate}"
| "action_phases ACommitBranch = {PhCommitEpoch}"
| "action_phases ACleanup = {PhCommitBranch, PhCleanup}"
| "action_phases (ACaptureRecovery _) = {PhCleanup}"
| "action_phases (ADestroyWorkspace _) = {PhCleanup}"
| "action_phases AAbort = {PhPrepare, PhBuild, PhValidate}"
| "action_phases ACrash = {PhPrepare, PhBuild, PhValidate, PhCommitEpoch, PhCommitBranch, PhCleanup}"
| "action_phases ARecover = {PhCrashed}"

lemma action_phase: "a \<in> set (actions M s) \<Longrightarrow> pr_phase s \<in> action_phases a"
  by (cases "pr_phase s") (auto simp: actions_def split: if_splits)

lemma proto_refs_action:
  "proto_refs_ok s \<Longrightarrow> pr_phase s \<in> action_phases a \<Longrightarrow> proto_refs_ok (next_state (merge_model_new names) s a)"
  by (induction a) (simp; auto simp: proto_refs_ok_def Let_def merge_model_new_def split: option.splits)+

lemma proto_refs_step:
  assumes "proto_refs_ok s" "a \<in> set (actions (merge_model_new names) s)"
  shows "proto_refs_ok (next_state (merge_model_new names) s a)"
  using proto_refs_action [OF assms(1) action_phase [OF assms(2)]] .

lemma proto_ws_step:
  assumes "proto_ws_ok M s" "a \<in> set (actions M s)"
  shows "proto_ws_ok M (next_state M s a)"
proof -
  have heads: "{wm_head v | k v. bm_get (bm_insert n (ws\<lparr>wm_exists := False\<rparr>) m) k = Some v}
      = {wm_head v | k v. bm_get m k = Some v}" if "bm_get m n = Some ws"
    for m :: "(string, ws_model) btree" and n ws
  proof (intro equalityI subsetI)
    fix x assume "x \<in> {wm_head v | k v. bm_get m k = Some v}"
    then obtain k v where "x = wm_head v" "bm_get m k = Some v" by blast
    with that show "x \<in> {wm_head v | k v. bm_get (bm_insert n (ws\<lparr>wm_exists := False\<rparr>) m) k = Some v}"
      by (cases "k = n") (auto intro!: exI [of _ k])
  qed (use that in \<open>auto split: if_splits\<close>)
  have gate: "n \<in> pr_recovery_captured s" if "a = ADestroyWorkspace n" for n
    using assms(2) that by (auto simp: actions_def split: phase.splits if_splits)
  show ?thesis
  proof (cases a)
    case (ADestroyWorkspace n)
    then show ?thesis
      using assms(1) gate heads [of "pr_workspaces s" n]
      by (cases "bm_get (pr_workspaces s) n") (auto simp: proto_ws_ok_def)
  qed (use assms(1) in \<open>auto simp: proto_ws_ok_def split: option.splits\<close>)
qed

lemma proto_inv_reachable: "proto_reachable (merge_model_new names) s \<Longrightarrow> proto_inv (merge_model_new names) s"
  unfolding proto_reachable_def
proof (induction rule: rtranclp_induct)
  case base
  show ?case by (rule proto_inv_initial)
next
  case (step s s')
  then show ?case
    by (auto simp: proto_inv_def elim!: proto_stepE intro: proto_refs_step proto_ws_step)
qed

section \<open>Reaching the end\<close>

definition proto_terminal :: "proto_state \<Rightarrow> bool" where
  "proto_terminal s \<longleftrightarrow> pr_phase s = PhComplete \<or> pr_phase s = PhAborted"

lemma step_to: "a \<in> set (actions M s) \<Longrightarrow> (proto_step M)\<^sup>*\<^sup>* (next_state M s a) t \<Longrightarrow> (proto_step M)\<^sup>*\<^sup>* s t"
  by (meson converse_rtranclp_into_rtranclp proto_step.intros)

lemma terminal_refl: "proto_terminal s \<Longrightarrow> \<exists>t. (proto_step M)\<^sup>*\<^sup>* s t \<and> proto_terminal t"
  by blast

text \<open>In cleanup every workspace that is still unhandled can be captured, one fewer each time.\<close>

lemma cleanup_terminates:
  "pr_phase s = PhCleanup \<Longrightarrow> \<exists>t. (proto_step M)\<^sup>*\<^sup>* s t \<and> proto_terminal t"
proof (induction "length (filter (\<lambda>n. n \<notin> pr_recovery_captured s \<and> ws_exists s n) (mm_workspace_names M))"
    arbitrary: s rule: less_induct)
  case less
  let ?open = "\<lambda>s n. n \<notin> pr_recovery_captured s \<and> ws_exists s n"
  show ?case
  proof (cases "all_handled M s")
    case True
    then have "ACleanup \<in> set (actions M s)" using less.prems by (simp add: actions_def)
    moreover have "proto_terminal (next_state M s ACleanup)"
      using less.prems by (simp add: proto_terminal_def)
    ultimately show ?thesis using step_to by blast
  next
    case False
    then obtain n where n: "n \<in> set (mm_workspace_names M)" "?open s n"
      by (auto simp: all_handled_def ws_exists_def list_all_iff split: option.splits)
    then obtain ws where ws: "bm_get (pr_workspaces s) n = Some ws"
      by (auto simp: ws_exists_def split: option.splits)
    let ?s' = "next_state M s (ACaptureRecovery n)"
    have "ACaptureRecovery n \<in> set (actions M s)" using n less.prems by (auto simp: actions_def)
    moreover have "\<exists>t. (proto_step M)\<^sup>*\<^sup>* ?s' t \<and> proto_terminal t"
    proof (rule less.hyps)
      have sub: "?open ?s' x \<longleftrightarrow> ?open s x \<and> x \<noteq> n" for x
        using ws by (auto simp: ws_exists_def)
      have shrink: "filter (?open ?s') (mm_workspace_names M)
          = filter (\<lambda>x. x \<noteq> n) (filter (?open s) (mm_workspace_names M))"
        unfolding sub by (simp add: conj_commute)
      have "n \<in> set (filter (?open s) (mm_workspace_names M))" using n by simp
      then show "length (filter (?open ?s') (mm_workspace_names M))
          < length (filter (?open s) (mm_workspace_names M))"
        unfolding shrink by (rule length_filter_less) simp
      show "pr_phase ?s' = PhCleanup" using less.prems ws by simp
    qed
    ultimately show ?thesis using step_to by blast
  qed
qed

lemma terminates_from:
  assumes inv: "proto_refs_ok s"
  shows "\<exists>t. (proto_step M)\<^sup>*\<^sup>* s t \<and> proto_terminal t"
proof -
  have abort: "\<exists>t. (proto_step M)\<^sup>*\<^sup>* u t \<and> proto_terminal t"
    if "pr_phase u \<in> {PhPrepare, PhBuild, PhValidate}" for u
  proof -
    have "AAbort \<in> set (actions M u)" using that by (auto simp: actions_def)
    moreover have "proto_terminal (next_state M u AAbort)" by (simp add: proto_terminal_def)
    ultimately show ?thesis using step_to by blast
  qed
  have branch: "\<exists>t. (proto_step M)\<^sup>*\<^sup>* u t \<and> proto_terminal t" if "pr_phase u = PhCommitBranch" for u
  proof -
    have "ACleanup \<in> set (actions M u)" using that by (simp add: actions_def)
    moreover have "pr_phase (next_state M u ACleanup) = PhCleanup" using that by simp
    ultimately show ?thesis using step_to cleanup_terminates by blast
  qed
  show ?thesis
  proof (cases "pr_phase s")
    case PhIdle
    then have "APrepare \<in> set (actions M s)" by (simp add: actions_def)
    moreover have "pr_phase (next_state M s APrepare) = PhPrepare" by simp
    ultimately show ?thesis using step_to abort by blast
  next
    case PhCommitEpoch
    then have "ACommitBranch \<in> set (actions M s)" by (simp add: actions_def)
    moreover have "pr_phase (next_state M s ACommitBranch) = PhCommitBranch" by simp
    ultimately show ?thesis using step_to branch by blast
  next
    case PhCrashed
    then have "ARecover \<in> set (actions M s)" by (simp add: actions_def)
    moreover have "pr_phase (next_state M s ARecover) = PhCleanup \<or> proto_terminal (next_state M s ARecover)"
      using inv PhCrashed by (simp add: proto_refs_ok_def proto_terminal_def)
    ultimately show ?thesis using step_to cleanup_terminates by blast
  next
    case PhRecovering
    then show ?thesis using inv by (simp add: proto_refs_ok_def)
  next
    case PhComplete
    then show ?thesis by (intro terminal_refl) (simp add: proto_terminal_def)
  next
    case PhAborted
    then show ?thesis by (intro terminal_refl) (simp add: proto_terminal_def)
  qed (simp_all add: abort branch cleanup_terminates)
qed

section \<open>Properties\<close>

text \<open>C7. The three invariants of the model hold in every state that is reachable from the initial one,
  for any list of workspaces: no object that was committed before the merge becomes unreachable, both
  references are at the candidate once cleanup starts, and a workspace is only destroyed after its
  recovery reference was captured.\<close>

theorem protocol_invariants:
  assumes "proto_reachable (merge_model_new names) s"
  shows "g1_no_silent_loss s \<and> g3_commit_atomicity s \<and> g4_destructive_gate s"
proof -
  have inv: "proto_refs_ok s" "proto_ws_ok (merge_model_new names) s"
    using proto_inv_reachable [OF assms] by (auto simp: proto_inv_def)
  have g4: "g4_destructive_gate s"
    using inv(2) unfolding g4_destructive_gate_def proto_ws_ok_def list_all_iff
    by (auto simp: bm.in_entries) blast
  have g3: "g3_commit_atomicity s"
    using inv(1) by (auto simp: g3_commit_atomicity_def proto_refs_ok_def)
  have "oid \<in> pr_recovery_refs s \<union> wm_head ` set (filter wm_exists (bm_values (pr_workspaces s)))"
    if "oid \<in> pr_committed_pre s" "oid \<noteq> 1" for oid
    using that inv(2) by (force simp: proto_ws_ok_def values_get)
  moreover have "pr_epoch_ref s \<noteq> 0" if "pr_phase s \<in> {PhIdle, PhComplete, PhAborted, PhCleanup}"
    using that inv(1) by (auto simp: proto_refs_ok_def)
  ultimately have "g1_no_silent_loss s"
    by (auto simp: g1_no_silent_loss_def Let_def)
  with g3 g4 show ?thesis by blast
qed

text \<open>C8. However a merge ends, with crashes at any point, it has taken effect as a whole or not at
  all: complete with both references at the candidate, or aborted with both at the old epoch; and
  from every reachable state one of the two ends can still be reached.\<close>

theorem protocol_all_or_nothing:
  assumes "proto_reachable (merge_model_new names) s"
  shows "(case pr_phase s of
      PhComplete \<Rightarrow> pr_epoch_ref s = 2 \<and> pr_branch_ref s = 2
    | PhAborted \<Rightarrow> pr_epoch_ref s = 1 \<and> pr_branch_ref s = 1
    | _ \<Rightarrow> True)
    \<and> (\<exists>t. (proto_step (merge_model_new names))\<^sup>*\<^sup>* s t \<and> proto_terminal t)"
proof -
  have inv: "proto_refs_ok s" using proto_inv_reachable [OF assms] by (simp add: proto_inv_def)
  then have "case pr_phase s of
      PhComplete \<Rightarrow> pr_epoch_ref s = 2 \<and> pr_branch_ref s = 2
    | PhAborted \<Rightarrow> pr_epoch_ref s = 1 \<and> pr_branch_ref s = 1 | _ \<Rightarrow> True"
    by (auto simp: proto_refs_ok_def split: phase.splits)
  with terminates_from [OF inv] show ?thesis by blast
qed

section \<open>Witnesses\<close>

abbreviation "sample_model \<equiv> merge_model_new [''alice'', ''bob'']"

definition sample_actions :: "action list" where
  "sample_actions = [APrepare, ABuild, AValidatePass, ACommitEpoch, ACrash, ARecover,
     ACaptureRecovery ''alice'', ADestroyWorkspace ''alice'', ACaptureRecovery ''bob'', ACleanup]"

fun run_actions :: "merge_model \<Rightarrow> action list \<Rightarrow> proto_state \<Rightarrow> proto_state option" where
  "run_actions M [] s = Some s"
| "run_actions M (a # as) s =
     (if a \<in> set (actions M s) then run_actions M as (next_state M s a) else None)"

lemma run_actions_reachable:
  "run_actions M as s = Some t \<Longrightarrow> (proto_step M)\<^sup>*\<^sup>* s t"
  by (induction as arbitrary: s) (auto split: if_splits intro: step_to)

definition sample_end :: proto_state where
  "sample_end = (case run_actions sample_model sample_actions (initial_state sample_model) of
     Some t \<Rightarrow> t | None \<Rightarrow> initial_state sample_model)"

lemma sample_end_complete: "pr_phase sample_end = PhComplete"
  by code_simp

lemma sample_end_reachable: "proto_reachable sample_model sample_end"
  using run_actions_reachable [of sample_model sample_actions "initial_state sample_model"]
  by (auto simp: sample_end_def proto_reachable_def split: option.splits)

lemma protocol_invariants_witness:
  "pr_phase sample_end = PhComplete \<and> g1_no_silent_loss sample_end \<and> g4_destructive_gate sample_end"
  using protocol_invariants [OF sample_end_reachable] sample_end_complete by simp

lemma protocol_all_or_nothing_witness:
  "pr_epoch_ref sample_end = 2 \<and> pr_branch_ref sample_end = 2"
  using protocol_all_or_nothing [OF sample_end_reachable] sample_end_complete by simp

end
