(* ===== verification/Ordering_Key.thy ===== *)
theory Ordering_Key
  imports Core_Types
begin

text \<open>
  The causal ordering key and the per-workspace sequence generator of
  \<open>crates/maw-core/src/model/ordering.rs\<close>. The wall clock is a field of the key that neither \<open>==\<close>
  nor \<open>cmp\<close> reads. The system clock is the argument \<open>now_ms\<close>, as in the code's
  \<open>next_with_clock\<close>; \<open>+= 1\<close> is the wrapping addition of a release build.
\<close>

section \<open>Ordering keys\<close>

record ordering_key =
  ok_epoch_id :: epoch_id
  ok_workspace_id :: workspace_id
  ok_seq :: u64
  ok_wall_clock_ms :: u64

definition key_eq :: "ordering_key \<Rightarrow> ordering_key \<Rightarrow> bool" where
  "key_eq a b \<longleftrightarrow> ok_epoch_id a = ok_epoch_id b \<and> ok_workspace_id a = ok_workspace_id b
     \<and> ok_seq a = ok_seq b"

definition key_cmp :: "ordering_key \<Rightarrow> ordering_key \<Rightarrow> rust_ordering" where
  "key_cmp a b =
     then_with
       (then_with (cmp_of (epoch_str (ok_epoch_id a)) (epoch_str (ok_epoch_id b)))
                  (cmp_of (ok_workspace_id a) (ok_workspace_id b)))
       (cmp_of (ok_seq a) (ok_seq b))"

definition key_display :: "ordering_key \<Rightarrow> string" where
  "key_display k = take 8 (epoch_str (ok_epoch_id k)) @ '':'' @ ws_str (ok_workspace_id k) @ '':'' @
     show_nat (unat (ok_seq k))"

interpretation key_ord: total_cmp key_cmp
proof -
  have epoch: "total_cmp (\<lambda>a b. cmp_of (epoch_str (ok_epoch_id a)) (epoch_str (ok_epoch_id b)))"
    by (rule total_cmp_on [where f = "\<lambda>a. epoch_str (ok_epoch_id a)"]) (rule linorder_cmp.total_cmp_axioms)
  have ws: "total_cmp (\<lambda>a b. cmp_of (ok_workspace_id a) (ok_workspace_id b))"
    by (rule total_cmp_on) (rule linorder_cmp.total_cmp_axioms)
  have seq: "total_cmp (\<lambda>a b. cmp_of (ok_seq a) (ok_seq b))"
    by (rule total_cmp_on) (rule linorder_cmp.total_cmp_axioms)
  show "total_cmp key_cmp"
    unfolding key_cmp_def [abs_def] by (intro total_cmp_then epoch ws seq)
qed

lemma key_cmp_Equal: "key_cmp a b = Equal \<longleftrightarrow> key_eq a b"
  by (auto simp: key_cmp_def key_eq_def then_with_iff epoch_str_def epoch_id.expand git_oid.expand)

lemma key_cmp_Less:
  "key_cmp a b = Less \<longleftrightarrow>
     epoch_str (ok_epoch_id a) < epoch_str (ok_epoch_id b)
   \<or> (ok_epoch_id a = ok_epoch_id b \<and> ok_workspace_id a < ok_workspace_id b)
   \<or> (ok_epoch_id a = ok_epoch_id b \<and> ok_workspace_id a = ok_workspace_id b \<and> ok_seq a < ok_seq b)"
  by (auto simp: key_cmp_def then_with_iff epoch_str_def epoch_id.expand git_oid.expand)

section \<open>The sequence generator\<close>

record sequence_generator =
  sg_last_seq :: u64
  sg_last_wall_clock_ms :: u64

definition seq_gen_new :: sequence_generator where
  "seq_gen_new = \<lparr>sg_last_seq = 0, sg_last_wall_clock_ms = 0\<rparr>"

definition seq_gen_resume :: "u64 \<Rightarrow> u64 \<Rightarrow> sequence_generator" where
  "seq_gen_resume s w = \<lparr>sg_last_seq = s, sg_last_wall_clock_ms = w\<rparr>"

definition next_with_clock :: "u64 \<Rightarrow> sequence_generator \<Rightarrow> (u64 \<times> u64) \<times> sequence_generator" where
  "next_with_clock now_ms g =
     (let seq = sg_last_seq g + 1;
          wall = max now_ms (sg_last_wall_clock_ms g + 1)
      in ((seq, wall), g\<lparr>sg_last_seq := seq, sg_last_wall_clock_ms := wall\<rparr>))"

text \<open>The pairs that a run of calls yields, one clock reading each.\<close>

fun seq_gen_run :: "u64 list \<Rightarrow> sequence_generator \<Rightarrow> (u64 \<times> u64) list \<times> sequence_generator" where
  "seq_gen_run [] g = ([], g)"
| "seq_gen_run (t # ts) g =
     (let (p, g') = next_with_clock t g; (ps, g'') = seq_gen_run ts g' in (p # ps, g''))"

lemma unat_inc: "Suc (unat (x :: u64)) < 2 ^ 64 \<Longrightarrow> unat (x + 1) = Suc (unat x)"
  by (simp add: unat_word_ariths(1))

lemma next_with_clock_unat:
  assumes "Suc (unat (sg_last_seq g)) < 2 ^ 64" "Suc (unat (sg_last_wall_clock_ms g)) < 2 ^ 64"
    and "next_with_clock t g = (p, g')"
  shows "unat (fst p) = Suc (unat (sg_last_seq g))"
    "unat (snd p) = max (unat t) (Suc (unat (sg_last_wall_clock_ms g)))"
    "sg_last_seq g' = fst p" "sg_last_wall_clock_ms g' = snd p"
  using assms unat_inc [OF assms(1)] unat_inc [OF assms(2)]
  by (auto simp: next_with_clock_def Let_def max_def word_le_nat_alt)

lemma seq_gen_run_bounds:
  assumes "unat (sg_last_seq g) + length ts < 2 ^ 64"
    and "unat (sg_last_wall_clock_ms g) \<le> B" "\<forall>t \<in> set ts. unat t \<le> B" "B + length ts < 2 ^ 64"
    and "seq_gen_run ts g = (ps, g')"
  shows "map (unat \<circ> fst) ps = [Suc (unat (sg_last_seq g)) ..< Suc (unat (sg_last_seq g) + length ts)]
    \<and> sorted_wrt (<) (sg_last_wall_clock_ms g # map snd ps)
    \<and> list_all2 (\<lambda>t p. t \<le> snd p) ts ps"
  using assms
proof (induction ts arbitrary: g B ps)
  case (Cons t ts)
  obtain p h where nx: "next_with_clock t g = (p, h)" by (cases "next_with_clock t g")
  obtain qs k where run: "seq_gen_run ts h = (qs, k)" by (cases "seq_gen_run ts h")
  have step: "unat (fst p) = Suc (unat (sg_last_seq g))"
    "unat (snd p) = max (unat t) (Suc (unat (sg_last_wall_clock_ms g)))"
    "sg_last_seq h = fst p" "sg_last_wall_clock_ms h = snd p"
    using next_with_clock_unat [OF _ _ nx] Cons.prems by auto
  have out: "ps = p # qs" "seq_gen_run ts h = (qs, g')" using Cons.prems(5) by (auto simp: nx run)
  have "unat (sg_last_seq h) + length ts < 2 ^ 64" "unat (sg_last_wall_clock_ms h) \<le> Suc B"
    "\<forall>u \<in> set ts. unat u \<le> Suc B" "Suc B + length ts < 2 ^ 64"
    using step Cons.prems by auto
  note IH = Cons.IH [OF this out(2)]
  have "sg_last_wall_clock_ms g < snd p" "t \<le> snd p"
    using step by (auto simp: word_less_nat_alt word_le_nat_alt)
  with IH step out show ?case by (auto simp: upt_conv_Cons)
qed simp

section \<open>Properties\<close>

text \<open>The comparison of ordering keys is a total order up to the wall clock: it reverses with its
  arguments, says \<open>Equal\<close> exactly for the keys that \<open>==\<close> identifies, and is transitive.\<close>

theorem key_order_total:
  "key_cmp b a = rev_ordering (key_cmp a b)
   \<and> (key_cmp a b = Equal \<longleftrightarrow> key_eq a b)
   \<and> (key_cmp a b = Less \<and> key_cmp b c \<noteq> Greater \<longrightarrow> key_cmp a c = Less)"
  using key_ord.cmp_swap [of b a] key_cmp_Equal [of a b] key_ord.cmp_less_trans [of a b c] by blast

text \<open>C40. The keys one workspace stamps with its generator are strictly increasing, whatever the system
  clock does, and their wall clocks, which never run behind the clock reading, are strictly increasing
  too, as long as neither counter overflows.\<close>

theorem seq_gen_keys_increase:
  assumes "unat (sg_last_seq g) + length ts < 2 ^ 64"
    and "unat (sg_last_wall_clock_ms g) \<le> B" "\<forall>t \<in> set ts. unat t \<le> B" "B + length ts < 2 ^ 64"
    and "seq_gen_run ts g = (ps, g')"
  shows "sorted_wrt (\<lambda>a b. key_cmp a b = Less) (map (\<lambda>(s, w). ordering_key.make e ws s w) ps)
    \<and> sorted_wrt (<) (sg_last_wall_clock_ms g # map snd ps)
    \<and> list_all2 (\<lambda>t p. t \<le> snd p) ts ps"
proof -
  note run = seq_gen_run_bounds [OF assms]
  then have "sorted_wrt (<) (map (unat \<circ> fst) ps)"
    by (simp only: sorted_wrt_upt)
  then have "sorted_wrt (\<lambda>p q. fst p < fst q) ps" by (simp add: sorted_wrt_map word_less_nat_alt)
  then have "sorted_wrt (\<lambda>a b. key_cmp a b = Less) (map (\<lambda>(s, w). ordering_key.make e ws s w) ps)"
    unfolding sorted_wrt_map
    by (rule sorted_wrt_mono_rel [rotated]) (auto simp: key_cmp_Less ordering_key.defs)
  with run show ?thesis by blast
qed

section \<open>Witnesses\<close>

lemma key_order_total_witness:
  "key_cmp (ordering_key.make (sample_epoch CHR ''a'') (sample_ws ''w'') 1 9)
     (ordering_key.make (sample_epoch CHR ''a'') (sample_ws ''w'') 3 0) = Less"
proof -
  let ?k = "\<lambda>n. ordering_key.make (sample_epoch CHR ''a'') (sample_ws ''w'') n 0"
  have "key_cmp (ordering_key.make (sample_epoch CHR ''a'') (sample_ws ''w'') 1 9) (?k 2) = Less"
    "key_cmp (?k 2) (?k 3) \<noteq> Greater"
    by (simp_all add: key_cmp_def ordering_key.defs then_with_iff)
  then show ?thesis using key_order_total [of "?k 2" _ "?k 3"] by blast
qed

lemma seq_gen_keys_increase_witness:
  "sorted_wrt (\<lambda>a b. key_cmp a b = Less)
     (map (\<lambda>(s, w). ordering_key.make (sample_epoch CHR ''a'') (sample_ws ''w'') s w)
        (fst (seq_gen_run [500, 3] seq_gen_new)))"
  using seq_gen_keys_increase [of seq_gen_new "[500, 3]" 500 "fst (seq_gen_run [500, 3] seq_gen_new)"
      "snd (seq_gen_run [500, 3] seq_gen_new)" "sample_epoch CHR ''a''" "sample_ws ''w''"]
  by (simp add: seq_gen_new_def)

end
