(* ===== verification/Conflict_Model.thy ===== *)
theory Conflict_Model
  imports Ordering_Key Patch_Model
begin

text \<open>
  Structured conflicts, \<open>crates/maw-core/src/model/conflict.rs\<close>: the regions and reasons of conflict
  atoms, the sides, and the four kinds of conflict that a conflict tree records.
\<close>

section \<open>Sides\<close>

datatype conflict_side_mode = SBlob | SBlobExecutable | SLink

record conflict_side =
  cs_workspace :: string
  cs_content :: git_oid
  cs_timestamp :: ordering_key
  cs_mode :: "conflict_side_mode option"
  cs_base_content :: "git_oid option"

definition conflict_side_new :: "string \<Rightarrow> git_oid \<Rightarrow> ordering_key \<Rightarrow> conflict_side" where
  "conflict_side_new w c t = \<lparr>cs_workspace = w, cs_content = c, cs_timestamp = t, cs_mode = None,
     cs_base_content = None\<rparr>"

definition conflict_side_with_mode ::
  "string \<Rightarrow> git_oid \<Rightarrow> ordering_key \<Rightarrow> conflict_side_mode option \<Rightarrow> conflict_side" where
  "conflict_side_with_mode w c t m = \<lparr>cs_workspace = w, cs_content = c, cs_timestamp = t, cs_mode = m,
     cs_base_content = None\<rparr>"

definition conflict_side_with_base ::
  "string \<Rightarrow> git_oid \<Rightarrow> ordering_key \<Rightarrow> git_oid option \<Rightarrow> conflict_side" where
  "conflict_side_with_base w c t b = \<lparr>cs_workspace = w, cs_content = c, cs_timestamp = t, cs_mode = None,
     cs_base_content = b\<rparr>"

definition conflict_side_with_mode_and_base ::
  "string \<Rightarrow> git_oid \<Rightarrow> ordering_key \<Rightarrow> conflict_side_mode option \<Rightarrow> git_oid option \<Rightarrow> conflict_side" where
  "conflict_side_with_mode_and_base w c t m b = \<lparr>cs_workspace = w, cs_content = c, cs_timestamp = t,
     cs_mode = m, cs_base_content = b\<rparr>"

section \<open>Atoms\<close>

datatype region =
    Lines u32 u32
  | AstNode string "string option" u32 u32
  | WholeFile

fun region_summary :: "region \<Rightarrow> string" where
  "region_summary (Lines s e) = ''lines '' @ show_nat (unat s) @ ''..'' @ show_nat (unat e)"
| "region_summary (AstNode node_kind name _ _) =
     (case name of None \<Rightarrow> node_kind | Some n \<Rightarrow> node_kind @ '' `'' @ n @ ''`'')"
| "region_summary WholeFile = ''whole file''"

datatype atom_reason =
    OverlappingLineEdits (reason_description: string)
  | SameAstNodeModified (reason_description: string)
  | SymbolLifecycleDivergence (reason_description: string)
  | SignatureDrift (reason_description: string)
  | IncompatibleApiEdits (reason_description: string)
  | NonCommutativeEdits (reason_description: string)
  | CustomReason (reason_description: string)

fun atom_reason_name :: "atom_reason \<Rightarrow> string" where
  "atom_reason_name (OverlappingLineEdits _) = ''overlapping_line_edits''"
| "atom_reason_name (SameAstNodeModified _) = ''same_ast_node_modified''"
| "atom_reason_name (SymbolLifecycleDivergence _) = ''symbol_lifecycle_divergence''"
| "atom_reason_name (SignatureDrift _) = ''signature_drift''"
| "atom_reason_name (IncompatibleApiEdits _) = ''incompatible_api_edits''"
| "atom_reason_name (NonCommutativeEdits _) = ''non_commutative_edits''"
| "atom_reason_name (CustomReason _) = ''custom''"

record atom_edit =
  ae_workspace :: string
  ae_region :: region
  ae_content :: string

definition atom_edit_new :: "string \<Rightarrow> region \<Rightarrow> string \<Rightarrow> atom_edit" where
  "atom_edit_new w r c = \<lparr>ae_workspace = w, ae_region = r, ae_content = c\<rparr>"

record semantic_explanation =
  se_rule :: string
  se_confidence :: u8
  se_rationale :: string
  se_evidence :: "string list"

record conflict_atom =
  ca_base_region :: region
  ca_edits :: "atom_edit list"
  ca_reason :: atom_reason
  ca_semantic :: "semantic_explanation option"

definition conflict_atom_new :: "region \<Rightarrow> atom_edit list \<Rightarrow> atom_reason \<Rightarrow> conflict_atom" where
  "conflict_atom_new r es why = \<lparr>ca_base_region = r, ca_edits = es, ca_reason = why, ca_semantic = None\<rparr>"

definition with_semantic :: "semantic_explanation \<Rightarrow> conflict_atom \<Rightarrow> conflict_atom" where
  "with_semantic s a = a\<lparr>ca_semantic := Some s\<rparr>"

definition line_overlap :: "u32 \<Rightarrow> u32 \<Rightarrow> atom_edit list \<Rightarrow> string \<Rightarrow> conflict_atom" where
  "line_overlap s e es d = \<lparr>ca_base_region = Lines s e, ca_edits = es,
     ca_reason = OverlappingLineEdits d, ca_semantic = None\<rparr>"

section \<open>Conflicts\<close>

datatype conflict =
    CContent path file_id "git_oid option" "conflict_side list" "conflict_atom list"
  | CAddAdd path "conflict_side list"
  | CModifyDelete path file_id conflict_side conflict_side git_oid "path option" "path option"
  | CDivergentRename file_id path "(path \<times> conflict_side) list"

fun conflict_path :: "conflict \<Rightarrow> path" where
  "conflict_path (CContent p _ _ _ _) = p"
| "conflict_path (CAddAdd p _) = p"
| "conflict_path (CModifyDelete p _ _ _ _ _ _) = p"
| "conflict_path (CDivergentRename _ original _) = original"

fun conflict_variant_name :: "conflict \<Rightarrow> string" where
  "conflict_variant_name (CContent _ _ _ _ _) = ''content''"
| "conflict_variant_name (CAddAdd _ _) = ''add_add''"
| "conflict_variant_name (CModifyDelete _ _ _ _ _ _ _) = ''modify_delete''"
| "conflict_variant_name (CDivergentRename _ _ _) = ''divergent_rename''"

fun side_count :: "conflict \<Rightarrow> nat" where
  "side_count (CContent _ _ _ sides _) = length sides"
| "side_count (CAddAdd _ sides) = length sides"
| "side_count (CModifyDelete _ _ _ _ _ _ _) = 2"
| "side_count (CDivergentRename _ _ destinations) = length destinations"

fun conflict_workspaces :: "conflict \<Rightarrow> string list" where
  "conflict_workspaces (CContent _ _ _ sides _) = map cs_workspace sides"
| "conflict_workspaces (CAddAdd _ sides) = map cs_workspace sides"
| "conflict_workspaces (CModifyDelete _ _ modifier deleter _ _ _) = [cs_workspace modifier, cs_workspace deleter]"
| "conflict_workspaces (CDivergentRename _ _ destinations) = map (\<lambda>(_, s). cs_workspace s) destinations"

lemma length_conflict_workspaces: "length (conflict_workspaces c) = side_count c"
  by (cases c) auto

end
