(* ===== verification/Merge_Types.thy ===== *)
theory Merge_Types
  imports Patch_Model
begin

text \<open>
  What one workspace hands to the merge, \<open>crates/maw-core/src/merge/types.rs\<close>: its changes, each with
  kind, content, identity, blob and tree mode, sorted by path. The conflict tree of the same file is
  in the theory that fills it, \<open>Conflict_Apply\<close>.
\<close>

datatype change_kind = Added | Modified | Deleted

datatype entry_mode = MBlob | MBlobExecutable | MTree | MLink | MCommit

fun change_kind_str :: "change_kind \<Rightarrow> string" where
  "change_kind_str Added = ''added''"
| "change_kind_str Modified = ''modified''"
| "change_kind_str Deleted = ''deleted''"

record file_change =
  fc_path :: path
  fc_kind :: change_kind
  fc_content :: "blob option"
  fc_file_id :: "file_id option"
  fc_blob :: "git_oid option"
  fc_mode :: "entry_mode option"

definition file_change_new :: "path \<Rightarrow> change_kind \<Rightarrow> blob option \<Rightarrow> file_change" where
  "file_change_new p k c = \<lparr>fc_path = p, fc_kind = k, fc_content = c, fc_file_id = None,
     fc_blob = None, fc_mode = None\<rparr>"

definition file_change_with_identity ::
  "path \<Rightarrow> change_kind \<Rightarrow> blob option \<Rightarrow> file_id option \<Rightarrow> git_oid option \<Rightarrow> file_change" where
  "file_change_with_identity p k c f b = \<lparr>fc_path = p, fc_kind = k, fc_content = c, fc_file_id = f,
     fc_blob = b, fc_mode = None\<rparr>"

definition file_change_with_mode ::
  "path \<Rightarrow> change_kind \<Rightarrow> blob option \<Rightarrow> file_id option \<Rightarrow> git_oid option \<Rightarrow> entry_mode option \<Rightarrow>
   file_change" where
  "file_change_with_mode p k c f b m = \<lparr>fc_path = p, fc_kind = k, fc_content = c, fc_file_id = f,
     fc_blob = b, fc_mode = m\<rparr>"

definition fc_is_deletion :: "file_change \<Rightarrow> bool" where
  "fc_is_deletion c \<longleftrightarrow> fc_kind c = Deleted"

definition fc_has_content :: "file_change \<Rightarrow> bool" where
  "fc_has_content c \<longleftrightarrow> fc_content c \<noteq> None"

record ws_patch_set =
  wp_workspace_id :: workspace_id
  wp_epoch :: epoch_id
  wp_changes :: "file_change list"

definition ws_patch_set_new :: "workspace_id \<Rightarrow> epoch_id \<Rightarrow> file_change list \<Rightarrow> ws_patch_set" where
  "ws_patch_set_new w e changes =
     \<lparr>wp_workspace_id = w, wp_epoch = e,
      wp_changes = sort_by (\<lambda>a b. cmp_of (fc_path a) (fc_path b)) changes\<rparr>"

definition wp_is_empty :: "ws_patch_set \<Rightarrow> bool" where
  "wp_is_empty p \<longleftrightarrow> wp_changes p = []"

definition change_count :: "ws_patch_set \<Rightarrow> nat" where
  "change_count p = length (wp_changes p)"

definition added_count :: "ws_patch_set \<Rightarrow> nat" where
  "added_count p = length (filter (\<lambda>c. fc_kind c = Added) (wp_changes p))"

definition modified_count :: "ws_patch_set \<Rightarrow> nat" where
  "modified_count p = length (filter (\<lambda>c. fc_kind c = Modified) (wp_changes p))"

definition deleted_count :: "ws_patch_set \<Rightarrow> nat" where
  "deleted_count p = length (filter (\<lambda>c. fc_kind c = Deleted) (wp_changes p))"

definition is_deletion_only :: "ws_patch_set \<Rightarrow> bool" where
  "is_deletion_only p \<longleftrightarrow> \<not> wp_is_empty p \<and> list_all (\<lambda>c. fc_kind c = Deleted) (wp_changes p)"

definition wp_paths :: "ws_patch_set \<Rightarrow> path list" where
  "wp_paths p = map fc_path (wp_changes p)"

lemma change_counts: "added_count p + modified_count p + deleted_count p = change_count p"
proof -
  have "length (filter (\<lambda>c. fc_kind c = Added) cs) + length (filter (\<lambda>c. fc_kind c = Modified) cs)
      + length (filter (\<lambda>c. fc_kind c = Deleted) cs) = length cs" for cs
  proof (induction cs)
    case (Cons c cs)
    then show ?case by (cases "fc_kind c") auto
  qed simp
  then show ?thesis
    by (simp add: added_count_def modified_count_def deleted_count_def change_count_def)
qed

lemma ws_patch_set_new_sorted: "sorted (wp_paths (ws_patch_set_new w e cs))"
  by (simp add: ws_patch_set_new_def wp_paths_def sort_by_key)

end
