(* ===== verification/Partition.thy ===== *)
theory Partition
  imports Merge_Types
begin

text \<open>
  The partition step of the merge, \<open>crates/maw-core/src/merge/partition.rs\<close>: the inverted index from
  paths to workspace changes, its split into paths one change touches and paths several do, and the
  directory/file clashes between them. What the standard library leaves open, the order
  \<open>sort_unstable_by\<close> gives equal elements and the hit \<open>binary_search\<close> picks among equal
  ones, are the fields of \<open>std_choice\<close>; \<open>std_choice_ok\<close> is what the library does promise.
\<close>

section \<open>Entries\<close>

record path_entry =
  pe_workspace_id :: workspace_id
  pe_kind :: change_kind
  pe_content :: "blob option"
  pe_file_id :: "file_id option"
  pe_blob :: "git_oid option"
  pe_mode :: "entry_mode option"

definition path_entry_new :: "workspace_id \<Rightarrow> change_kind \<Rightarrow> blob option \<Rightarrow> path_entry" where
  "path_entry_new w k c = \<lparr>pe_workspace_id = w, pe_kind = k, pe_content = c, pe_file_id = None,
     pe_blob = None, pe_mode = None\<rparr>"

definition path_entry_with_identity ::
  "workspace_id \<Rightarrow> change_kind \<Rightarrow> blob option \<Rightarrow> file_id option \<Rightarrow> git_oid option \<Rightarrow> path_entry" where
  "path_entry_with_identity w k c f b = \<lparr>pe_workspace_id = w, pe_kind = k, pe_content = c,
     pe_file_id = f, pe_blob = b, pe_mode = None\<rparr>"

definition path_entry_with_mode ::
  "workspace_id \<Rightarrow> change_kind \<Rightarrow> blob option \<Rightarrow> file_id option \<Rightarrow> git_oid option \<Rightarrow>
   entry_mode option \<Rightarrow> path_entry" where
  "path_entry_with_mode w k c f b m = \<lparr>pe_workspace_id = w, pe_kind = k, pe_content = c,
     pe_file_id = f, pe_blob = b, pe_mode = m\<rparr>"

definition pe_is_deletion :: "path_entry \<Rightarrow> bool" where
  "pe_is_deletion e \<longleftrightarrow> pe_kind e = Deleted"

record df_clash =
  df_file_path :: path
  df_file_ws :: workspace_id
  df_dir_child_example :: path
  df_dir_ws :: workspace_id

record partition_result =
  pt_unique :: "(path \<times> path_entry) list"
  pt_shared :: "(path \<times> path_entry list) list"
  pt_df_clashes :: "df_clash list"

definition unique_count :: "partition_result \<Rightarrow> nat" where
  "unique_count r = length (pt_unique r)"

definition shared_count :: "partition_result \<Rightarrow> nat" where
  "shared_count r = length (pt_shared r)"

definition total_path_count :: "partition_result \<Rightarrow> nat" where
  "total_path_count r = length (pt_unique r) + length (pt_shared r)"

definition is_conflict_free :: "partition_result \<Rightarrow> bool" where
  "is_conflict_free r \<longleftrightarrow> pt_shared r = [] \<and> pt_df_clashes r = []"

definition df_clash_paths :: "partition_result \<Rightarrow> path set" where
  "df_clash_paths r = set (map df_file_path (pt_df_clashes r)) \<union> set (map df_dir_child_example (pt_df_clashes r))"

section \<open>The index and the split\<close>

definition entry_of_change :: "ws_patch_set \<Rightarrow> file_change \<Rightarrow> path_entry" where
  "entry_of_change ps c =
     path_entry_with_mode (wp_workspace_id ps) (fc_kind c) (fc_content c) (fc_file_id c) (fc_blob c) (fc_mode c)"

text \<open>All changes with the path they touch, in the order the two loops visit them.\<close>

definition all_changes :: "ws_patch_set list \<Rightarrow> (path \<times> path_entry) list" where
  "all_changes patch_sets =
     concat (map (\<lambda>ps. map (\<lambda>c. (fc_path c, entry_of_change ps c)) (wp_changes ps)) patch_sets)"

definition build_index :: "ws_patch_set list \<Rightarrow> (path, path_entry list) btree" where
  "build_index patch_sets =
     fold (\<lambda>ps index. fold (\<lambda>c index. bm_push (fc_path c) (entry_of_change ps c) index) (wp_changes ps) index)
       patch_sets bm_empty"

definition ws_cmp :: "path_entry \<Rightarrow> path_entry \<Rightarrow> rust_ordering" where
  "ws_cmp a b = cmp_of (ws_str (pe_workspace_id a)) (ws_str (pe_workspace_id b))"

fun split_index ::
  "(path \<times> path_entry list) list \<Rightarrow> (path \<times> path_entry) list \<times> (path \<times> path_entry list) list" where
  "split_index [] = ([], [])"
| "split_index ((p, entries) # rest) =
     (let (unique, shared) = split_index rest
      in case entries of
           [e] \<Rightarrow> ((p, e) # unique, shared)
         | _ \<Rightarrow> (unique, (p, sort_by ws_cmp entries) # shared))"

section \<open>Directory/file clashes\<close>

type_synonym path_row = "string \<times> path \<times> workspace_id"

record std_choice =
  sc_sort_rows :: "path_row list \<Rightarrow> path_row list"
  sc_search :: "string list \<Rightarrow> string \<Rightarrow> nat option"
  sc_sort_clashes :: "df_clash list \<Rightarrow> df_clash list"

definition clash_key :: "df_clash \<Rightarrow> path \<times> path" where
  "clash_key c = (df_file_path c, df_dir_child_example c)"

definition clash_le :: "df_clash \<Rightarrow> df_clash \<Rightarrow> bool" where
  "clash_le a b \<longleftrightarrow> df_file_path a < df_file_path b \<or>
     (df_file_path a = df_file_path b \<and> df_dir_child_example a \<le> df_dir_child_example b)"

definition std_choice_ok :: "std_choice \<Rightarrow> bool" where
  "std_choice_ok sc \<longleftrightarrow>
     (\<forall>rows. set (sc_sort_rows sc rows) = set rows \<and> sorted (map fst (sc_sort_rows sc rows))) \<and>
     (\<forall>cs. set (sc_sort_clashes sc cs) = set cs \<and> sorted_wrt clash_le (sc_sort_clashes sc cs)) \<and>
     (\<forall>strs s. sorted strs \<longrightarrow>
        (case sc_search sc strs s of Some i \<Rightarrow> i < length strs \<and> strs ! i = s | None \<Rightarrow> s \<notin> set strs))"

text \<open>\<open>to_string_lossy().replace('\\', "/")\<close>.\<close>

definition slash_path_str :: "path \<Rightarrow> string" where
  "slash_path_str p = map (\<lambda>c. if c = CHR 0x5C then CHR ''/'' else c) (path_str p)"

definition path_rows ::
  "(path \<times> path_entry) list \<Rightarrow> (path \<times> path_entry list) list \<Rightarrow> path_row list" where
  "path_rows unique shared =
     map (\<lambda>(p, e). (slash_path_str p, p, pe_workspace_id e))
       (filter (\<lambda>(p, e). \<not> pe_is_deletion e) unique)
     @ concat (map (\<lambda>(p, es). map (\<lambda>e. (slash_path_str p, p, pe_workspace_id e))
         (filter (\<lambda>e. \<not> pe_is_deletion e) es)) shared)"

text \<open>The proper ancestors of a path from the nearest up, without the empty one.\<close>

fun ancestors :: "nat \<Rightarrow> path \<Rightarrow> path list" where
  "ancestors 0 p = []"
| "ancestors (Suc n) p =
     (case path_parent p of
        None \<Rightarrow> []
      | Some anc \<Rightarrow> if anc = [] then [] else anc # ancestors n anc)"

fun find_ancestor :: "std_choice \<Rightarrow> path_row list \<Rightarrow> path list \<Rightarrow> path_row option" where
  "find_ancestor sc rows [] = None"
| "find_ancestor sc rows (anc # ancs) =
     (case sc_search sc (map fst rows) (slash_path_str anc) of
        Some pos \<Rightarrow> Some (rows ! pos)
      | None \<Rightarrow> find_ancestor sc rows ancs)"

definition clashes_of :: "std_choice \<Rightarrow> path_row list \<Rightarrow> path \<times> path_entry \<Rightarrow> df_clash list" where
  "clashes_of sc rows = (\<lambda>(p, e).
     if pe_is_deletion e then []
     else
       (case find (\<lambda>(s, _, _). s \<noteq> slash_path_str p \<and> prefix (slash_path_str p @ ''/'') s) rows of
          Some (_, child, child_ws) \<Rightarrow>
            [\<lparr>df_file_path = p, df_file_ws = pe_workspace_id e,
              df_dir_child_example = child, df_dir_ws = child_ws\<rparr>]
        | None \<Rightarrow> [])
       @ (case find_ancestor sc rows (ancestors (length p) p) of
            Some (_, anc_path, anc_ws) \<Rightarrow>
              [\<lparr>df_file_path = anc_path, df_file_ws = anc_ws,
                df_dir_child_example = p, df_dir_ws = pe_workspace_id e\<rparr>]
          | None \<Rightarrow> []))"

definition partition_by_path :: "std_choice \<Rightarrow> ws_patch_set list \<Rightarrow> partition_result" where
  "partition_by_path sc patch_sets =
     (let (unique, shared) = split_index (bm_entries (build_index patch_sets));
          rows = sc_sort_rows sc (path_rows unique shared);
          clashes = concat (map (clashes_of sc rows) unique)
      in \<lparr>pt_unique = unique, pt_shared = shared,
          pt_df_clashes = dedup_by (\<lambda>a b. clash_key a = clash_key b) (sc_sort_clashes sc clashes)\<rparr>)"

section \<open>What the index holds\<close>

lemma build_index_flat:
  "build_index patch_sets = fold (\<lambda>x. bm_push (fst x) (snd x)) (all_changes patch_sets) bm_empty"
proof -
  have "fold (\<lambda>ps index. fold (\<lambda>c. bm_push (fc_path c) (entry_of_change ps c)) (wp_changes ps) index) pss m
      = fold (\<lambda>x. bm_push (fst x) (snd x)) (all_changes pss) m" for pss and m :: "(path, path_entry list) btree"
    by (induction pss arbitrary: m) (simp_all add: all_changes_def fold_map comp_def)
  then show ?thesis by (simp add: build_index_def)
qed

definition changes_at :: "ws_patch_set list \<Rightarrow> path \<Rightarrow> path_entry list" where
  "changes_at patch_sets p = map snd (filter (\<lambda>x. fst x = p) (all_changes patch_sets))"

lemma bm_get_index:
  "bm_get (build_index pss) p =
     (if changes_at pss p = [] then None else Some (changes_at pss p))"
  unfolding build_index_flat bmg.get_fold_push
  by (auto simp: changes_at_def filter_empty_conv)

lemma split_index_unique:
  "(p, e) \<in> set (fst (split_index xs)) \<longleftrightarrow> (p, [e]) \<in> set xs"
  by (induction xs rule: split_index.induct) (auto simp: Let_def split: list.splits prod.splits)

lemma split_index_shared:
  "(p, es) \<in> set (snd (split_index xs)) \<longleftrightarrow>
   (\<exists>es'. (p, es') \<in> set xs \<and> length es' \<noteq> 1 \<and> es = sort_by ws_cmp es')"
  by (induction xs rule: split_index.induct) (auto simp: Let_def split: list.splits prod.splits)

lemma split_index_sorted:
  "sorted_wrt (<) (map fst xs) \<Longrightarrow>
   sorted_wrt (<) (map fst (fst (split_index xs))) \<and> sorted_wrt (<) (map fst (snd (split_index xs)))"
proof (induction xs rule: split_index.induct)
  case (2 p entries rest)
  have sub: "fst ` set (fst (split_index rest)) \<subseteq> fst ` set rest"
    "fst ` set (snd (split_index rest)) \<subseteq> fst ` set rest"
    by (force simp: split_index_unique) (force simp: split_index_shared)
  have "p < q" if "q \<in> fst ` set rest" for q
    using that "2.prems" by auto
  moreover have "q \<in> fst ` set rest"
    if "(q, x) \<in> set (fst (split_index rest))" for q x
    using sub(1) that by force
  moreover have "q \<in> fst ` set rest"
    if "(q, x) \<in> set (snd (split_index rest))" for q x
    using sub(2) that by force
  ultimately have below:
    "\<forall>x \<in> set (fst (split_index rest)). p < fst x" "\<forall>x \<in> set (snd (split_index rest)). p < fst x"
    by force+
  have "sorted_wrt (<) (map fst rest)" using "2.prems" by simp
  note IH = "2.IH" [OF this]
  show ?case
    using IH below by (cases "split_index rest") (auto split: list.splits)
qed simp

lemma partition_unfold:
  "pt_unique (partition_by_path sc pss) = fst (split_index (bm_entries (build_index pss)))"
  "pt_shared (partition_by_path sc pss) = snd (split_index (bm_entries (build_index pss)))"
  by (simp_all add: partition_by_path_def Let_def split: prod.splits)

lemma unique_iff: "(p, e) \<in> set (pt_unique (partition_by_path sc pss)) \<longleftrightarrow> changes_at pss p = [e]"
  by (auto simp: partition_unfold split_index_unique bm.in_entries bm_get_index)

lemma shared_iff:
  "(p, es) \<in> set (pt_shared (partition_by_path sc pss)) \<longleftrightarrow>
   length (changes_at pss p) \<ge> 2 \<and> es = sort_by ws_cmp (changes_at pss p)"
proof -
  have "xs \<noteq> [] \<and> length xs \<noteq> 1 \<longleftrightarrow> length xs \<ge> 2" for xs :: "path_entry list"
    by (cases xs; cases "tl xs") auto
  then show ?thesis
    by (auto simp: partition_unfold split_index_shared bm.in_entries bm_get_index split: if_splits)
qed

interpretation ws_order: total_cmp ws_cmp
  unfolding ws_cmp_def [abs_def] by (rule total_cmp_on) (rule linorder_cmp.total_cmp_axioms)

section \<open>Which clashes are found\<close>

text \<open>Components are nonempty and hold neither slash nor backslash.\<close>

definition path_wf :: "path \<Rightarrow> bool" where
  "path_wf p \<longleftrightarrow> p \<noteq> [] \<and> list_all (\<lambda>c. c \<noteq> [] \<and> CHR ''/'' \<notin> set c \<and> CHR 0x5C \<notin> set c) p"

lemma slash_path_str_wf: "path_wf p \<Longrightarrow> slash_path_str p = path_str p"
proof -
  assume wf: "path_wf p"
  have "c \<noteq> CHR 0x5C" if "c \<in> set (path_str p)" for c
    using that wf set_join_with [of c "CHR ''/''" p] by (auto simp: path_str_def path_wf_def list_all_iff)
  then have "map (\<lambda>c. if c = CHR 0x5C then CHR ''/'' else c) (path_str p) = map (\<lambda>c. c) (path_str p)"
    by (intro map_cong) auto
  then show ?thesis by (simp add: slash_path_str_def)
qed

lemma path_str_split: "path_wf p \<Longrightarrow> split_on CHR ''/'' (path_str p) = p"
  unfolding path_str_def by (rule split_on_join) (auto simp: path_wf_def list_all_iff)

lemma split_on_snoc: "split_on c (xs @ c # ys) = split_on c xs @ split_on c ys"
proof (induction xs)
  case (Cons x xs)
  then show ?case by (cases "split_on c xs") auto
qed simp

lemma path_str_prefix:
  assumes "path_wf p" "path_wf q"
  shows "prefix (path_str p @ ''/'') (path_str q) \<longleftrightarrow> strict_prefix p q"
proof
  assume "prefix (path_str p @ ''/'') (path_str q)"
  then obtain ys where "path_str q = path_str p @ CHR ''/'' # ys" by (auto simp: prefix_def)
  then have "split_on CHR ''/'' (path_str q) = split_on CHR ''/'' (path_str p) @ split_on CHR ''/'' ys"
    by (simp add: split_on_snoc)
  then show "strict_prefix p q"
    using assms by (simp add: path_str_split strict_prefix_def)
next
  assume "strict_prefix p q"
  then obtain r where r: "q = p @ r" "r \<noteq> []" by (auto simp: strict_prefix_def prefix_def)
  then have "path_str q = path_str p @ ''/'' @ path_str r"
    using assms(1) by (simp add: path_str_def join_with_append path_wf_def)
  then show "prefix (path_str p @ ''/'') (path_str q)" by simp
qed

lemma path_str_inj: "path_wf p \<Longrightarrow> path_wf q \<Longrightarrow> path_str p = path_str q \<longleftrightarrow> p = q"
  using path_str_split by metis

lemma set_ancestors:
  "length p \<le> n \<Longrightarrow> set (ancestors n p) = {a. a \<noteq> [] \<and> strict_prefix a p}"
proof (induction n arbitrary: p)
  case (Suc n)
  show ?case
  proof (cases "p = [] \<or> butlast p = []")
    case True
    then have "a = []" if "strict_prefix a p" for a
      using that by (cases p) (auto simp: strict_prefix_def prefix_Cons split: if_splits)
    with True show ?thesis by (auto simp: path_parent_def)
  next
    case False
    then obtain q x where p: "p = q @ [x]" "q \<noteq> []" by (cases p rule: rev_cases) auto
    have "a \<noteq> [] \<and> strict_prefix a p \<longleftrightarrow> a = q \<or> (a \<noteq> [] \<and> strict_prefix a q)" for a
      using p by (auto simp: strict_prefix_def)
    with Suc p show ?thesis by (auto simp: path_parent_def)
  qed
qed (auto simp: strict_prefix_def)

lemma strict_prefix_wf: "path_wf q \<Longrightarrow> strict_prefix p q \<Longrightarrow> p \<noteq> [] \<Longrightarrow> path_wf p"
  by (auto simp: path_wf_def strict_prefix_def prefix_def)

text \<open>Every row is a change that is no deletion.\<close>

definition live_change :: "ws_patch_set list \<Rightarrow> path \<Rightarrow> workspace_id \<Rightarrow> bool" where
  "live_change pss p w \<longleftrightarrow>
     (\<exists>e. (p, e) \<in> set (all_changes pss) \<and> \<not> pe_is_deletion e \<and> pe_workspace_id e = w)"

lemma in_changes_at: "e \<in> set (changes_at pss p) \<longleftrightarrow> (p, e) \<in> set (all_changes pss)"
  by (force simp: changes_at_def)

lemma path_rows_iff:
  "(s, p, w) \<in> set (path_rows (pt_unique (partition_by_path sc pss)) (pt_shared (partition_by_path sc pss)))
   \<longleftrightarrow> s = slash_path_str p \<and> live_change pss p w"
proof -
  let ?u = "pt_unique (partition_by_path sc pss)" and ?s = "pt_shared (partition_by_path sc pss)"
  have "(s, p, w) \<in> set (path_rows ?u ?s) \<longleftrightarrow> s = slash_path_str p \<and>
      ((\<exists>e. (p, e) \<in> set ?u \<and> \<not> pe_is_deletion e \<and> w = pe_workspace_id e) \<or>
       (\<exists>es e. (p, es) \<in> set ?s \<and> e \<in> set es \<and> \<not> pe_is_deletion e \<and> w = pe_workspace_id e))"
    unfolding path_rows_def by (auto; blast)
  also have "\<dots> \<longleftrightarrow> s = slash_path_str p \<and> live_change pss p w"
  proof -
    have one: "changes_at pss p = [e] \<or> length (changes_at pss p) \<ge> 2" if "e \<in> set (changes_at pss p)" for e
      using that by (cases "changes_at pss p"; cases "tl (changes_at pss p)") auto
    show ?thesis
      unfolding unique_iff shared_iff live_change_def
      using one by (auto simp: in_changes_at [symmetric])
  qed
  finally show ?thesis .
qed

definition sorted_rows :: "std_choice \<Rightarrow> ws_patch_set list \<Rightarrow> path_row list" where
  "sorted_rows sc pss = sc_sort_rows sc
     (path_rows (pt_unique (partition_by_path sc pss)) (pt_shared (partition_by_path sc pss)))"

definition paths_wf :: "ws_patch_set list \<Rightarrow> bool" where
  "paths_wf pss \<longleftrightarrow> list_all (\<lambda>(p, e). path_wf p) (all_changes pss)"

lemma live_wf: "paths_wf pss \<Longrightarrow> live_change pss p w \<Longrightarrow> path_wf p"
  by (auto simp: paths_wf_def live_change_def list_all_iff)

lemma sorted_rows_facts:
  assumes "std_choice_ok sc" "paths_wf pss"
  shows "(s, p, w) \<in> set (sorted_rows sc pss) \<longleftrightarrow> s = path_str p \<and> live_change pss p w"
    and "sorted (map fst (sorted_rows sc pss))"
  using assms path_rows_iff [of s p w sc pss] live_wf [OF assms(2)]
  by (auto simp: sorted_rows_def std_choice_ok_def slash_path_str_wf)

lemma find_ancestor_Some:
  assumes "std_choice_ok sc" "sorted (map fst rows)" "find_ancestor sc rows ancs = Some row"
  shows "row \<in> set rows \<and> fst row \<in> slash_path_str ` set ancs"
  using assms(3)
proof (induction ancs)
  case (Cons anc ancs)
  have hit: "i < length (map fst rows) \<and> map fst rows ! i = slash_path_str anc"
    if "sc_search sc (map fst rows) (slash_path_str anc) = Some i" for i
    using assms(1,2) that unfolding std_choice_ok_def by (metis (mono_tags, lifting) option.simps(5))
  from Cons show ?case by (auto dest: hit split: option.splits)
qed simp

lemma find_ancestor_None:
  assumes "std_choice_ok sc" "sorted (map fst rows)" "find_ancestor sc rows ancs = None" "anc \<in> set ancs"
  shows "slash_path_str anc \<notin> fst ` set rows"
  using assms(3,4)
proof (induction ancs)
  case (Cons a ancs)
  have miss: "slash_path_str a \<notin> fst ` set rows"
    if "sc_search sc (map fst rows) (slash_path_str a) = None"
    using assms(1,2) that unfolding std_choice_ok_def
    by (metis (mono_tags, lifting) list.set_map option.simps(4))
  from Cons show ?case by (auto dest: miss split: option.splits)
qed simp

lemma clashes_of_cases:
  assumes "c \<in> set (clashes_of sc rows (p, e))"
  shows "\<not> pe_is_deletion e \<and>
    ((\<exists>s child w. (s, child, w) \<in> set rows \<and> prefix (slash_path_str p @ ''/'') s \<and>
        c = \<lparr>df_file_path = p, df_file_ws = pe_workspace_id e, df_dir_child_example = child, df_dir_ws = w\<rparr>) \<or>
     (\<exists>s anc w. find_ancestor sc rows (ancestors (length p) p) = Some (s, anc, w) \<and>
        c = \<lparr>df_file_path = anc, df_file_ws = w, df_dir_child_example = p, df_dir_ws = pe_workspace_id e\<rparr>))"
proof -
  let ?P = "\<lambda>(s, _, _). s \<noteq> slash_path_str p \<and> prefix (slash_path_str p @ ''/'') s"
  have hit: "(s, child, w) \<in> set rows \<and> prefix (slash_path_str p @ ''/'') s"
    if "find ?P rows = Some (s, child, w)" for s child w
    using find_SomeD [OF that] by simp
  have nd: "\<not> pe_is_deletion e" using assms by (auto simp: clashes_of_def)
  with assms consider (child) s child w where "find ?P rows = Some (s, child, w)"
      "c = \<lparr>df_file_path = p, df_file_ws = pe_workspace_id e, df_dir_child_example = child, df_dir_ws = w\<rparr>"
    | (anc) s anc w where "find_ancestor sc rows (ancestors (length p) p) = Some (s, anc, w)"
      "c = \<lparr>df_file_path = anc, df_file_ws = w, df_dir_child_example = p, df_dir_ws = pe_workspace_id e\<rparr>"
    unfolding clashes_of_def
    by (cases "find ?P rows"; cases "find_ancestor sc rows (ancestors (length p) p)") auto
  then show ?thesis
  proof cases
    case child
    then show ?thesis
      using nd hit [OF child(1)] by (intro conjI disjI1 exI [of _ s] exI [of _ child] exI [of _ w]) auto
  next
    case anc
    then show ?thesis
      using nd by (intro conjI disjI2 exI [of _ s] exI [of _ anc] exI [of _ w]) auto
  qed
qed

definition clash_real :: "ws_patch_set list \<Rightarrow> df_clash \<Rightarrow> bool" where
  "clash_real pss c \<longleftrightarrow> strict_prefix (df_file_path c) (df_dir_child_example c)
     \<and> live_change pss (df_file_path c) (df_file_ws c)
     \<and> live_change pss (df_dir_child_example c) (df_dir_ws c)"

lemma clashes_of_real:
  assumes ok: "std_choice_ok sc" and wf: "paths_wf pss"
    and pe: "(p, e) \<in> set (pt_unique (partition_by_path sc pss))"
    and c: "c \<in> set (clashes_of sc (sorted_rows sc pss) (p, e))"
  shows "clash_real pss c"
proof -
  note rows = sorted_rows_facts [OF ok wf]
  from clashes_of_cases [OF c] have live: "live_change pss p (pe_workspace_id e)"
    using pe by (auto simp: unique_iff live_change_def in_changes_at [symmetric])
  note wfp = live_wf [OF wf this]
  from clashes_of_cases [OF c] consider
      (child) s child w where "(s, child, w) \<in> set (sorted_rows sc pss)" "prefix (slash_path_str p @ ''/'') s"
        "c = \<lparr>df_file_path = p, df_file_ws = pe_workspace_id e, df_dir_child_example = child, df_dir_ws = w\<rparr>"
    | (anc) s anc w where "find_ancestor sc (sorted_rows sc pss) (ancestors (length p) p) = Some (s, anc, w)"
        "c = \<lparr>df_file_path = anc, df_file_ws = w, df_dir_child_example = p, df_dir_ws = pe_workspace_id e\<rparr>"
    by blast
  then show ?thesis
  proof cases
    case child
    then have q: "s = path_str child" "live_change pss child w" by (simp_all add: rows)
    with child wfp live_wf [OF wf q(2)] live show ?thesis
      by (simp add: clash_real_def slash_path_str_wf path_str_prefix)
  next
    case anc
    from find_ancestor_Some [OF ok rows(2) anc(1)]
    obtain a where a: "(s, anc, w) \<in> set (sorted_rows sc pss)" "s = slash_path_str a" "a \<noteq> []" "strict_prefix a p"
      by (auto simp: set_ancestors)
    then have q: "s = path_str anc" "live_change pss anc w" by (simp_all add: rows)
    have "path_wf a" using strict_prefix_wf [OF wfp a(4,3)] .
    with a(2) q(1) live_wf [OF wf q(2)] have "a = anc"
      by (simp add: slash_path_str_wf path_str_inj)
    with a(4) q(2) live anc(2) show ?thesis by (simp add: clash_real_def)
  qed
qed

lemma clashes_of_complete:
  assumes ok: "std_choice_ok sc" and wf: "paths_wf pss"
    and pe: "(p, e) \<in> set (pt_unique (partition_by_path sc pss))" "\<not> pe_is_deletion e"
    and q: "live_change pss q w" "strict_prefix p q \<or> strict_prefix q p"
  shows "\<exists>c \<in> set (clashes_of sc (sorted_rows sc pss) (p, e)). df_file_path c = p \<or> df_dir_child_example c = p"
proof -
  note rows = sorted_rows_facts [OF ok wf]
  have "live_change pss p (pe_workspace_id e)"
    using pe by (auto simp: unique_iff live_change_def in_changes_at [symmetric])
  note wfs = live_wf [OF wf this] live_wf [OF wf q(1)]
  have row: "(path_str q, q, w) \<in> set (sorted_rows sc pss)" using q(1) by (simp add: rows)
  from q(2) show ?thesis
  proof
    assume "strict_prefix p q"
    then have "prefix (slash_path_str p @ ''/'') (path_str q)" "path_str q \<noteq> slash_path_str p"
      using wfs by (auto simp: slash_path_str_wf path_str_prefix path_str_inj)
    with row have "find (\<lambda>(s, _, _). s \<noteq> slash_path_str p \<and> prefix (slash_path_str p @ ''/'') s)
        (sorted_rows sc pss) \<noteq> None"
      unfolding find_None_iff by fastforce
    then show ?thesis using pe(2) by (auto simp: clashes_of_def)
  next
    assume anc: "strict_prefix q p"
    then have "q \<in> set (ancestors (length p) p)"
      using wfs(2) by (simp add: set_ancestors path_wf_def)
    moreover have "slash_path_str q \<in> fst ` set (sorted_rows sc pss)"
      using row wfs(2) by (force simp: slash_path_str_wf)
    ultimately have "find_ancestor sc (sorted_rows sc pss) (ancestors (length p) p) \<noteq> None"
      using find_ancestor_None [OF ok rows(2)] by blast
    then show ?thesis using pe(2) by (auto simp: clashes_of_def)
  qed
qed

lemma df_clashes_of:
  assumes "std_choice_ok sc"
  shows "clash_key ` set (pt_df_clashes (partition_by_path sc pss)) =
      clash_key ` (\<Union>x \<in> set (pt_unique (partition_by_path sc pss)). set (clashes_of sc (sorted_rows sc pss) x))"
    and "set (pt_df_clashes (partition_by_path sc pss)) \<subseteq>
      (\<Union>x \<in> set (pt_unique (partition_by_path sc pss)). set (clashes_of sc (sorted_rows sc pss) x))"
proof -
  have eq: "pt_df_clashes (partition_by_path sc pss) = dedup_by (\<lambda>a b. clash_key a = clash_key b)
      (sc_sort_clashes sc (concat (map (clashes_of sc (sorted_rows sc pss)) (pt_unique (partition_by_path sc pss)))))"
    by (simp add: partition_by_path_def sorted_rows_def Let_def split: prod.splits)
  have set: "set (sc_sort_clashes sc cs) = set cs" for cs
    using assms by (simp add: std_choice_ok_def)
  show "clash_key ` set (pt_df_clashes (partition_by_path sc pss)) =
      clash_key ` (\<Union>x \<in> set (pt_unique (partition_by_path sc pss)). set (clashes_of sc (sorted_rows sc pss) x))"
    unfolding eq dedup_by_keys set by simp
  show "set (pt_df_clashes (partition_by_path sc pss)) \<subseteq>
      (\<Union>x \<in> set (pt_unique (partition_by_path sc pss)). set (clashes_of sc (sorted_rows sc pss) x))"
    unfolding eq using set_dedup_by [of _ "sc_sort_clashes sc (concat (map (clashes_of sc (sorted_rows sc pss))
      (pt_unique (partition_by_path sc pss))))"] unfolding set by auto
qed

section \<open>Properties\<close>

text \<open>C26. The partition puts a path that exactly one change touches with that change among the unique
  paths, and a path that several changes touch with all of them, ordered by workspace, among the shared
  ones; both lists are in increasing path order and together they have every path once.\<close>

theorem partition_split:
  "set (pt_unique (partition_by_path sc pss)) = {(p, e). changes_at pss p = [e]}
   \<and> set (pt_shared (partition_by_path sc pss)) =
       {(p, es). 2 \<le> length (changes_at pss p) \<and> es = sort_by ws_cmp (changes_at pss p)}
   \<and> sorted_wrt (<) (map fst (pt_unique (partition_by_path sc pss)))
   \<and> sorted_wrt (<) (map fst (pt_shared (partition_by_path sc pss)))
   \<and> total_path_count (partition_by_path sc pss) = card (fst ` set (all_changes pss))"
proof -
  let ?u = "pt_unique (partition_by_path sc pss)" and ?s = "pt_shared (partition_by_path sc pss)"
  have sorted: "sorted_wrt (<) (map fst ?u)" "sorted_wrt (<) (map fst ?s)"
    unfolding partition_unfold using split_index_sorted [OF bm.entries_increasing] by blast+
  have sets: "set ?u = {(p, e). changes_at pss p = [e]}"
    "set ?s = {(p, es). 2 \<le> length (changes_at pss p) \<and> es = sort_by ws_cmp (changes_at pss p)}"
    using unique_iff shared_iff by fast+
  have some: "p \<in> fst ` set (all_changes pss) \<longleftrightarrow> changes_at pss p \<noteq> []" for p
    by (force simp: changes_at_def filter_empty_conv)
  have mem: "p \<in> fst ` set ?u \<longleftrightarrow> length (changes_at pss p) = 1"
    "p \<in> fst ` set ?s \<longleftrightarrow> 2 \<le> length (changes_at pss p)" for p
    unfolding sets by (force simp: length_Suc_conv)+
  have "fst ` set ?u \<union> fst ` set ?s = fst ` set (all_changes pss)"
    unfolding set_eq_iff Un_iff some mem
    by (simp flip: length_greater_0_conv) linarith
  moreover have "fst ` set ?u \<inter> fst ` set ?s = {}" unfolding disjoint_iff mem by simp
  moreover have "card (fst ` set ?u) = length ?u" "card (fst ` set ?s) = length ?s"
    using sorted distinct_card [of "map fst ?u"] distinct_card [of "map fst ?s"]
    by (simp_all add: strict_sorted_iff)
  ultimately have "total_path_count (partition_by_path sc pss) = card (fst ` set (all_changes pss))"
    using card_Un_disjoint [of "fst ` set ?u" "fst ` set ?s"] by (simp add: total_path_count_def)
  with sorted sets show ?thesis by blast
qed

text \<open>C4. Whatever order and hits the standard library picks, every reported clash is one: its file path
  is a proper ancestor of its directory path, and the two workspaces it names change them to something
  other than a deletion.  And a path that only one change touches, no deletion, is named by a clash as
  soon as some change, no deletion, touches a path above or below it.\<close>

theorem df_clashes_sound_complete:
  assumes "std_choice_ok sc" "paths_wf pss"
  shows "(\<forall>c \<in> set (pt_df_clashes (partition_by_path sc pss)). clash_real pss c)
    \<and> (\<forall>(p, e) \<in> set (pt_unique (partition_by_path sc pss)).
         \<not> pe_is_deletion e \<longrightarrow> (\<exists>q w. live_change pss q w \<and> (strict_prefix p q \<or> strict_prefix q p)) \<longrightarrow>
         p \<in> df_clash_paths (partition_by_path sc pss))"
proof (intro conjI ballI, goal_cases)
  case (1 c)
  then show ?case using df_clashes_of(2) [OF assms(1)] clashes_of_real [OF assms] by fastforce
next
  case (2 x)
  obtain p e where x: "x = (p, e)" by force
  have "p \<in> df_clash_paths (partition_by_path sc pss)"
    if "\<not> pe_is_deletion e" "live_change pss q w" "strict_prefix p q \<or> strict_prefix q p" for q w
  proof -
    note given = that
    obtain c where c: "c \<in> set (clashes_of sc (sorted_rows sc pss) (p, e))"
      "df_file_path c = p \<or> df_dir_child_example c = p"
      using clashes_of_complete [OF assms 2 [unfolded x] given] by blast
    then have "clash_key c \<in> clash_key ` set (pt_df_clashes (partition_by_path sc pss))"
      unfolding df_clashes_of(1) [OF assms(1)] using 2 by (force simp: x)
    with c(2) show ?thesis by (auto simp: clash_key_def df_clash_paths_def)
  qed
  then show ?case by (auto simp: x)
qed

text \<open>The search starts from the unique paths only: every clash has one of them for its file or its
  directory path, so when several changes touch the file and several touch a path below it, the
  structural conflict is not reported.\<close>

theorem df_clash_needs_unique_path:
  assumes "std_choice_ok sc" "c \<in> set (pt_df_clashes (partition_by_path sc pss))"
  shows "\<exists>p e. (p, e) \<in> set (pt_unique (partition_by_path sc pss))
    \<and> (df_file_path c = p \<or> df_dir_child_example c = p)"
proof -
  obtain p e where "(p, e) \<in> set (pt_unique (partition_by_path sc pss))"
    "c \<in> set (clashes_of sc (sorted_rows sc pss) (p, e))"
    using df_clashes_of(2) [OF assms(1), of pss] assms(2) by fastforce
  with clashes_of_cases [OF this(2)] show ?thesis
    by (metis df_clash.select_convs(1) df_clash.select_convs(3))
qed

section \<open>Witnesses\<close>

text \<open>A choice of the library's: insertion sorts and the first hit.\<close>

definition stable_choice :: std_choice where
  "stable_choice =
     \<lparr>sc_sort_rows = sort_by (\<lambda>a b. cmp_of (fst a) (fst b)),
      sc_search = (\<lambda>strs s. index_from 0 s strs),
      sc_sort_clashes = sort_by (\<lambda>a b. then_with (cmp_of (df_file_path a) (df_file_path b))
          (cmp_of (df_dir_child_example a) (df_dir_child_example b)))\<rparr>"

lemma stable_choice_ok: "std_choice_ok stable_choice"
proof -
  let ?c = "\<lambda>a b. then_with (cmp_of (df_file_path a) (df_file_path b))
      (cmp_of (df_dir_child_example a) (df_dir_child_example b))"
  have "total_cmp ?c"
    by (intro total_cmp_then total_cmp_on [where f = df_file_path] total_cmp_on [where f = df_dir_child_example]
        linorder_cmp.total_cmp_axioms)
  then have "sorted_wrt (\<lambda>a b. ?c a b \<noteq> Greater) (sort_by ?c cs)" for cs
    by (rule total_cmp.sorted_sort_by)
  then have "sorted_wrt clash_le (sort_by ?c cs)" for cs
    by (rule sorted_wrt_mono_rel [rotated]) (auto simp: clash_le_def then_with_iff not_less)
  moreover have "case index_from 0 s strs of Some i \<Rightarrow> i < length strs \<and> strs ! i = s | None \<Rightarrow> s \<notin> set strs"
    for s and strs :: "string list"
    using index_from_Some [of 0 s strs] index_from_None [of 0 s strs] by (auto split: option.splits)
  ultimately show ?thesis
    by (simp add: std_choice_ok_def stable_choice_def sort_by_key)
qed

definition sample_change :: "path \<Rightarrow> change_kind \<Rightarrow> string \<Rightarrow> file_change" where
  "sample_change p k c = file_change_new p k (if k = Deleted then None else Some c)"

definition sample_patch :: "string \<Rightarrow> file_change list \<Rightarrow> ws_patch_set" where
  "sample_patch w cs = ws_patch_set_new (sample_ws w) (sample_epoch CHR ''a'') cs"

abbreviation "sample_df \<equiv>
  [sample_patch ''alice'' [sample_change [''lib''] Added ''x''],
   sample_patch ''bob'' [sample_change [''lib'', ''a''] Added ''y'']]"

lemma sample_df_wf: "paths_wf sample_df"
  by code_simp

lemma df_clashes_sound_complete_witness:
  "[''lib''] \<in> df_clash_paths (partition_by_path stable_choice sample_df)"
proof -
  let ?e = "path_entry_new (sample_ws ''alice'') Added (Some ''x'')"
  have "([''lib''], ?e) \<in> set (pt_unique (partition_by_path stable_choice sample_df))"
    unfolding unique_iff by code_simp
  moreover have "live_change sample_df [''lib'', ''a''] (sample_ws ''bob'')"
    unfolding live_change_def
    by (rule exI [of _ "path_entry_new (sample_ws ''bob'') Added (Some ''y'')"]) code_simp
  moreover have "\<not> pe_is_deletion ?e" by code_simp
  moreover have "strict_prefix [''lib''] [''lib'', ''a'']" by (simp add: strict_prefix_def)
  ultimately show ?thesis
    using df_clashes_sound_complete [OF stable_choice_ok sample_df_wf] by fast
qed

abbreviation "sample_shared_df \<equiv>
  [sample_patch ''alice'' [sample_change [''lib''] Added ''x''],
   sample_patch ''bob'' [sample_change [''lib''] Added ''x''],
   sample_patch ''carol'' [sample_change [''lib'', ''a''] Added ''y''],
   sample_patch ''dave'' [sample_change [''lib'', ''a''] Added ''y'']]"

lemma df_clash_needs_unique_path_witness:
  "pt_df_clashes (partition_by_path stable_choice sample_shared_df) = []"
proof -
  have "pt_unique (partition_by_path stable_choice sample_shared_df) = []" by code_simp
  then show ?thesis
    using df_clash_needs_unique_path [OF stable_choice_ok, of _ sample_shared_df]
    by (cases "pt_df_clashes (partition_by_path stable_choice sample_shared_df)") auto
qed

end
