(* ===== verification/Resolve_Algebra.thy ===== *)
theory Resolve_Algebra
  imports Partition "HOL-Library.Multiset"
begin

text \<open>
  The generic merge algebra of \<open>src/merge/resolve.rs\<close>: the classification of a shared path and the
  k-way fold of three-way merges, over any content type and any three-way merge that may fail.
\<close>

section \<open>Outcomes\<close>

datatype resolve_reason =
    AddAddDifferent
  | ModifyDeleteConflict
  | Diff3Conflict
  | MissingBase
  | MissingContent
  | FileDirectory string path

fun resolve_reason_str :: "resolve_reason \<Rightarrow> string" where
  "resolve_reason_str AddAddDifferent = ''add/add with different content''"
| "resolve_reason_str ModifyDeleteConflict = ''modify/delete conflict''"
| "resolve_reason_str Diff3Conflict = ''overlapping edits (diff3 conflict)''"
| "resolve_reason_str MissingBase = ''base content missing''"
| "resolve_reason_str MissingContent = ''entry missing file content''"
| "resolve_reason_str (FileDirectory file_side child) =
     ''D/F clash: '' @ [CHR 0x27] @ file_side @ [CHR 0x27] @
     '' has this path as a FILE; another workspace has files under it (e.g. '' @ [CHR 0x27] @ path_str child @
     [CHR 0x27] @ '')''"

datatype 'c merge_outcome = Delete | Upsert 'c | Conflict resolve_reason

datatype 'c diff3_result = Clean 'c | Diff3Clash

datatype shared_classification =
    ResolvedDelete
  | ResolvedIdentical
  | ConflictModifyDelete
  | ConflictMissingContent
  | ConflictAddAddDifferent
  | ConflictMissingBase
  | NeedsDiff3

definition is_definite :: "shared_classification \<Rightarrow> bool" where
  "is_definite c \<longleftrightarrow> c \<noteq> NeedsDiff3"

definition is_conflict :: "shared_classification \<Rightarrow> bool" where
  "is_conflict c \<longleftrightarrow>
     c \<in> {ConflictModifyDelete, ConflictMissingContent, ConflictAddAddDifferent, ConflictMissingBase}"

section \<open>Classification\<close>

definition classify_shared_path :: "change_kind list \<Rightarrow> bool \<Rightarrow> bool \<Rightarrow> bool \<Rightarrow> shared_classification" where
  "classify_shared_path kinds all_have_content all_content_equal has_base =
     (if list_all (\<lambda>k. k = Deleted) kinds then ResolvedDelete
      else if list_ex (\<lambda>k. k = Deleted) kinds then ConflictModifyDelete
      else if \<not> all_have_content then ConflictMissingContent
      else if all_content_equal then ResolvedIdentical
      else if \<not> has_base then
        (if list_all (\<lambda>k. k = Added) kinds then ConflictAddAddDifferent else ConflictMissingBase)
      else NeedsDiff3)"

text \<open>\<open>windows(2).all(|w| w[0] == w[1])\<close>.\<close>

fun adjacent_equal :: "'c list \<Rightarrow> bool" where
  "adjacent_equal (x # y # zs) \<longleftrightarrow> x = y \<and> adjacent_equal (y # zs)"
| "adjacent_equal _ \<longleftrightarrow> True"

definition contents_of :: "'c option list \<Rightarrow> 'c list" where
  "contents_of = List.map_filter (\<lambda>c. c)"

fun fold_diff3 ::
  "('c \<Rightarrow> 'c \<Rightarrow> 'c \<Rightarrow> 'e + 'c diff3_result) \<Rightarrow> 'c \<Rightarrow> 'c \<Rightarrow> 'c list \<Rightarrow> 'e + 'c merge_outcome" where
  "fold_diff3 diff3 base merged [] = Inr (Upsert merged)"
| "fold_diff3 diff3 base merged (next_c # rest) =
     (if merged = next_c then fold_diff3 diff3 base merged rest
      else
        (case diff3 base merged next_c of
           Inl e \<Rightarrow> Inl e
         | Inr (Clean out) \<Rightarrow> fold_diff3 diff3 base out rest
         | Inr Diff3Clash \<Rightarrow> Inr (Conflict Diff3Conflict)))"

text \<open>The two \<open>assert\<close>s and \<open>expect\<close>s are the \<open>None\<close> results: lists of different lengths, an identical
  content that is not there, a base that is not there.\<close>

definition resolve_entries ::
  "change_kind list \<Rightarrow> 'c option list \<Rightarrow> 'c option \<Rightarrow>
   ('c \<Rightarrow> 'c \<Rightarrow> 'c \<Rightarrow> 'e + 'c diff3_result) \<Rightarrow> ('e + 'c merge_outcome) option" where
  "resolve_entries kinds contents base diff3 =
     (if length kinds \<noteq> length contents then None
      else
        (let all_have_content = list_all (\<lambda>(k, c). k = Deleted \<or> c \<noteq> None) (zip kinds contents);
             variants = contents_of contents;
             all_content_equal = (if length variants \<ge> 2 then adjacent_equal variants else True)
         in case classify_shared_path kinds all_have_content all_content_equal (base \<noteq> None) of
              ResolvedDelete \<Rightarrow> Some (Inr Delete)
            | ResolvedIdentical \<Rightarrow> (case variants of [] \<Rightarrow> None | c # _ \<Rightarrow> Some (Inr (Upsert c)))
            | ConflictModifyDelete \<Rightarrow> Some (Inr (Conflict ModifyDeleteConflict))
            | ConflictMissingContent \<Rightarrow> Some (Inr (Conflict MissingContent))
            | ConflictAddAddDifferent \<Rightarrow> Some (Inr (Conflict AddAddDifferent))
            | ConflictMissingBase \<Rightarrow> Some (Inr (Conflict MissingBase))
            | NeedsDiff3 \<Rightarrow>
                (case (base, variants) of
                   (Some b, v # vs) \<Rightarrow> Some (fold_diff3 diff3 b v vs)
                 | _ \<Rightarrow> None)))"

section \<open>Facts\<close>

lemma adjacent_equal_iff: "adjacent_equal xs \<longleftrightarrow> (\<forall>x \<in> set xs. \<forall>y \<in> set xs. x = y)"
  by (induction xs rule: adjacent_equal.induct) auto

lemma all_equal_short: "length xs < 2 \<Longrightarrow> \<forall>x \<in> set xs. \<forall>y \<in> set xs. x = y"
  by (cases xs; cases "tl xs") auto

lemma contents_of_simps [simp]:
  "contents_of [] = []" "contents_of (None # cs) = contents_of cs" "contents_of (Some c # cs) = c # contents_of cs"
  "contents_of (cs @ ds) = contents_of cs @ contents_of ds"
  by (simp_all add: contents_of_def map_filter_simps) (simp add: List.map_filter_def)

lemma set_contents_of: "c \<in> set (contents_of cs) \<longleftrightarrow> Some c \<in> set cs"
  by (induction cs) (auto simp: contents_of_def map_filter_simps split: option.splits)

lemma contents_of_map_Some [simp]: "contents_of (map Some cs) = cs"
  by (induction cs) auto

lemma all_Some: "None \<notin> set cs \<Longrightarrow> \<exists>vs. cs = map Some vs"
  by (rule exI [of _ "map the cs"]) (induction cs; auto)

lemma contents_equal_iff:
  "(if length (contents_of cs) \<ge> 2 then adjacent_equal (contents_of cs) else True) \<longleftrightarrow>
   (\<forall>x y. Some x \<in> set cs \<longrightarrow> Some y \<in> set cs \<longrightarrow> x = y)"
  using all_equal_short [of "contents_of cs"]
  by (auto simp: adjacent_equal_iff set_contents_of)

lemma all_have_content_iff:
  "length ks = length cs \<Longrightarrow> Deleted \<notin> set ks \<Longrightarrow>
   list_all (\<lambda>(k, c). k = Deleted \<or> c \<noteq> None) (zip ks cs) \<longleftrightarrow> None \<notin> set cs"
  by (induction ks cs rule: list_induct2) auto

text \<open>The decision table of a shared path over sets, the reference for the code's.\<close>

definition decision ::
  "change_kind list \<Rightarrow> 'c option list \<Rightarrow> 'c option \<Rightarrow>
   ('c \<Rightarrow> 'c \<Rightarrow> 'c \<Rightarrow> 'e + 'c diff3_result) \<Rightarrow> 'e + 'c merge_outcome" where
  "decision kinds contents base diff3 =
     (if set kinds \<subseteq> {Deleted} then Inr Delete
      else if Deleted \<in> set kinds then Inr (Conflict ModifyDeleteConflict)
      else if None \<in> set contents then Inr (Conflict MissingContent)
      else if set contents \<subseteq> {hd contents} then Inr (Upsert (the (hd contents)))
      else case base of
          None \<Rightarrow> Inr (Conflict (if set kinds \<subseteq> {Added} then AddAddDifferent else MissingBase))
        | Some b \<Rightarrow> fold_diff3 diff3 b (the (hd contents)) (map the (tl contents)))"

lemma resolve_entries_decision:
  assumes len: "length ks = length cs"
  shows "resolve_entries ks cs base diff3 = Some (decision ks cs base diff3)"
proof (cases "Deleted \<in> set ks")
  case True
  show ?thesis
  proof -
    have "list_ex (\<lambda>k. k = Deleted) ks" "list_all (\<lambda>k. k = Deleted) ks \<longleftrightarrow> set ks \<subseteq> {Deleted}"
      using True by (auto simp: list_all_iff list_ex_iff)
    then show ?thesis
      using len True by (simp add: resolve_entries_def decision_def classify_shared_path_def)
  qed
next
  case nodel: False
  have all: "set ks \<subseteq> {Deleted} \<longleftrightarrow> ks = []" using nodel by (cases ks) auto
  show ?thesis
  proof (cases "ks = []")
    case True
    then show ?thesis using len by (simp add: resolve_entries_def decision_def classify_shared_path_def)
  next
    case ne: False
    then have ks: "\<not> list_all (\<lambda>k. k = Deleted) ks" "\<not> list_ex (\<lambda>k. k = Deleted) ks" "\<not> set ks \<subseteq> {Deleted}"
      using nodel all by (auto simp: list_all_iff list_ex_iff)
    show ?thesis
    proof (cases "None \<in> set cs")
      case True
      with len nodel ks show ?thesis
        unfolding resolve_entries_def decision_def classify_shared_path_def Let_def
          all_have_content_iff [OF len nodel] by simp
    next
      case False
      then obtain vs where "cs = map Some vs" using all_Some by blast
      with ne len obtain v vs' where cs: "cs = Some v # map Some vs'" by (cases vs) auto
      have eq: "(if length (contents_of cs) \<ge> 2 then adjacent_equal (contents_of cs) else True) \<longleftrightarrow>
          set cs \<subseteq> {hd cs}"
        unfolding contents_equal_iff by (auto simp: cs)
      have parts: "contents_of cs = v # vs'" "map the (tl cs) = vs'" "the (hd cs) = v"
        by (simp_all add: cs comp_def)
      have add: "list_all (\<lambda>k. k = Added) ks \<longleftrightarrow> set ks \<subseteq> {Added}" by (auto simp: list_all_iff)
      show ?thesis
        unfolding resolve_entries_def decision_def classify_shared_path_def Let_def eq
          all_have_content_iff [OF len nodel]
        using len nodel ks False
        by (cases "set cs \<subseteq> {hd cs}"; cases base) (simp_all add: parts add)
    qed
  qed
qed

text \<open>The fold when every variant is the content already merged, and its conflicts.\<close>

lemma fold_diff3_append:
  "fold_diff3 d b m (xs @ ys) =
     (case fold_diff3 d b m xs of Inr (Upsert m') \<Rightarrow> fold_diff3 d b m' ys | r \<Rightarrow> r)"
  by (induction xs arbitrary: m) (auto split: sum.splits diff3_result.splits)

lemma fold_diff3_conflict_reason: "fold_diff3 d b m xs = Inr (Conflict r) \<Longrightarrow> r = Diff3Conflict"
  by (induction xs arbitrary: m) (auto split: sum.splits diff3_result.splits if_splits)

lemma fold_diff3_not_delete: "fold_diff3 d b m xs \<noteq> Inr Delete"
  by (induction xs arbitrary: m) (auto split: sum.splits diff3_result.splits)

lemma fold_diff3_one_change:
  assumes "d b b x = Inr (Clean x)" "d b x b = Inr (Clean x)"
  shows "set vs \<subseteq> {b, x} \<Longrightarrow> m \<in> {b, x} \<Longrightarrow>
    fold_diff3 d b m vs = Inr (Upsert (if m = x \<or> x \<in> set vs then x else b))"
  using assms by (induction vs arbitrary: m) auto

lemma hd_same:
  assumes "set cs = set cs'"
  shows "set cs \<subseteq> {hd cs} \<longleftrightarrow> set cs' \<subseteq> {hd cs'}"
    and "set cs \<subseteq> {hd cs} \<Longrightarrow> cs \<noteq> [] \<Longrightarrow> hd cs = hd cs'"
proof -
  have one: "set xs \<subseteq> {hd xs} \<longleftrightarrow> (\<forall>x \<in> set xs. \<forall>y \<in> set xs. x = y)" for xs :: "'a list"
    by (cases xs) auto
  show "set cs \<subseteq> {hd cs} \<longleftrightarrow> set cs' \<subseteq> {hd cs'}" unfolding one [of cs] one [of cs'] by (simp only: assms)
  assume "set cs \<subseteq> {hd cs}" "cs \<noteq> []"
  moreover from this assms have "hd cs' \<in> set cs" by (cases cs') auto
  ultimately show "hd cs = hd cs'" by auto
qed

lemma zip_mset_sets:
  assumes "mset (zip ks cs) = mset (zip ks' cs')" "length ks = length cs" "length ks' = length cs'"
  shows "set ks = set ks'" "mset cs = mset cs'"
proof -
  have "mset (map fst (zip ks cs)) = mset (map fst (zip ks' cs'))"
    "mset (map snd (zip ks cs)) = mset (map snd (zip ks' cs'))"
    using assms(1) by (simp_all only: mset_map)
  with assms(2,3) have "mset ks = mset ks'" "mset cs = mset cs'" by simp_all
  then show "set ks = set ks'" "mset cs = mset cs'" using mset_eq_setD by blast+
qed

section \<open>Properties\<close>

text \<open>C2. For every list of entries, whatever contents are missing, the resolution does not panic and its
  outcome is the decision table's: all deletions delete; a deletion beside a change, a change without
  content, and different contents without a base are the conflicts the code names, in this priority;
  one content everywhere is taken; everything else is the fold of three-way merges from the first
  content over the others.\<close>

theorem resolve_entries_total:
  assumes "length ks = length cs"
  shows "resolve_entries ks cs base diff3 = Some (decision ks cs base diff3)"
  using assms by (rule resolve_entries_decision)

text \<open>The order of the entries matters at most for the merge fold: reordering them gives the same
  outcome, unless both orders come down to folding the same contents, reordered, over the same base.\<close>

theorem resolve_entries_order:
  assumes perm: "mset (zip ks cs) = mset (zip ks' cs')"
    and len: "length ks = length cs" "length ks' = length cs'"
  shows "resolve_entries ks cs base diff3 = resolve_entries ks' cs' base diff3
    \<or> (\<exists>b vs vs'. base = Some b \<and> mset vs = mset vs' \<and> vs \<noteq> []
        \<and> resolve_entries ks cs base diff3 = Some (fold_diff3 diff3 b (hd vs) (tl vs))
        \<and> resolve_entries ks' cs' base diff3 = Some (fold_diff3 diff3 b (hd vs') (tl vs')))"
proof -
  note eqs = zip_mset_sets [OF perm len]
  have sets: "set cs = set cs'" using eqs(2) by (rule mset_eq_setD)
  have hd: "set cs \<subseteq> {hd cs} \<longleftrightarrow> set cs' \<subseteq> {hd cs'}" "set cs \<subseteq> {hd cs} \<Longrightarrow> cs \<noteq> [] \<Longrightarrow> hd cs = hd cs'"
    using sets hd_same by blast+
  show ?thesis
  proof (cases "set ks \<subseteq> {Deleted} \<or> Deleted \<in> set ks \<or> None \<in> set cs \<or> set cs \<subseteq> {hd cs} \<or> base = None")
    case True
    have same: "set ks' \<subseteq> {Deleted} \<or> (set cs' \<subseteq> {hd cs'} \<longrightarrow> hd cs = hd cs')"
    proof (cases "cs = []")
      case True
      then show ?thesis using len(1) eqs(1) by auto
    next
      case False
      then show ?thesis using hd(2) unfolding hd(1) by simp
    qed
    from True have "set ks' \<subseteq> {Deleted} \<or> Deleted \<in> set ks' \<or> None \<in> set cs' \<or> set cs' \<subseteq> {hd cs'} \<or> base = None"
      unfolding hd(1) unfolding eqs(1) sets .
    with same consider "set ks' \<subseteq> {Deleted}" | "Deleted \<in> set ks'" | "None \<in> set cs'" |
        "set cs' \<subseteq> {hd cs'}" "hd cs = hd cs'" | "base = None" "\<not> set cs' \<subseteq> {hd cs'}" by satx
    then have "decision ks cs base diff3 = decision ks' cs' base diff3"
      unfolding decision_def hd(1) unfolding eqs(1) sets by cases simp_all
    then show ?thesis using len by (simp add: resolve_entries_decision)
  next
    case False
    then obtain b where b: "base = Some b" by auto
    from False have "cs \<noteq> []" using len by auto
    moreover from this sets have "cs' \<noteq> []" by auto
    ultimately have "decision ks cs base diff3 = fold_diff3 diff3 b (hd (map the cs)) (tl (map the cs))"
      "decision ks' cs' base diff3 = fold_diff3 diff3 b (hd (map the cs')) (tl (map the cs'))"
      using False hd(1) eqs(1) sets by (auto simp: decision_def b hd_map map_tl)
    moreover have "mset (map the cs) = mset (map the cs')" using eqs(2) by simp
    ultimately show ?thesis
      using b \<open>cs \<noteq> []\<close>
      by (intro disjI2 exI [of _ b] exI [of _ "map the cs"] exI [of _ "map the cs'"])
        (simp add: resolve_entries_decision len)
  qed
qed

text \<open>Conflicts are monotone: once some entries conflict, a further entry at the end, whatever it
  is, leaves a conflict.\<close>

theorem resolve_entries_conflict_monotone:
  assumes "length ks = length cs" "resolve_entries ks cs base diff3 = Some (Inr (Conflict r))"
  shows "\<exists>r'. resolve_entries (ks @ [k]) (cs @ [c]) base diff3 = Some (Inr (Conflict r'))"
proof -
  have dec: "decision ks cs base diff3 = Inr (Conflict r)"
    using assms by (simp add: resolve_entries_decision)
  have ks: "\<not> set ks \<subseteq> {Deleted}" using dec by (auto simp: decision_def)
  with assms(1) have ne: "ks \<noteq> []" "cs \<noteq> []" by auto
  have "\<exists>r'. decision (ks @ [k]) (cs @ [c]) base diff3 = Inr (Conflict r')"
  proof (cases "Deleted \<in> set (ks @ [k]) \<or> None \<in> set (cs @ [c])")
    case True
    then show ?thesis using ks by (auto simp: decision_def)
  next
    case False
    with ks dec have "\<not> set cs \<subseteq> {hd cs}" by (auto simp: decision_def split: if_splits)
    with False ks dec ne show ?thesis
      by (auto simp: decision_def fold_diff3_append split: option.splits)
  qed
  then show ?thesis using assms(1) by (simp add: resolve_entries_decision)
qed

text \<open>With a three-way merge that takes the only side that moved away from the base, entries that
  leave the base as it is do not matter: if every content is the base's or one and the same new
  content, the new content wins, in whatever order they come.\<close>

theorem resolve_entries_one_change:
  assumes "length ks = length cs" "Deleted \<notin> set ks"
    and "set cs \<subseteq> {Some b, Some x}" "Some x \<in> set cs"
    and "diff3 b b x = Inr (Clean x)" "diff3 b x b = Inr (Clean x)"
  shows "resolve_entries ks cs (Some b) diff3 = Some (Inr (Upsert x))"
proof -
  obtain vs where "cs = map Some vs" using assms(3) all_Some [of cs] by auto
  with assms(4) obtain v vs' where cs: "cs = Some v # map Some vs'" by (cases vs) auto
  have ks: "\<not> set ks \<subseteq> {Deleted}" using assms(1,2) by (cases ks) (auto simp: cs)
  have "v \<in> {b, x}" "set vs' \<subseteq> {b, x}" "v = x \<or> x \<in> set vs'" using assms(3,4) by (auto simp: cs)
  then have "fold_diff3 diff3 b v vs' = Inr (Upsert x)"
    using fold_diff3_one_change [of diff3 b x vs' v] assms(5,6) by simp
  moreover have "map the (tl cs) = vs'" by (simp add: cs comp_def)
  ultimately have "decision ks cs (Some b) diff3 = Inr (Upsert x)"
    using assms(2,4) ks by (auto simp: decision_def cs)
  then show ?thesis using assms(1) by (simp add: resolve_entries_decision)
qed

section \<open>Witnesses\<close>

text \<open>A three-way merge of numbers that is clean when one side kept the base.\<close>

fun sample_diff3 :: "nat \<Rightarrow> nat \<Rightarrow> nat \<Rightarrow> string + nat diff3_result" where
  "sample_diff3 b x y = Inr (if x = b then Clean y else if y = b then Clean x else Diff3Clash)"

lemma resolve_entries_total_witness:
  "resolve_entries [Added, Modified] [Some 1, None] (Some (0 :: nat)) sample_diff3 = Some (Inr (Conflict MissingContent))"
  by (subst resolve_entries_total) (simp_all add: decision_def)

lemma resolve_entries_order_witness:
  "resolve_entries [Modified, Deleted] [Some 1, None] (Some 0) sample_diff3 =
   resolve_entries [Deleted, Modified] [None, Some 1] (Some 0) sample_diff3
   \<or> (\<exists>vs vs'. mset vs = mset vs' \<and> vs \<noteq> []
      \<and> resolve_entries [Modified, Deleted] [Some 1, None] (Some 0) sample_diff3 =
          Some (fold_diff3 sample_diff3 0 (hd vs) (tl vs))
      \<and> resolve_entries [Deleted, Modified] [None, Some 1] (Some 0) sample_diff3 =
          Some (fold_diff3 sample_diff3 0 (hd vs') (tl vs')))"
  using resolve_entries_order [of "[Modified, Deleted]" "[Some 1, None]" "[Deleted, Modified]" "[None, Some 1]"
      "Some 0" sample_diff3]
  by simp

lemma resolve_entries_conflict_monotone_witness:
  "\<exists>r'. resolve_entries [Modified, Modified, Added] [Some 1, Some 2, Some 1] (Some 0) sample_diff3 =
     Some (Inr (Conflict r'))"
  using resolve_entries_conflict_monotone [of "[Modified, Modified]" "[Some 1, Some 2]" "Some 0" sample_diff3
      Diff3Conflict Added "Some 1"]
  by (simp add: resolve_entries_decision decision_def)

lemma resolve_entries_one_change_witness:
  "resolve_entries [Modified, Modified, Modified] [Some 0, Some 7, Some 0] (Some 0) sample_diff3 =
     Some (Inr (Upsert 7))"
  by (rule resolve_entries_one_change) simp_all

end
