(* ===== verification/Text_Lines.thy ===== *)
theory Text_Lines
  imports Prelude
begin

text \<open>
  What the merge uses of \<open>str\<close>: UTF-8 validity and lossy decoding, \<open>split_inclusive\<close> at newlines,
  \<open>lines\<close>, \<open>trim_end\<close>. A text is the list of its bytes.
\<close>

section \<open>UTF-8\<close>

definition cont_byte :: "nat \<Rightarrow> bool" where
  "cont_byte b \<longleftrightarrow> 0x80 \<le> b \<and> b \<le> 0xBF"

text \<open>The byte at a position, 0 past the end, as the decoder reads it.\<close>

definition byte_at :: "string \<Rightarrow> nat \<Rightarrow> nat" where
  "byte_at s i = (if i < length s then of_char (s ! i) else 0)"

text \<open>Which second bytes a three- or four-byte sequence may have: no overlong forms, no surrogates,
  nothing above U+10FFFF.\<close>

definition second_byte_ok :: "nat \<Rightarrow> nat \<Rightarrow> bool" where
  "second_byte_ok b0 b1 \<longleftrightarrow>
     (if b0 = 0xE0 then 0xA0 \<le> b1 \<and> b1 \<le> 0xBF
      else if b0 = 0xED then 0x80 \<le> b1 \<and> b1 \<le> 0x9F
      else if b0 = 0xF0 then 0x90 \<le> b1 \<and> b1 \<le> 0xBF
      else if b0 = 0xF4 then 0x80 \<le> b1 \<and> b1 \<le> 0x8F
      else cont_byte b1)"

text \<open>Whether the text starts with a character, and how many bytes it, or the broken start of one, takes.\<close>

definition utf8_next :: "string \<Rightarrow> bool \<times> nat" where
  "utf8_next s =
     (let b0 = byte_at s 0
      in if b0 < 0x80 then (True, 1)
         else if 0xC2 \<le> b0 \<and> b0 \<le> 0xDF then
           (if cont_byte (byte_at s 1) then (True, 2) else (False, 1))
         else if 0xE0 \<le> b0 \<and> b0 \<le> 0xEF then
           (if \<not> second_byte_ok b0 (byte_at s 1) then (False, 1)
            else if cont_byte (byte_at s 2) then (True, 3) else (False, 2))
         else if 0xF0 \<le> b0 \<and> b0 \<le> 0xF4 then
           (if \<not> second_byte_ok b0 (byte_at s 1) then (False, 1)
            else if \<not> cont_byte (byte_at s 2) then (False, 2)
            else if cont_byte (byte_at s 3) then (True, 4) else (False, 3))
         else (False, 1))"

lemma utf8_next_pos: "utf8_next s = (v, n) \<Longrightarrow> 0 < n"
  by (auto simp: utf8_next_def Let_def split: if_splits)

definition replacement_char :: string where
  "replacement_char = [char_of (0xEF :: nat), char_of (0xBF :: nat), char_of (0xBD :: nat)]"

function utf8_valid :: "string \<Rightarrow> bool" where
  "utf8_valid s = (if s = [] then True else (case utf8_next s of (v, n) \<Rightarrow> v \<and> utf8_valid (drop n s)))"
  by auto
termination
  by (relation "measure length") (auto dest!: sym [of _ "utf8_next _"] utf8_next_pos)

function from_utf8_lossy :: "string \<Rightarrow> string" where
  "from_utf8_lossy s =
     (if s = [] then []
      else (case utf8_next s of (v, n) \<Rightarrow> (if v then take n s else replacement_char) @ from_utf8_lossy (drop n s)))"
  by auto
termination
  by (relation "measure length") (auto dest!: sym [of _ "utf8_next _"] utf8_next_pos)

declare utf8_valid.simps [simp del] from_utf8_lossy.simps [simp del]

lemma from_utf8_lossy_valid: "utf8_valid s \<Longrightarrow> from_utf8_lossy s = s"
proof (induction s rule: utf8_valid.induct)
  case (1 s)
  show ?case
  proof (cases "s = []")
    case False
    obtain v n where "utf8_next s = (v, n)" by force
    then show ?thesis
      using 1 False utf8_valid.simps [of s] from_utf8_lossy.simps [of s] by auto
  qed (simp add: from_utf8_lossy.simps)
qed

lemma utf8_valid_ascii: "list_all (\<lambda>c. (of_char c :: nat) < 0x80) s \<Longrightarrow> utf8_valid s"
proof (induction s)
  case (Cons c s)
  then have "utf8_next (c # s) = (True, 1)" by (simp add: utf8_next_def byte_at_def)
  with Cons show ?case by (simp add: utf8_valid.simps [of "c # s"])
qed (simp add: utf8_valid.simps)

section \<open>Lines\<close>

abbreviation newline :: char where "newline \<equiv> CHR 0x0A"
abbreviation carriage_return :: char where "carriage_return \<equiv> CHR 0x0D"

fun split_inclusive :: "string \<Rightarrow> string list" where
  "split_inclusive [] = []"
| "split_inclusive (c # cs) =
     (if c = newline then [c] # split_inclusive cs
      else case split_inclusive cs of [] \<Rightarrow> [[c]] | seg # segs \<Rightarrow> (c # seg) # segs)"

definition strip_line_end :: "string \<Rightarrow> string" where
  "strip_line_end seg =
     (if seg \<noteq> [] \<and> last seg = newline then
        (let l = butlast seg in if l \<noteq> [] \<and> last l = carriage_return then butlast l else l)
      else seg)"

definition str_lines :: "string \<Rightarrow> string list" where
  "str_lines s = map strip_line_end (split_inclusive s)"

lemma concat_split_inclusive [simp]: "concat (split_inclusive s) = s"
  by (induction s) (auto split: list.splits)

lemma split_inclusive_nonempty: "[] \<notin> set (split_inclusive s)"
  by (induction s) (auto split: list.splits)

lemma split_inclusive_line:
  "newline \<notin> set l \<Longrightarrow> split_inclusive (l @ newline # s) = (l @ [newline]) # split_inclusive s"
  by (induction l) auto

definition unlines :: "string list \<Rightarrow> string" where
  "unlines ls = concat (map (\<lambda>l. l @ [newline]) ls)"

definition line_ok :: "string \<Rightarrow> bool" where
  "line_ok l \<longleftrightarrow> newline \<notin> set l \<and> (l = [] \<or> last l \<noteq> carriage_return)"

lemma str_lines_unlines: "list_all line_ok ls \<Longrightarrow> str_lines (unlines ls) = ls"
  by (induction ls)
    (auto simp: str_lines_def unlines_def split_inclusive_line line_ok_def strip_line_end_def Let_def)

section \<open>White space\<close>

text \<open>How many bytes the white-space character takes that a reversed text starts with, if it does.\<close>

definition space_ascii :: "char \<Rightarrow> bool" where
  "space_ascii c \<longleftrightarrow> (let n = of_char c :: nat in (0x09 \<le> n \<and> n \<le> 0x0D) \<or> n = 0x20)"

definition space_end :: "string \<Rightarrow> nat" where
  "space_end r =
     (let c0 = byte_at r 0; c1 = byte_at r 1; c2 = byte_at r 2
      in if r \<noteq> [] \<and> space_ascii (hd r) then 1
         else if c1 = 0xC2 \<and> (c0 = 0x85 \<or> c0 = 0xA0) then 2
         else if c2 = 0xE1 \<and> c1 = 0x9A \<and> c0 = 0x80 then 3
         else if c2 = 0xE2 \<and> c1 = 0x80 \<and> ((0x80 \<le> c0 \<and> c0 \<le> 0x8A) \<or> c0 = 0xA8 \<or> c0 = 0xA9 \<or> c0 = 0xAF) then 3
         else if c2 = 0xE2 \<and> c1 = 0x81 \<and> c0 = 0x9F then 3
         else if c2 = 0xE3 \<and> c1 = 0x80 \<and> c0 = 0x80 then 3
         else 0)"

function trim_rev :: "string \<Rightarrow> string" where
  "trim_rev r = (if r = [] \<or> space_end r = 0 then r else trim_rev (drop (space_end r) r))"
  by auto
termination
  by (relation "measure length") auto

declare trim_rev.simps [simp del]

definition trim_end :: "string \<Rightarrow> string" where
  "trim_end s = rev (trim_rev (rev s))"

text \<open>How many bytes the white-space character takes that a text starts with, if it does.\<close>

definition space_start :: "string \<Rightarrow> nat" where
  "space_start s =
     (if s \<noteq> [] \<and> space_ascii (hd s) then 1
      else if space_end (rev (take 2 s)) = 2 then 2
      else if space_end (rev (take 3 s)) = 3 then 3
      else 0)"

function trim_start :: "string \<Rightarrow> string" where
  "trim_start s = (if s = [] \<or> space_start s = 0 then s else trim_start (drop (space_start s) s))"
  by auto
termination
  by (relation "measure length") auto

declare trim_start.simps [simp del]

definition str_trim :: "string \<Rightarrow> string" where
  "str_trim s = trim_start (trim_end s)"

text \<open>\<open>s.trim().is_empty()\<close>: every character is white space, which trimming the end alone decides.\<close>

definition is_blank :: "string \<Rightarrow> bool" where
  "is_blank s \<longleftrightarrow> trim_end s = []"

end
