(* ===== verification/Diff3_Atoms.thy ===== *)
theory Diff3_Atoms
  imports Text_Lines Conflict_Model
begin

text \<open>
  The parser of \<open>git merge-file --diff3\<close> output, \<open>parse_diff3_atoms\<close> of \<open>src/merge/resolve.rs\<close>:
  each conflict block becomes a conflict atom with its line range in the base file.
\<close>

section \<open>The parser\<close>

definition usize_to_u32 :: "nat \<Rightarrow> u32" where
  "usize_to_u32 n = (if n < 2 ^ 32 then of_nat n else - 1)"

datatype diff3_parse_state = InContext | InOurs | InBase | InTheirs

record diff3_acc =
  da_state :: diff3_parse_state
  da_base_line :: u32
  da_block_base_start :: u32
  da_ours :: "string list"
  da_base :: "string list"
  da_theirs :: "string list"
  da_atoms :: "conflict_atom list"

definition finish_block :: "string \<Rightarrow> string \<Rightarrow> diff3_acc \<Rightarrow> conflict_atom" where
  "finish_block ws_ours ws_theirs a =
     (let start = da_block_base_start a;
          base_len = usize_to_u32 (length (da_base a));
          description =
            (if base_len = 0 then ''Both sides inserted content at line '' @ show_nat (unat start)
             else ''Both sides edited lines '' @ show_nat (unat start) @ ''..'' @ show_nat (unat (start + base_len)));
          ours_region = Lines start (start + usize_to_u32 (length (da_ours a)));
          theirs_region = Lines start (start + usize_to_u32 (length (da_theirs a)))
      in conflict_atom_new (Lines start (start + base_len))
           [atom_edit_new ws_ours ours_region (join_with [newline] (da_ours a)),
            atom_edit_new ws_theirs theirs_region (join_with [newline] (da_theirs a))]
           (OverlappingLineEdits description))"

definition diff3_line :: "string \<Rightarrow> string \<Rightarrow> string \<Rightarrow> diff3_acc \<Rightarrow> diff3_acc" where
  "diff3_line ws_ours ws_theirs line a =
     (if prefix ''<<<<<<<'' line then
        a\<lparr>da_state := InOurs, da_block_base_start := da_base_line a, da_ours := [], da_base := [],
          da_theirs := []\<rparr>
      else if prefix ''|||||||'' line \<and> da_state a = InOurs then a\<lparr>da_state := InBase\<rparr>
      else if line = ''======='' \<and> da_state a = InBase then a\<lparr>da_state := InTheirs\<rparr>
      else if prefix ''>>>>>>>'' line \<and> da_state a = InTheirs then
        a\<lparr>da_atoms := da_atoms a @ [finish_block ws_ours ws_theirs a],
          da_base_line := da_base_line a + usize_to_u32 (length (da_base a)),
          da_state := InContext\<rparr>
      else
        (case da_state a of
           InContext \<Rightarrow> a\<lparr>da_base_line := da_base_line a + 1\<rparr>
         | InOurs \<Rightarrow> a\<lparr>da_ours := da_ours a @ [line]\<rparr>
         | InBase \<Rightarrow> a\<lparr>da_base := da_base a @ [line]\<rparr>
         | InTheirs \<Rightarrow> a\<lparr>da_theirs := da_theirs a @ [line]\<rparr>))"

definition diff3_start :: diff3_acc where
  "diff3_start = \<lparr>da_state = InContext, da_base_line = 1, da_block_base_start = 1, da_ours = [], da_base = [],
     da_theirs = [], da_atoms = []\<rparr>"

definition parse_diff3_atoms :: "string \<Rightarrow> string \<Rightarrow> string \<Rightarrow> conflict_atom list" where
  "parse_diff3_atoms marker_output ws_ours ws_theirs =
     da_atoms (fold (diff3_line ws_ours ws_theirs) (str_lines (from_utf8_lossy marker_output)) diff3_start)"

section \<open>What git writes\<close>

text \<open>A merged file in the diff3 style is a sequence of context lines and conflict blocks; the labels
  after the markers are the file names git was given.\<close>

datatype hunk = Context string | Clash "string list" "string list" "string list"

fun hunk_lines :: "string \<Rightarrow> string \<Rightarrow> string \<Rightarrow> hunk \<Rightarrow> string list" where
  "hunk_lines lo lb lt (Context l) = [l]"
| "hunk_lines lo lb lt (Clash os bs ts) =
     [''<<<<<<<'' @ lo] @ os @ [''|||||||'' @ lb] @ bs @ [''=======''] @ ts @ [''>>>>>>>'' @ lt]"

definition hunks_lines :: "string \<Rightarrow> string \<Rightarrow> string \<Rightarrow> hunk list \<Rightarrow> string list" where
  "hunks_lines lo lb lt hs = concat (map (hunk_lines lo lb lt) hs)"

text \<open>No line of the files looks like the marker that would end its section.\<close>

fun hunk_ok :: "hunk \<Rightarrow> bool" where
  "hunk_ok (Context l) \<longleftrightarrow> \<not> prefix ''<<<<<<<'' l"
| "hunk_ok (Clash os bs ts) \<longleftrightarrow>
     list_all (\<lambda>l. \<not> prefix ''<<<<<<<'' l \<and> \<not> prefix ''|||||||'' l) os
   \<and> list_all (\<lambda>l. \<not> prefix ''<<<<<<<'' l \<and> l \<noteq> ''======='') bs
   \<and> list_all (\<lambda>l. \<not> prefix ''<<<<<<<'' l \<and> \<not> prefix ''>>>>>>>'' l) ts"

fun hunk_base :: "hunk \<Rightarrow> string list" where
  "hunk_base (Context l) = [l]"
| "hunk_base (Clash os bs ts) = bs"

text \<open>The merged file with every block replaced by its base section. It is the base file only where the merge
  took no change of one side cleanly: such a change is part of the context.\<close>

definition merged_base :: "hunk list \<Rightarrow> string list" where
  "merged_base hs = concat (map hunk_base hs)"

text \<open>The conflict blocks, each with the number of its first line in the merged base, from 1.\<close>

fun clashes :: "nat \<Rightarrow> hunk list \<Rightarrow> (nat \<times> string list \<times> string list \<times> string list) list" where
  "clashes n [] = []"
| "clashes n (Context l # hs) = clashes (Suc n) hs"
| "clashes n (Clash os bs ts # hs) = (n, os, bs, ts) # clashes (n + length bs) hs"

definition clash_atom :: "string \<Rightarrow> string \<Rightarrow> nat \<times> string list \<times> string list \<times> string list \<Rightarrow> conflict_atom" where
  "clash_atom ws_ours ws_theirs = (\<lambda>(n, os, bs, ts).
     finish_block ws_ours ws_theirs
       \<lparr>da_state = InTheirs, da_base_line = of_nat n, da_block_base_start = of_nat n, da_ours = os, da_base = bs,
        da_theirs = ts, da_atoms = []\<rparr>)"

section \<open>Facts\<close>

lemma marker_no_clash [simp]:
  "\<not> prefix ''<<<<<<<'' (''|||||||'' @ l)" "\<not> prefix ''<<<<<<<'' ''=======''"
  "\<not> prefix ''<<<<<<<'' (''>>>>>>>'' @ l)" "\<not> prefix ''|||||||'' (''>>>>>>>'' @ l)"
  "\<not> prefix ''|||||||'' ''=======''" "''>>>>>>>'' @ l \<noteq> ''=======''"
  "prefix ''<<<<<<<'' (''<<<<<<<'' @ l)" "prefix ''|||||||'' (''|||||||'' @ l)" "prefix ''>>>>>>>'' (''>>>>>>>'' @ l)"
  by simp_all

text \<open>Runs over the lines of one section.\<close>

lemma fold_ours:
  "list_all (\<lambda>l. \<not> prefix ''<<<<<<<'' l \<and> \<not> prefix ''|||||||'' l) os \<Longrightarrow> da_state a = InOurs \<Longrightarrow>
   fold (diff3_line wo wt) os a = a\<lparr>da_ours := da_ours a @ os\<rparr>"
  by (induction os arbitrary: a) (simp_all add: diff3_line_def)

lemma fold_base:
  "list_all (\<lambda>l. \<not> prefix ''<<<<<<<'' l \<and> l \<noteq> ''======='') bs \<Longrightarrow> da_state a = InBase \<Longrightarrow>
   fold (diff3_line wo wt) bs a = a\<lparr>da_base := da_base a @ bs\<rparr>"
  by (induction bs arbitrary: a) (simp_all add: diff3_line_def)

lemma fold_theirs:
  "list_all (\<lambda>l. \<not> prefix ''<<<<<<<'' l \<and> \<not> prefix ''>>>>>>>'' l) ts \<Longrightarrow> da_state a = InTheirs \<Longrightarrow>
   fold (diff3_line wo wt) ts a = a\<lparr>da_theirs := da_theirs a @ ts\<rparr>"
  by (induction ts arbitrary: a) (simp_all add: diff3_line_def)

lemma usize_to_u32_small: "n < 2 ^ 32 \<Longrightarrow> usize_to_u32 n = of_nat n"
  by (simp add: usize_to_u32_def)

lemma fold_clash:
  assumes "hunk_ok (Clash os bs ts)" "da_state a = InContext"
  shows "fold (diff3_line wo wt) (hunk_lines lo lb lt (Clash os bs ts)) a =
    a\<lparr>da_base_line := da_base_line a + usize_to_u32 (length bs), da_block_base_start := da_base_line a,
      da_ours := os, da_base := bs, da_theirs := ts,
      da_atoms := da_atoms a @ [finish_block wo wt (a\<lparr>da_block_base_start := da_base_line a, da_ours := os,
        da_base := bs, da_theirs := ts\<rparr>)]\<rparr>"
  using assms
  by (cases a) (simp add: diff3_line_def [of _ _ "_ @ _"] diff3_line_def [of _ _ "CHR ''='' # _"] fold_ours fold_base
      fold_theirs finish_block_def del: append.simps add: append_Nil)

lemma fold_hunks:
  assumes "list_all hunk_ok hs" "length (merged_base hs) < 2 ^ 32"
    and "da_state a = InContext" "da_base_line a = of_nat n"
  shows "da_atoms (fold (diff3_line wo wt) (hunks_lines lo lb lt hs) a) =
    da_atoms a @ map (clash_atom wo wt) (clashes n hs)"
  using assms
proof (induction hs arbitrary: a n)
  case Nil
  then show ?case by (simp add: hunks_lines_def)
next
  case (Cons h hs)
  show ?case
  proof (cases h)
    case (Context l)
    with Cons.prems have "diff3_line wo wt l a = a\<lparr>da_base_line := da_base_line a + 1\<rparr>"
      by (simp add: diff3_line_def)
    with Cons.prems Cons.IH [of "a\<lparr>da_base_line := da_base_line a + 1\<rparr>" "Suc n"] show ?thesis
      by (simp add: Context hunks_lines_def merged_base_def)
  next
    case (Clash os bs ts)
    let ?a = "fold (diff3_line wo wt) (hunk_lines lo lb lt h) a"
    have "hunk_ok (Clash os bs ts)" using Cons.prems(1) Clash by simp
    note step = fold_clash [OF this Cons.prems(3), of wo wt lo lb lt]
    have len: "length bs < 2 ^ 32" "length (merged_base hs) < 2 ^ 32"
      using Cons.prems(2) by (simp_all add: Clash merged_base_def)
    have "da_atoms (fold (diff3_line wo wt) (hunks_lines lo lb lt hs) ?a) =
        da_atoms ?a @ map (clash_atom wo wt) (clashes (n + length bs) hs)"
      by (rule Cons.IH) (use Cons.prems len in \<open>simp_all add: Clash step usize_to_u32_small del: hunk_lines.simps\<close>)
    then show ?thesis
      using Cons.prems(4)
      by (simp add: Clash step hunks_lines_def clash_atom_def finish_block_def del: hunk_lines.simps)
  qed
qed

lemma clashes_merged_base:
  "(n, os, bs, ts) \<in> set (clashes k hs) \<Longrightarrow>
   k \<le> n \<and> n - k + length bs \<le> length (merged_base hs) \<and> take (length bs) (drop (n - k) (merged_base hs)) = bs"
proof (induction k hs rule: clashes.induct)
  case (2 k l hs)
  then have "Suc k \<le> n" "n - k = Suc (n - Suc k)" by auto
  with 2 show ?case by (simp add: merged_base_def)
next
  case (3 k os' bs' ts' hs)
  then show ?case by (auto simp: merged_base_def)
qed simp

section \<open>The base file\<close>

text \<open>Every piece of the merged file with the lines of the base file that it stands for: any number of lines for a
  line outside the blocks, the base section for a block.\<close>

fun piece_ok :: "hunk \<times> string list \<Rightarrow> bool" where
  "piece_ok (Context l, b) \<longleftrightarrow> True"
| "piece_ok (Clash os bs ts, b) \<longleftrightarrow> b = bs"

definition base_lines :: "(hunk \<times> string list) list \<Rightarrow> string list" where
  "base_lines ps = concat (map snd ps)"

text \<open>The blocks with the number of their first line in the base file and the number of lines that the merge
  has added outside of the blocks before.\<close>

fun placed :: "nat \<Rightarrow> int \<Rightarrow> (hunk \<times> string list) list \<Rightarrow> (nat \<times> int \<times> string list \<times> string list \<times> string list) list" where
  "placed m d [] = []"
| "placed m d ((Context l, b) # ps) = placed (m + length b) (d + 1 - int (length b)) ps"
| "placed m d ((Clash os bs ts, b) # ps) = (m, d, os, bs, ts) # placed (m + length b) d ps"

definition placed_at :: "string list \<Rightarrow> nat \<times> string list \<times> string list \<times> string list \<Rightarrow>
   nat \<times> int \<times> string list \<times> string list \<times> string list \<Rightarrow> bool" where
  "placed_at base = (\<lambda>(n, block) (m, d, os, bs, ts). block = (os, bs, ts) \<and> int n = int m + d
     \<and> take (length bs) (drop (m - 1) base) = bs)"

lemma clashes_placed:
  assumes "list_all piece_ok ps" "base = pre @ base_lines ps" "m = Suc (length pre)" "int n = int m + d"
  shows "list_all2 (placed_at base) (clashes n (map fst ps)) (placed m d ps)"
  using assms
proof (induction m d ps arbitrary: n pre rule: placed.induct)
  case (2 m d l b ps)
  have "list_all2 (placed_at base) (clashes (Suc n) (map fst ps)) (placed (m + length b) (d + 1 - int (length b)) ps)"
    by (rule "2.IH" [of "pre @ b"]) (use "2.prems" in \<open>simp_all add: base_lines_def\<close>)
  then show ?case by simp
next
  case (3 m d os bs ts b ps)
  have "list_all2 (placed_at base) (clashes (n + length b) (map fst ps)) (placed (m + length b) d ps)"
    by (rule "3.IH" [of "pre @ b"]) (use "3.prems" in \<open>simp_all add: base_lines_def\<close>)
  then show ?case using "3.prems" by (simp add: placed_at_def base_lines_def)
qed simp

section \<open>Properties\<close>

text \<open>C30. Parsing the merged file that git writes gives one atom for each conflict block, in order, with the two sides'
  lines as edits, as long as no line of the files looks like the marker that ends its section. The line range of an
  atom has the length of the block's base section; it starts at the line of that section in the base file plus the
  number of lines that the merge took cleanly from the sides before the block, so it is the range of the base section
  exactly where that number is zero.\<close>

theorem parse_diff3_atoms_of_hunks:
  assumes "list_all piece_ok ps" "hs = map fst ps" "list_all hunk_ok hs" "list_all line_ok (hunks_lines lo lb lt hs)"
    and "utf8_valid (unlines (hunks_lines lo lb lt hs))" "length (merged_base hs) < 2 ^ 32 - 1"
  shows "parse_diff3_atoms (unlines (hunks_lines lo lb lt hs)) wo wt = map (clash_atom wo wt) (clashes 1 hs)
    \<and> (\<forall>(n, os, bs, ts) \<in> set (clashes 1 hs).
        map ae_content (ca_edits (clash_atom wo wt (n, os, bs, ts))) =
          [join_with [newline] os, join_with [newline] ts]
        \<and> (\<exists>s e. ca_base_region (clash_atom wo wt (n, os, bs, ts)) = Lines s e
            \<and> unat s = n \<and> unat e = n + length bs))
    \<and> list_all2 (placed_at (base_lines ps)) (clashes 1 hs) (placed 1 0 ps)"
proof (intro conjI)
  show "parse_diff3_atoms (unlines (hunks_lines lo lb lt hs)) wo wt = map (clash_atom wo wt) (clashes 1 hs)"
    using fold_hunks [OF assms(3), of diff3_start 1 wo wt lo lb lt] assms(4-6)
    by (simp add: parse_diff3_atoms_def from_utf8_lossy_valid str_lines_unlines diff3_start_def)
  have "map ae_content (ca_edits (clash_atom wo wt (n, os, bs, ts))) =
        [join_with [newline] os, join_with [newline] ts]
      \<and> (\<exists>s e. ca_base_region (clash_atom wo wt (n, os, bs, ts)) = Lines s e \<and> unat s = n \<and> unat e = n + length bs)"
    if "(n, os, bs, ts) \<in> set (clashes 1 hs)" for n os bs ts
  proof -
    have n: "n + length bs < 2 ^ 32" "1 \<le> n" using clashes_merged_base [OF that] assms(6) by auto
    then have "unat (of_nat n + usize_to_u32 (length bs) :: u32) = n + length bs" "unat (of_nat n :: u32) = n"
      by (simp_all add: usize_to_u32_small unat_of_nat flip: of_nat_add)
    then show ?thesis
      by (simp add: clash_atom_def finish_block_def Let_def conflict_atom_new_def atom_edit_new_def)
  qed
  then show "\<forall>(n, os, bs, ts) \<in> set (clashes 1 hs).
        map ae_content (ca_edits (clash_atom wo wt (n, os, bs, ts))) = [join_with [newline] os, join_with [newline] ts]
        \<and> (\<exists>s e. ca_base_region (clash_atom wo wt (n, os, bs, ts)) = Lines s e \<and> unat s = n \<and> unat e = n + length bs)"
    by blast
  show "list_all2 (placed_at (base_lines ps)) (clashes 1 hs) (placed 1 0 ps)"
    unfolding assms(2) by (rule clashes_placed [OF assms(1), of _ "[]"]) simp_all
qed

section \<open>Witness\<close>

text \<open>One side inserted \<open>new\<close> at the top: the second block is at line 5 of the base, its atom at line 6.\<close>

abbreviation "sample_pieces \<equiv> [(Context ''new'', []), (Context ''a'', [''a'']), (Clash [''x''] [''b'', ''c''] [], [''b'', ''c'']),
  (Context ''d'', [''d'']), (Clash [''y''] [] [''z''], [])]"

lemma parse_diff3_atoms_of_hunks_witness:
  "map ca_base_region (parse_diff3_atoms (unlines (hunks_lines '' o'' '' b'' '' t'' (map fst sample_pieces))) ''w1'' ''w2'') =
     [Lines 3 5, Lines 6 6]
   \<and> placed 1 0 sample_pieces = [(2, 1, [''x''], [''b'', ''c''], []), (5, 1, [''y''], [], [''z''])]"
proof -
  have "utf8_valid (unlines (hunks_lines '' o'' '' b'' '' t'' (map fst sample_pieces)))"
    by (rule utf8_valid_ascii) (simp add: unlines_def hunks_lines_def)
  then show ?thesis
    using parse_diff3_atoms_of_hunks [of sample_pieces "map fst sample_pieces" "'' o''" "'' b''" "'' t''" "''w1''" "''w2''"]
    by (simp add: hunks_lines_def line_ok_def merged_base_def clash_atom_def finish_block_def Let_def
        conflict_atom_new_def usize_to_u32_def)
qed

end
