(* ===== verification/Shifted_Blocks.thy ===== *)
theory Shifted_Blocks
  imports Text_Lines Ordered_Map "HOL-Library.Multiset"
begin

text \<open>
  The alignment of moved blocks before a second merge attempt, \<open>normalize_shifted_blocks\<close> of
  \<open>src/merge/resolve.rs\<close>: a text is cut into blocks at blank lines, and the blocks of the variant are
  put back in the order of the base's.
\<close>

section \<open>Blocks\<close>

fun split_segments :: "string \<Rightarrow> string list \<Rightarrow> string list" where
  "split_segments current [] = (if current \<noteq> [] then [current] else [])"
| "split_segments current (segment # segments) =
     (if is_blank segment then (current @ segment) # split_segments [] segments
      else split_segments (current @ segment) segments)"

definition split_blocks :: "string \<Rightarrow> string list" where
  "split_blocks text = split_segments [] (split_inclusive text)"

definition block_signature :: "string \<Rightarrow> string" where
  "block_signature block = trim_end block"

definition block_positions :: "string list \<Rightarrow> (string, nat list) btree" where
  "block_positions blocks =
     fold (\<lambda>(idx, block) m. bm_push (block_signature block) idx m) (enumerate 0 blocks) bm_empty"

section \<open>Ranks\<close>

definition saturate_i64 :: "int \<Rightarrow> int" where
  "saturate_i64 x = max (- (2 ^ 63)) (min (2 ^ 63 - 1) x)"

definition usize_to_i64 :: "nat \<Rightarrow> int" where
  "usize_to_i64 n = (if int n \<le> 2 ^ 63 - 1 then int n else 2 ^ 63 - 1)"

definition rank4 :: "nat \<Rightarrow> int \<Rightarrow> int" where
  "rank4 n k = saturate_i64 (saturate_i64 (usize_to_i64 n * 4) + k)"

definition block_anchor :: "(string, nat list) btree \<Rightarrow> (string, nat list) btree \<Rightarrow> string \<Rightarrow> nat option" where
  "block_anchor base_positions variant_positions block =
     (case (bm_get base_positions (block_signature block), bm_get variant_positions (block_signature block)) of
        (Some [b], Some [_]) \<Rightarrow> Some b
      | _ \<Rightarrow> None)"

text \<open>The nearest anchor at or before each position; the nearest at or after, over the reversed list.\<close>

fun carry_anchor :: "nat option \<Rightarrow> nat option list \<Rightarrow> nat option list" where
  "carry_anchor last_seen [] = []"
| "carry_anchor last_seen (a # xs) =
     (case a of None \<Rightarrow> last_seen # carry_anchor last_seen xs | Some _ \<Rightarrow> a # carry_anchor a xs)"

definition prev_anchors :: "nat option list \<Rightarrow> nat option list" where
  "prev_anchors xs = carry_anchor None xs"

definition next_anchors :: "nat option list \<Rightarrow> nat option list" where
  "next_anchors xs = rev (carry_anchor None (rev xs))"

definition block_rank :: "nat \<Rightarrow> nat \<Rightarrow> nat option \<Rightarrow> nat option \<Rightarrow> nat option \<Rightarrow> int" where
  "block_rank base_len idx anchor prev nxt =
     (case anchor of
        Some base_idx \<Rightarrow> rank4 base_idx 2
      | None \<Rightarrow>
          (case prev of
             Some p \<Rightarrow> rank4 p 3
           | None \<Rightarrow>
               (case nxt of
                  Some n \<Rightarrow> rank4 n 1
                | None \<Rightarrow> saturate_i64 (saturate_i64 (usize_to_i64 base_len * 4) + usize_to_i64 idx))))"

definition block_anchors :: "string list \<Rightarrow> string list \<Rightarrow> nat option list" where
  "block_anchors base_blocks variant_blocks =
     map (block_anchor (block_positions base_blocks) (block_positions variant_blocks)) variant_blocks"

definition ranked_blocks :: "string list \<Rightarrow> string list \<Rightarrow> (int \<times> nat \<times> string) list" where
  "ranked_blocks base_blocks variant_blocks =
     (let anchors = block_anchors base_blocks variant_blocks;
          prevs = prev_anchors anchors;
          nexts = next_anchors anchors
      in map (\<lambda>(idx, block). (block_rank (length base_blocks) idx (anchors ! idx) (prevs ! idx) (nexts ! idx), idx, block))
           (enumerate 0 variant_blocks))"

definition rank_cmp :: "int \<times> nat \<times> string \<Rightarrow> int \<times> nat \<times> string \<Rightarrow> rust_ordering" where
  "rank_cmp = (\<lambda>(r1, i1, _) (r2, i2, _). then_with (cmp_of r1 r2) (cmp_of i1 i2))"

definition moved_anchor_count :: "nat option list \<Rightarrow> nat" where
  "moved_anchor_count anchors =
     length (filter (\<lambda>(idx, anchor). case anchor of Some a \<Rightarrow> a \<noteq> idx | None \<Rightarrow> False) (enumerate 0 anchors))"

definition normalize_shifted_blocks :: "blob \<Rightarrow> blob \<Rightarrow> blob option" where
  "normalize_shifted_blocks base variant =
     (if \<not> utf8_valid base \<or> \<not> utf8_valid variant then None
      else
        (let base_blocks = split_blocks base; variant_blocks = split_blocks variant
         in if length base_blocks < 2 \<or> length variant_blocks < 2 then None
            else if moved_anchor_count (block_anchors base_blocks variant_blocks) = 0 then None
            else
              (let normalized = concat (map (\<lambda>(_, _, block). block)
                     (sort_by rank_cmp (ranked_blocks base_blocks variant_blocks)))
               in if normalized = variant then None else Some normalized)))"

section \<open>Facts\<close>

lemma concat_split_segments: "concat (split_segments current segs) = current @ concat segs"
  by (induction segs arbitrary: current) auto

lemma concat_split_blocks [simp]: "concat (split_blocks text) = text"
  by (simp add: split_blocks_def concat_split_segments)

lemma split_segments_nonempty: "[] \<notin> set segs \<Longrightarrow> [] \<notin> set (split_segments current segs)"
  by (induction segs arbitrary: current) auto

lemma mset_insort_by [simp]: "mset (insort_by cmp x xs) = add_mset x (mset xs)"
  by (induction xs) auto

lemma mset_sort_by [simp]: "mset (sort_by cmp xs) = mset xs"
  by (induction xs) auto

lemma rank_cmp_total: "total_cmp rank_cmp"
proof -
  have "total_cmp (\<lambda>a b. then_with (cmp_of (fst a) (fst b)) (cmp_of (fst (snd a)) (fst (snd b))) :: rust_ordering)"
    by (intro total_cmp_then total_cmp_on [where f = fst] total_cmp_on [where f = "\<lambda>a. fst (snd a)"]
        linorder_cmp.total_cmp_axioms)
  then show ?thesis by (simp add: rank_cmp_def case_prod_unfold)
qed

text \<open>The positions of the one element that satisfies a condition.\<close>

lemma filter_upt_unique:
  assumes "k < n" "P k" "\<And>j. j < n \<Longrightarrow> P j \<Longrightarrow> j = k"
  shows "filter P [0..<n] = [k]"
proof -
  have "filter P [0..<n] = filter (\<lambda>j. j = k) [0..<n]"
  proof (rule filter_cong [OF refl])
    fix j assume "j \<in> set [0..<n]"
    then show "P j \<longleftrightarrow> j = k" using assms(2) assms(3) [of j] by auto
  qed
  also have "\<dots> = [k]" using \<open>k < n\<close> by (induction n) (auto simp: less_Suc_eq filter_empty_conv)
  finally show ?thesis .
qed

lemma map_fst_filter_enumerate:
  "map fst (filter (\<lambda>x. P (snd x)) (enumerate 0 xs)) = filter (\<lambda>j. P (xs ! j)) [0..<length xs]"
proof -
  have "enumerate 0 xs = map (\<lambda>j. (j, xs ! j)) [0..<length xs]"
    by (rule nth_equalityI) (simp_all add: nth_enumerate_eq)
  then show ?thesis by (simp add: filter_map comp_def)
qed

definition positions_of :: "string list \<Rightarrow> string \<Rightarrow> nat list" where
  "positions_of blocks sig = filter (\<lambda>j. block_signature (blocks ! j) = sig) [0..<length blocks]"

lemma get_block_positions:
  "bm_get (block_positions blocks) sig =
   (if positions_of blocks sig = [] then None else Some (positions_of blocks sig))"
proof -
  have fold: "block_positions blocks =
      fold (\<lambda>x. bm_push (block_signature (snd x)) (fst x)) (enumerate 0 blocks) bm_empty"
    by (simp add: block_positions_def case_prod_unfold)
  have pos: "positions_of blocks sig = map fst (filter (\<lambda>x. block_signature (snd x) = sig) (enumerate 0 blocks))"
    using map_fst_filter_enumerate [of "\<lambda>b. block_signature b = sig" blocks] by (simp add: positions_of_def)
  show ?thesis
    unfolding fold bmg.get_fold_push pos by (auto simp: filter_empty_conv image_iff)
qed

text \<open>The block \<open>i\<close> of the variant is the block \<open>k\<close> of the base, and no other block of either is.\<close>

definition twins :: "string list \<Rightarrow> string list \<Rightarrow> nat \<Rightarrow> nat \<Rightarrow> bool" where
  "twins base_blocks variant_blocks i k \<longleftrightarrow>
     i < length variant_blocks
   \<and> positions_of base_blocks (block_signature (variant_blocks ! i)) = [k]
   \<and> positions_of variant_blocks (block_signature (variant_blocks ! i)) = [i]"

lemma set_positions_of: "j \<in> set (positions_of blocks sig) \<longleftrightarrow> j < length blocks \<and> block_signature (blocks ! j) = sig"
  by (auto simp: positions_of_def)

lemma twins_iff:
  "twins bb vb i k \<longleftrightarrow> i < length vb \<and> k < length bb \<and> block_signature (vb ! i) = block_signature (bb ! k)
   \<and> (\<forall>j < length vb. block_signature (vb ! j) = block_signature (vb ! i) \<longrightarrow> j = i)
   \<and> (\<forall>j < length bb. block_signature (bb ! j) = block_signature (vb ! i) \<longrightarrow> j = k)"
  (is "_ \<longleftrightarrow> ?r")
proof
  assume tw: "twins bb vb i k"
  then have "set (positions_of bb (block_signature (vb ! i))) = {k}"
    "set (positions_of vb (block_signature (vb ! i))) = {i}"
    by (simp_all add: twins_def)
  then have at: "j < length bb \<and> block_signature (bb ! j) = block_signature (vb ! i) \<longleftrightarrow> j = k"
    "j < length vb \<and> block_signature (vb ! j) = block_signature (vb ! i) \<longleftrightarrow> j = i" for j
    by (simp_all flip: set_positions_of)
  have fst_facts: "i < length vb" "k < length bb" "block_signature (vb ! i) = block_signature (bb ! k)"
    using tw at(1) [of k] by (simp_all add: twins_def)
  have "j = i" if "j < length vb" "block_signature (vb ! j) = block_signature (vb ! i)" for j
    using at(2) [of j] that by simp
  moreover have "j = k" if "j < length bb" "block_signature (bb ! j) = block_signature (vb ! i)" for j
    using at(1) [of j] that by simp
  ultimately show ?r by (intro conjI fst_facts allI impI)
next
  assume r: ?r
  then obtain bounds: "i < length vb" "k < length bb" and eq: "block_signature (vb ! i) = block_signature (bb ! k)"
    and once: "\<forall>j < length vb. block_signature (vb ! j) = block_signature (vb ! i) \<longrightarrow> j = i"
      "\<forall>j < length bb. block_signature (bb ! j) = block_signature (vb ! i) \<longrightarrow> j = k"
    by (elim conjE)
  have "positions_of bb (block_signature (vb ! i)) = [k]"
    unfolding positions_of_def using bounds(2) eq [symmetric] once(2) [rule_format] by (rule filter_upt_unique)
  moreover have "positions_of vb (block_signature (vb ! i)) = [i]"
    unfolding positions_of_def using bounds(1) refl once(1) [rule_format] by (rule filter_upt_unique)
  ultimately show "twins bb vb i k" using bounds(1) by (simp add: twins_def)
qed

lemma twins_bound: "twins bb vb i k \<Longrightarrow> k < length bb"
  unfolding twins_iff by (elim conjE)

lemma twins_anchor: "twins bb vb i k \<Longrightarrow> block_anchors bb vb ! i = Some k"
  by (simp add: twins_def block_anchors_def block_anchor_def get_block_positions)

lemma rank4_small: "n < 2 ^ 60 \<Longrightarrow> rank4 n 2 = 4 * int n + 2"
  by (simp add: rank4_def usize_to_i64_def saturate_i64_def)

lemma ranked_elem:
  assumes "(r, i, b) \<in> set (ranked_blocks bb vb)"
  shows "i < length vb" "b = vb ! i" "twins bb vb i k \<Longrightarrow> r = rank4 k 2"
  using assms
  by (auto simp: ranked_blocks_def Let_def in_set_enumerate_eq block_rank_def dest: twins_anchor)

lemma ranked_indices: "map (fst \<circ> snd) (ranked_blocks bb vb) = [0..<length vb]"
  by (simp add: ranked_blocks_def Let_def comp_def case_prod_unfold map_fst_enumerate)

section \<open>Property\<close>

text \<open>Aligning a variant with its base changes the order of its blocks only, which are the variant cut
  at blank lines, and every two blocks that occur exactly once in both texts come out in their
  order in the base.\<close>

theorem normalize_shifted_blocks_reorders:
  assumes "normalize_shifted_blocks base variant = Some out" "length (split_blocks base) < 2 ^ 60"
  shows "concat (split_blocks variant) = variant \<and> out \<noteq> variant
    \<and> (\<exists>order. mset order = mset [0..<length (split_blocks variant)]
        \<and> out = concat (map (nth (split_blocks variant)) order)
        \<and> sorted_wrt (\<lambda>i j. \<forall>k l. twins (split_blocks base) (split_blocks variant) i k \<longrightarrow>
              twins (split_blocks base) (split_blocks variant) j l \<longrightarrow> k \<le> l) order)"
proof -
  let ?bb = "split_blocks base" and ?vb = "split_blocks variant"
  let ?rs = "sort_by rank_cmp (ranked_blocks ?bb ?vb)"
  let ?order = "map (fst \<circ> snd) ?rs"
  have out: "out = concat (map (\<lambda>(_, _, b). b) ?rs)" "out \<noteq> variant"
    using assms(1) by (auto simp: normalize_shifted_blocks_def Let_def split: if_splits)
  have "mset ?order = mset (map (fst \<circ> snd) (ranked_blocks ?bb ?vb))" by (simp only: mset_map mset_sort_by)
  then have perm: "mset ?order = mset [0..<length ?vb]" by (simp only: ranked_indices)
  have "map (\<lambda>(_, _, b). b) ?rs = map (nth ?vb) ?order"
    by (auto dest!: ranked_elem(2))
  with out have "out = concat (map (nth ?vb) ?order)" by simp
  moreover have "sorted_wrt (\<lambda>a b. rank_cmp a b \<noteq> Greater) ?rs"
    by (rule total_cmp.sorted_sort_by [OF rank_cmp_total])
  then have "sorted_wrt (\<lambda>i j. \<forall>k l. twins ?bb ?vb i k \<longrightarrow> twins ?bb ?vb j l \<longrightarrow> k \<le> l) ?order"
    unfolding sorted_wrt_map
  proof (rule sorted_wrt_mono_rel [rotated])
    fix a b
    assume mem: "a \<in> set ?rs" "b \<in> set ?rs" and le: "rank_cmp a b \<noteq> Greater"
    obtain r i s r' j s' where ab: "a = (r, i, s)" "b = (r', j, s')" by (cases a, cases b) auto
    have "k \<le> l" if tw: "twins ?bb ?vb i k" "twins ?bb ?vb j l" for k l
    proof -
      have "r = rank4 k 2" "r' = rank4 l 2"
        using mem ranked_elem(3) [OF _ tw(1)] ranked_elem(3) [OF _ tw(2)] by (simp_all add: ab)
      moreover have "k < 2 ^ 60" "l < 2 ^ 60"
        using twins_bound [OF tw(1)] twins_bound [OF tw(2)] assms(2) by simp_all
      moreover have "r \<le> r'" using le by (auto simp: ab rank_cmp_def then_with_iff)
      ultimately show ?thesis by (simp add: rank4_small)
    qed
    then show "\<forall>k l. twins ?bb ?vb ((fst \<circ> snd) a) k \<longrightarrow> twins ?bb ?vb ((fst \<circ> snd) b) l \<longrightarrow> k \<le> l"
      by (simp add: ab)
  qed
  ultimately show ?thesis using perm out(2) concat_split_blocks by blast
qed

section \<open>Witness\<close>

abbreviation "sample_base_text \<equiv> [CHR ''a'', newline, newline, CHR ''b'', newline, newline]"
abbreviation "sample_moved_text \<equiv> [CHR ''b'', newline, newline, CHR ''a'', newline, newline]"

lemma normalize_shifted_blocks_reorders_witness:
  "\<exists>order. mset order = mset [0..<length (split_blocks sample_moved_text)]
     \<and> sample_base_text = concat (map (nth (split_blocks sample_moved_text)) order)"
proof -
  have "normalize_shifted_blocks sample_base_text sample_moved_text = Some sample_base_text" by code_simp
  moreover have "length (split_blocks sample_base_text) < 2 ^ 60"
    by (rule less_le_trans [of _ 3]) (code_simp, simp)
  ultimately show ?thesis using normalize_shifted_blocks_reorders by blast
qed

end
