(* ===== verification/Resolve_Partition.thy ===== *)
theory Resolve_Partition
  imports Resolve_Algebra Diff3_Atoms Shifted_Blocks
begin

text \<open>
  The resolve step over a whole partition, \<open>src/merge/resolve.rs\<close>: unique paths pass through,
  directory/file clashes become conflicts, shared paths go through the merge algebra, with merge
  drivers from git attributes before it and a retry with aligned blocks inside it; the second pipeline
  puts an AST merge after the line merge. Git's \<open>merge-file\<close>, the text merge behind the drivers, the
  attribute lookup and the AST merge are the fields of \<open>merge_env\<close> and \<open>ast_env\<close>. A panic is the
  failure \<open>Panicked\<close>.
\<close>

section \<open>Outcomes\<close>

datatype resolved_change = RUpsert path blob | RDelete path

fun change_path :: "resolved_change \<Rightarrow> path" where
  "change_path (RUpsert p _) = p"
| "change_path (RDelete p) = p"

record record_side =
  rs_workspace_id :: workspace_id
  rs_kind :: change_kind
  rs_content :: "blob option"

record conflict_record =
  cr_path :: path
  cr_base :: "blob option"
  cr_sides :: "record_side list"
  cr_reason :: resolve_reason
  cr_atoms :: "conflict_atom list"

record resolve_result =
  rr_resolved :: "resolved_change list"
  rr_conflicts :: "conflict_record list"

definition rr_is_clean :: "resolve_result \<Rightarrow> bool" where
  "rr_is_clean r \<longleftrightarrow> rr_conflicts r = []"

datatype resolve_error = ResolveIo string | GitCommand string string "int option"

fun resolve_error_str :: "resolve_error \<Rightarrow> string" where
  "resolve_error_str (ResolveIo e) = ''I/O error: '' @ e"
| "resolve_error_str (GitCommand command stderr code) =
     ''`'' @ command @ ''` failed'' @
     (case code of
        None \<Rightarrow> []
      | Some n \<Rightarrow> '' (exit '' @ (if n < 0 then ''-'' else []) @ show_nat (nat \<bar>n\<bar>) @ '')'') @
     (if stderr \<noteq> [] then '': '' @ stderr else [])"

datatype resolve_failure = Failed resolve_error | Panicked

datatype shared_outcome = Resolved resolved_change | Conflicted conflict_record

datatype diff3_outcome = DClean blob | DConflict string

datatype conflict_resolution = UnionSides | OursSide

datatype merge_result = MergeClean blob | MergeConflict

record merge_env =
  me_diff3 :: "blob \<Rightarrow> blob \<Rightarrow> blob \<Rightarrow> resolve_error + diff3_outcome"
  me_text_merge :: "conflict_resolution \<Rightarrow> blob \<Rightarrow> blob \<Rightarrow> blob \<Rightarrow> string + merge_result"
  me_attrs :: "(string \<Rightarrow> string option) option"

datatype path_merge_strategy = Diff3 | Union | Ours | Binary

definition path_merge_strategy :: "merge_env \<Rightarrow> path \<Rightarrow> path_merge_strategy" where
  "path_merge_strategy env p =
     (case me_attrs env of
        None \<Rightarrow> Diff3
      | Some merge_driver \<Rightarrow>
          (let rel = map (\<lambda>c. if c = CHR 0x5C then CHR ''/'' else c) (from_utf8_lossy (path_str p));
               driver = merge_driver rel
           in if driver = Some ''union'' then Union
              else if driver = Some ''ours'' then Ours
              else if driver = Some ''binary'' then Binary
              else Diff3))"

section \<open>Small helpers\<close>

definition all_equal :: "blob list \<Rightarrow> bool" where
  "all_equal contents = (case contents of [] \<Rightarrow> True | c # cs \<Rightarrow> list_all (\<lambda>d. d = c) cs)"

definition all_blobs_equal :: "path_entry list \<Rightarrow> bool" where
  "all_blobs_equal entries =
     (case entries of
        [] \<Rightarrow> True
      | e # es \<Rightarrow> (case pe_blob e of None \<Rightarrow> False | Some b \<Rightarrow> list_all (\<lambda>x. pe_blob x = Some b) es))"

definition record_side_of :: "path_entry \<Rightarrow> record_side" where
  "record_side_of e = \<lparr>rs_workspace_id = pe_workspace_id e, rs_kind = pe_kind e, rs_content = pe_content e\<rparr>"

definition conflict_record ::
  "path \<Rightarrow> path_entry list \<Rightarrow> blob option \<Rightarrow> resolve_reason \<Rightarrow> conflict_atom list \<Rightarrow> conflict_record" where
  "conflict_record p entries base reason atoms =
     \<lparr>cr_path = p, cr_base = base, cr_sides = map record_side_of entries, cr_reason = reason, cr_atoms = atoms\<rparr>"

section \<open>Merge drivers\<close>

fun driver_fold ::
  "(blob \<Rightarrow> blob \<Rightarrow> string + merge_result) \<Rightarrow> string \<Rightarrow> blob \<Rightarrow> blob list \<Rightarrow> resolve_error + blob option" where
  "driver_fold text_merge command acc [] = Inr (Some acc)"
| "driver_fold text_merge command acc (theirs # rest) =
     (case text_merge acc theirs of
        Inl e \<Rightarrow> Inl (GitCommand command e None)
      | Inr (MergeClean out) \<Rightarrow> driver_fold text_merge command out rest
      | Inr MergeConflict \<Rightarrow> Inr None)"

definition gitattr_driver_merge ::
  "merge_env \<Rightarrow> blob option \<Rightarrow> path_entry list \<Rightarrow> path_merge_strategy \<Rightarrow> resolve_error + blob option" where
  "gitattr_driver_merge env base entries strategy =
     (let with_content = List.map_filter pe_content entries;
          base_bytes = (case base of None \<Rightarrow> [] | Some b \<Rightarrow> b);
          run = (\<lambda>resolution name.
            driver_fold (me_text_merge env resolution base_bytes) (''merge_text_with_style('' @ name @ '')'')
              (hd with_content) (tl with_content))
      in if length with_content < 2 then Inr None
         else case strategy of
             Union \<Rightarrow> run UnionSides ''Union''
           | Ours \<Rightarrow> run OursSide ''Ours''
           | _ \<Rightarrow> Inr None)"

section \<open>The line merge with its retry\<close>

definition retry_with_shifted_alignment ::
  "merge_env \<Rightarrow> blob \<Rightarrow> blob \<Rightarrow> blob \<Rightarrow> resolve_error + blob option" where
  "retry_with_shifted_alignment env base ours theirs =
     (let normalized_ours = normalize_shifted_blocks base ours;
          normalized_theirs = normalize_shifted_blocks base theirs
      in if normalized_ours = None \<and> normalized_theirs = None then Inr None
         else
           res_bind
             (me_diff3 env base (case normalized_ours of None \<Rightarrow> ours | Some o' \<Rightarrow> o')
                (case normalized_theirs of None \<Rightarrow> theirs | Some t' \<Rightarrow> t'))
             (\<lambda>r. Inr (case r of DClean out \<Rightarrow> Some out | DConflict _ \<Rightarrow> None)))"

definition diff3_or_retry :: "merge_env \<Rightarrow> blob \<Rightarrow> blob \<Rightarrow> blob \<Rightarrow> resolve_error + blob diff3_result" where
  "diff3_or_retry env base ours theirs =
     res_bind (me_diff3 env base ours theirs)
       (\<lambda>r. case r of
          DClean out \<Rightarrow> Inr (Clean out)
        | DConflict _ \<Rightarrow>
            res_bind (retry_with_shifted_alignment env base ours theirs)
              (\<lambda>retried. Inr (case retried of None \<Rightarrow> Diff3Clash | Some out \<Rightarrow> Clean out)))"

section \<open>Who is party to a conflict\<close>

definition probe_folded_participants ::
  "merge_env \<Rightarrow> blob \<Rightarrow> (workspace_id \<times> blob) list \<Rightarrow> blob \<Rightarrow> workspace_id list" where
  "probe_folded_participants env base ours_members trigger =
     (let folded = map fst (filter (\<lambda>(w, content).
            case me_diff3 env base content trigger of Inr (DClean _) \<Rightarrow> False | _ \<Rightarrow> True) ours_members)
      in if folded = [] then map fst ours_members else folded)"

fun recover_fold ::
  "merge_env \<Rightarrow> blob \<Rightarrow> workspace_id list \<Rightarrow> blob \<Rightarrow> (workspace_id \<times> blob) list \<Rightarrow> (workspace_id \<times> blob) list \<Rightarrow>
   conflict_atom list \<times> workspace_id list" where
  "recover_fold env base all_ids merged members [] = ([], all_ids)"
| "recover_fold env base all_ids merged members ((theirs_ws, next_c) # rest) =
     (if merged = next_c then recover_fold env base all_ids merged (members @ [(theirs_ws, next_c)]) rest
      else
        (case me_diff3 env base merged next_c of
           Inr (DClean out) \<Rightarrow> recover_fold env base all_ids out (members @ [(theirs_ws, next_c)]) rest
         | Inr (DConflict marker_output) \<Rightarrow>
             (let folded = probe_folded_participants env base members next_c;
                  ours_label = join_with ''+'' (map ws_str folded)
              in (parse_diff3_atoms marker_output ours_label (ws_str theirs_ws), folded @ [theirs_ws]))
         | Inl _ \<Rightarrow> ([], all_ids)))"

text \<open>The code pairs the contents that are there with the entries at the same index.\<close>

definition recover_diff3_atoms_with_participants ::
  "merge_env \<Rightarrow> path_entry list \<Rightarrow> blob option \<Rightarrow> conflict_atom list \<times> workspace_id list" where
  "recover_diff3_atoms_with_participants env entries base =
     (let ids = map pe_workspace_id entries; variants = List.map_filter pe_content entries
      in case base of
           None \<Rightarrow> ([], ids)
         | Some base_bytes \<Rightarrow>
             (if length variants < 2 then ([], ids)
              else (case zip ids variants of
                      [] \<Rightarrow> ([], ids)
                    | (w, v) # rest \<Rightarrow> recover_fold env base_bytes ids v [(w, v)] rest)))"

section \<open>A shared path\<close>

definition effective_contents :: "path_entry list \<Rightarrow> blob option list" where
  "effective_contents entries =
     (let contents = map pe_content entries
      in if all_blobs_equal entries \<and> 2 \<le> length (filter (\<lambda>c. c \<noteq> None) contents) then
           (let first = find (\<lambda>c. c \<noteq> None) contents
            in map (\<lambda>c. if c \<noteq> None then (case first of None \<Rightarrow> None | Some x \<Rightarrow> x) else None) contents)
         else contents)"

definition record_of_conflict ::
  "merge_env \<Rightarrow> path \<Rightarrow> path_entry list \<Rightarrow> blob option \<Rightarrow> resolve_reason \<Rightarrow> conflict_record" where
  "record_of_conflict env p entries base reason =
     (let base_for_record = (if reason = AddAddDifferent \<or> reason = MissingBase then None else base)
      in if reason = Diff3Conflict then
           (let (atoms, ids) = recover_diff3_atoms_with_participants env entries base
            in conflict_record p (filter (\<lambda>e. pe_workspace_id e \<in> set ids) entries) base_for_record reason atoms)
         else conflict_record p entries base_for_record reason [])"

definition resolve_by_algebra ::
  "merge_env \<Rightarrow> path \<Rightarrow> path_entry list \<Rightarrow> blob option \<Rightarrow> resolve_failure + shared_outcome" where
  "resolve_by_algebra env p entries base =
     (case resolve_entries (map pe_kind entries) (effective_contents entries) base (diff3_or_retry env) of
        None \<Rightarrow> Inl Panicked
      | Some (Inl e) \<Rightarrow> Inl (Failed e)
      | Some (Inr Delete) \<Rightarrow> Inr (Resolved (RDelete p))
      | Some (Inr (Upsert content)) \<Rightarrow> Inr (Resolved (RUpsert p content))
      | Some (Inr (Conflict reason)) \<Rightarrow> Inr (Conflicted (record_of_conflict env p entries base reason)))"

definition resolve_after_driver ::
  "merge_env \<Rightarrow> path \<Rightarrow> path_entry list \<Rightarrow> blob option \<Rightarrow> path_merge_strategy \<Rightarrow> resolve_failure + shared_outcome" where
  "resolve_after_driver env p entries base strategy =
     (if strategy = Binary \<and> \<not> all_blobs_equal entries then
        Inr (Conflicted (conflict_record p entries base Diff3Conflict []))
      else resolve_by_algebra env p entries base)"

definition resolve_shared_path ::
  "merge_env \<Rightarrow> path \<Rightarrow> path_entry list \<Rightarrow> blob option \<Rightarrow> resolve_failure + shared_outcome" where
  "resolve_shared_path env p entries base =
     (let strategy = path_merge_strategy env p
      in if (strategy = Union \<or> strategy = Ours) \<and> \<not> list_ex pe_is_deletion entries then
           (case gitattr_driver_merge env base entries strategy of
              Inl e \<Rightarrow> Inl (Failed e)
            | Inr (Some merged) \<Rightarrow> Inr (Resolved (RUpsert p merged))
            | Inr None \<Rightarrow> resolve_after_driver env p entries base strategy)
         else resolve_after_driver env p entries base strategy)"

section \<open>A shared path, with the AST merge\<close>

datatype ast_merge_result = AstClean blob | AstConflict "conflict_atom list" | AstUnsupported

record 'l ast_env =
  ae_enabled_for :: "path \<Rightarrow> 'l option"
  ae_merge :: "blob \<Rightarrow> (workspace_id \<times> blob) list \<Rightarrow> 'l \<Rightarrow> ast_merge_result"

datatype line_fold = FoldClean blob | FoldClash string workspace_id blob "(workspace_id \<times> blob) list"

text \<open>The fold of line merges, which remembers who was folded in when a merge clashes.\<close>

fun diff3_fold ::
  "merge_env \<Rightarrow> blob \<Rightarrow> blob \<Rightarrow> (workspace_id \<times> blob) list \<Rightarrow> (workspace_id \<times> blob) list \<Rightarrow>
   resolve_error + line_fold" where
  "diff3_fold env base merged members [] = Inr (FoldClean merged)"
| "diff3_fold env base merged members ((w, next_c) # rest) =
     (if merged = next_c then diff3_fold env base merged (members @ [(w, next_c)]) rest
      else
        (case me_diff3 env base merged next_c of
           Inl e \<Rightarrow> Inl e
         | Inr (DClean out) \<Rightarrow> diff3_fold env base out (members @ [(w, next_c)]) rest
         | Inr (DConflict marker_output) \<Rightarrow> Inr (FoldClash marker_output w next_c members)))"

definition ast_participants :: "path_entry list \<Rightarrow> conflict_atom list \<Rightarrow> workspace_id list" where
  "ast_participants entries atoms =
     fold (\<lambda>edit found.
       case workspace_id_new (ae_workspace edit) of
         Inr wid \<Rightarrow> if wid \<in> set (map pe_workspace_id entries) \<and> wid \<notin> set found then found @ [wid] else found
       | Inl _ \<Rightarrow> found)
       (concat (map ca_edits atoms)) []"

definition ast_fallback ::
  "merge_env \<Rightarrow> 'l ast_env \<Rightarrow> path \<Rightarrow> path_entry list \<Rightarrow> (workspace_id \<times> blob) list \<Rightarrow> blob \<Rightarrow> line_fold \<Rightarrow>
   shared_outcome" where
  "ast_fallback env ast p entries variants base_bytes lf =
     (case lf of
        FoldClean merged \<Rightarrow> Resolved (RUpsert p merged)
      | FoldClash marker_output trigger_ws trigger_content members \<Rightarrow>
          (let folded = probe_folded_participants env base_bytes members trigger_content;
               ours_label = join_with ''+'' (map ws_str folded);
               participants = folded @ [trigger_ws];
               conflict = (\<lambda>chosen atoms. Conflicted (conflict_record p
                 (filter (\<lambda>e. pe_workspace_id e \<in> set chosen) entries) (Some base_bytes) Diff3Conflict atoms));
               diff3_conflict = conflict participants (parse_diff3_atoms marker_output ours_label (ws_str trigger_ws))
           in case ae_enabled_for ast p of
                None \<Rightarrow> diff3_conflict
              | Some lang \<Rightarrow>
                  (case ae_merge ast base_bytes variants lang of
                     AstClean ast_merged \<Rightarrow> Resolved (RUpsert p ast_merged)
                   | AstConflict atoms \<Rightarrow>
                       (let named = ast_participants entries atoms
                        in conflict (if 2 \<le> length named then named else participants) atoms)
                   | AstUnsupported \<Rightarrow> diff3_conflict)))"

definition resolve_texts_with_ast ::
  "merge_env \<Rightarrow> 'l ast_env \<Rightarrow> path \<Rightarrow> path_entry list \<Rightarrow> (workspace_id \<times> blob) list \<Rightarrow> blob option \<Rightarrow>
   resolve_failure + shared_outcome" where
  "resolve_texts_with_ast env ast p entries variants base =
     (case base of
        None \<Rightarrow>
          Inr (Conflicted (conflict_record p entries None
            (if list_all (\<lambda>e. pe_kind e = Added) entries then AddAddDifferent else MissingBase) []))
      | Some base_bytes \<Rightarrow>
          (case variants of
             [] \<Rightarrow> Inl Panicked
           | (w, v) # rest \<Rightarrow>
               (case diff3_fold env base_bytes v [(w, v)] rest of
                  Inl e \<Rightarrow> Inl (Failed e)
                | Inr lf \<Rightarrow> Inr (ast_fallback env ast p entries variants base_bytes lf))))"

definition resolve_shared_path_with_ast ::
  "merge_env \<Rightarrow> 'l ast_env \<Rightarrow> path \<Rightarrow> path_entry list \<Rightarrow> blob option \<Rightarrow> resolve_failure + shared_outcome" where
  "resolve_shared_path_with_ast env ast p entries base =
     (if list_all pe_is_deletion entries then Inr (Resolved (RDelete p))
      else if list_ex pe_is_deletion entries \<and> list_ex (\<lambda>e. \<not> pe_is_deletion e) entries then
        Inr (Conflicted (conflict_record p entries base ModifyDeleteConflict []))
      else if list_ex (\<lambda>e. pe_content e = None) entries then
        Inr (Conflicted (conflict_record p entries base MissingContent []))
      else
        (let contents = List.map_filter pe_content entries;
             variants = zip (map pe_workspace_id entries) contents;
             strategy = path_merge_strategy env p
         in if all_blobs_equal entries \<or> all_equal contents then
              (case contents of [] \<Rightarrow> Inl Panicked | c # _ \<Rightarrow> Inr (Resolved (RUpsert p c)))
            else if strategy = Binary then Inr (Conflicted (conflict_record p entries base Diff3Conflict []))
            else if strategy = Union \<or> strategy = Ours then
              (case gitattr_driver_merge env base entries strategy of
                 Inl e \<Rightarrow> Inl (Failed e)
               | Inr (Some merged) \<Rightarrow> Inr (Resolved (RUpsert p merged))
               | Inr None \<Rightarrow> resolve_texts_with_ast env ast p entries variants base)
            else resolve_texts_with_ast env ast p entries variants base))"

section \<open>A whole partition\<close>

definition df_conflict_of :: "df_clash \<Rightarrow> conflict_record" where
  "df_conflict_of c =
     \<lparr>cr_path = df_file_path c, cr_base = None,
      cr_sides = [\<lparr>rs_workspace_id = df_file_ws c, rs_kind = Added, rs_content = None\<rparr>,
                  \<lparr>rs_workspace_id = df_dir_ws c, rs_kind = Added, rs_content = None\<rparr>],
      cr_reason = FileDirectory (ws_str (df_file_ws c)) (df_dir_child_example c),
      cr_atoms = []\<rparr>"

definition emit_df_clash_conflicts :: "df_clash list \<Rightarrow> conflict_record list" where
  "emit_df_clash_conflicts dfs =
     (let by_file = fold (\<lambda>c. bm_or_insert (df_file_path c) c) dfs bm_empty
      in map df_conflict_of (bm_values by_file))"

definition unique_outcome :: "(path, blob) btree \<Rightarrow> path \<times> path_entry \<Rightarrow> shared_outcome" where
  "unique_outcome base_contents = (\<lambda>(p, entry).
     if pe_is_deletion entry then Resolved (RDelete p)
     else case pe_content entry of
         Some content \<Rightarrow> Resolved (RUpsert p content)
       | None \<Rightarrow>
           Conflicted
             \<lparr>cr_path = p, cr_base = bm_get base_contents p,
              cr_sides = [\<lparr>rs_workspace_id = pe_workspace_id entry, rs_kind = pe_kind entry, rs_content = None\<rparr>],
              cr_reason = MissingContent, cr_atoms = []\<rparr>)"

fun push_outcome :: "shared_outcome \<Rightarrow> resolve_result \<Rightarrow> resolve_result" where
  "push_outcome (Resolved c) r = r\<lparr>rr_resolved := rr_resolved r @ [c]\<rparr>"
| "push_outcome (Conflicted c) r = r\<lparr>rr_conflicts := rr_conflicts r @ [c]\<rparr>"

definition sort_result :: "resolve_result \<Rightarrow> resolve_result" where
  "sort_result r =
     \<lparr>rr_resolved = sort_by (\<lambda>a b. cmp_of (change_path a) (change_path b)) (rr_resolved r),
      rr_conflicts = sort_by (\<lambda>a b. cmp_of (cr_path a) (cr_path b)) (rr_conflicts r)\<rparr>"

text \<open>Both pipelines run the same loops; they differ in what resolves a shared path.\<close>

definition resolve_partition_by ::
  "(path \<Rightarrow> path_entry list \<Rightarrow> blob option \<Rightarrow> resolve_failure + shared_outcome) \<Rightarrow>
   partition_result \<Rightarrow> (path, blob) btree \<Rightarrow> resolve_failure + resolve_result" where
  "resolve_partition_by resolve_shared pt base_contents =
     (let skip = df_clash_paths pt;
          start = \<lparr>rr_resolved = [],
                   rr_conflicts = (if pt_df_clashes pt \<noteq> [] then emit_df_clash_conflicts (pt_df_clashes pt) else [])\<rparr>;
          after_unique = fold (\<lambda>x r. if fst x \<in> skip then r else push_outcome (unique_outcome base_contents x) r)
            (pt_unique pt) start
      in res_bind
           (res_fold (\<lambda>x r.
              if fst x \<in> skip then Inr r
              else res_bind (resolve_shared (fst x) (snd x) (bm_get base_contents (fst x)))
                     (\<lambda>outcome. Inr (push_outcome outcome r)))
              (pt_shared pt) after_unique)
           (\<lambda>r. Inr (sort_result r)))"

definition resolve_partition_with_attrs ::
  "merge_env \<Rightarrow> partition_result \<Rightarrow> (path, blob) btree \<Rightarrow> resolve_failure + resolve_result" where
  "resolve_partition_with_attrs env = resolve_partition_by (resolve_shared_path env)"

definition resolve_partition ::
  "merge_env \<Rightarrow> partition_result \<Rightarrow> (path, blob) btree \<Rightarrow> resolve_failure + resolve_result" where
  "resolve_partition env = resolve_partition_with_attrs (env\<lparr>me_attrs := None\<rparr>)"

definition resolve_partition_with_ast_and_attrs ::
  "merge_env \<Rightarrow> 'l ast_env \<Rightarrow> partition_result \<Rightarrow> (path, blob) btree \<Rightarrow> resolve_failure + resolve_result" where
  "resolve_partition_with_ast_and_attrs env ast = resolve_partition_by (resolve_shared_path_with_ast env ast)"

end
