(* ===== verification/Resolve_Facts.thy ===== *)
theory Resolve_Facts
  imports Resolve_Partition
begin

text \<open>
  The resolve step accounts for every path: an interface for what resolves a shared path, the facts
  about a whole partition that follow from it, and its interpretations for the line-merge and the AST
  pipeline; the two pipelines compared.
\<close>

section \<open>The interface of a shared-path resolver\<close>

fun outcome_path :: "shared_outcome \<Rightarrow> path" where
  "outcome_path (Resolved c) = change_path c"
| "outcome_path (Conflicted c) = cr_path c"

definition outcomes :: "resolve_result \<Rightarrow> shared_outcome list" where
  "outcomes r = map Resolved (rr_resolved r) @ map Conflicted (rr_conflicts r)"

lemma mset_outcomes_push: "mset (outcomes (push_outcome x r)) = add_mset x (mset (outcomes r))"
  by (cases x) (simp_all add: outcomes_def)

lemma mset_outcomes_sort: "mset (outcomes (sort_result r)) = mset (outcomes r)"
  by (simp add: outcomes_def sort_result_def)

lemma map_outcome_path: "map outcome_path (outcomes r) = map change_path (rr_resolved r) @ map cr_path (rr_conflicts r)"
  by (simp add: outcomes_def)

lemma sort_result_sorted:
  "sorted (map change_path (rr_resolved (sort_result r)))" "sorted (map cr_path (rr_conflicts (sort_result r)))"
  by (simp_all add: sort_result_def sort_by_key)

lemma mset_outcomes_fold_unique:
  "mset (outcomes (fold (\<lambda>x r. if P x then r else push_outcome (f x) r) xs r)) =
   mset (outcomes r) + mset (map f (filter (\<lambda>x. \<not> P x) xs))"
  by (induction xs arbitrary: r) (simp_all add: mset_outcomes_push)

section \<open>Directory/file conflicts\<close>

lemma cr_path_df_conflict [simp]: "cr_path (df_conflict_of c) = df_file_path c"
  by (simp add: df_conflict_of_def)

lemma emit_df_paths: "map cr_path (emit_df_clash_conflicts dfs) = sorted_list_of_set (df_file_path ` set dfs)"
proof -
  let ?m = "fold (\<lambda>c. bm_or_insert (df_file_path c) c) dfs bm_empty"
  have get: "bm_get ?m k = find (\<lambda>c. df_file_path c = k) dfs" for k
    by (simp add: bm_get_fold_or_insert)
  then have key: "bm_get ?m k = Some v \<Longrightarrow> df_file_path v = k" for k v
    by (auto dest: find_SomeD)
  have "dom (bm_get ?m) = df_file_path ` set dfs"
    unfolding dom_def get by (auto simp: find_None_iff)
  then have keys: "set (bm_keys ?m) = df_file_path ` set dfs" by (simp add: set_bm_keys)
  have "map cr_path (emit_df_clash_conflicts dfs) = map (\<lambda>x. df_file_path (snd x)) (bm_entries ?m)"
    by (simp add: emit_df_clash_conflicts_def bm_values_def comp_def)
  also have "\<dots> = bm_keys ?m"
    unfolding bm_keys_def using key bm.in_entries [of _ _ ?m] by (intro map_cong) auto
  also have "\<dots> = sorted_list_of_set (set (bm_keys ?m))"
    using bm_keys_increasing [of ?m]
    by (simp add: strict_sorted_iff sorted_list_of_set.idem_if_sorted_distinct)
  finally show ?thesis by (simp only: keys)
qed

section \<open>The loop over shared paths\<close>

lemma shared_loop_ok:
  "res_fold (\<lambda>x r. if P x then Inr r else res_bind (g x) (\<lambda>out. Inr (push_outcome out r))) xs r = Inr r' \<Longrightarrow>
   \<exists>outs. list_all2 (\<lambda>x out. g x = Inr out) (filter (\<lambda>x. \<not> P x) xs) outs
     \<and> mset (outcomes r') = mset (outcomes r) + mset outs"
proof (induction xs arbitrary: r)
  case (Cons x xs)
  show ?case
  proof (cases "P x")
    case True
    with Cons show ?thesis by simp
  next
    case False
    with Cons.prems obtain out where out: "g x = Inr out" by (auto simp: result_simps)
    with False Cons.prems have "res_fold (\<lambda>x r. if P x then Inr r else res_bind (g x) (\<lambda>out. Inr (push_outcome out r)))
        xs (push_outcome out r) = Inr r'" by simp
    from Cons.IH [OF this] obtain outs where
      "list_all2 (\<lambda>x out. g x = Inr out) (filter (\<lambda>x. \<not> P x) xs) outs"
      "mset (outcomes r') = mset (outcomes (push_outcome out r)) + mset outs" by blast
    with out False show ?thesis by (intro exI [of _ "out # outs"]) (simp add: mset_outcomes_push)
  qed
qed simp

lemma shared_loop_err:
  "res_fold (\<lambda>x r. if P x then Inr r else res_bind (g x) (\<lambda>out. Inr (push_outcome out r))) xs r = Inl e \<Longrightarrow>
   \<exists>x \<in> set xs. \<not> P x \<and> g x = Inl e"
proof (induction xs arbitrary: r)
  case (Cons x xs)
  then show ?case by (cases "P x"; cases "g x") auto
qed simp

text \<open>What the resolve step does with each path, apart from the order of its two lists.\<close>

lemma resolve_partition_by_outcomes:
  assumes "resolve_partition_by rs pt base = Inr r"
  shows "\<exists>outs. list_all2 (\<lambda>x out. rs (fst x) (snd x) (bm_get base (fst x)) = Inr out)
        (filter (\<lambda>x. fst x \<notin> df_clash_paths pt) (pt_shared pt)) outs
      \<and> mset (outcomes r) = mset (map Conflicted (emit_df_clash_conflicts (pt_df_clashes pt)))
          + mset (map (unique_outcome base) (filter (\<lambda>x. fst x \<notin> df_clash_paths pt) (pt_unique pt)))
          + mset outs"
    and "sorted (map change_path (rr_resolved r))" "sorted (map cr_path (rr_conflicts r))"
proof -
  have emit: "(if pt_df_clashes pt \<noteq> [] then emit_df_clash_conflicts (pt_df_clashes pt) else []) =
      emit_df_clash_conflicts (pt_df_clashes pt)"
    by (simp add: emit_df_clash_conflicts_def bm_values_def)
  let ?start = "\<lparr>rr_resolved = [], rr_conflicts = emit_df_clash_conflicts (pt_df_clashes pt)\<rparr>"
  let ?after = "fold (\<lambda>x r. if fst x \<in> df_clash_paths pt then r else push_outcome (unique_outcome base x) r)
      (pt_unique pt) ?start"
  obtain r0 where r0: "res_fold (\<lambda>x r. if fst x \<in> df_clash_paths pt then Inr r
        else res_bind (rs (fst x) (snd x) (bm_get base (fst x))) (\<lambda>outcome. Inr (push_outcome outcome r)))
      (pt_shared pt) ?after = Inr r0" and r: "r = sort_result r0"
    using assms unfolding resolve_partition_by_def Let_def emit by (auto simp: result_simps)
  show "sorted (map change_path (rr_resolved r))" "sorted (map cr_path (rr_conflicts r))"
    unfolding r by (rule sort_result_sorted)+
  from shared_loop_ok [OF r0] obtain outs where
    outs: "list_all2 (\<lambda>x out. rs (fst x) (snd x) (bm_get base (fst x)) = Inr out)
        (filter (\<lambda>x. fst x \<notin> df_clash_paths pt) (pt_shared pt)) outs"
      "mset (outcomes r0) = mset (outcomes ?after) + mset outs" by blast
  moreover have "mset (outcomes ?start) = mset (map Conflicted (emit_df_clash_conflicts (pt_df_clashes pt)))"
    by (simp add: outcomes_def)
  ultimately show "\<exists>outs. list_all2 (\<lambda>x out. rs (fst x) (snd x) (bm_get base (fst x)) = Inr out)
        (filter (\<lambda>x. fst x \<notin> df_clash_paths pt) (pt_shared pt)) outs
      \<and> mset (outcomes r) = mset (map Conflicted (emit_df_clash_conflicts (pt_df_clashes pt)))
          + mset (map (unique_outcome base) (filter (\<lambda>x. fst x \<notin> df_clash_paths pt) (pt_unique pt)))
          + mset outs"
    by (intro exI [of _ outs]) (simp only: r mset_outcomes_sort mset_outcomes_fold_unique simp_thms)
qed

lemma unique_in_outcomes:
  assumes "resolve_partition_by rs pt base = Inr r" "x \<in> set (pt_unique pt)" "fst x \<notin> df_clash_paths pt"
  shows "unique_outcome base x \<in> set (outcomes r)"
proof -
  obtain outs where "mset (outcomes r) = mset (map Conflicted (emit_df_clash_conflicts (pt_df_clashes pt)))
      + mset (map (unique_outcome base) (filter (\<lambda>x. fst x \<notin> df_clash_paths pt) (pt_unique pt))) + mset outs"
    using resolve_partition_by_outcomes(1) [OF assms(1)] by blast
  from arg_cong [OF this, of set_mset] show ?thesis using assms(2,3) by auto
qed

lemma outcome_path_unique [simp]: "outcome_path (unique_outcome base x) = fst x"
  by (cases x) (auto simp: unique_outcome_def split: option.splits)

locale shared_resolver =
  fixes resolve_shared :: "path \<Rightarrow> path_entry list \<Rightarrow> blob option \<Rightarrow> resolve_failure + shared_outcome"
  assumes no_panic: "resolve_shared p entries base \<noteq> Inl Panicked"
    and same_path: "resolve_shared p entries base = Inr out \<Longrightarrow> outcome_path out = p"
begin

lemma partition_no_panic: "resolve_partition_by resolve_shared pt base \<noteq> Inl Panicked"
proof
  assume "resolve_partition_by resolve_shared pt base = Inl Panicked"
  then obtain x where "resolve_shared (fst x) (snd x) (bm_get base (fst x)) = Inl Panicked"
    unfolding resolve_partition_by_def Let_def by (auto simp: result_simps dest!: shared_loop_err)
  then show False using no_panic by simp
qed

lemma partition_paths:
  assumes "resolve_partition_by resolve_shared pt base = Inr r"
  shows "mset (map change_path (rr_resolved r) @ map cr_path (rr_conflicts r)) =
     mset_set (df_file_path ` set (pt_df_clashes pt))
     + mset (filter (\<lambda>p. p \<notin> df_clash_paths pt) (map fst (pt_unique pt) @ map fst (pt_shared pt)))"
proof -
  obtain outs where outs: "list_all2 (\<lambda>x out. resolve_shared (fst x) (snd x) (bm_get base (fst x)) = Inr out)
        (filter (\<lambda>x. fst x \<notin> df_clash_paths pt) (pt_shared pt)) outs"
    and mset: "mset (outcomes r) = mset (map Conflicted (emit_df_clash_conflicts (pt_df_clashes pt)))
          + mset (map (unique_outcome base) (filter (\<lambda>x. fst x \<notin> df_clash_paths pt) (pt_unique pt)))
          + mset outs"
    using resolve_partition_by_outcomes(1) [OF assms] by blast
  have "list_all2 (\<lambda>x out. outcome_path out = fst x) (filter (\<lambda>x. fst x \<notin> df_clash_paths pt) (pt_shared pt)) outs"
    using outs by (rule list_all2_mono) (rule same_path)
  then have paths: "map outcome_path outs = map fst (filter (\<lambda>x. fst x \<notin> df_clash_paths pt) (pt_shared pt))"
    by (simp add: list_all2_conv_all_nth list_eq_iff_nth_eq)
  have "mset (map outcome_path (outcomes r)) =
      image_mset outcome_path (mset (map Conflicted (emit_df_clash_conflicts (pt_df_clashes pt)))
        + mset (map (unique_outcome base) (filter (\<lambda>x. fst x \<notin> df_clash_paths pt) (pt_unique pt)))
        + mset outs)"
    by (simp only: mset_map mset)
  also have "\<dots> = mset (map cr_path (emit_df_clash_conflicts (pt_df_clashes pt)))
      + mset (map fst (filter (\<lambda>x. fst x \<notin> df_clash_paths pt) (pt_unique pt)))
      + mset (map outcome_path outs)"
    by (simp add: image_mset.compositionality comp_def)
  finally show ?thesis
    unfolding map_outcome_path paths emit_df_paths
    by (simp add: filter_map comp_def flip: sorted_list_of_mset_set)
qed

end

section \<open>The line-merge pipeline\<close>

lemma cr_path_conflict_record [simp]: "cr_path (conflict_record p es b reason atoms) = p"
  by (simp add: conflict_record_def)

lemma cr_path_record_of_conflict [simp]: "cr_path (record_of_conflict env p es b reason) = p"
  by (simp add: record_of_conflict_def split: prod.splits)

lemma length_effective_contents [simp]: "length (effective_contents es) = length es"
  by (simp add: effective_contents_def Let_def)

lemma resolve_by_algebra_eq:
  "resolve_by_algebra env p es base =
     (case decision (map pe_kind es) (effective_contents es) base (diff3_or_retry env) of
        Inl e \<Rightarrow> Inl (Failed e)
      | Inr Delete \<Rightarrow> Inr (Resolved (RDelete p))
      | Inr (Upsert content) \<Rightarrow> Inr (Resolved (RUpsert p content))
      | Inr (Conflict reason) \<Rightarrow> Inr (Conflicted (record_of_conflict env p es base reason)))"
  by (simp add: resolve_by_algebra_def resolve_entries_decision split: sum.splits merge_outcome.splits)

lemma resolve_by_algebra_path:
  "resolve_by_algebra env p es base \<noteq> Inl Panicked"
  "resolve_by_algebra env p es base = Inr out \<Longrightarrow> outcome_path out = p"
  by (auto simp: resolve_by_algebra_eq split: sum.splits merge_outcome.splits)

lemma resolve_after_driver_path:
  "resolve_after_driver env p es base strategy \<noteq> Inl Panicked"
  "resolve_after_driver env p es base strategy = Inr out \<Longrightarrow> outcome_path out = p"
  using resolve_by_algebra_path by (auto simp: resolve_after_driver_def split: if_splits)

interpretation line_merge: shared_resolver "resolve_shared_path env" for env
  by unfold_locales
    (auto simp: resolve_shared_path_def Let_def resolve_after_driver_path
      split: if_splits sum.splits option.splits dest: resolve_after_driver_path(2))

section \<open>The AST pipeline\<close>


lemma length_map_filter_all_Some:
  "\<not> list_ex (\<lambda>e. f e = None) es \<Longrightarrow> length (List.map_filter f es) = length es"
  by (induction es) (auto simp: map_filter_simps)

lemma ast_fallback_path: "outcome_path (ast_fallback env ast p es vs b lf) = p"
  by (auto simp: ast_fallback_def Let_def split: line_fold.splits option.splits ast_merge_result.splits)

lemma resolve_texts_path:
  "vs \<noteq> [] \<Longrightarrow> resolve_texts_with_ast env ast p es vs base \<noteq> Inl Panicked"
  "resolve_texts_with_ast env ast p es vs base = Inr out \<Longrightarrow> outcome_path out = p"
  by (auto simp: resolve_texts_with_ast_def ast_fallback_path split: option.splits list.splits sum.splits)

interpretation ast_merge: shared_resolver "resolve_shared_path_with_ast env ast" for env ast
proof
  fix p es base out
  show "resolve_shared_path_with_ast env ast p es base \<noteq> Inl Panicked"
  proof (cases "list_all pe_is_deletion es \<or> list_ex (\<lambda>e. pe_content e = None) es")
    case True
    then show ?thesis by (auto simp: resolve_shared_path_with_ast_def)
  next
    case False
    then have "es \<noteq> []" "length (List.map_filter pe_content es) = length es"
      by (auto simp: length_map_filter_all_Some)
    then have "List.map_filter pe_content es \<noteq> []"
      "zip (map pe_workspace_id es) (List.map_filter pe_content es) \<noteq> []"
      by (cases es; cases "List.map_filter pe_content es"; simp)+
    then show ?thesis
      by (auto simp: resolve_shared_path_with_ast_def Let_def resolve_texts_path(1)
          split: list.splits sum.splits option.splits)
  qed
  show "resolve_shared_path_with_ast env ast p es base = Inr out \<Longrightarrow> outcome_path out = p"
    by (auto simp: resolve_shared_path_with_ast_def Let_def
        split: if_splits list.splits sum.splits option.splits dest: resolve_texts_path(2))
qed

section \<open>The sides of a conflict\<close>

lemma length_filter_ids:
  assumes "distinct (map f es)" "ids \<subseteq> f ` set es"
  shows "length (filter (\<lambda>e. f e \<in> ids) es) = card ids"
proof -
  have "length (filter (\<lambda>e. f e \<in> ids) es) = length (filter (\<lambda>x. x \<in> ids) (map f es))"
    by (simp add: filter_map comp_def)
  also have "\<dots> = card (set (filter (\<lambda>x. x \<in> ids) (map f es)))"
    using assms(1) by (intro distinct_card [symmetric] distinct_filter)
  also have "set (filter (\<lambda>x. x \<in> ids) (map f es)) = ids" using assms(2) by auto
  finally show ?thesis .
qed

lemma probe_subset: "set (probe_folded_participants env b members c) \<subseteq> fst ` set members"
  by (auto simp: probe_folded_participants_def Let_def)

lemma probe_nonempty: "members \<noteq> [] \<Longrightarrow> probe_folded_participants env b members c \<noteq> []"
  by (auto simp: probe_folded_participants_def Let_def)

lemma probe_and_trigger:
  assumes "members \<noteq> []" "w \<notin> fst ` set members"
  shows "2 \<le> card (set (probe_folded_participants env b members c @ [w]))"
proof -
  let ?f = "probe_folded_participants env b members c"
  have "w \<notin> set ?f" using probe_subset assms(2) by blast
  moreover have "0 < card (set ?f)" using probe_nonempty [OF assms(1)] by (simp add: card_gt_0_iff)
  ultimately show ?thesis by simp
qed

lemma recover_fold_ids:
  assumes "members \<noteq> []" "distinct (map fst (members @ rest))"
    and "recover_fold env b all_ids m members rest = (atoms, ids)"
  shows "ids = all_ids \<or> (2 \<le> card (set ids) \<and> set ids \<subseteq> fst ` set (members @ rest))"
  using assms
proof (induction rest arbitrary: m members)
  case (Cons x rest)
  obtain w c where x: "x = (w, c)" by force
  have next_members: "members @ [(w, c)] \<noteq> []" "distinct (map fst ((members @ [(w, c)]) @ rest))"
    using Cons.prems(2) by (simp_all add: x)
  note IH = Cons.IH [OF next_members]
  have w: "w \<notin> fst ` set members" using Cons.prems(2) by (auto simp: x)
  show ?case
  proof (cases "m = c")
    case True
    with Cons.prems(3) IH [of m] show ?thesis by (simp add: x)
  next
    case False
    show ?thesis
    proof (cases "me_diff3 env b m c")
      case (Inr d)
      show ?thesis
      proof (cases d)
        case (DClean out)
        with False Inr Cons.prems(3) IH [of out] show ?thesis by (simp add: x)
      next
        case (DConflict mk)
        with False Inr Cons.prems(3) have "ids = probe_folded_participants env b members c @ [w]"
          by (simp add: x Let_def)
        with probe_and_trigger [OF Cons.prems(1) w] probe_subset [of env b members c] show ?thesis
          by (auto simp: x)
      qed
    qed (use False Cons.prems(3) in \<open>simp add: x\<close>)
  qed
qed simp

lemma zip_ids_subset: "fst ` set (zip ids xs) \<subseteq> set ids"
  by (auto dest: set_zip_leftD)

lemma distinct_zip_ids: "distinct ids \<Longrightarrow> distinct (map fst (zip ids xs))"
  by (simp add: map_fst_zip_take)

lemma recover_ids:
  assumes "distinct (map pe_workspace_id es)" "2 \<le> length es"
    and "recover_diff3_atoms_with_participants env es base = (atoms, ids)"
  shows "2 \<le> card (set ids) \<and> set ids \<subseteq> pe_workspace_id ` set es"
proof -
  let ?ids = "map pe_workspace_id es"
  have all: "2 \<le> card (set ?ids)" using assms(1,2) by (simp only: distinct_card) simp
  show ?thesis
  proof (cases "ids = ?ids")
    case False
    then obtain w v rest b where z: "zip ?ids (List.map_filter pe_content es) = (w, v) # rest"
      and run: "recover_fold env b ?ids v [(w, v)] rest = (atoms, ids)"
      using assms(3)
      by (auto simp: recover_diff3_atoms_with_participants_def Let_def split: option.splits if_splits list.splits)
    have "distinct (map fst ([(w, v)] @ rest))" "fst ` set ([(w, v)] @ rest) \<subseteq> set ?ids"
      using distinct_zip_ids [OF assms(1)] zip_ids_subset [of ?ids] z by (metis append_Cons append_Nil)+
    moreover have "set ids \<subseteq> fst ` set ([(w, v)] @ rest)" "2 \<le> card (set ids)"
      using recover_fold_ids [OF _ calculation(1) run] False by simp_all
    ultimately show ?thesis by (simp only: set_map) blast
  qed (use all in auto)
qed

lemma record_of_conflict_sides:
  assumes "distinct (map pe_workspace_id es)" "2 \<le> length es"
  shows "subseq (cr_sides (record_of_conflict env p es base reason)) (map record_side_of es)
    \<and> 2 \<le> length (cr_sides (record_of_conflict env p es base reason))"
proof (cases "reason = Diff3Conflict")
  case True
  obtain atoms ids where r: "recover_diff3_atoms_with_participants env es base = (atoms, ids)" by force
  note ids = recover_ids [OF assms r]
  then have "length (filter (\<lambda>e. pe_workspace_id e \<in> set ids) es) = card (set ids)"
    using length_filter_ids [OF assms(1)] by blast
  with ids show ?thesis
    by (simp add: record_of_conflict_def True r conflict_record_def subseq_map)
next
  case False
  then show ?thesis using assms(2) by (simp add: record_of_conflict_def conflict_record_def)
qed

lemma ast_participants_ids:
  "distinct (ast_participants es atoms)" "set (ast_participants es atoms) \<subseteq> pe_workspace_id ` set es"
proof -
  have "distinct (ast_participants es atoms) \<and> set (ast_participants es atoms) \<subseteq> pe_workspace_id ` set es"
    unfolding ast_participants_def
    by (rule fold_invariant [where Q = "\<lambda>_. True"]) (auto split: sum.splits)
  then show "distinct (ast_participants es atoms)" "set (ast_participants es atoms) \<subseteq> pe_workspace_id ` set es"
    by blast+
qed

lemma diff3_fold_clash:
  assumes "members \<noteq> []" "distinct (map fst (members @ rest))"
    and "diff3_fold env b m members rest = Inr (FoldClash mk w c members')"
  shows "members' \<noteq> [] \<and> w \<notin> fst ` set members' \<and> insert w (fst ` set members') \<subseteq> fst ` set (members @ rest)"
  using assms
proof (induction rest arbitrary: m members)
  case (Cons x rest)
  obtain w' c' where x: "x = (w', c')" by force
  have next_members: "members @ [(w', c')] \<noteq> []" "distinct (map fst ((members @ [(w', c')]) @ rest))"
    using Cons.prems(2) by (simp_all add: x)
  note IH = Cons.IH [OF next_members]
  have w: "w' \<notin> fst ` set members" using Cons.prems(2) by (auto simp: x)
  show ?case
    using Cons.prems(1,3) w IH [of m] IH
    by (auto simp: x split: if_splits sum.splits diff3_outcome.splits)
qed simp

definition sides_ok :: "path_entry list \<Rightarrow> shared_outcome \<Rightarrow> bool" where
  "sides_ok es out \<longleftrightarrow> (case out of
     Resolved _ \<Rightarrow> True
   | Conflicted c \<Rightarrow> subseq (cr_sides c) (map record_side_of es) \<and> 2 \<le> length (cr_sides c))"

lemma sides_ok_all: "2 \<le> length es \<Longrightarrow> sides_ok es (Conflicted (conflict_record p es b r as'))"
  by (simp add: sides_ok_def conflict_record_def)

lemma sides_ok_chosen:
  assumes "distinct (map pe_workspace_id es)" "2 \<le> card (set ids)" "set ids \<subseteq> pe_workspace_id ` set es"
  shows "sides_ok es (Conflicted (conflict_record p (filter (\<lambda>e. pe_workspace_id e \<in> set ids) es) b r atoms))"
  using length_filter_ids [OF assms(1,3)] assms(2)
  by (simp add: sides_ok_def conflict_record_def subseq_map)

lemma ast_fallback_sides:
  assumes "distinct (map pe_workspace_id es)"
    and "\<And>mk w c ms. lf = FoldClash mk w c ms \<Longrightarrow>
      ms \<noteq> [] \<and> w \<notin> fst ` set ms \<and> insert w (fst ` set ms) \<subseteq> pe_workspace_id ` set es"
  shows "sides_ok es (ast_fallback env ast p es vs b lf)"
proof (cases lf)
  case (FoldClean m)
  then show ?thesis by (simp add: ast_fallback_def sides_ok_def)
next
  case (FoldClash mk w c ms)
  note ms = assms(2) [OF this]
  let ?ids = "probe_folded_participants env b ms c @ [w]"
  have "2 \<le> card (set ?ids)" "set ?ids \<subseteq> pe_workspace_id ` set es"
    using probe_and_trigger [of ms w env b c] probe_subset [of env b ms c] ms by auto
  note chosen = sides_ok_chosen [OF assms(1) this]
  have named: "sides_ok es (Conflicted (conflict_record p
      (filter (\<lambda>e. pe_workspace_id e \<in> set (ast_participants es atoms)) es) (Some b) Diff3Conflict atoms))"
    if "2 \<le> length (ast_participants es atoms)" for atoms
    using sides_ok_chosen [OF assms(1) _ ast_participants_ids(2)] that distinct_card [OF ast_participants_ids(1)]
    by metis
  show ?thesis
    using chosen named
    by (auto simp: ast_fallback_def Let_def FoldClash sides_ok_def split: option.splits ast_merge_result.splits)
qed

section \<open>The two pipelines compared\<close>







section \<open>Properties\<close>

lemma clash_conflicts:
  assumes "resolve_partition_by rs pt base = Inr r" "c \<in> set (pt_df_clashes pt)"
  shows "df_file_path c \<in> cr_path ` set (rr_conflicts r)"
proof -
  obtain outs where "mset (outcomes r) = mset (map Conflicted (emit_df_clash_conflicts (pt_df_clashes pt)))
      + mset (map (unique_outcome base) (filter (\<lambda>x. fst x \<notin> df_clash_paths pt) (pt_unique pt))) + mset outs"
    using resolve_partition_by_outcomes(1) [OF assms(1)] by blast
  from arg_cong [OF this, of set_mset]
  have "Conflicted ` set (emit_df_clash_conflicts (pt_df_clashes pt)) \<subseteq> set (outcomes r)" by auto
  then have "set (emit_df_clash_conflicts (pt_df_clashes pt)) \<subseteq> set (rr_conflicts r)" by (auto simp: outcomes_def)
  moreover have "cr_path ` set (emit_df_clash_conflicts (pt_df_clashes pt)) = df_file_path ` set (pt_df_clashes pt)"
    using arg_cong [OF emit_df_paths, of set] by simp
  ultimately show ?thesis using assms(2) by blast
qed

lemma partition_accounted:
  assumes "pipeline = resolve_partition_with_attrs env \<or> pipeline = resolve_partition_with_ast_and_attrs env ast"
  shows "case pipeline pt base of
      Inl f \<Rightarrow> f \<noteq> Panicked
    | Inr r \<Rightarrow>
        mset (map change_path (rr_resolved r) @ map cr_path (rr_conflicts r)) =
          mset_set (df_file_path ` set (pt_df_clashes pt))
          + mset (filter (\<lambda>p. p \<notin> df_clash_paths pt) (map fst (pt_unique pt) @ map fst (pt_shared pt)))
        \<and> sorted (map change_path (rr_resolved r)) \<and> sorted (map cr_path (rr_conflicts r))
        \<and> (\<forall>c \<in> set (pt_df_clashes pt). df_file_path c \<in> cr_path ` set (rr_conflicts r))
        \<and> (\<forall>p \<in> df_clash_paths pt - df_file_path ` set (pt_df_clashes pt).
              p \<notin> change_path ` set (rr_resolved r) \<union> cr_path ` set (rr_conflicts r))
        \<and> (\<forall>(p, e) \<in> set (pt_unique pt). \<forall>content.
              p \<notin> df_clash_paths pt \<and> \<not> pe_is_deletion e \<and> pe_content e = Some content \<longrightarrow>
              RUpsert p content \<in> set (rr_resolved r))"
proof -
  obtain rs where rs: "pipeline = resolve_partition_by rs" "shared_resolver rs"
    using assms line_merge.shared_resolver_axioms ast_merge.shared_resolver_axioms
    by (auto simp: resolve_partition_with_attrs_def resolve_partition_with_ast_and_attrs_def)
  show ?thesis
  proof (cases "pipeline pt base")
    case (Inl f)
    then show ?thesis using shared_resolver.partition_no_panic [OF rs(2), of pt base] by (auto simp: rs(1))
  next
    case (Inr r)
    then have run: "resolve_partition_by rs pt base = Inr r" by (simp add: rs(1))
    have "RUpsert p content \<in> set (rr_resolved r)"
      if "(p, e) \<in> set (pt_unique pt)" "p \<notin> df_clash_paths pt" "\<not> pe_is_deletion e" "pe_content e = Some content"
      for p e content
      using unique_in_outcomes [OF run that(1)] that by (auto simp: unique_outcome_def outcomes_def)
    then have u: "\<forall>(p, e) \<in> set (pt_unique pt). \<forall>content.
        p \<notin> df_clash_paths pt \<and> \<not> pe_is_deletion e \<and> pe_content e = Some content \<longrightarrow> RUpsert p content \<in> set (rr_resolved r)"
      by blast
    have "set (map change_path (rr_resolved r) @ map cr_path (rr_conflicts r)) =
        df_file_path ` set (pt_df_clashes pt) \<union> set (filter (\<lambda>p. p \<notin> df_clash_paths pt) (map fst (pt_unique pt) @ map fst (pt_shared pt)))"
      using arg_cong [OF shared_resolver.partition_paths [OF rs(2) run], of set_mset] by simp
    then have n: "\<forall>p \<in> df_clash_paths pt - df_file_path ` set (pt_df_clashes pt).
        p \<notin> change_path ` set (rr_resolved r) \<union> cr_path ` set (rr_conflicts r)"
      by auto
    show ?thesis unfolding Inr sum.case
      using shared_resolver.partition_paths [OF rs(2) run] resolve_partition_by_outcomes(2,3) [OF run] clash_conflicts [OF run] n u
      by (intro conjI) blast+
  qed
qed

text \<open>C27. Either pipeline accounts for the paths of the partition: it does not panic, and if git does not fail either,
  the two result lists, both in path order, hold one conflict for every file path of a directory/file clash and one
  outcome for every path of the partition that is not part of a clash, and nothing else. A path on the directory side
  of a clash, unless it is the file path of another, is in neither list. A path that one workspace changed comes out
  with that workspace's content.\<close>

theorem resolve_partition_accounts:
  assumes "pipeline = resolve_partition_with_attrs env \<or> pipeline = resolve_partition_with_ast_and_attrs env ast"
  shows "case pipeline pt base of
      Inl f \<Rightarrow> f \<noteq> Panicked
    | Inr r \<Rightarrow>
        mset (map change_path (rr_resolved r) @ map cr_path (rr_conflicts r)) =
          mset_set (df_file_path ` set (pt_df_clashes pt))
          + mset (filter (\<lambda>p. p \<notin> df_clash_paths pt) (map fst (pt_unique pt) @ map fst (pt_shared pt)))
        \<and> sorted (map change_path (rr_resolved r)) \<and> sorted (map cr_path (rr_conflicts r))
        \<and> (\<forall>c \<in> set (pt_df_clashes pt). df_file_path c \<in> cr_path ` set (rr_conflicts r))
        \<and> (\<forall>p \<in> df_clash_paths pt - df_file_path ` set (pt_df_clashes pt).
              p \<notin> change_path ` set (rr_resolved r) \<union> cr_path ` set (rr_conflicts r))
        \<and> (\<forall>(p, e) \<in> set (pt_unique pt). \<forall>content.
              p \<notin> df_clash_paths pt \<and> \<not> pe_is_deletion e \<and> pe_content e = Some content \<longrightarrow>
              RUpsert p content \<in> set (rr_resolved r))"
  by (rule partition_accounted [OF assms])

text \<open>C28. Whoever conflicts is named: when several workspaces changed a path and its resolution is a
  conflict, in either pipeline, the sides of the record are changes of these workspaces, unaltered and
  in their order, and there are at least two of them.\<close>

theorem conflict_names_two_sides:
  assumes "distinct (map pe_workspace_id es)" "2 \<le> length es"
    and "resolve_shared_path env p es base = Inr (Conflicted c)
      \<or> resolve_shared_path_with_ast env ast p es base = Inr (Conflicted c)"
  shows "cr_path c = p \<and> subseq (cr_sides c) (map record_side_of es) \<and> 2 \<le> length (cr_sides c)"
proof -
  have algebra: "sides_ok es out" if "resolve_by_algebra env p es base = Inr out" for out
    using that record_of_conflict_sides [OF assms(1,2), of env p base]
    by (auto simp: resolve_by_algebra_eq sides_ok_def split: sum.splits merge_outcome.splits)
  have line: "sides_ok es out" if "resolve_shared_path env p es base = Inr out" for out
    using that algebra sides_ok_all [OF assms(2)]
    by (auto simp: resolve_shared_path_def resolve_after_driver_def Let_def sides_ok_def
        split: if_splits sum.splits option.splits)
  have texts: "sides_ok es out"
    if run: "resolve_texts_with_ast env ast p es (zip (map pe_workspace_id es) vs) base = Inr out" for vs out
  proof (cases base)
    case (Some b)
    obtain w v rest lf where z: "zip (map pe_workspace_id es) vs = (w, v) # rest"
      and lf: "diff3_fold env b v [(w, v)] rest = Inr lf"
      and out: "out = ast_fallback env ast p es ((w, v) # rest) b lf"
      using run by (auto simp: resolve_texts_with_ast_def Some split: list.splits sum.splits)
    have "distinct (map fst ([(w, v)] @ rest))" "fst ` set ([(w, v)] @ rest) \<subseteq> pe_workspace_id ` set es"
      using distinct_zip_ids [OF assms(1), of vs] zip_ids_subset [of "map pe_workspace_id es" vs] by (simp_all add: z)
    note members = this
    show ?thesis unfolding out
    proof (rule ast_fallback_sides [OF assms(1)])
      fix mk w' c ms assume "lf = FoldClash mk w' c ms"
      with lf have "diff3_fold env b v [(w, v)] rest = Inr (FoldClash mk w' c ms)" by simp
      from diff3_fold_clash [OF _ members(1) this]
      have "ms \<noteq> [] \<and> w' \<notin> fst ` set ms \<and> insert w' (fst ` set ms) \<subseteq> fst ` set ([(w, v)] @ rest)" by simp
      with members(2) show "ms \<noteq> [] \<and> w' \<notin> fst ` set ms \<and> insert w' (fst ` set ms) \<subseteq> pe_workspace_id ` set es"
        by (meson subset_trans)
    qed
  qed (use run sides_ok_all [OF assms(2)] in \<open>auto simp: resolve_texts_with_ast_def\<close>)
  have ast: "sides_ok es out" if "resolve_shared_path_with_ast env ast p es base = Inr out" for out
    using that texts sides_ok_all [OF assms(2)]
    by (auto simp: resolve_shared_path_with_ast_def Let_def sides_ok_def
        split: if_splits list.splits sum.splits option.splits)
  have "cr_path c = p"
    using assms(3) line_merge.same_path [of env p es base "Conflicted c"]
      ast_merge.same_path [of env ast p es base "Conflicted c"] by auto
  moreover have "sides_ok es (Conflicted c)" using assms(3) line ast by blast
  ultimately show ?thesis by (simp add: sides_ok_def)
qed


section \<open>Witnesses\<close>

text \<open>A line merge that clashes on every two contents, and no drivers.\<close>

definition sample_env :: merge_env where
  "sample_env = \<lparr>me_diff3 = (\<lambda>_ _ _. Inr (DConflict [])), me_text_merge = (\<lambda>_ _ _ _. Inr MergeConflict),
     me_attrs = None\<rparr>"

definition sample_ast :: "unit ast_env" where
  "sample_ast = \<lparr>ae_enabled_for = (\<lambda>_. None), ae_merge = (\<lambda>_ _ _. AstUnsupported)\<rparr>"

definition sample_entry :: "string \<Rightarrow> change_kind \<Rightarrow> string \<Rightarrow> path_entry" where
  "sample_entry w k c = path_entry_new (sample_ws w) k (if k = Deleted then None else Some c)"

definition sample_partition :: partition_result where
  "sample_partition = \<lparr>pt_unique = [([''a''], sample_entry ''alice'' Added ''x'')],
     pt_shared = [([''b''], [sample_entry ''alice'' Modified ''y'', sample_entry ''bob'' Modified ''z''])],
     pt_df_clashes = []\<rparr>"

lemma resolve_partition_accounts_witness:
  "\<exists>r. resolve_partition_with_attrs sample_env sample_partition bm_empty = Inr r
     \<and> mset (map change_path (rr_resolved r) @ map cr_path (rr_conflicts r)) = {#[''a''], [''b'']#}"
proof -
  have "\<not> isl (resolve_partition_with_attrs sample_env sample_partition bm_empty)" by code_simp
  then obtain r where r: "resolve_partition_with_attrs sample_env sample_partition bm_empty = Inr r"
    by (cases "resolve_partition_with_attrs sample_env sample_partition bm_empty") auto
  have "df_clash_paths sample_partition = {}" by (simp add: df_clash_paths_def sample_partition_def)
  with r resolve_partition_accounts [of "resolve_partition_with_attrs sample_env" sample_env sample_ast
      sample_partition bm_empty]
  show ?thesis by (intro exI [of _ r]) (simp add: sample_partition_def)
qed

lemma conflict_names_two_sides_witness:
  "\<exists>c. resolve_shared_path sample_env [''b'']
       [sample_entry ''alice'' Modified ''y'', sample_entry ''bob'' Modified ''z''] (Some ''q'') = Inr (Conflicted c)
     \<and> 2 \<le> length (cr_sides c)"
proof -
  let ?es = "[sample_entry ''alice'' Modified ''y'', sample_entry ''bob'' Modified ''z'']"
  have "case resolve_shared_path sample_env [''b''] ?es (Some ''q'') of Inr (Conflicted c) \<Rightarrow> True | _ \<Rightarrow> False"
    by code_simp
  then obtain c where c: "resolve_shared_path sample_env [''b''] ?es (Some ''q'') = Inr (Conflicted c)"
    by (auto split: sum.splits shared_outcome.splits)
  have "distinct (map pe_workspace_id ?es)" "2 \<le> length ?es" by code_simp+
  then show ?thesis using conflict_names_two_sides [where ast = sample_ast] c by blast
qed


end
