(* ===== verification/Oplog_Core.thy ===== *)
theory Oplog_Core
  imports Git_Refs Patch_Model
begin

text \<open>
  The per-workspace operation log, \<open>crates/maw-core/src/oplog/types.rs\<close>, \<open>read.rs\<close>, \<open>write.rs\<close>:
  operations are blobs in the git object store, each names its parents, and a reference per workspace
  points at the newest. JSON values are the type parameter \<open>'j\<close>; the serializer, the parser and the
  blob store are the fields of \<open>oplog_env\<close>, their contract is \<open>oplog_env_ok\<close>.
\<close>

section \<open>Operations\<close>

datatype 'j op_payload =
    OpCreate epoch_id
  | OpDestroy
  | OpSnapshot git_oid
  | OpMerge "workspace_id list" epoch_id epoch_id
  | OpCompensate git_oid string
  | OpDescribe string
  | OpRebaseReplay git_oid "git_oid option" bool
  | OpConflictDetected string git_oid "git_oid option" "git_oid option" "git_oid option"
  | OpConflictResolved string git_oid
  | OpAnnotate string "(string, 'j) btree"
  | OpRebase epoch_id epoch_id git_oid git_oid nat nat string

record 'j operation =
  op_parent_ids :: "git_oid list"
  op_workspace_id :: workspace_id
  op_timestamp :: string
  op_payload_of :: "'j op_payload"

section \<open>The store\<close>

record ('s, 'j) oplog_env =
  ol_refs :: "'s ref_backend"
  ol_read_blob :: "raw_oid \<Rightarrow> 's \<Rightarrow> git_error + string"
  ol_write_blob :: "string \<Rightarrow> 's \<Rightarrow> (git_error + raw_oid) \<times> 's"
  ol_print :: "'j operation \<Rightarrow> string + string"
  ol_parse :: "string \<Rightarrow> string + 'j operation"

definition to_canonical_json :: "('s, 'j) oplog_env \<Rightarrow> 'j operation \<Rightarrow> string + string" where
  "to_canonical_json env op = ol_print env op"

definition operation_from_json :: "('s, 'j) oplog_env \<Rightarrow> string \<Rightarrow> string + 'j operation" where
  "operation_from_json env bytes = ol_parse env bytes"

section \<open>Reading\<close>

datatype oplog_read_error =
    OrCatFile string string "int option"
  | OrDeserialize string string
  | OrIo string
  | OrRef ref_error
  | OrNoHead workspace_id

definition read_head :: "('s, 'j) oplog_env \<Rightarrow> path \<Rightarrow> workspace_id \<Rightarrow> 's \<Rightarrow> oplog_read_error + git_oid option" where
  "read_head env root w s =
     (case read_ref (ol_refs env) root (workspace_head_ref (ws_str w)) s of
        Inl e \<Rightarrow> Inl (OrRef e)
      | Inr oid \<Rightarrow> Inr oid)"

definition read_operation_via :: "('s, 'j) oplog_env \<Rightarrow> git_oid \<Rightarrow> 's \<Rightarrow> oplog_read_error + 'j operation" where
  "read_operation_via env oid s =
     (case raw_oid_from_str (oid_str oid) of
        Inl _ \<Rightarrow> Inl (OrCatFile (oid_str oid) ''invalid OID format'' None)
      | Inr raw \<Rightarrow>
          (case ol_read_blob env raw s of
             Inl e \<Rightarrow> Inl (OrCatFile (oid_str oid) (git_error_str e) None)
           | Inr data \<Rightarrow>
               (case operation_from_json env data of
                  Inl e \<Rightarrow> Inl (OrDeserialize (oid_str oid) e)
                | Inr op \<Rightarrow> Inr op)))"

definition read_operation :: "('s, 'j) oplog_env \<Rightarrow> path \<Rightarrow> git_oid \<Rightarrow> 's \<Rightarrow> oplog_read_error + 'j operation" where
  "read_operation env root oid s =
     (case rb_open (ol_refs env) root s of
        Some e \<Rightarrow> Inl (OrIo (''failed to open repo: '' @ git_error_str e))
      | None \<Rightarrow> read_operation_via env oid s)"

text \<open>The breadth-first walk over \<open>read\<close>, the operation behind an id. It may run forever on a store that
  is not one; \<open>None\<close> is that.\<close>

partial_function (option) walk_loop ::
  "(git_oid \<Rightarrow> oplog_read_error + 'j operation) \<Rightarrow> nat option \<Rightarrow> ('j operation \<Rightarrow> bool) \<Rightarrow> git_oid list \<Rightarrow>
   string set \<Rightarrow> (git_oid \<times> 'j operation) list \<Rightarrow>
   (oplog_read_error + (git_oid \<times> 'j operation) list) option" where
  "walk_loop read max_depth stop_at queue visited result =
     (case queue of
        [] \<Rightarrow> Some (Inr result)
      | oid # queue' \<Rightarrow>
          if (case max_depth of Some m \<Rightarrow> m \<le> length result | None \<Rightarrow> False) then Some (Inr result)
          else if oid_str oid \<in> visited then walk_loop read max_depth stop_at queue' visited result
          else
            (case read oid of
               Inl e \<Rightarrow> Some (Inl e)
             | Inr op \<Rightarrow>
                 if stop_at op then
                   walk_loop read max_depth stop_at queue' (insert (oid_str oid) visited) (result @ [(oid, op)])
                 else
                   walk_loop read max_depth stop_at
                     (queue' @ filter (\<lambda>p. oid_str p \<notin> insert (oid_str oid) visited) (op_parent_ids op))
                     (insert (oid_str oid) visited) (result @ [(oid, op)])))"

definition walk_chain ::
  "('s, 'j) oplog_env \<Rightarrow> path \<Rightarrow> workspace_id \<Rightarrow> nat option \<Rightarrow> ('j operation \<Rightarrow> bool) option \<Rightarrow> 's \<Rightarrow>
   (oplog_read_error + (git_oid \<times> 'j operation) list) option" where
  "walk_chain env root w max_depth stop_at s =
     (case read_head env root w s of
        Inl e \<Rightarrow> Some (Inl e)
      | Inr None \<Rightarrow> Some (Inl (OrNoHead w))
      | Inr (Some head) \<Rightarrow>
          walk_loop (\<lambda>oid. read_operation env root oid s) max_depth
            (case stop_at of None \<Rightarrow> (\<lambda>_. False) | Some pred \<Rightarrow> pred) [head] {} [])"

definition walk_all ::
  "('s, 'j) oplog_env \<Rightarrow> path \<Rightarrow> workspace_id \<Rightarrow> 's \<Rightarrow>
   (oplog_read_error + (git_oid \<times> 'j operation) list) option" where
  "walk_all env root w s = walk_chain env root w None None s"

section \<open>Writing\<close>

datatype oplog_write_error =
    OwSerialize string
  | OwHashObject string "int option"
  | OwInvalidOid string
  | OwIo string
  | OwCasMismatch workspace_id
  | OwRef ref_error

definition write_operation_blob_via ::
  "('s, 'j) oplog_env \<Rightarrow> 'j operation \<Rightarrow> 's \<Rightarrow> (oplog_write_error + git_oid) \<times> 's" where
  "write_operation_blob_via env op s =
     (case to_canonical_json env op of
        Inl e \<Rightarrow> (Inl (OwSerialize e), s)
      | Inr json \<Rightarrow>
          (case ol_write_blob env json s of
             (Inl e, s') \<Rightarrow> (Inl (OwHashObject (git_error_str e) None), s')
           | (Inr raw, s') \<Rightarrow>
               (case git_oid_new (raw_oid_str raw) of
                  Inl _ \<Rightarrow> (Inl (OwInvalidOid (raw_oid_str raw)), s')
                | Inr oid \<Rightarrow> (Inr oid, s'))))"

definition write_operation_blob ::
  "('s, 'j) oplog_env \<Rightarrow> path \<Rightarrow> 'j operation \<Rightarrow> 's \<Rightarrow> (oplog_write_error + git_oid) \<times> 's" where
  "write_operation_blob env root op s =
     (case rb_open (ol_refs env) root s of
        Some e \<Rightarrow> (Inl (OwHashObject (''failed to open repo: '' @ git_error_str e) None), s)
      | None \<Rightarrow> write_operation_blob_via env op s)"

definition zero_oid :: git_oid where
  "zero_oid = GitOid (replicate 40 CHR ''0'')"

fun append_error :: "workspace_id \<Rightarrow> ref_error \<Rightarrow> oplog_write_error" where
  "append_error w (CasMismatch _) = OwCasMismatch w"
| "append_error w e = OwRef e"

definition append_operation ::
  "('s, 'j) oplog_env \<Rightarrow> path \<Rightarrow> workspace_id \<Rightarrow> 'j operation \<Rightarrow> git_oid option \<Rightarrow> 's \<Rightarrow>
   (oplog_write_error + git_oid) \<times> 's" where
  "append_operation env root w op old_head s =
     (case write_operation_blob env root op s of
        (Inl e, s1) \<Rightarrow> (Inl e, s1)
      | (Inr new_oid, s1) \<Rightarrow>
          (case write_ref_cas (ol_refs env) root (workspace_head_ref (ws_str w))
                  (case old_head of None \<Rightarrow> zero_oid | Some old \<Rightarrow> old) new_oid s1 of
             (Inl e, s2) \<Rightarrow> (Inl (append_error w e), s2)
           | (Inr _, s2) \<Rightarrow> (Inr new_oid, s2)))"

section \<open>The contract of the store\<close>

text \<open>What git documents of a repository that can be opened and read: a blob written can be read back
  under an id that is not the null id,
  a blob that is there keeps its bytes, and no other blob changes; writing blobs leaves references alone and
  the other way round.  What serde documents: parsing gives back what was printed.\<close>

definition oplog_env_ok :: "('s, 'j) oplog_env \<Rightarrow> ('s \<Rightarrow> string \<Rightarrow> raw_oid option) \<Rightarrow> bool" where
  "oplog_env_ok env view \<longleftrightarrow>
     ref_backend_ok (ol_refs env) view
   \<and> (\<forall>root s. rb_open (ol_refs env) root s = None)
   \<and> (\<forall>n s. rb_read_ref (ol_refs env) n s = Inr (view s (ref_str n)))
   \<and> (\<forall>data s r s'. ol_write_blob env data s = (r, s') \<longrightarrow>
        view s' = view s \<and> (\<forall>o' d. ol_read_blob env o' s = Inr d \<longrightarrow> ol_read_blob env o' s' = Inr d))
   \<and> (\<forall>data s oid s'. ol_write_blob env data s = (Inr oid, s') \<longrightarrow>
        ol_read_blob env oid s' = Inr data \<and> \<not> is_zero oid)
   \<and> (\<forall>es s r s'. rb_atomic_ref_update (ol_refs env) es s = (r, s') \<longrightarrow>
        (\<forall>o'. ol_read_blob env o' s' = ol_read_blob env o' s))
   \<and> (\<forall>op json. ol_print env op = Inr json \<longrightarrow> ol_parse env json = Inr op)"

lemma oplog_env_okD:
  assumes "oplog_env_ok env view"
  shows "ref_backend_ok (ol_refs env) view"
    and "rb_open (ol_refs env) root s = None"
    and "rb_read_ref (ol_refs env) n s = Inr (view s (ref_str n))"
    and "ol_write_blob env data s = (r, s') \<Longrightarrow> view s' = view s"
    and "ol_write_blob env data s = (r, s') \<Longrightarrow> ol_read_blob env oid s = Inr d \<Longrightarrow> ol_read_blob env oid s' = Inr d"
    and "ol_write_blob env data s = (Inr oid, s') \<Longrightarrow> ol_read_blob env oid s' = Inr data"
    and "ol_write_blob env data s = (Inr oid, s') \<Longrightarrow> \<not> is_zero oid"
    and "rb_atomic_ref_update (ol_refs env) es s = (q, s') \<Longrightarrow> ol_read_blob env oid s' = ol_read_blob env oid s"
    and "ol_print env op = Inr json \<Longrightarrow> ol_parse env json = Inr op"
  using assms unfolding oplog_env_ok_def by - (elim conjE; (assumption | metis))+

end
