(* ===== verification/Oplog_View.thy ===== *)
theory Oplog_View
  imports Oplog_Core
begin

text \<open>
  Views of a workspace, \<open>crates/maw-core/src/oplog/view.rs\<close>: the state that replaying the operation log
  gives. The callback that fetches patch sets is an argument, as in the code; \<open>op_count\<close> is a natural
  number, since every counted operation is an object in the store.
\<close>

record 'j materialized_view =
  mv_workspace_id :: workspace_id
  mv_epoch :: "epoch_id option"
  mv_patch_set :: "patch_set option"
  mv_patch_set_oid :: "git_oid option"
  mv_description :: "string option"
  mv_annotations :: "(string, (string, 'j) btree) btree"
  mv_op_count :: nat
  mv_is_destroyed :: bool

definition view_empty :: "workspace_id \<Rightarrow> 'j materialized_view" where
  "view_empty w = \<lparr>mv_workspace_id = w, mv_epoch = None, mv_patch_set = None, mv_patch_set_oid = None,
     mv_description = None, mv_annotations = bm_empty, mv_op_count = 0, mv_is_destroyed = False\<rparr>"

definition view_destroyed :: "'j materialized_view \<Rightarrow> bool" where
  "view_destroyed v = mv_is_destroyed v"

definition has_changes :: "'j materialized_view \<Rightarrow> bool" where
  "has_changes v = (case mv_patch_set v of None \<Rightarrow> False | Some ps \<Rightarrow> \<not> patch_set_is_empty ps)"

datatype view_error =
    VOpLog oplog_read_error
  | VPatchSetRead string string

type_synonym patch_set_reader = "git_oid \<Rightarrow> view_error + patch_set"

fun apply_payload :: "patch_set_reader \<Rightarrow> 'j op_payload \<Rightarrow> 'j materialized_view \<Rightarrow> view_error + 'j materialized_view" where
  "apply_payload read_patch_set (OpCreate e) v =
     Inr (v\<lparr>mv_epoch := Some e, mv_patch_set := None, mv_patch_set_oid := None, mv_is_destroyed := False\<rparr>)"
| "apply_payload read_patch_set (OpSnapshot oid) v =
     res_bind (read_patch_set oid) (\<lambda>ps. Inr (v\<lparr>mv_patch_set := Some ps, mv_patch_set_oid := Some oid\<rparr>))"
| "apply_payload read_patch_set (OpCompensate _ _) v = Inr (v\<lparr>mv_patch_set := None, mv_patch_set_oid := None\<rparr>)"
| "apply_payload read_patch_set (OpMerge _ _ epoch_after) v =
     Inr (v\<lparr>mv_epoch := Some epoch_after, mv_patch_set := None, mv_patch_set_oid := None\<rparr>)"
| "apply_payload read_patch_set (OpDescribe m) v = Inr (v\<lparr>mv_description := Some m\<rparr>)"
| "apply_payload read_patch_set (OpAnnotate k d) v = Inr (v\<lparr>mv_annotations := bm_insert k d (mv_annotations v)\<rparr>)"
| "apply_payload read_patch_set OpDestroy v = Inr (v\<lparr>mv_is_destroyed := True\<rparr>)"
| "apply_payload read_patch_set (OpRebaseReplay _ _ _) v = Inr v"
| "apply_payload read_patch_set (OpConflictDetected _ _ _ _ _) v = Inr v"
| "apply_payload read_patch_set (OpConflictResolved _ _) v = Inr v"
| "apply_payload read_patch_set (OpRebase _ _ _ _ _ _ _) v = Inr v"

definition apply_operation ::
  "patch_set_reader \<Rightarrow> git_oid \<times> 'j operation \<Rightarrow> 'j materialized_view \<Rightarrow> view_error + 'j materialized_view" where
  "apply_operation read_patch_set = (\<lambda>(oid, op) v.
     apply_payload read_patch_set (op_payload_of op) (v\<lparr>mv_op_count := mv_op_count v + 1\<rparr>))"

definition materialize_from_ops ::
  "workspace_id \<Rightarrow> (git_oid \<times> 'j operation) list \<Rightarrow> patch_set_reader \<Rightarrow> view_error + 'j materialized_view" where
  "materialize_from_ops w ops read_patch_set = res_fold (apply_operation read_patch_set) ops (view_empty w)"

text \<open>\<open>None\<close>: the walk does not return.\<close>

definition materialize ::
  "('s, 'j) oplog_env \<Rightarrow> path \<Rightarrow> workspace_id \<Rightarrow> patch_set_reader \<Rightarrow> 's \<Rightarrow> (view_error + 'j materialized_view) option" where
  "materialize env root w read_patch_set s =
     map_option (\<lambda>r. case r of
         Inl e \<Rightarrow> Inl (VOpLog e)
       | Inr chain \<Rightarrow> res_fold (apply_operation read_patch_set) (rev chain) (view_empty w))
     (walk_chain env root w None None s)"

definition read_patch_set_blob_via ::
  "('s, 'j) oplog_env \<Rightarrow> (string \<Rightarrow> string + patch_set) \<Rightarrow> git_oid \<Rightarrow> 's \<Rightarrow> view_error + patch_set" where
  "read_patch_set_blob_via env parse oid s =
     (case raw_oid_from_str (oid_str oid) of
        Inl e \<Rightarrow> Inl (VPatchSetRead (oid_str oid)
                   (''invalid OID: invalid OID '' @ ope_value e @ '': '' @ ope_reason e))
      | Inr raw \<Rightarrow>
          (case ol_read_blob env raw s of
             Inl e \<Rightarrow> Inl (VPatchSetRead (oid_str oid) (git_error_str e))
           | Inr data \<Rightarrow>
               (case parse data of
                  Inl e \<Rightarrow> Inl (VPatchSetRead (oid_str oid) (''JSON parse: '' @ e))
                | Inr ps \<Rightarrow> Inr ps)))"

definition read_patch_set_blob ::
  "('s, 'j) oplog_env \<Rightarrow> (string \<Rightarrow> string + patch_set) \<Rightarrow> path \<Rightarrow> git_oid \<Rightarrow> 's \<Rightarrow> view_error + patch_set" where
  "read_patch_set_blob env parse root oid s =
     (case rb_open (ol_refs env) root s of
        Some e \<Rightarrow> Inl (VPatchSetRead (oid_str oid) (''open repo: '' @ git_error_str e))
      | None \<Rightarrow> read_patch_set_blob_via env parse oid s)"

section \<open>Facts\<close>

text \<open>The workspace of a view and the number of operations it counts.\<close>

lemma apply_operation_count:
  "apply_operation read_patch_set x v = Inr v' \<Longrightarrow>
   mv_workspace_id v' = mv_workspace_id v \<and> mv_op_count v' = Suc (mv_op_count v)"
  by (cases x; cases "op_payload_of (snd x)") (auto simp: apply_operation_def result_simps)

lemma replay_count:
  "res_fold (apply_operation read_patch_set) ops v = Inr v' \<Longrightarrow>
   mv_workspace_id v' = mv_workspace_id v \<and> mv_op_count v' = mv_op_count v + length ops"
proof (induction ops arbitrary: v)
  case (Cons x ops)
  then obtain v1 where "apply_operation read_patch_set x v = Inr v1"
    "res_fold (apply_operation read_patch_set) ops v1 = Inr v'" by (auto simp: result_simps)
  with Cons.IH apply_operation_count show ?case by fastforce
qed simp

end
