(* ===== verification/Oplog_Checkpoint.thy ===== *)
theory Oplog_Checkpoint
  imports Oplog_View
begin

text \<open>
  Checkpoints in the operation log, \<open>crates/maw-core/src/oplog/checkpoint.rs\<close>, and the appender that
  writes them, \<open>crates/maw-cli/src/workspace/oplog_runtime.rs\<close>. The conversion of checkpoint data to the
  JSON object of an annotation and back is in the environment, as is the clock. Messages about invalid data
  leave out the \<open>Debug\<close> rendering of the value.
\<close>

definition CHECKPOINT_KEY :: string where
  "CHECKPOINT_KEY = ''checkpoint''"

definition DEFAULT_CHECKPOINT_INTERVAL :: nat where
  "DEFAULT_CHECKPOINT_INTERVAL = 100"

section \<open>Checkpoint data\<close>

record 'j checkpoint_view =
  cv_workspace_id :: string
  cv_epoch :: "string option"
  cv_patch_set :: "patch_set option"
  cv_patch_set_oid :: "string option"
  cv_description :: "string option"
  cv_annotations :: "(string, (string, 'j) btree) btree"
  cv_is_destroyed :: bool

record 'j checkpoint_data =
  cd_view :: "'j checkpoint_view"
  cd_op_count :: nat
  cd_trigger_oid :: string

record ('s, 'j) checkpoint_env =
  ce_oplog :: "('s, 'j) oplog_env"
  ce_encode :: "'j checkpoint_data \<Rightarrow> (string, 'j) btree option"
  ce_decode :: "(string, 'j) btree \<Rightarrow> 'j checkpoint_data option"
  ce_now :: u64

definition from_view :: "'j materialized_view \<Rightarrow> 'j checkpoint_view" where
  "from_view v = \<lparr>cv_workspace_id = ws_str (mv_workspace_id v),
     cv_epoch = map_option epoch_str (mv_epoch v),
     cv_patch_set = mv_patch_set v,
     cv_patch_set_oid = map_option oid_str (mv_patch_set_oid v),
     cv_description = mv_description v,
     cv_annotations = bm_filter (\<lambda>k _. k \<noteq> CHECKPOINT_KEY) (mv_annotations v),
     cv_is_destroyed = mv_is_destroyed v\<rparr>"

datatype checkpoint_error =
    CpOpLogRead oplog_read_error
  | CpOpLogWrite oplog_write_error
  | CpView view_error
  | CpInvalidData string
  | CpNoCheckpoint workspace_id

text \<open>\<open>opt.map(f).transpose()\<close>.\<close>

fun transpose_opt :: "('a \<Rightarrow> 'e + 'b) \<Rightarrow> 'a option \<Rightarrow> 'e + 'b option" where
  "transpose_opt f None = Inr None"
| "transpose_opt f (Some x) = res_bind (f x) (\<lambda>y. Inr (Some y))"

definition to_view :: "'j checkpoint_view \<Rightarrow> nat \<Rightarrow> checkpoint_error + 'j materialized_view" where
  "to_view c op_count =
     (case transpose_opt epoch_id_new (cv_epoch c) of
        Inl _ \<Rightarrow> Inl (CpInvalidData ''invalid epoch OID'')
      | Inr epoch \<Rightarrow>
     (case transpose_opt git_oid_new (cv_patch_set_oid c) of
        Inl _ \<Rightarrow> Inl (CpInvalidData ''invalid patch_set OID'')
      | Inr oid \<Rightarrow>
     (case workspace_id_new (cv_workspace_id c) of
        Inl _ \<Rightarrow> Inl (CpInvalidData ''invalid workspace_id'')
      | Inr w \<Rightarrow>
          Inr \<lparr>mv_workspace_id = w, mv_epoch = epoch, mv_patch_set = cv_patch_set c,
               mv_patch_set_oid = oid, mv_description = cv_description c,
               mv_annotations = cv_annotations c, mv_op_count = op_count,
               mv_is_destroyed = cv_is_destroyed c\<rparr>)))"

section \<open>Detection and creation\<close>

definition is_checkpoint :: "'j operation \<Rightarrow> bool" where
  "is_checkpoint op = (case op_payload_of op of OpAnnotate k _ \<Rightarrow> k = CHECKPOINT_KEY | _ \<Rightarrow> False)"

definition extract_checkpoint :: "('s, 'j) checkpoint_env \<Rightarrow> 'j operation \<Rightarrow> 'j checkpoint_data option" where
  "extract_checkpoint ce op =
     (case op_payload_of op of
        OpAnnotate k data \<Rightarrow> if k = CHECKPOINT_KEY then ce_decode ce data else None
      | _ \<Rightarrow> None)"

definition should_checkpoint :: "nat \<Rightarrow> nat \<Rightarrow> bool" where
  "should_checkpoint op_count interval \<longleftrightarrow> interval > 0 \<and> op_count > 0 \<and> op_count mod interval = 0"

definition two_digits :: "nat \<Rightarrow> string" where
  "two_digits n = (if n < 10 then ''0'' @ show_nat n else show_nat n)"

definition checkpoint_timestamp :: "u64 \<Rightarrow> string" where
  "checkpoint_timestamp now =
     (let secs = unat now
      in show_nat (1970 + secs div 31557600) @ ''-'' @
         two_digits (secs mod 31557600 div 2629800 + 1) @ ''-'' @
         two_digits (secs mod 2629800 div 86400 + 1) @ ''T'' @
         two_digits (secs mod 86400 div 3600) @ '':'' @
         two_digits (secs mod 3600 div 60) @ '':'' @
         two_digits (secs mod 60) @ ''Z'')"

definition create_checkpoint_op ::
  "('s, 'j) checkpoint_env \<Rightarrow> 'j materialized_view \<Rightarrow> git_oid \<Rightarrow> git_oid \<Rightarrow> 'j operation" where
  "create_checkpoint_op ce v trigger_oid parent_oid =
     (let data = \<lparr>cd_view = from_view v, cd_op_count = mv_op_count v, cd_trigger_oid = oid_str trigger_oid\<rparr>
      in \<lparr>op_parent_ids = [parent_oid], op_workspace_id = mv_workspace_id v,
          op_timestamp = checkpoint_timestamp (ce_now ce),
          op_payload_of = OpAnnotate CHECKPOINT_KEY
            (case ce_encode ce data of Some object \<Rightarrow> object | None \<Rightarrow> bm_empty)\<rparr>)"

definition maybe_write_checkpoint ::
  "('s, 'j) checkpoint_env \<Rightarrow> path \<Rightarrow> workspace_id \<Rightarrow> 'j materialized_view \<Rightarrow> git_oid \<Rightarrow> git_oid \<Rightarrow> nat \<Rightarrow>
   's \<Rightarrow> (checkpoint_error + git_oid option) \<times> 's" where
  "maybe_write_checkpoint ce root w current_view trigger_oid current_head interval s =
     (if \<not> should_checkpoint (mv_op_count current_view) interval then (Inr None, s)
      else
        (case append_operation (ce_oplog ce) root w
                (create_checkpoint_op ce current_view trigger_oid current_head) (Some current_head) s of
           (Inl e, s') \<Rightarrow> (Inl (CpOpLogWrite e), s')
         | (Inr oid, s') \<Rightarrow> (Inr (Some oid), s')))"

section \<open>Replay\<close>

fun replay_payload ::
  "patch_set_reader \<Rightarrow> 'j op_payload \<Rightarrow> 'j materialized_view \<Rightarrow> checkpoint_error + 'j materialized_view" where
  "replay_payload read_patch_set (OpCreate e) v =
     Inr (v\<lparr>mv_epoch := Some e, mv_patch_set := None, mv_patch_set_oid := None, mv_is_destroyed := False\<rparr>)"
| "replay_payload read_patch_set (OpSnapshot oid) v =
     (case read_patch_set oid of
        Inl e \<Rightarrow> Inl (CpView e)
      | Inr ps \<Rightarrow> Inr (v\<lparr>mv_patch_set := Some ps, mv_patch_set_oid := Some oid\<rparr>))"
| "replay_payload read_patch_set (OpCompensate _ _) v = Inr (v\<lparr>mv_patch_set := None, mv_patch_set_oid := None\<rparr>)"
| "replay_payload read_patch_set (OpMerge _ _ epoch_after) v =
     Inr (v\<lparr>mv_epoch := Some epoch_after, mv_patch_set := None, mv_patch_set_oid := None\<rparr>)"
| "replay_payload read_patch_set (OpDescribe m) v = Inr (v\<lparr>mv_description := Some m\<rparr>)"
| "replay_payload read_patch_set (OpAnnotate k d) v = Inr (v\<lparr>mv_annotations := bm_insert k d (mv_annotations v)\<rparr>)"
| "replay_payload read_patch_set OpDestroy v = Inr (v\<lparr>mv_is_destroyed := True\<rparr>)"
| "replay_payload read_patch_set (OpRebaseReplay _ _ _) v = Inr v"
| "replay_payload read_patch_set (OpConflictDetected _ _ _ _ _) v = Inr v"
| "replay_payload read_patch_set (OpConflictResolved _ _) v = Inr v"
| "replay_payload read_patch_set (OpRebase _ _ _ _ _ _ _) v = Inr v"

definition replay_single_op ::
  "patch_set_reader \<Rightarrow> git_oid \<times> 'j operation \<Rightarrow> 'j materialized_view \<Rightarrow> checkpoint_error + 'j materialized_view" where
  "replay_single_op read_patch_set = (\<lambda>(oid, op) v.
     replay_payload read_patch_set (op_payload_of op) (v\<lparr>mv_op_count := mv_op_count v + 1\<rparr>))"

text \<open>The loop over the operations after the checkpoint.\<close>

definition replay_after ::
  "patch_set_reader \<Rightarrow> git_oid \<times> 'j operation \<Rightarrow> 'j materialized_view \<Rightarrow> checkpoint_error + 'j materialized_view" where
  "replay_after read_patch_set x v =
     (if is_checkpoint (snd x) then Inr (v\<lparr>mv_op_count := mv_op_count v + 1\<rparr>)
      else replay_single_op read_patch_set x v)"

text \<open>\<open>None\<close>: no operation of the list is a checkpoint.\<close>

fun checkpoint_idx :: "nat \<Rightarrow> (git_oid \<times> 'j operation) list \<Rightarrow> nat option" where
  "checkpoint_idx i [] = None"
| "checkpoint_idx i ((_, op) # chain) = (if is_checkpoint op then Some i else checkpoint_idx (Suc i) chain)"

text \<open>What is done with the operations walked, newest first.\<close>

definition view_of_chain ::
  "('s, 'j) checkpoint_env \<Rightarrow> workspace_id \<Rightarrow> patch_set_reader \<Rightarrow> (git_oid \<times> 'j operation) list \<Rightarrow>
   checkpoint_error + 'j materialized_view" where
  "view_of_chain ce w read_patch_set chain =
     (if chain = [] then Inl (CpOpLogRead (OrNoHead w))
      else case checkpoint_idx 0 chain of
        Some cp_idx \<Rightarrow>
          (case extract_checkpoint ce (snd (chain ! cp_idx)) of
             None \<Rightarrow> Inl (CpInvalidData ''checkpoint annotation has unparseable data'')
           | Some cp_data \<Rightarrow>
               res_bind (to_view (cd_view cp_data) (cd_op_count cp_data))
                 (res_fold (replay_after read_patch_set) (rev (take cp_idx chain))))
      | None \<Rightarrow>
          (case materialize_from_ops w (rev chain) read_patch_set of
             Inl e \<Rightarrow> Inl (CpView e)
           | Inr v \<Rightarrow> Inr v))"

definition materialize_from_checkpoint ::
  "('s, 'j) checkpoint_env \<Rightarrow> path \<Rightarrow> workspace_id \<Rightarrow> patch_set_reader \<Rightarrow> 's \<Rightarrow>
   (checkpoint_error + 'j materialized_view) option" where
  "materialize_from_checkpoint ce root w read_patch_set s =
     map_option (\<lambda>r. case r of
         Inl e \<Rightarrow> Inl (CpOpLogRead e)
       | Inr chain \<Rightarrow> view_of_chain ce w read_patch_set chain)
     (walk_chain (ce_oplog ce) root w None None s)"

section \<open>Compaction\<close>

record compaction_result =
  cr_new_head :: git_oid
  cr_ops_before :: nat
  cr_ops_after :: nat

text \<open>The loop that writes the operations again, oldest first, each with the one written before as its parent.\<close>

fun relink_ops ::
  "('s, 'j) oplog_env \<Rightarrow> path \<Rightarrow> (git_oid \<times> 'j operation) list \<Rightarrow> git_oid \<Rightarrow> nat \<Rightarrow> 's \<Rightarrow>
   (oplog_write_error + git_oid \<times> nat) \<times> 's" where
  "relink_ops env root [] prev_oid ops_after s = (Inr (prev_oid, ops_after), s)"
| "relink_ops env root ((_, op) # post_ops) prev_oid ops_after s =
     (case write_operation_blob env root (op\<lparr>op_parent_ids := [prev_oid]\<rparr>) s of
        (Inl e, s') \<Rightarrow> (Inl e, s')
      | (Inr new_oid, s') \<Rightarrow> relink_ops env root post_ops new_oid (ops_after + 1) s')"

definition compact_chain ::
  "('s, 'j) checkpoint_env \<Rightarrow> path \<Rightarrow> workspace_id \<Rightarrow> (git_oid \<times> 'j operation) list \<Rightarrow> 's \<Rightarrow>
   (checkpoint_error + compaction_result) \<times> 's" where
  "compact_chain ce root w chain s =
     (case checkpoint_idx 0 chain of
        None \<Rightarrow> (Inl (CpNoCheckpoint w), s)
      | Some cp_idx \<Rightarrow>
     if cp_idx \<ge> length chain - 1 then
       (Inr \<lparr>cr_new_head = fst (chain ! 0), cr_ops_before = length chain, cr_ops_after = length chain\<rparr>, s)
     else
     (case extract_checkpoint ce (snd (chain ! cp_idx)) of
        None \<Rightarrow> (Inl (CpInvalidData ''checkpoint annotation has unparseable data''), s)
      | Some cp_data \<Rightarrow>
     (case cv_epoch (cd_view cp_data) of
        None \<Rightarrow> (Inl (CpInvalidData ''checkpoint has no epoch''), s)
      | Some epoch \<Rightarrow>
     (case epoch_id_new epoch of
        Inl _ \<Rightarrow> (Inl (CpInvalidData (''invalid epoch in checkpoint: '' @ epoch)), s)
      | Inr epoch_id \<Rightarrow>
     (case write_operation_blob (ce_oplog ce) root
             \<lparr>op_parent_ids = [], op_workspace_id = w, op_timestamp = op_timestamp (snd (chain ! cp_idx)),
              op_payload_of = OpCreate epoch_id\<rparr> s of
        (Inl e, s1) \<Rightarrow> (Inl (CpOpLogWrite e), s1)
      | (Inr create_oid, s1) \<Rightarrow>
     (case write_operation_blob (ce_oplog ce) root ((snd (chain ! cp_idx))\<lparr>op_parent_ids := [create_oid]\<rparr>) s1 of
        (Inl e, s2) \<Rightarrow> (Inl (CpOpLogWrite e), s2)
      | (Inr cp_new_oid, s2) \<Rightarrow>
     (case relink_ops (ce_oplog ce) root (rev (take cp_idx chain)) cp_new_oid 2 s2 of
        (Inl e, s3) \<Rightarrow> (Inl (CpOpLogWrite e), s3)
      | (Inr (prev_oid, ops_after), s3) \<Rightarrow>
     (case write_ref_cas (ol_refs (ce_oplog ce)) root (workspace_head_ref (ws_str w)) (fst (chain ! 0)) prev_oid s3 of
        (Inl e, s4) \<Rightarrow> (Inl (CpOpLogWrite (append_error w e)), s4)
      | (Inr _, s4) \<Rightarrow>
          (Inr \<lparr>cr_new_head = prev_oid, cr_ops_before = length chain, cr_ops_after = ops_after\<rparr>, s4)))))))))"

definition compact ::
  "('s, 'j) checkpoint_env \<Rightarrow> path \<Rightarrow> workspace_id \<Rightarrow> 's \<Rightarrow> ((checkpoint_error + compaction_result) \<times> 's) option" where
  "compact ce root w s =
     map_option (\<lambda>r. case r of
         Inl e \<Rightarrow> (Inl (CpOpLogRead e), s)
       | Inr chain \<Rightarrow>
           if chain = [] then (Inl (CpOpLogRead (OrNoHead w)), s) else compact_chain ce root w chain s)
     (walk_chain (ce_oplog ce) root w None None s)"

section \<open>The appender\<close>

datatype checkpoint_append_error = DamagedChain | OtherCheckpointError

fun classify_checkpoint_error :: "checkpoint_error \<Rightarrow> checkpoint_append_error" where
  "classify_checkpoint_error (CpOpLogRead (OrCatFile _ _ _)) = DamagedChain"
| "classify_checkpoint_error _ = OtherCheckpointError"

text \<open>The warnings that go to the standard error stream. A damaged chain is reported once per workspace
  and session: \<open>warned\<close> holds the names reported so far.\<close>

datatype runtime_warning = WarnDamaged string | WarnSkipped string

definition first_damaged_oplog_warning_for :: "string \<Rightarrow> string set \<Rightarrow> bool \<times> string set" where
  "first_damaged_oplog_warning_for ws_name warned = (ws_name \<notin> warned, insert ws_name warned)"

definition maybe_checkpoint_after_append ::
  "('s, 'j) checkpoint_env \<Rightarrow> (string \<Rightarrow> string + patch_set) \<Rightarrow> path \<Rightarrow> workspace_id \<Rightarrow> git_oid \<Rightarrow> 's \<Rightarrow>
   ((checkpoint_append_error + unit) \<times> 's) option" where
  "maybe_checkpoint_after_append ce parse root w trigger_oid s =
     map_option (\<lambda>r. case r of
         Inl e \<Rightarrow> (Inl (classify_checkpoint_error e), s)
       | Inr v \<Rightarrow>
           (case maybe_write_checkpoint ce root w v trigger_oid trigger_oid DEFAULT_CHECKPOINT_INTERVAL s of
              (Inl e, s') \<Rightarrow> (Inl OtherCheckpointError, s')
            | (Inr _, s') \<Rightarrow> (Inr (), s')))
     (materialize_from_checkpoint ce root w (\<lambda>oid. read_patch_set_blob (ce_oplog ce) parse root oid s) s)"

definition append_operation_with_runtime_checkpoint ::
  "('s, 'j) checkpoint_env \<Rightarrow> (string \<Rightarrow> string + patch_set) \<Rightarrow> path \<Rightarrow> workspace_id \<Rightarrow> 'j operation \<Rightarrow>
   git_oid option \<Rightarrow> 's \<Rightarrow> string set \<Rightarrow>
   ((oplog_write_error + git_oid) \<times> runtime_warning list \<times> 's \<times> string set) option" where
  "append_operation_with_runtime_checkpoint ce parse root w op old_head s warned =
     (case append_operation (ce_oplog ce) root w op old_head s of
        (Inl e, s1) \<Rightarrow> Some (Inl e, [], s1, warned)
      | (Inr new_head, s1) \<Rightarrow>
          map_option (\<lambda>r. case r of
              (Inr _, s2) \<Rightarrow> (Inr new_head, [], s2, warned)
            | (Inl DamagedChain, s2) \<Rightarrow>
                (let (should_warn, warned') = first_damaged_oplog_warning_for (ws_str w) warned
                 in (Inr new_head, if should_warn then [WarnDamaged (ws_str w)] else [], s2, warned'))
            | (Inl OtherCheckpointError, s2) \<Rightarrow> (Inr new_head, [WarnSkipped (ws_str w)], s2, warned))
          (maybe_checkpoint_after_append ce parse root w new_head s1))"

end
