(* ===== verification/Oplog_Log.thy ===== *)
theory Oplog_Log
  imports Oplog_Core
begin

text \<open>
  What the operation log of a workspace is and what reading and appending do to it: the breadth-first walk
  returns on every finite history and lists exactly the operations reachable from the head; on a linear
  history it lists them newest first; an append puts one operation in front and leaves every other log alone.
\<close>

section \<open>The walk\<close>

declare walk_loop.simps [code]

lemma walk_loop_simps [simp]:
  "walk_loop read md stop [] visited result = Some (Inr result)"
  "walk_loop read md stop (oid # q) visited result =
     (if (case md of Some m \<Rightarrow> m \<le> length result | None \<Rightarrow> False) then Some (Inr result)
      else if oid_str oid \<in> visited then walk_loop read md stop q visited result
      else (case read oid of
              Inl e \<Rightarrow> Some (Inl e)
            | Inr op \<Rightarrow>
                walk_loop read md stop
                  (if stop op then q
                   else q @ filter (\<lambda>p. oid_str p \<notin> insert (oid_str oid) visited) (op_parent_ids op))
                  (insert (oid_str oid) visited) (result @ [(oid, op)])))"
  by (simp add: walk_loop.simps) (auto simp: walk_loop.simps [of read md stop "oid # q"] split: sum.splits option.splits)

text \<open>The parents of an operation that can be read.\<close>

definition parent_of :: "(git_oid \<Rightarrow> oplog_read_error + 'j operation) \<Rightarrow> (git_oid \<times> git_oid) set" where
  "parent_of read = {(oid, p). \<exists>op. read oid = Inr op \<and> p \<in> set (op_parent_ids op)}"

text \<open>What the loop keeps: the result lists the visited operations once each, as they read, and their
  parents are visited or queued.\<close>

definition walk_inv ::
  "(git_oid \<Rightarrow> oplog_read_error + 'j operation) \<Rightarrow> git_oid set \<Rightarrow> git_oid list \<Rightarrow> string set \<Rightarrow>
   (git_oid \<times> 'j operation) list \<Rightarrow> bool" where
  "walk_inv read R queue visited result \<longleftrightarrow>
     visited = oid_str ` fst ` set result \<and> distinct (map fst result)
   \<and> (\<forall>i p. (i, p) \<in> set result \<longrightarrow> read i = Inr p)
   \<and> (\<forall>i p x. (i, p) \<in> set result \<longrightarrow> x \<in> set (op_parent_ids p) \<longrightarrow> x \<in> fst ` set result \<union> set queue)
   \<and> fst ` set result \<union> set queue \<subseteq> R"

lemma oid_str_image [simp]: "oid_str oid \<in> oid_str ` A \<longleftrightarrow> oid \<in> A"
  by (auto dest: git_oid.expand)

lemma walk_invD:
  assumes "walk_inv read R queue visited result"
  shows "visited = oid_str ` fst ` set result" "distinct (map fst result)"
    and "fst ` set result \<union> set queue \<subseteq> R"
    and "(i, p) \<in> set result \<Longrightarrow> read i = Inr p"
    and "(i, p) \<in> set result \<Longrightarrow> x \<in> set (op_parent_ids p) \<Longrightarrow> x \<in> fst ` set result \<union> set queue"
  using assms unfolding walk_inv_def by - (elim conjE; (assumption | metis))+

lemma walk_inv_skip:
  assumes "walk_inv read R (oid # q) visited result" "oid_str oid \<in> visited"
  shows "oid \<in> fst ` set result" "walk_inv read R q visited result"
proof -
  note inv = walk_invD [OF assms(1)]
  show seen: "oid \<in> fst ` set result" using assms(2) unfolding inv(1) oid_str_image .
  have "x \<in> fst ` set result \<union> set q" if "(i, p) \<in> set result" "x \<in> set (op_parent_ids p)" for i p x
    using inv(5) [OF that] seen by auto
  moreover have "fst ` set result \<union> set q \<subseteq> R" using inv(3) by simp
  ultimately show "walk_inv read R q visited result"
    unfolding walk_inv_def using inv(1,2,4) by blast
qed

lemma walk_inv_step:
  assumes "walk_inv read R (oid # q) visited result" and new: "oid_str oid \<notin> visited"
    and op: "read oid = Inr op" and R: "set (op_parent_ids op) \<subseteq> R"
  shows "walk_inv read R (q @ filter (\<lambda>p. oid_str p \<notin> insert (oid_str oid) visited) (op_parent_ids op))
    (insert (oid_str oid) visited) (result @ [(oid, op)])"
proof -
  note inv = walk_invD [OF assms(1)]
  let ?q = "filter (\<lambda>p. oid_str p \<notin> insert (oid_str oid) visited) (op_parent_ids op)"
  have "oid \<notin> fst ` set result" using new unfolding inv(1) oid_str_image .
  moreover have "x \<in> fst ` set (result @ [(oid, op)]) \<union> set (q @ ?q)"
    if "(i, p) \<in> set (result @ [(oid, op)])" "x \<in> set (op_parent_ids p)" for i p x
  proof (cases "(i, p) \<in> set result")
    case True
    from inv(5) [OF this that(2)] show ?thesis by auto
  next
    case False
    with that have "x \<in> set (op_parent_ids op)" by simp
    then have "oid_str x = oid_str oid \<or> oid_str x \<in> visited \<or> x \<in> set ?q" by auto
    then show ?thesis unfolding inv(1) oid_str_image by (auto dest: git_oid.expand)
  qed
  moreover have "fst ` set (result @ [(oid, op)]) \<union> set (q @ ?q) \<subseteq> R" using inv(3) R by auto
  moreover have "read i = Inr p" if "(i, p) \<in> set (result @ [(oid, op)])" for i p
    using that inv(4) op by auto
  moreover have "insert (oid_str oid) visited = oid_str ` fst ` set (result @ [(oid, op)])"
    by (simp add: inv(1))
  moreover have "distinct (map fst (result @ [(oid, op)]))"
    using inv(2) \<open>oid \<notin> fst ` set result\<close> by simp
  ultimately show ?thesis unfolding walk_inv_def by blast
qed

lemma walk_loop_total:
  assumes "finite R" and closed: "\<And>oid op. oid \<in> R \<Longrightarrow> read oid = Inr op \<Longrightarrow> set (op_parent_ids op) \<subseteq> R"
  shows "walk_inv read R queue visited result \<Longrightarrow>
    (\<exists>res. walk_loop read None (\<lambda>_. False) queue visited result = Some (Inr res)
       \<and> (\<exists>v. walk_inv read R [] v res) \<and> fst ` set result \<union> set queue \<subseteq> fst ` set res)
    \<or> (\<exists>oid \<in> R. \<exists>e. read oid = Inl e \<and> walk_loop read None (\<lambda>_. False) queue visited result = Some (Inl e))"
proof (induction "(card (R - fst ` set result), length queue)" arbitrary: queue visited result
    rule: wf_induct_rule [OF wf_lex_prod [OF wf_less wf_less]])
  case 1
  show ?case
  proof (cases queue)
    case Nil
    with "1.prems" show ?thesis by auto
  next
    case (Cons oid q)
    note inv = "1.prems" [unfolded Cons]
    show ?thesis
    proof (cases "oid_str oid \<in> visited")
      case True
      note skip = walk_inv_skip [OF inv True]
      have "((card (R - fst ` set result), length q), (card (R - fst ` set result), length queue))
          \<in> {(x, y). x < y} <*lex*> {(x, y). x < y}" by (simp add: Cons)
      note ih = "1.hyps" [OF this skip(2)]
      have run: "walk_loop read None (\<lambda>_. False) queue visited result =
          walk_loop read None (\<lambda>_. False) q visited result"
        using True Cons by simp
      from ih show ?thesis
        unfolding run using skip(1) by (elim disjE exE conjE) (auto simp: Cons intro!: exI)
    next
      case False
      have oid: "oid \<in> R" using inv by (simp add: walk_inv_def)
      show ?thesis
      proof (cases "read oid")
        case (Inl e)
        with False oid Cons show ?thesis by auto
      next
        case (Inr op)
        let ?q = "q @ filter (\<lambda>p. oid_str p \<notin> insert (oid_str oid) visited) (op_parent_ids op)"
        let ?r = "result @ [(oid, op)]"
        have next_inv: "walk_inv read R ?q (insert (oid_str oid) visited) ?r"
          by (rule walk_inv_step [OF inv False Inr closed [OF oid Inr]])
        have "oid \<notin> fst ` set result" using inv False by (auto simp: walk_inv_def)
        then have "card (R - fst ` set ?r) < card (R - fst ` set result)"
          using oid \<open>finite R\<close> by (intro psubset_card_mono) auto
        then have "((card (R - fst ` set ?r), length ?q), (card (R - fst ` set result), length queue))
            \<in> less_than <*lex*> less_than" by simp
        then have "((card (R - fst ` set ?r), length ?q), (card (R - fst ` set result), length queue))
            \<in> {(x, y). x < y} <*lex*> {(x, y). x < y}" by auto
        note ih = "1.hyps" [OF this next_inv]
        have run: "walk_loop read None (\<lambda>_. False) queue visited result =
            walk_loop read None (\<lambda>_. False) ?q (insert (oid_str oid) visited) ?r"
          using Inr False Cons by simp
        show ?thesis using ih unfolding run by (auto simp: Cons)
      qed
    qed
  qed
qed

text \<open>The operations behind a head.\<close>

definition history_of :: "(git_oid \<Rightarrow> oplog_read_error + 'j operation) \<Rightarrow> git_oid \<Rightarrow> git_oid set" where
  "history_of read head = {oid. (head, oid) \<in> (parent_of read)\<^sup>*}"

lemma history_closed:
  "oid \<in> history_of read head \<Longrightarrow> read oid = Inr op \<Longrightarrow> set (op_parent_ids op) \<subseteq> history_of read head"
  by (auto simp: history_of_def parent_of_def intro: rtrancl_into_rtrancl)

lemma walk_inv_reach:
  assumes "walk_inv read R [] v res" "head \<in> fst ` set res" "oid \<in> history_of read head"
  shows "oid \<in> fst ` set res"
proof -
  note inv = walk_invD [OF assms(1)]
  have "(head, oid) \<in> (parent_of read)\<^sup>*" using assms(3) by (simp add: history_of_def)
  then show ?thesis
  proof (induction rule: rtrancl_induct)
    case base
    then show ?case by (rule assms(2))
  next
    case (step i j)
    from step.IH obtain p where p: "(i, p) \<in> set res" by auto
    with step.hyps(2) inv(4) have "j \<in> set (op_parent_ids p)" by (fastforce simp: parent_of_def)
    from inv(5) [OF p this] show ?case by simp
  qed
qed

section \<open>Linear logs\<close>

text \<open>A log newest first in which each operation names the one before it.\<close>

fun linked :: "(git_oid \<times> 'j operation) list \<Rightarrow> bool" where
  "linked [] \<longleftrightarrow> True"
| "linked ((_, op) # chain) \<longleftrightarrow>
     op_parent_ids op = (case chain of [] \<Rightarrow> [] | (p, _) # _ \<Rightarrow> [p]) \<and> linked chain"

text \<open>What a walk with a depth limit and a stop predicate keeps of a linear log.\<close>

fun walked_part :: "nat option \<Rightarrow> ('j operation \<Rightarrow> bool) \<Rightarrow> (git_oid \<times> 'j operation) list \<Rightarrow> (git_oid \<times> 'j operation) list" where
  "walked_part md stop [] = []"
| "walked_part md stop (x # chain) =
     (if md = Some 0 then []
      else x # (if stop (snd x) then [] else walked_part (map_option (\<lambda>m. m - 1) md) stop chain))"

lemma walked_part_all [simp]: "walked_part None (\<lambda>_. False) chain = chain"
  by (induction chain) auto

lemma walk_loop_linear:
  assumes "linked chain" "distinct (map fst chain)" "fst ` set chain \<inter> fst ` set result = {}"
    and "\<forall>(i, p) \<in> set chain. read i = Inr p" "chain \<noteq> []"
    and "visited = oid_str ` fst ` set result"
  shows "walk_loop read (map_option (\<lambda>m. length result + m) md) stop [fst (hd chain)] visited result =
    Some (Inr (result @ walked_part md stop chain))"
  using assms
proof (induction chain arbitrary: result visited md)
  case (Cons x chain)
  obtain i p where x: "x = (i, p)" by force
  have new: "oid_str i \<notin> visited" "i \<notin> fst ` set chain"
    using Cons.prems(2,3,6) by (auto simp: x dest: git_oid.expand)
  have parents: "op_parent_ids p = (case chain of [] \<Rightarrow> [] | y # _ \<Rightarrow> [fst y])"
    using Cons.prems(1) by (auto simp: x split: list.splits)
  have read: "read i = Inr p" using Cons.prems(4) by (simp add: x)
  show ?case
  proof (cases chain)
    case Nil
    then show ?thesis using new read parents by (cases md) (auto simp: x)
  next
    case (Cons y ys)
    then have fresh: "oid_str (fst y) \<notin> visited" "fst y \<noteq> i"
      using Cons.prems(2,3,6) by (auto simp: x dest: git_oid.expand)
    have ih: "walk_loop read (map_option (\<lambda>m. length (result @ [x]) + m) md') stop [fst (hd chain)]
        (insert (oid_str i) visited) (result @ [x]) = Some (Inr ((result @ [x]) @ walked_part md' stop chain))" for md'
      using Cons.prems Cons.IH [of "result @ [x]" "insert (oid_str i) visited" md'] \<open>chain = y # ys\<close>
      by (auto simp: x)
    show ?thesis
    proof (cases "md = Some 0")
      case False
      then have "map_option (\<lambda>m. length (result @ [x]) + m) (map_option (\<lambda>m. m - 1) md) =
          map_option (\<lambda>m. length result + m) md" by (cases md) auto
      note ih = ih [of "map_option (\<lambda>m. m - 1) md", unfolded this]
      have "oid_str (fst y) \<noteq> oid_str i" using fresh(2) by (auto dest: git_oid.expand)
      moreover have "\<not> (case map_option (\<lambda>m. length result + m) md of None \<Rightarrow> False | Some m \<Rightarrow> m \<le> length result)"
        using False by (cases md) auto
      ultimately have "walk_loop read (map_option (\<lambda>m. length result + m) md) stop [fst (hd (x # chain))] visited result =
          (if stop p then Some (Inr (result @ [x]))
           else walk_loop read (map_option (\<lambda>m. length result + m) md) stop [fst (hd chain)]
                  (insert (oid_str i) visited) (result @ [x]))"
        using False new(1) read parents fresh(1) \<open>chain = y # ys\<close>
        by (subst list.sel(1), subst x, subst walk_loop_simps(2)) (simp add: x del: walk_loop_simps(2))
      with ih False show ?thesis by (simp add: x del: walk_loop_simps(2))
    qed (simp add: x)
  qed
qed simp

text \<open>The log of a workspace in a repository state.\<close>

definition log_at ::
  "('s, 'j) oplog_env \<Rightarrow> path \<Rightarrow> workspace_id \<Rightarrow> 's \<Rightarrow> (git_oid \<times> 'j operation) list \<Rightarrow> bool" where
  "log_at env root w s chain \<longleftrightarrow>
     read_head env root w s = Inr (case chain of [] \<Rightarrow> None | (i, _) # _ \<Rightarrow> Some i)
   \<and> linked chain \<and> distinct (map fst chain)
   \<and> (\<forall>(i, p) \<in> set chain. git_oid_ok i \<and> i \<noteq> zero_oid \<and> read_operation env root i s = Inr p)"

lemma walk_log:
  assumes "log_at env root w s chain"
  shows "walk_chain env root w md stop s =
    Some (if chain = [] then Inl (OrNoHead w)
          else Inr (walked_part md (case stop of None \<Rightarrow> (\<lambda>_. False) | Some pred \<Rightarrow> pred) chain))"
proof (cases chain)
  case (Cons x xs)
  have "walk_loop (\<lambda>i. read_operation env root i s) md st [fst (hd chain)] {} [] =
      Some (Inr (walked_part md st chain))" for st
  proof -
    have "\<forall>(i, p) \<in> set chain. read_operation env root i s = Inr p"
      using assms by (auto simp: log_at_def)
    with assms Cons walk_loop_linear [of chain "[]" "\<lambda>i. read_operation env root i s" "{}" md st]
    show ?thesis by (simp add: log_at_def option.map_ident del: walk_loop_simps(2))
  qed
  then show ?thesis using assms Cons by (cases x) (simp add: walk_chain_def log_at_def split: option.splits del: walk_loop_simps(2))
qed (use assms in \<open>simp add: walk_chain_def log_at_def\<close>)

section \<open>Appending\<close>

lemma head_ref_name [simp]: "to_ref_name (workspace_head_ref n) = Inr (RefName (workspace_head_ref n))"
  by (rule to_ref_name_refs) (simp add: workspace_head_ref_def HEAD_PREFIX_def)

lemma head_ref_inj [simp]: "workspace_head_ref n = workspace_head_ref m \<longleftrightarrow> n = m"
  by (simp add: workspace_head_ref_def)

lemma read_head_cases:
  assumes "oplog_env_ok env view"
  shows "read_head env root w s =
    (case view s (workspace_head_ref (ws_str w)) of
       None \<Rightarrow> Inr None
     | Some raw \<Rightarrow> (case from_git_oid raw of Inl e \<Rightarrow> Inl (OrRef e) | Inr g \<Rightarrow> Inr (Some g)))"
  by (simp add: read_head_def read_ref_def read_ref_via_def open_repo_def oplog_env_okD [OF assms] lift_oid_def
      split: option.splits sum.splits)

lemma read_head_Some:
  assumes "oplog_env_ok env view" "read_head env root w s = Inr (Some h)" "git_oid_ok h"
  shows "\<exists>raw. to_git_oid h = Inr raw \<and> view s (workspace_head_ref (ws_str w)) = Some raw"
  using assms(2) unfolding read_head_cases [OF assms(1)]
  by (auto simp: from_git_oid_def split: option.splits sum.splits dest: to_git_oid_raw(1))

lemma read_operation_stable:
  assumes "\<And>o' d. ol_read_blob env o' s = Inr d \<Longrightarrow> ol_read_blob env o' s' = Inr d"
    and "rb_open (ol_refs env) root s' = None"
    and "read_operation env root i s = Inr p"
  shows "read_operation env root i s' = Inr p"
  using assms by (auto simp: read_operation_def read_operation_via_def split: option.splits sum.splits)

lemma zero_oid_raw: "to_git_oid zero_oid = Inr ZERO" "git_oid_ok zero_oid" "is_zero ZERO"
proof -
  show "to_git_oid zero_oid = Inr ZERO" by code_simp
  show "git_oid_ok zero_oid" by code_simp
  show "is_zero ZERO" by (simp add: is_zero_def)
qed

lemma write_operation_blob_cases:
  assumes ok: "oplog_env_ok env view" and run: "write_operation_blob env root op s = (r, s')"
  shows "view s' = view s"
    and "ol_read_blob env o' s = Inr d \<Longrightarrow> ol_read_blob env o' s' = Inr d"
    and "r = Inr g \<Longrightarrow> git_oid_ok g \<and> g \<noteq> zero_oid \<and> read_operation env root g s' = Inr op \<and> (\<exists>raw. to_git_oid g = Inr raw)"
proof -
  note env = oplog_env_okD [OF ok]
  have "view s' = view s \<and> (ol_read_blob env o' s = Inr d \<longrightarrow> ol_read_blob env o' s' = Inr d)"
    using run env(4,5)
    by (auto simp: write_operation_blob_def write_operation_blob_via_def env(2) split: sum.splits prod.splits)
  then show "view s' = view s" "ol_read_blob env o' s = Inr d \<Longrightarrow> ol_read_blob env o' s' = Inr d" by auto
  assume "r = Inr g"
  with run obtain json raw where written: "ol_print env op = Inr json" "ol_write_blob env json s = (Inr raw, s')"
      "git_oid_new (raw_oid_str raw) = Inr g"
    by (auto simp: write_operation_blob_def write_operation_blob_via_def env(2) to_canonical_json_def
        split: sum.splits prod.splits)
  have "g \<noteq> zero_oid"
    using env(7) [OF written(2)] to_git_oid_raw(1) [OF written(3)] zero_oid_raw(1) by (auto simp: is_zero_def)
  with written show "git_oid_ok g \<and> g \<noteq> zero_oid \<and> read_operation env root g s' = Inr op \<and> (\<exists>raw. to_git_oid g = Inr raw)"
    using env(6,9) to_git_oid_raw
    by (auto simp: read_operation_def read_operation_via_def env(2) operation_from_json_def)
qed

text \<open>What a compare-and-swap of a head reference does over a store that keeps its contract.\<close>

lemma write_head_cas_cases:
  assumes ok: "oplog_env_ok env view" and old: "to_git_oid old = Inr raw_old" and new: "to_git_oid new = Inr raw"
    and run: "write_ref_cas (ol_refs env) root (workspace_head_ref n) old new s = (r, s')"
  shows "ol_read_blob env o' s' = ol_read_blob env o' s"
    and "isl r \<Longrightarrow> view s' = view s"
    and "\<not> isl r \<Longrightarrow> view s' = (view s)(workspace_head_ref n \<mapsto> raw)
           \<and> view s (workspace_head_ref n) = (if is_zero raw_old then None else Some raw_old)"
proof -
  note env = oplog_env_okD [OF ok]
  let ?es = "[\<lparr>re_name = RefName (workspace_head_ref n), re_new_oid = raw, re_expected_old_oid = raw_old\<rparr>]"
  obtain q t where up: "rb_atomic_ref_update (ol_refs env) ?es s = (q, t)" by force
  have run': "(r, s') = (if is_zero raw_old \<and> (case rb_read_ref (ol_refs env) (RefName (workspace_head_ref n)) s of
        Inr (Some _) \<Rightarrow> True | _ \<Rightarrow> False) then (Inl (CasMismatch (workspace_head_ref n)), s)
      else (map_err (map_git_error (workspace_head_ref n)) q, t))"
    using run old new up by (auto simp: write_ref_cas_def write_ref_cas_via_def open_repo_def env(2) split: if_splits)
  have failed: "isl q \<Longrightarrow> view t = view s"
    using env(1) up unfolding ref_backend_ok_def by (metis sum.collapse(1))
  have moved: "\<not> isl q \<Longrightarrow> (\<forall>e \<in> set ?es. edit_matches (view s) e) \<and> view t = apply_edits ?es (view s)"
    using env(1) up unfolding ref_backend_ok_def by (metis (full_types) old.unit.exhaust sum.collapse(2))
  show "ol_read_blob env o' s' = ol_read_blob env o' s"
    using run' env(8) [OF up] by (auto split: if_splits)
  show "isl r \<Longrightarrow> view s' = view s"
    using run' failed by (cases q) (auto simp: map_err_def split: if_splits)
  show "\<not> isl r \<Longrightarrow> view s' = (view s)(workspace_head_ref n \<mapsto> raw)
      \<and> view s (workspace_head_ref n) = (if is_zero raw_old then None else Some raw_old)"
    using run' moved by (cases q) (auto simp: map_err_def apply_edits_def edit_matches_def split: if_splits)
qed

lemma linked_parent:
  "linked (x # chain) \<Longrightarrow> (i, p) \<in> set (x # chain) \<Longrightarrow> set (op_parent_ids p) \<subseteq> fst ` set chain"
proof (induction chain arbitrary: x)
  case (Cons y chain)
  obtain j q where x: "x = (j, q)" by force
  from Cons.prems(2) consider "(i, p) = x" | "(i, p) \<in> set (y # chain)" by auto
  then show ?case
  proof cases
    case 1
    with Cons.prems(1) show ?thesis by (cases y) (auto simp: x)
  next
    case 2
    from Cons.IH [OF _ this] Cons.prems(1) show ?thesis by (auto simp: x)
  qed
qed (auto split: prod.splits)

lemma log_at_stable:
  assumes ok: "oplog_env_ok env view" and log: "log_at env root w s chain"
    and "\<And>o' d. ol_read_blob env o' s = Inr d \<Longrightarrow> ol_read_blob env o' s' = Inr d"
    and "view s' (workspace_head_ref (ws_str w)) = view s (workspace_head_ref (ws_str w))"
  shows "log_at env root w s' chain"
  using log read_operation_stable [OF assms(3) oplog_env_okD(2) [OF ok]]
  by (auto simp: log_at_def read_head_cases [OF ok] assms(4))

text \<open>An append as a whole: it fails without touching a reference, or the new operation is stored and the
  head has moved from the expected id to it.\<close>

lemma append_cases:
  assumes ok: "oplog_env_ok env view" and old: "\<forall>h. old_head = Some h \<longrightarrow> git_oid_ok h"
    and run: "append_operation env root w op old_head s = (r, s')"
  shows "ol_read_blob env o' s = Inr d \<Longrightarrow> ol_read_blob env o' s' = Inr d"
    and "isl r \<Longrightarrow> view s' = view s"
    and "r = Inr new \<Longrightarrow> git_oid_ok new \<and> new \<noteq> zero_oid \<and> read_operation env root new s' = Inr op
          \<and> (\<exists>raw raw_old. to_git_oid new = Inr raw \<and> view s' = (view s)(workspace_head_ref (ws_str w) \<mapsto> raw)
               \<and> to_git_oid (case old_head of None \<Rightarrow> zero_oid | Some h \<Rightarrow> h) = Inr raw_old
               \<and> view s (workspace_head_ref (ws_str w)) = (if is_zero raw_old then None else Some raw_old))"
proof -
  obtain r1 s1 where wr: "write_operation_blob env root op s = (r1, s1)" by force
  note w1 = write_operation_blob_cases [OF ok wr]
  let ?old = "case old_head of None \<Rightarrow> zero_oid | Some h \<Rightarrow> h"
  obtain raw_old where raw_old: "to_git_oid ?old = Inr raw_old"
    using zero_oid_raw(1) to_git_oid_ok old by (cases old_head) auto
  show "ol_read_blob env o' s = Inr d \<Longrightarrow> ol_read_blob env o' s' = Inr d"
    "isl r \<Longrightarrow> view s' = view s"
    "r = Inr new \<Longrightarrow> git_oid_ok new \<and> new \<noteq> zero_oid \<and> read_operation env root new s' = Inr op
          \<and> (\<exists>raw raw_old. to_git_oid new = Inr raw \<and> view s' = (view s)(workspace_head_ref (ws_str w) \<mapsto> raw)
               \<and> to_git_oid ?old = Inr raw_old
               \<and> view s (workspace_head_ref (ws_str w)) = (if is_zero raw_old then None else Some raw_old))"
  proof (goal_cases)
    case 1
    show ?case
    proof (cases r1)
      case (Inl e)
      with run wr w1(2) 1 show ?thesis by (auto simp: append_operation_def)
    next
      case (Inr g)
      with w1(3) obtain raw where raw: "to_git_oid g = Inr raw" by auto
      from Inr run wr obtain q where
        "write_ref_cas (ol_refs env) root (workspace_head_ref (ws_str w)) ?old g s1 = (q, s')"
        by (auto simp: append_operation_def split: sum.splits prod.splits)
      from write_head_cas_cases(1) [OF ok raw_old raw this] w1(2) [OF 1] show ?thesis by simp
    qed
  next
    case 2
    show ?case
    proof (cases r1)
      case (Inl e)
      with run wr w1(1) show ?thesis by (auto simp: append_operation_def)
    next
      case (Inr g)
      with w1(3) obtain raw where raw: "to_git_oid g = Inr raw" by auto
      from Inr run wr 2 obtain q where "isl q"
        "write_ref_cas (ol_refs env) root (workspace_head_ref (ws_str w)) ?old g s1 = (q, s')"
        by (auto simp: append_operation_def split: sum.splits prod.splits)
      from write_head_cas_cases(2) [OF ok raw_old raw this(2,1)] w1(1) show ?thesis by simp
    qed
  next
    case 3
    with run wr obtain u where r1: "r1 = Inr new"
      and cas: "write_ref_cas (ol_refs env) root (workspace_head_ref (ws_str w)) ?old new s1 = (Inr u, s')"
      by (auto simp: append_operation_def split: sum.splits prod.splits)
    from w1(3) [OF r1] obtain raw where raw: "to_git_oid new = Inr raw" "git_oid_ok new" "new \<noteq> zero_oid"
      and read: "read_operation env root new s1 = Inr op" by auto
    note cas' = write_head_cas_cases [OF ok raw_old raw(1) cas]
    have "read_operation env root new s' = Inr op"
      by (rule read_operation_stable [OF _ _ read]) (simp_all add: cas'(1) oplog_env_okD(2) [OF ok])
    with raw raw_old cas'(3) w1(1) show ?case by auto
  qed
qed

text \<open>The log after an append.\<close>

lemma append_operation_log:
  assumes ok: "oplog_env_ok env view" and logs: "\<forall>v. log_at env root v s (logs v)"
    and old: "\<forall>h. old_head = Some h \<longrightarrow> git_oid_ok h \<and> h \<noteq> zero_oid"
    and parents: "op_parent_ids op = (case old_head of None \<Rightarrow> [] | Some h \<Rightarrow> [h])"
    and run: "append_operation env root w op old_head s = (r, s')"
  shows "case r of
      Inl _ \<Rightarrow> \<forall>v. log_at env root v s' (logs v)
    | Inr new \<Rightarrow> old_head = (case logs w of [] \<Rightarrow> None | (h, _) # _ \<Rightarrow> Some h)
        \<and> walk_all env root w s' = Some (Inr ((new, op) # logs w))
        \<and> (\<forall>v. log_at env root v s' (if v = w then (new, op) # logs w else logs v))"
proof -
  have oldok: "\<forall>h. old_head = Some h \<longrightarrow> git_oid_ok h" using old by simp
  note cases = append_cases [OF ok oldok run]
  show ?thesis
  proof (cases r)
    case (Inl e)
    have "log_at env root v s' (logs v)" for v
      by (rule log_at_stable [OF ok]) (use logs cases(1,2) Inl in auto)
    with Inl show ?thesis by simp
  next
    case (Inr new)
    from cases(3) [OF this] obtain raw raw_old where new: "git_oid_ok new" "new \<noteq> zero_oid"
        "read_operation env root new s' = Inr op" "to_git_oid new = Inr raw"
      and view: "view s' = (view s)(workspace_head_ref (ws_str w) \<mapsto> raw)"
      and raw_old: "to_git_oid (case old_head of None \<Rightarrow> zero_oid | Some h \<Rightarrow> h) = Inr raw_old"
      and head: "view s (workspace_head_ref (ws_str w)) = (if is_zero raw_old then None else Some raw_old)"
      by blast
    have log: "log_at env root w s (logs w)" using logs by simp
    have zero: "is_zero raw_old \<longleftrightarrow> old_head = None"
    proof (cases old_head)
      case (Some h)
      then have "raw_old \<noteq> ZERO"
        using to_git_oid_inj [of h zero_oid raw_old] old zero_oid_raw raw_old by auto
      with Some show ?thesis by (simp add: is_zero_def)
    qed (use raw_old zero_oid_raw in auto)
    have head_is: "old_head = (case logs w of [] \<Rightarrow> None | (h, _) # _ \<Rightarrow> Some h)"
    proof -
      have "read_head env root w s = Inr old_head"
        using head zero raw_old to_git_oid_ok oldok
        by (cases old_head) (fastforce simp: read_head_cases [OF ok])+
      with log show ?thesis by (simp add: log_at_def)
    qed
    have reads: "read_operation env root i s' = Inr p" if "(i, p) \<in> set (logs w)" for i p
      by (rule read_operation_stable [OF cases(1) oplog_env_okD(2) [OF ok]]) (use that log in \<open>auto simp: log_at_def\<close>)
    have fresh: "new \<notin> fst ` set (logs w)"
    proof
      assume "new \<in> fst ` set (logs w)"
      then obtain p where p: "(new, p) \<in> set (logs w)" by auto
      with reads new(3) have "p = op" by simp
      obtain h q chain where chain: "logs w = (h, q) # chain" using p by (cases "logs w") auto
      have "h \<in> fst ` set chain"
        using linked_parent [of "(h, q)" chain new p] p log parents head_is \<open>p = op\<close>
        by (simp add: chain log_at_def)
      with log show False by (simp add: chain log_at_def)
    qed
    have "log_at env root w s' ((new, op) # logs w)"
      using log fresh reads new parents head_is to_git_oid_ok [OF new(1)]
      by (auto simp: log_at_def read_head_cases [OF ok] view split: list.splits)
    moreover have "log_at env root v s' (logs v)" if "v \<noteq> w" for v
    proof (rule log_at_stable [OF ok])
      show "view s' (workspace_head_ref (ws_str v)) = view s (workspace_head_ref (ws_str v))"
        using that by (auto simp: view dest: workspace_id.expand)
    qed (use logs cases(1) in auto)
    ultimately show ?thesis
      using Inr head_is walk_log [of env root w s' "(new, op) # logs w" None None]
      by (simp add: walk_all_def)
  qed
qed

section \<open>Properties\<close>

text \<open>C38. Walking a log whose history is finite returns: either with every operation reachable from the head
  exactly once, as it is stored, or with the error of an operation of that history that cannot be read.\<close>

theorem walk_all_lists_history:
  fixes env :: "('s, 'j) oplog_env"
  defines "stored \<equiv> \<lambda>s root i. read_operation env root i s"
  assumes "read_head env root w s = Inr (Some head)" "finite (history_of (stored s root) head)"
  shows "(\<exists>ops. walk_all env root w s = Some (Inr ops) \<and> distinct (map fst ops)
            \<and> fst ` set ops = history_of (stored s root) head
            \<and> (\<forall>(i, p) \<in> set ops. read_operation env root i s = Inr p))
    \<or> (\<exists>i \<in> history_of (stored s root) head. \<exists>e. read_operation env root i s = Inl e
          \<and> walk_all env root w s = Some (Inl e))"
proof -
  let ?read = "\<lambda>i. read_operation env root i s"
  have head: "head \<in> history_of ?read head" by (simp add: history_of_def)
  then have "walk_inv ?read (history_of ?read head) [head] {} []" by (simp add: walk_inv_def)
  note run = walk_loop_total [OF assms(3) [unfolded stored_def] history_closed this]
  have all: "walk_all env root w s = walk_loop ?read None (\<lambda>_. False) [head] {} []"
    using assms(2) by (simp only: walk_all_def walk_chain_def sum.case option.case)
  from run show ?thesis
  proof
    assume "\<exists>res. walk_loop ?read None (\<lambda>_. False) [head] {} [] = Some (Inr res)
       \<and> (\<exists>v. walk_inv ?read (history_of ?read head) [] v res) \<and> fst ` set [] \<union> set [head] \<subseteq> fst ` set res"
    then obtain res v where res: "walk_loop ?read None (\<lambda>_. False) [head] {} [] = Some (Inr res)"
      and inv: "walk_inv ?read (history_of ?read head) [] v res" and start: "head \<in> fst ` set res" by auto
    have "fst ` set res = history_of ?read head"
      using walk_invD(3) [OF inv] walk_inv_reach [OF inv start] by auto
    with res walk_invD(2,4) [OF inv] show ?thesis
      unfolding all stored_def by (intro disjI1 exI [of _ res] conjI) auto
  qed (auto simp: all stored_def)
qed

text \<open>C32. An append to the log of one workspace leaves the logs of all workspaces as they are when it fails.
  When it succeeds the expected head was the head, and the log that a walk lists afterwards is the old one
  with the new operation in front; the other logs are as they were.\<close>

theorem append_extends_log:
  assumes ok: "oplog_env_ok env view" and logs: "\<forall>v. log_at env root v s (logs v)"
    and old: "\<forall>h. old_head = Some h \<longrightarrow> git_oid_ok h \<and> h \<noteq> zero_oid"
    and parents: "op_parent_ids op = (case old_head of None \<Rightarrow> [] | Some h \<Rightarrow> [h])"
    and run: "append_operation env root w op old_head s = (r, s')"
  shows "case r of
      Inl _ \<Rightarrow> \<forall>v. log_at env root v s' (logs v)
    | Inr new \<Rightarrow> old_head = (case logs w of [] \<Rightarrow> None | (h, _) # _ \<Rightarrow> Some h)
        \<and> walk_all env root w s' = Some (Inr ((new, op) # logs w))
        \<and> (\<forall>v. log_at env root v s' (if v = w then (new, op) # logs w else logs v))"
  by (rule append_operation_log [OF assms])

section \<open>Witnesses\<close>

text \<open>A store in memory: references in a map, blobs under consecutive ids, operations printed by a table.\<close>

type_synonym mem_store = "(string, raw_oid) btree \<times> (raw_oid \<times> string) list"

definition on_refs :: "((string, raw_oid) btree \<Rightarrow> 'a \<times> (string, raw_oid) btree) \<Rightarrow> mem_store \<Rightarrow> 'a \<times> mem_store" where
  "on_refs f = (\<lambda>(refs, blobs). case f refs of (r, refs') \<Rightarrow> (r, refs', blobs))"

definition mem_oplog :: "(string \<times> 'j operation) list \<Rightarrow> (mem_store, 'j) oplog_env" where
  "mem_oplog table =
     \<lparr>ol_refs =
        \<lparr>rb_open = (\<lambda>root s. None),
         rb_read_ref = (\<lambda>n s. Inr (bm_get (fst s) (ref_str n))),
         rb_write_ref = (\<lambda>n oid msg. on_refs (rb_write_ref mem_backend n oid msg)),
         rb_delete_ref = (\<lambda>n. on_refs (rb_delete_ref mem_backend n)),
         rb_atomic_ref_update = (\<lambda>es. on_refs (rb_atomic_ref_update mem_backend es)),
         rb_rev_parse_opt = (\<lambda>spec s. Inr (bm_get (fst s) spec))\<rparr>,
      ol_read_blob = (\<lambda>oid s. ok_or (GitNotFound ''blob'') (map_of (snd s) oid)),
      ol_write_blob = (\<lambda>data s.
        let oid = RawOid (replicate 19 0 @ [word_of_nat (Suc (length (snd s)))])
        in if map_of (snd s) oid = None \<and> \<not> is_zero oid then (Inr oid, fst s, (oid, data) # snd s)
           else (Inl (BackendError ''full''), s)),
      ol_print = (\<lambda>op. case find (\<lambda>(k, p). p = op \<and> map_of table k = Some op) table of
        Some (k, _) \<Rightarrow> Inr k | None \<Rightarrow> Inl ''unknown''),
      ol_parse = (\<lambda>k. ok_or ''unknown'' (map_of table k))\<rparr>"

definition mem_view :: "mem_store \<Rightarrow> string \<Rightarrow> raw_oid option" where
  "mem_view s = bm_get (fst s)"

lemma mem_oplog_refs:
  "rb_atomic_ref_update (ol_refs (mem_oplog table)) es s = (r, s') \<longleftrightarrow>
     rb_atomic_ref_update mem_backend es (fst s) = (r, fst s') \<and> snd s' = snd s"
  by (cases s; cases s') (auto simp: mem_oplog_def on_refs_def split: prod.splits)

lemma mem_oplog_write:
  "ol_write_blob (mem_oplog table) data s = (r, s') \<Longrightarrow>
     fst s' = fst s \<and> (map_of (snd s) o' = Some d \<longrightarrow> map_of (snd s') o' = Some d)
     \<and> (\<forall>oid. r = Inr oid \<longrightarrow> map_of (snd s') oid = Some data \<and> \<not> is_zero oid)"
  by (auto simp: mem_oplog_def Let_def split: if_splits)

lemma mem_oplog_ok: "oplog_env_ok (mem_oplog table) mem_view"
proof -
  note refs = mem_backend_ok [unfolded ref_backend_ok_def]
  have "ref_backend_ok (ol_refs (mem_oplog table)) mem_view"
    unfolding ref_backend_ok_def mem_view_def mem_oplog_refs
  proof (intro conjI allI impI)
    show "rb_read_ref (ol_refs (mem_oplog table)) n s = Inr x \<Longrightarrow> x = bm_get (fst s) (ref_str n)" for n s x
      by (simp add: mem_oplog_def)
    show "rb_read_ref (ol_refs (mem_oplog table)) n s = Inl (GitNotFound m) \<Longrightarrow> bm_get (fst s) (ref_str n) = None"
      for n s m by (simp add: mem_oplog_def)
  qed (use refs in blast)+
  note backend = this
  have reads: "ol_read_blob (mem_oplog table) o' s = Inr d \<longleftrightarrow> map_of (snd s) o' = Some d" for o' s d
    by (simp add: mem_oplog_def ok_or_eq_Inr)
  show ?thesis
    unfolding oplog_env_ok_def reads
  proof (intro conjI allI impI)
    show "rb_open (ol_refs (mem_oplog table)) root s = None" for root s by (simp add: mem_oplog_def)
    show "rb_read_ref (ol_refs (mem_oplog table)) n s = Inr (mem_view s (ref_str n))" for n s
      by (simp add: mem_oplog_def mem_view_def)
    show "ol_parse (mem_oplog table) json = Inr op" if "ol_print (mem_oplog table) op = Inr json" for op json
      using that by (auto simp: mem_oplog_def find_Some_iff split: option.splits)
    show "mem_view s' = mem_view s" if "ol_write_blob (mem_oplog table) data s = (r, s')" for data s r s'
      using mem_oplog_write [OF that] by (simp add: mem_view_def)
    show "map_of (snd s') o' = Some d"
      if "ol_write_blob (mem_oplog table) data s = (r, s')" "map_of (snd s) o' = Some d" for data s r s' o' d
      using mem_oplog_write [OF that(1)] that(2) by simp
    show "map_of (snd s') oid = Some data" "\<not> is_zero oid"
      if "ol_write_blob (mem_oplog table) data s = (Inr oid, s')" for data s oid s'
      using mem_oplog_write [OF that] by simp_all
    show "ol_read_blob (mem_oplog table) o' s' = ol_read_blob (mem_oplog table) o' s"
      if "rb_atomic_ref_update (ol_refs (mem_oplog table)) es s = (r, s')" for es s r s' o'
      using that mem_oplog_refs [of table es s r s'] by (simp add: mem_oplog_def)
  qed (rule backend)
qed

definition sample_op :: "git_oid list \<Rightarrow> unit op_payload \<Rightarrow> unit operation" where
  "sample_op parents payload = \<lparr>op_parent_ids = parents, op_workspace_id = sample_ws ''alice'',
     op_timestamp = ''2025-01-01T00:00:00Z'', op_payload_of = payload\<rparr>"

definition mem_id :: "nat \<Rightarrow> git_oid" where
  "mem_id n = GitOid (raw_oid_str (RawOid (replicate 19 0 @ [word_of_nat n])))"

abbreviation "sample_table \<equiv>
  [(''create'', sample_op [] (OpCreate (sample_epoch CHR ''a''))),
   (''describe'', sample_op [mem_id 1] (OpDescribe ''work''))]"

abbreviation "sample_log_store \<equiv>
  snd (append_operation (mem_oplog sample_table) [] (sample_ws ''alice'')
    (sample_op [] (OpCreate (sample_epoch CHR ''a''))) None (bm_empty, []))"

lemma sample_log_empty: "\<forall>v. log_at (mem_oplog sample_table) [] v (bm_empty, []) []"
  by (simp add: log_at_def read_head_cases [OF mem_oplog_ok] mem_view_def)

lemma append_extends_log_witness:
  "walk_all (mem_oplog sample_table) [] (sample_ws ''alice'') sample_log_store =
     Some (Inr [(mem_id 1, sample_op [] (OpCreate (sample_epoch CHR ''a'')))])"
proof -
  have "fst (append_operation (mem_oplog sample_table) [] (sample_ws ''alice'')
      (sample_op [] (OpCreate (sample_epoch CHR ''a''))) None (bm_empty, [])) = Inr (mem_id 1)"
    by code_simp
  then have run: "append_operation (mem_oplog sample_table) [] (sample_ws ''alice'')
      (sample_op [] (OpCreate (sample_epoch CHR ''a''))) None (bm_empty, []) = (Inr (mem_id 1), sample_log_store)"
    by (metis prod.collapse)
  show ?thesis
    using append_extends_log [OF mem_oplog_ok sample_log_empty _ _ run] by (simp add: sample_op_def)
qed

lemma walk_all_lists_history_witness:
  "\<exists>r. walk_all (mem_oplog sample_table) [] (sample_ws ''alice'') sample_log_store = Some r"
proof -
  let ?read = "\<lambda>i. read_operation (mem_oplog sample_table) [] i sample_log_store"
  have head: "read_head (mem_oplog sample_table) [] (sample_ws ''alice'') sample_log_store = Inr (Some (mem_id 1))"
    by code_simp
  have "?read (mem_id 1) = Inr (sample_op [] (OpCreate (sample_epoch CHR ''a'')))"
    by code_simp
  then have root: "(mem_id 1, i) \<notin> parent_of ?read" for i
    unfolding parent_of_def mem_Collect_eq case_prod_conv by (simp add: sample_op_def)
  have "history_of ?read (mem_id 1) \<subseteq> {mem_id 1}"
  proof
    fix i assume "i \<in> history_of ?read (mem_id 1)"
    then have "(mem_id 1, i) \<in> (parent_of ?read)\<^sup>*" by (simp add: history_of_def)
    then show "i \<in> {mem_id 1}"
      by (induction rule: rtrancl_induct) (use root in auto)
  qed
  then have "finite (history_of ?read (mem_id 1))" by (rule finite_subset) simp
  from walk_all_lists_history [OF head this] show ?thesis by blast
qed

end
