(* ===== verification/Oplog_Facts.thy ===== *)
theory Oplog_Facts
  imports Oplog_Checkpoint Oplog_Log
begin

text \<open>
  Checkpoints and the full log agree: what replaying from the newest checkpoint gives, what every append of
  the runtime keeps, and what compaction does to both.
\<close>

section \<open>Views up to what a checkpoint leaves out\<close>

text \<open>A checkpoint drops the checkpoint annotations and restarts the count.\<close>

definition essence :: "'j materialized_view \<Rightarrow> 'j materialized_view" where
  "essence v = v\<lparr>mv_op_count := 0,
     mv_annotations := bm_filter (\<lambda>k _. k \<noteq> CHECKPOINT_KEY) (mv_annotations v)\<rparr>"

text \<open>Object ids that came through the validating constructors.\<close>

fun payload_ok :: "'j op_payload \<Rightarrow> bool" where
  "payload_ok (OpCreate e) \<longleftrightarrow> git_oid_ok (epoch_oid e)"
| "payload_ok (OpSnapshot oid) \<longleftrightarrow> git_oid_ok oid"
| "payload_ok (OpMerge _ _ e) \<longleftrightarrow> git_oid_ok (epoch_oid e)"
| "payload_ok _ \<longleftrightarrow> True"

definition view_ok :: "'j materialized_view \<Rightarrow> bool" where
  "view_ok v \<longleftrightarrow> workspace_name_ok (ws_str (mv_workspace_id v))
     \<and> (\<forall>e. mv_epoch v = Some e \<longrightarrow> git_oid_ok (epoch_oid e))
     \<and> (\<forall>g. mv_patch_set_oid v = Some g \<longrightarrow> git_oid_ok g)"

lemma bm_filter_insert_out: "\<not> P k x \<Longrightarrow> bm_filter P (bm_insert k x m) = bm_filter P (bm_remove k m)"
  by (rule bm.eqI) (auto split: option.splits)

lemma bm_filter_cong_insert:
  "bm_filter P a = bm_filter P b \<Longrightarrow> bm_filter P (bm_insert k x a) = bm_filter P (bm_insert k x b)"
proof (rule bm.eqI)
  fix j assume "bm_filter P a = bm_filter P b"
  then have "bm_get (bm_filter P a) j = bm_get (bm_filter P b) j" by simp
  then show "bm_get (bm_filter P (bm_insert k x a)) j = bm_get (bm_filter P (bm_insert k x b)) j"
    by (auto split: option.splits if_splits)
qed

lemma bm_filter_filter: "bm_filter P (bm_filter P m) = bm_filter P m"
  by (rule bm.eqI) (auto split: option.splits)

lemma bm_filter_key_insert: "bm_filter (\<lambda>j _. j \<noteq> k) (bm_insert k x m) = bm_filter (\<lambda>j _. j \<noteq> k) m"
  by (rule bm.eqI) (auto split: option.splits)

lemma essence_idem [simp]: "essence (essence v) = essence v"
  by (simp add: essence_def bm_filter_filter)

lemma essence_count [simp]: "essence (v\<lparr>mv_op_count := n\<rparr>) = essence v"
  by (simp add: essence_def)

lemma to_view_from_view:
  assumes "view_ok v"
  shows "to_view (from_view v) n = Inr (essence v\<lparr>mv_op_count := n\<rparr>)"
proof -
  have "transpose_opt epoch_id_new (map_option epoch_str (mv_epoch v)) = Inr (mv_epoch v)"
  proof (cases "mv_epoch v")
    case (Some e)
    with assms have "epoch_id_new (epoch_str e) = Inr e"
      by (cases e) (auto simp: view_ok_def result_simps epoch_str_def)
    with Some show ?thesis by simp
  qed simp
  moreover have "transpose_opt git_oid_new (map_option oid_str (mv_patch_set_oid v)) = Inr (mv_patch_set_oid v)"
  proof (cases "mv_patch_set_oid v")
    case (Some g)
    with assms have "git_oid_new (oid_str g) = Inr g" by (auto simp: view_ok_def result_simps)
    with Some show ?thesis by simp
  qed simp
  moreover have "workspace_id_new (ws_str (mv_workspace_id v)) = Inr (mv_workspace_id v)"
    using assms by (simp add: view_ok_def result_simps)
  ultimately show ?thesis
    by (cases v) (simp add: to_view_def from_view_def essence_def)
qed

lemma apply_operation_ok:
  "apply_operation rd x v = Inr v' \<Longrightarrow> view_ok v \<Longrightarrow> payload_ok (op_payload_of (snd x)) \<Longrightarrow> view_ok v'"
  by (cases x; cases "op_payload_of (snd x)") (auto simp: apply_operation_def result_simps view_ok_def)

text \<open>The two replays of an operation that is no checkpoint do the same to views that agree.\<close>

lemma replay_single_op_apply:
  "replay_single_op rd x v = (case apply_operation rd x v of Inl e \<Rightarrow> Inl (CpView e) | Inr v' \<Rightarrow> Inr v')"
  by (cases x; cases "op_payload_of (snd x)") (auto simp: replay_single_op_def apply_operation_def split: sum.splits)

lemma essence_eq_iff:
  "essence a = essence b \<longleftrightarrow> mv_workspace_id a = mv_workspace_id b \<and> mv_epoch a = mv_epoch b
     \<and> mv_patch_set a = mv_patch_set b \<and> mv_patch_set_oid a = mv_patch_set_oid b
     \<and> mv_description a = mv_description b \<and> mv_is_destroyed a = mv_is_destroyed b
     \<and> bm_filter (\<lambda>k _. k \<noteq> CHECKPOINT_KEY) (mv_annotations a) = bm_filter (\<lambda>k _. k \<noteq> CHECKPOINT_KEY) (mv_annotations b)"
  by (cases a; cases b) (auto simp: essence_def)

lemma apply_payload_essence:
  assumes "essence a = essence b" "apply_payload rd p a = Inr a'"
  shows "\<exists>b'. apply_payload rd p b = Inr b' \<and> essence a' = essence b' \<and> mv_op_count b' = mv_op_count b"
  using assms unfolding essence_eq_iff
  by (cases p) (auto simp: result_simps intro: bm_filter_cong_insert)

lemma apply_operation_essence:
  assumes "essence a = essence b" "apply_operation rd x a = Inr a'"
  shows "\<exists>b'. apply_operation rd x b = Inr b' \<and> essence a' = essence b' \<and> mv_op_count b' = Suc (mv_op_count b)"
  using apply_payload_essence [of "a\<lparr>mv_op_count := mv_op_count a + 1\<rparr>" "b\<lparr>mv_op_count := mv_op_count b + 1\<rparr>"] assms
  by (auto simp: apply_operation_def split: prod.splits)

lemma apply_checkpoint_essence:
  "is_checkpoint (snd x) \<Longrightarrow> apply_operation rd x v = Inr v' \<Longrightarrow> essence v' = essence v"
  by (cases x; cases "op_payload_of (snd x)")
    (auto simp: is_checkpoint_def apply_operation_def essence_def bm_filter_key_insert)

lemma replay_after_run:
  "\<forall>x \<in> set ops. \<not> is_checkpoint (snd x) \<Longrightarrow> essence a = essence b \<Longrightarrow>
   res_fold (apply_operation rd) ops a = Inr a' \<Longrightarrow>
   \<exists>b'. res_fold (replay_after rd) ops b = Inr b' \<and> essence a' = essence b' \<and> mv_op_count b' = mv_op_count b + length ops"
proof (induction ops arbitrary: a b)
  case (Cons x ops)
  from Cons.prems(3) obtain a1 where a1: "apply_operation rd x a = Inr a1"
    and rest: "res_fold (apply_operation rd) ops a1 = Inr a'" by (auto simp: result_simps)
  from apply_operation_essence [OF Cons.prems(2) a1] obtain b1 where
    b1: "apply_operation rd x b = Inr b1" "essence a1 = essence b1" "mv_op_count b1 = Suc (mv_op_count b)" by auto
  have "replay_after rd x b = Inr b1"
    using Cons.prems(1) b1 by (simp add: replay_after_def replay_single_op_apply)
  with Cons.IH [OF _ b1(2) rest] Cons.prems(1) b1(3) show ?case by auto
qed auto

section \<open>Logs whose checkpoints are true\<close>

text \<open>Newest first: each checkpoint of the log records the view that the log below it gives.\<close>

fun true_log ::
  "('s, 'j) checkpoint_env \<Rightarrow> workspace_id \<Rightarrow> patch_set_reader \<Rightarrow> (git_oid \<times> 'j operation) list \<Rightarrow> bool" where
  "true_log ce w rd [] \<longleftrightarrow> True"
| "true_log ce w rd (x # chain) \<longleftrightarrow> true_log ce w rd chain \<and> payload_ok (op_payload_of (snd x))
     \<and> (is_checkpoint (snd x) \<longrightarrow>
          (\<exists>v trigger object. view_of_chain ce w rd chain = Inr v
             \<and> ce_encode ce \<lparr>cd_view = from_view v, cd_op_count = mv_op_count v, cd_trigger_oid = trigger\<rparr> = Some object
             \<and> op_payload_of (snd x) = OpAnnotate CHECKPOINT_KEY object))"

definition checkpoint_codec_ok :: "('s, 'j) checkpoint_env \<Rightarrow> bool" where
  "checkpoint_codec_ok ce \<longleftrightarrow> (\<forall>d object. ce_encode ce d = Some object \<longrightarrow> ce_decode ce object = Some d)"

lemma checkpoint_idx_split:
  "\<forall>x \<in> set post. \<not> is_checkpoint (snd x) \<Longrightarrow> is_checkpoint (snd cp) \<Longrightarrow>
   checkpoint_idx i (post @ cp # pre) = Some (i + length post)"
proof (induction post arbitrary: i)
  case Nil
  then show ?case by (cases cp) simp
next
  case (Cons x post)
  then show ?case by (cases x) simp
qed

lemma checkpoint_idx_None: "checkpoint_idx i chain = None \<longleftrightarrow> (\<forall>x \<in> set chain. \<not> is_checkpoint (snd x))"
proof (induction chain arbitrary: i)
  case (Cons x chain)
  then show ?case by (cases x) simp
qed simp

lemma newest_checkpoint:
  fixes chain :: "(git_oid \<times> 'j operation) list"
  obtains (no_checkpoint) "\<forall>x \<in> set chain. \<not> is_checkpoint (snd x)"
  | (split) post cp pre where "chain = post @ cp # pre" "\<forall>x \<in> set post. \<not> is_checkpoint (snd x)"
      "is_checkpoint (snd cp)"
  using split_list_first_prop [of chain "\<lambda>x. is_checkpoint (snd x)"] by blast

lemma view_of_chain_split:
  assumes "\<forall>x \<in> set post. \<not> is_checkpoint (snd x)" "is_checkpoint (snd cp)"
  shows "view_of_chain ce w rd (post @ cp # pre) =
    (case extract_checkpoint ce (snd cp) of
       None \<Rightarrow> Inl (CpInvalidData ''checkpoint annotation has unparseable data'')
     | Some d \<Rightarrow> res_bind (to_view (cd_view d) (cd_op_count d)) (res_fold (replay_after rd) (rev post)))"
  using checkpoint_idx_split [OF assms, of 0 pre] by (simp add: view_of_chain_def nth_append split: option.splits)

lemma view_of_chain_plain:
  assumes "\<forall>x \<in> set chain. \<not> is_checkpoint (snd x)" "chain \<noteq> []"
  shows "view_of_chain ce w rd chain =
    (case materialize_from_ops w (rev chain) rd of Inl e \<Rightarrow> Inl (CpView e) | Inr v \<Rightarrow> Inr v)"
  using assms checkpoint_idx_None [of 0 chain] by (simp add: view_of_chain_def)

lemma res_fold_view_ok:
  "res_fold (apply_operation rd) ops v = Inr v' \<Longrightarrow> view_ok v \<Longrightarrow>
   \<forall>x \<in> set ops. payload_ok (op_payload_of (snd x)) \<Longrightarrow> view_ok v'"
proof (induction ops arbitrary: v)
  case (Cons x ops)
  then show ?case using apply_operation_ok by (fastforce simp: result_simps)
qed simp

lemma view_empty_ok: "workspace_name_ok (ws_str w) \<Longrightarrow> view_ok (view_empty w)"
  by (simp add: view_ok_def view_empty_def)

lemma true_log_payloads: "true_log ce w rd chain \<Longrightarrow> x \<in> set chain \<Longrightarrow> payload_ok (op_payload_of (snd x))"
  by (induction chain) auto

lemma view_ok_essence: "essence a = essence b \<Longrightarrow> view_ok a \<Longrightarrow> view_ok b"
  by (auto simp: essence_eq_iff view_ok_def)

lemma true_log_append: "true_log ce w rd (post @ pre) \<Longrightarrow> true_log ce w rd pre"
  by (induction post) auto

text \<open>Replay from the newest checkpoint agrees with full replay, and counts the other operations.\<close>

lemma checkpoint_replay_full:
  assumes codec: "checkpoint_codec_ok ce" and w: "workspace_name_ok (ws_str w)"
  shows "true_log ce w rd chain \<Longrightarrow> chain \<noteq> [] \<Longrightarrow> materialize_from_ops w (rev chain) rd = Inr v \<Longrightarrow>
    \<exists>v'. view_of_chain ce w rd chain = Inr v' \<and> essence v' = essence v \<and> view_ok v
      \<and> mv_op_count v' = length (filter (\<lambda>x. \<not> is_checkpoint (snd x)) chain)"
proof (induction chain arbitrary: v rule: length_induct)
  case (1 chain)
  have payloads: "\<forall>x \<in> set (rev chain). payload_ok (op_payload_of (snd x))"
    using true_log_payloads [OF "1.prems"(1)] by simp
  have ok: "view_ok v"
    using res_fold_view_ok [OF "1.prems"(3) [unfolded materialize_from_ops_def] view_empty_ok [OF w] payloads] .
  show ?case
  proof (cases rule: newest_checkpoint [of chain])
    case no_checkpoint
    then have "filter (\<lambda>x. \<not> is_checkpoint (snd x)) chain = chain" by (simp add: filter_id_conv)
    with no_checkpoint "1.prems"(2,3) ok replay_count [OF "1.prems"(3) [unfolded materialize_from_ops_def]]
    show ?thesis by (simp add: view_of_chain_plain view_empty_def)
  next
    case (split post cp pre)
    have log: "true_log ce w rd (cp # pre)" using true_log_append "1.prems"(1) split(1) by blast
    with split(3) obtain vp trigger object where vp: "view_of_chain ce w rd pre = Inr vp"
      and enc: "ce_encode ce \<lparr>cd_view = from_view vp, cd_op_count = mv_op_count vp, cd_trigger_oid = trigger\<rparr> = Some object"
      and payload: "op_payload_of (snd cp) = OpAnnotate CHECKPOINT_KEY object" by auto
    have pre: "pre \<noteq> []" using vp by (auto simp: view_of_chain_def)
    from "1.prems"(3) obtain v0 v1 where v0: "materialize_from_ops w (rev pre) rd = Inr v0"
      and v1: "apply_operation rd cp v0 = Inr v1" and v: "res_fold (apply_operation rd) (rev post) v1 = Inr v"
      by (auto simp: split(1) materialize_from_ops_def res_fold_append result_simps)
    have "length pre < length chain" "true_log ce w rd pre" using log by (simp_all add: split(1))
    with "1.IH" pre v0 obtain vp' where "view_of_chain ce w rd pre = Inr vp'" "essence vp' = essence v0" "view_ok v0"
      "mv_op_count vp' = length (filter (\<lambda>x. \<not> is_checkpoint (snd x)) pre)" by blast
    with vp have agree: "essence vp = essence v0" "view_ok v0"
      and n: "mv_op_count vp = length (filter (\<lambda>x. \<not> is_checkpoint (snd x)) pre)" by simp_all
    let ?b = "essence vp\<lparr>mv_op_count := mv_op_count vp\<rparr>"
    have "extract_checkpoint ce (snd cp) = Some \<lparr>cd_view = from_view vp, cd_op_count = mv_op_count vp, cd_trigger_oid = trigger\<rparr>"
      using codec enc payload by (simp add: extract_checkpoint_def checkpoint_codec_ok_def)
    then have run: "view_of_chain ce w rd chain = res_fold (replay_after rd) (rev post) ?b"
      using view_ok_essence [OF agree(1) [symmetric] agree(2)]
      by (simp add: split view_of_chain_split to_view_from_view)
    have "essence v1 = essence ?b"
      using apply_checkpoint_essence [OF split(3) v1] agree(1) by simp
    from replay_after_run [OF _ this v] split(2) obtain b' where
      "res_fold (replay_after rd) (rev post) ?b = Inr b'" "essence v = essence b'"
      "mv_op_count b' = mv_op_count vp + length post" by auto
    moreover have "filter (\<lambda>x. \<not> is_checkpoint (snd x)) post = post" using split(2) by (simp add: filter_id_conv)
    ultimately show ?thesis using run n ok split(3) by (simp add: split(1))
  qed
qed

section \<open>Appends of the runtime\<close>

lemma res_fold_mono:
  assumes "\<And>x v v'. f x v = Inr v' \<Longrightarrow> g x v = Inr v'"
  shows "res_fold f xs v = Inr v' \<Longrightarrow> res_fold g xs v = Inr v'"
  by (induction xs arbitrary: v) (auto simp: result_simps dest: assms)

lemma apply_operation_mono:
  "(\<And>oid ps. rd oid = Inr ps \<Longrightarrow> rd' oid = Inr ps) \<Longrightarrow>
   apply_operation rd x v = Inr v' \<Longrightarrow> apply_operation rd' x v = Inr v'"
  by (cases x; cases "op_payload_of (snd x)") (auto simp: apply_operation_def result_simps)

lemma replay_after_mono:
  "(\<And>oid ps. rd oid = Inr ps \<Longrightarrow> rd' oid = Inr ps) \<Longrightarrow>
   replay_after rd x v = Inr v' \<Longrightarrow> replay_after rd' x v = Inr v'"
  using apply_operation_mono [of rd rd' x v v']
  by (auto simp: replay_after_def replay_single_op_apply split: if_splits sum.splits)

lemma view_of_chain_mono:
  assumes more: "\<And>oid ps. rd oid = Inr ps \<Longrightarrow> rd' oid = Inr ps" and run: "view_of_chain ce w rd chain = Inr v"
  shows "view_of_chain ce w rd' chain = Inr v"
proof -
  have full: "res_fold (apply_operation rd) ops u = Inr u' \<Longrightarrow> res_fold (apply_operation rd') ops u = Inr u'" for ops u u'
    by (rule res_fold_mono [where f = "apply_operation rd"]) (rule apply_operation_mono [where rd = rd, OF more])
  have part: "res_fold (replay_after rd) ops u = Inr u' \<Longrightarrow> res_fold (replay_after rd') ops u = Inr u'" for ops u u'
    by (rule res_fold_mono [where f = "replay_after rd"]) (rule replay_after_mono [where rd = rd, OF more])
  show ?thesis
  proof (cases rule: newest_checkpoint [of chain])
    case no_checkpoint
    have "chain \<noteq> []" using run by (auto simp: view_of_chain_def)
    with no_checkpoint run show ?thesis
      by (auto simp: view_of_chain_plain materialize_from_ops_def dest: full split: sum.splits)
  next
    case (split post cp pre)
    with run show ?thesis by (auto simp: view_of_chain_split result_simps intro: part split: option.splits)
  qed
qed

lemma true_log_mono:
  assumes "\<And>oid ps. rd oid = Inr ps \<Longrightarrow> rd' oid = Inr ps"
  shows "true_log ce w rd chain \<Longrightarrow> true_log ce w rd' chain"
proof (induction chain)
  case (Cons x chain)
  have "view_of_chain ce w rd chain = Inr v \<Longrightarrow> view_of_chain ce w rd' chain = Inr v" for v
    by (rule view_of_chain_mono [where rd = rd, OF assms])
  with Cons show ?case by fastforce
qed simp

abbreviation stored_patch_sets ::
  "('s, 'j) checkpoint_env \<Rightarrow> (string \<Rightarrow> string + patch_set) \<Rightarrow> path \<Rightarrow> 's \<Rightarrow> patch_set_reader" where
  "stored_patch_sets ce parse root s \<equiv> \<lambda>oid. read_patch_set_blob (ce_oplog ce) parse root oid s"

lemma stored_patch_sets_stable:
  assumes "oplog_env_ok (ce_oplog ce) view"
    and "\<And>o' d. ol_read_blob (ce_oplog ce) o' s = Inr d \<Longrightarrow> ol_read_blob (ce_oplog ce) o' s' = Inr d"
    and "stored_patch_sets ce parse root s oid = Inr ps"
  shows "stored_patch_sets ce parse root s' oid = Inr ps"
  using assms(2,3) by (auto simp: read_patch_set_blob_def read_patch_set_blob_via_def
      oplog_env_okD(2) [OF assms(1)] split: sum.splits)

text \<open>Every workspace has a linear log, and its checkpoints are true.\<close>

definition logs_true ::
  "('s, 'j) checkpoint_env \<Rightarrow> (string \<Rightarrow> string + patch_set) \<Rightarrow> path \<Rightarrow> 's \<Rightarrow>
   (workspace_id \<Rightarrow> (git_oid \<times> 'j operation) list) \<Rightarrow> bool" where
  "logs_true ce parse root s logs \<longleftrightarrow>
     (\<forall>v. log_at (ce_oplog ce) root v s (logs v) \<and> true_log ce v (stored_patch_sets ce parse root s) (logs v))"

lemma append_blobs:
  assumes "oplog_env_ok env view" "append_operation env root w op old_head s = (r, s')"
    "\<forall>h. old_head = Some h \<longrightarrow> git_oid_ok h"
  shows "ol_read_blob env o' s = Inr d \<Longrightarrow> ol_read_blob env o' s' = Inr d"
  by (rule append_cases(1) [OF assms(1,3,2)])

lemma logs_true_append:
  assumes ok: "oplog_env_ok (ce_oplog ce) view" and logs: "logs_true ce parse root s logs"
    and old: "\<forall>h. old_head = Some h \<longrightarrow> git_oid_ok h \<and> h \<noteq> zero_oid"
    and parents: "op_parent_ids op = (case old_head of None \<Rightarrow> [] | Some h \<Rightarrow> [h])"
    and run: "append_operation (ce_oplog ce) root w op old_head s = (r, s')"
    and true: "\<And>new. r = Inr new \<Longrightarrow> true_log ce w (stored_patch_sets ce parse root s') (logs w) \<Longrightarrow>
      true_log ce w (stored_patch_sets ce parse root s') ((new, op) # logs w)"
  shows "case r of
      Inl _ \<Rightarrow> logs_true ce parse root s' logs
    | Inr new \<Rightarrow> logs_true ce parse root s' (logs(w := (new, op) # logs w)) \<and> git_oid_ok new \<and> new \<noteq> zero_oid"
proof -
  have logs': "\<forall>v. log_at (ce_oplog ce) root v s (logs v)" using logs by (simp add: logs_true_def)
  note appended = append_operation_log [OF ok logs' old parents run]
  have blobs: "stored_patch_sets ce parse root s oid = Inr ps \<Longrightarrow> stored_patch_sets ce parse root s' oid = Inr ps" for oid ps
    by (rule stored_patch_sets_stable [OF ok append_blobs [OF ok run]]) (use old in auto)
  have logs_s': "true_log ce v (stored_patch_sets ce parse root s') (logs v)" for v
    by (rule true_log_mono [where rd = "stored_patch_sets ce parse root s", OF blobs])
      (use logs in \<open>simp_all add: logs_true_def\<close>)
  show ?thesis
  proof (cases r)
    case (Inl e)
    with appended logs_s' show ?thesis by (simp add: logs_true_def)
  next
    case (Inr new)
    with appended have at: "\<forall>v. log_at (ce_oplog ce) root v s' (if v = w then (new, op) # logs w else logs v)"
      by simp
    then have "log_at (ce_oplog ce) root w s' ((new, op) # logs w)" by metis
    then have "git_oid_ok new \<and> new \<noteq> zero_oid" by (simp add: log_at_def)
    with Inr at true [OF Inr] logs_s' show ?thesis by (auto simp: logs_true_def)
  qed
qed

text \<open>The checkpoint the appender is about to write after \<open>new\<close> can be turned into a JSON object.\<close>

definition checkpoint_encodes ::
  "('s, 'j) checkpoint_env \<Rightarrow> workspace_id \<Rightarrow> patch_set_reader \<Rightarrow> (git_oid \<times> 'j operation) list \<Rightarrow> bool" where
  "checkpoint_encodes ce w rd chain \<longleftrightarrow>
     (\<forall>v. view_of_chain ce w rd chain = Inr v \<longrightarrow>
        ce_encode ce \<lparr>cd_view = from_view v, cd_op_count = mv_op_count v, cd_trigger_oid = oid_str (fst (hd chain))\<rparr> \<noteq> None)"

lemma runtime_append_cases:
  assumes "append_operation (ce_oplog ce) root w op old_head s = (Inr new, s1)"
    and "append_operation_with_runtime_checkpoint ce parse root w op old_head s warned = Some (r, warnings, s', warned')"
  shows "r = Inr new \<and> (\<exists>q. maybe_checkpoint_after_append ce parse root w new s1 = Some (q, s'))"
proof -
  obtain q t where q: "maybe_checkpoint_after_append ce parse root w new s1 = Some (q, t)"
    using assms by (auto simp: append_operation_with_runtime_checkpoint_def)
  show ?thesis
  proof (cases q)
    case (Inl e)
    with assms q show ?thesis
      by (cases e) (auto simp: append_operation_with_runtime_checkpoint_def first_damaged_oplog_warning_for_def)
  qed (use assms q in \<open>auto simp: append_operation_with_runtime_checkpoint_def\<close>)
qed

lemma runtime_append_keeps:
  assumes ok: "oplog_env_ok (ce_oplog ce) view" and logs: "logs_true ce parse root s logs"
    and head: "read_head (ce_oplog ce) root w s = Inr old_head"
    and parents: "op_parent_ids op = (case old_head of None \<Rightarrow> [] | Some h \<Rightarrow> [h])"
    and op: "payload_ok (op_payload_of op)" "\<not> is_checkpoint op"
    and run: "append_operation_with_runtime_checkpoint ce parse root w op old_head s warned = Some (r, warnings, s', warned')"
    and encodes: "\<And>new. r = Inr new \<Longrightarrow> checkpoint_encodes ce w (stored_patch_sets ce parse root s') ((new, op) # logs w)"
  shows "case r of
      Inl _ \<Rightarrow> logs_true ce parse root s' logs
    | Inr new \<Rightarrow> \<exists>cps. logs_true ce parse root s' (logs(w := cps @ (new, op) # logs w))
        \<and> length cps \<le> 1 \<and> (\<forall>x \<in> set cps. is_checkpoint (snd x))"
proof -
  obtain r1 s1 where app: "append_operation (ce_oplog ce) root w op old_head s = (r1, s1)" by force
  have "log_at (ce_oplog ce) root w s (logs w)" using logs by (simp add: logs_true_def)
  with head have old: "\<forall>h. old_head = Some h \<longrightarrow> git_oid_ok h \<and> h \<noteq> zero_oid"
    by (auto simp: log_at_def split: list.splits prod.splits)
  have step1: "case r1 of Inl _ \<Rightarrow> logs_true ce parse root s1 logs
    | Inr new \<Rightarrow> logs_true ce parse root s1 (logs(w := (new, op) # logs w)) \<and> git_oid_ok new \<and> new \<noteq> zero_oid"
    by (rule logs_true_append [OF ok logs old parents app]) (use op in simp)
  show ?thesis
  proof (cases r1)
    case (Inl e)
    with run app step1 show ?thesis by (auto simp: append_operation_with_runtime_checkpoint_def)
  next
    case (Inr new)
    let ?logs1 = "logs(w := (new, op) # logs w)" and ?rd1 = "stored_patch_sets ce parse root s1"
    from Inr step1 have logs1: "logs_true ce parse root s1 ?logs1" and new: "git_oid_ok new" "new \<noteq> zero_oid" by auto
    then have "log_at (ce_oplog ce) root w s1 ((new, op) # logs w)"
      unfolding logs_true_def by (metis fun_upd_same)
    then have mat: "materialize_from_checkpoint ce root w ?rd1 s1 = Some (view_of_chain ce w ?rd1 ((new, op) # logs w))"
      using walk_log [of "ce_oplog ce" root w s1 "(new, op) # logs w" None None]
      by (simp add: materialize_from_checkpoint_def)
    from runtime_append_cases [OF app [unfolded Inr] run] obtain q where r: "r = Inr new"
      and q: "maybe_checkpoint_after_append ce parse root w new s1 = Some (q, s')" by auto
    have unchanged: ?thesis if "s' = s1"
      using logs1 r that by (auto intro!: exI [of _ "[]"])
    show ?thesis
    proof (cases "view_of_chain ce w ?rd1 ((new, op) # logs w)")
      case (Inl e)
      then have "s' = s1" using q mat by (simp add: maybe_checkpoint_after_append_def)
      then show ?thesis by (rule unchanged)
    next
      case (Inr v)
      let ?cp = "create_checkpoint_op ce v new new"
      obtain r2 s2 where app2: "append_operation (ce_oplog ce) root w ?cp (Some new) s1 = (r2, s2)" by force
      have s': "s' = (if should_checkpoint (mv_op_count v) DEFAULT_CHECKPOINT_INTERVAL then s2 else s1)"
        using q app2 mat Inr
        by (cases r2) (auto simp: maybe_checkpoint_after_append_def maybe_write_checkpoint_def split: if_splits)
      show ?thesis
      proof (cases "should_checkpoint (mv_op_count v) DEFAULT_CHECKPOINT_INTERVAL")
        case False
        then have "s' = s1" by (simp add: s')
        then show ?thesis by (rule unchanged)
      next
        case True
        then have s2: "s' = s2" by (simp add: s')
        have blobs: "?rd1 oid = Inr ps \<Longrightarrow> stored_patch_sets ce parse root s2 oid = Inr ps" for oid ps
          by (rule stored_patch_sets_stable [OF ok append_blobs [OF ok app2]]) (use new in auto)
        have view2: "view_of_chain ce w (stored_patch_sets ce parse root s2) ((new, op) # logs w) = Inr v"
          by (rule view_of_chain_mono [OF blobs Inr])
        with encodes [OF r] obtain object where object:
          "ce_encode ce \<lparr>cd_view = from_view v, cd_op_count = mv_op_count v, cd_trigger_oid = oid_str new\<rparr> = Some object"
          by (auto simp: checkpoint_encodes_def s2)
        have payload: "op_payload_of ?cp = OpAnnotate CHECKPOINT_KEY object"
          by (simp add: create_checkpoint_op_def object Let_def)
        have "case r2 of Inl _ \<Rightarrow> logs_true ce parse root s2 ?logs1
          | Inr cp_oid \<Rightarrow> logs_true ce parse root s2 (?logs1(w := (cp_oid, ?cp) # ?logs1 w)) \<and> git_oid_ok cp_oid \<and> cp_oid \<noteq> zero_oid"
        proof (rule logs_true_append [OF ok logs1 _ _ app2])
          show "\<forall>h. Some new = Some h \<longrightarrow> git_oid_ok h \<and> h \<noteq> zero_oid" using new by simp
          show "op_parent_ids ?cp = (case Some new of None \<Rightarrow> [] | Some h \<Rightarrow> [h])"
            by (simp add: create_checkpoint_op_def Let_def)
          show "true_log ce w (stored_patch_sets ce parse root s2) ((cp_oid, ?cp) # ?logs1 w)"
            if "true_log ce w (stored_patch_sets ce parse root s2) (?logs1 w)" for cp_oid
            using that view2 object payload by (auto simp: is_checkpoint_def)
        qed
        then show ?thesis
        proof (cases r2)
          case (Inr cp_oid)
          have "is_checkpoint ?cp" by (simp add: is_checkpoint_def payload)
          with Inr \<open>case r2 of Inl _ \<Rightarrow> _ | Inr cp_oid \<Rightarrow> _\<close> r s2 show ?thesis
            by (auto intro!: exI [of _ "[(cp_oid, ?cp)]"])
        qed (use r s2 in \<open>auto intro!: exI [of _ "[]"]\<close>)
      qed
    qed
  qed
qed

text \<open>A step of the runtime appender: it writes a blob, or appends an operation to the head it read, which has that head
  as its only parent and is not an annotation under the reserved key. The annotation of transport with two parents,
  which overwrites the head, and the deletion of a head by \<open>repair_oplog\<close> are no such steps.\<close>

inductive append_step ::
  "('s, 'j) checkpoint_env \<Rightarrow> (string \<Rightarrow> string + patch_set) \<Rightarrow> path \<Rightarrow> 's \<Rightarrow> 's \<Rightarrow> bool"
  for ce parse root where
  runtime_append:
    "read_head (ce_oplog ce) root w s = Inr old_head \<Longrightarrow>
     op_parent_ids op = (case old_head of None \<Rightarrow> [] | Some h \<Rightarrow> [h]) \<Longrightarrow>
     payload_ok (op_payload_of op) \<Longrightarrow> \<not> is_checkpoint op \<Longrightarrow>
     append_operation_with_runtime_checkpoint ce parse root w op old_head s warned = Some (r, warnings, s', warned') \<Longrightarrow>
     (\<And>new chain. r = Inr new \<Longrightarrow> log_at (ce_oplog ce) root w s chain \<Longrightarrow>
        checkpoint_encodes ce w (stored_patch_sets ce parse root s') ((new, op) # chain)) \<Longrightarrow>
     append_step ce parse root s s'"
| runtime_blob:
    "ol_write_blob (ce_oplog ce) data s = (q, s') \<Longrightarrow> append_step ce parse root s s'"

lemma append_step_keeps:
  assumes ok: "oplog_env_ok (ce_oplog ce) view" and "append_step ce parse root s s'"
    and logs: "logs_true ce parse root s logs"
  shows "\<exists>logs'. logs_true ce parse root s' logs'"
  using assms(2)
proof cases
  case (runtime_append w old_head op warned r warnings warned')
  have "log_at (ce_oplog ce) root w s (logs w)" using logs by (simp add: logs_true_def)
  with runtime_append(6) have "checkpoint_encodes ce w (stored_patch_sets ce parse root s') ((new, op) # logs w)"
    if "r = Inr new" for new using that by blast
  from runtime_append_keeps [OF ok logs runtime_append(1-5) this]
  show ?thesis by (cases r) auto
next
  case (runtime_blob data q)
  note env = oplog_env_okD [OF ok]
  have blobs: "stored_patch_sets ce parse root s oid = Inr ps \<Longrightarrow> stored_patch_sets ce parse root s' oid = Inr ps" for oid ps
    by (rule stored_patch_sets_stable [OF ok env(5) [OF runtime_blob]])
  have "log_at (ce_oplog ce) root v s' (logs v)" for v
    by (rule log_at_stable [OF ok]) (use logs env(4,5) [OF runtime_blob] in \<open>simp_all add: logs_true_def\<close>)
  moreover have "true_log ce v (stored_patch_sets ce parse root s') (logs v)" for v
    by (rule true_log_mono [where rd = "stored_patch_sets ce parse root s", OF blobs])
      (use logs in \<open>simp_all add: logs_true_def\<close>)
  ultimately show ?thesis unfolding logs_true_def by blast
qed

lemma materialize_log:
  assumes "log_at (ce_oplog ce) root w s chain"
  shows "materialize_from_checkpoint ce root w rd s = Some (view_of_chain ce w rd chain)"
    and "chain \<noteq> [] \<Longrightarrow> materialize (ce_oplog ce) root w rd s = Some (materialize_from_ops w (rev chain) rd)"
    and "materialize (ce_oplog ce) root w rd s = Some (Inr v) \<Longrightarrow> chain \<noteq> []"
  using walk_log [OF assms, of None None]
  by (auto simp: materialize_from_checkpoint_def materialize_def materialize_from_ops_def view_of_chain_def)

lemma plain_view_same:
  assumes "log_at (ce_oplog ce) root w s chain" "\<forall>x \<in> set chain. \<not> is_checkpoint (snd x)"
    and "materialize (ce_oplog ce) root w rd s = Some (Inr v)"
  shows "materialize_from_checkpoint ce root w rd s = Some (Inr v)"
proof -
  have ne: "chain \<noteq> []" by (rule materialize_log(3) [OF assms(1,3)])
  show ?thesis
    using materialize_log(2) [OF assms(1) ne] assms(3) by (simp add: materialize_log(1) [OF assms(1)] view_of_chain_plain [OF assms(2) ne])
qed

lemma checkpoint_view_agrees:
  assumes "checkpoint_codec_ok ce" "workspace_name_ok (ws_str w)"
    and log: "log_at (ce_oplog ce) root w s chain" and true: "true_log ce w rd chain"
    and full: "materialize (ce_oplog ce) root w rd s = Some (Inr v)"
  shows "\<exists>v'. materialize_from_checkpoint ce root w rd s = Some (Inr v') \<and> essence v' = essence v
    \<and> mv_op_count v = length chain
    \<and> mv_op_count v' = length (filter (\<lambda>x. \<not> is_checkpoint (snd x)) chain)"
proof -
  have ne: "chain \<noteq> []" by (rule materialize_log(3) [OF log full])
  with full have ops: "materialize_from_ops w (rev chain) rd = Inr v" using materialize_log(2) [OF log] by simp
  from checkpoint_replay_full [OF assms(1,2) true ne this] replay_count [OF ops [unfolded materialize_from_ops_def]]
  show ?thesis by (auto simp: materialize_log(1) [OF log] view_empty_def)
qed

section \<open>Compaction\<close>

lemma linked_suffix: "linked (xs @ ys) \<Longrightarrow> linked ys"
  by (induction xs) auto

text \<open>A chain of stored operations never meets itself.\<close>

lemma linked_distinct:
  "linked chain \<Longrightarrow> \<forall>(i, p) \<in> set chain. rd i = Inr p \<Longrightarrow> distinct (map fst chain)"
proof (induction chain)
  case (Cons x xs)
  obtain i p where x: "x = (i, p)" by force
  have dist: "distinct (map fst xs)" using Cons by (auto simp: x)
  have "i \<notin> fst ` set xs"
  proof
    assume "i \<in> fst ` set xs"
    then obtain q where "(i, q) \<in> set xs" by auto
    with Cons.prems(2) have "(i, p) \<in> set xs" by (auto simp: x)
    then obtain as bs where xs: "xs = as @ (i, p) # bs" by (meson split_list)
    have "linked ((i, p) # bs)" using linked_suffix [of "x # as" "(i, p) # bs"] Cons.prems(1) by (simp only: xs append_Cons)
    moreover have "op_parent_ids p = [fst (hd xs)]"
      using Cons.prems(1) by (cases xs) (auto simp: x xs)
    ultimately have "bs \<noteq> []" "fst (hd bs) = fst (hd xs)" by (auto split: list.splits)
    with dist show False by (cases as; cases bs) (auto simp: xs)
  qed
  with dist show ?case by (simp add: x)
qed simp

lemma relink_ops_blobs:
  assumes ok: "oplog_env_ok env view"
  shows "relink_ops env root ops prev n s = (r, s') \<Longrightarrow>
    view s' = view s \<and> (\<forall>o' d. ol_read_blob env o' s = Inr d \<longrightarrow> ol_read_blob env o' s' = Inr d)"
proof (induction ops arbitrary: prev n s)
  case (Cons x ops)
  obtain i op where x: "x = (i, op)" by force
  obtain q t where w: "write_operation_blob env root (op\<lparr>op_parent_ids := [prev]\<rparr>) s = (q, t)" by force
  note w1 = write_operation_blob_cases(1,2) [OF ok w]
  show ?case
  proof (cases q)
    case (Inl e)
    with Cons.prems w w1 show ?thesis by (auto simp: x)
  next
    case (Inr g)
    with Cons.prems w Cons.IH [of g "n + 1" t] w1 show ?thesis by (auto simp: x)
  qed
qed simp

text \<open>A stored chain: linked, with valid ids, each operation readable.\<close>

definition stored_chain :: "('s, 'j) oplog_env \<Rightarrow> path \<Rightarrow> 's \<Rightarrow> (git_oid \<times> 'j operation) list \<Rightarrow> bool" where
  "stored_chain env root s chain \<longleftrightarrow> linked chain
     \<and> (\<forall>(i, p) \<in> set chain. git_oid_ok i \<and> i \<noteq> zero_oid \<and> read_operation env root i s = Inr p)"

lemma stored_chain_stable:
  assumes "oplog_env_ok env view" "stored_chain env root s chain"
    and "\<And>o' d. ol_read_blob env o' s = Inr d \<Longrightarrow> ol_read_blob env o' s' = Inr d"
  shows "stored_chain env root s' chain"
  using assms(2) read_operation_stable [OF assms(3) oplog_env_okD(2) [OF assms(1)]]
  by (fastforce simp: stored_chain_def)

lemma stored_chain_Cons:
  assumes ok: "oplog_env_ok env view" and chain: "stored_chain env root s chain"
    and parents: "op_parent_ids op = (case chain of [] \<Rightarrow> [] | (p, _) # _ \<Rightarrow> [p])"
    and w: "write_operation_blob env root op s = (Inr g, s')"
  shows "stored_chain env root s' ((g, op) # chain)"
proof -
  note w1 = write_operation_blob_cases [OF ok w]
  have "stored_chain env root s' chain" by (rule stored_chain_stable [OF ok chain w1(2)])
  with parents w1(3) show ?thesis by (simp add: stored_chain_def)
qed

abbreviation payloads_of :: "(git_oid \<times> 'j operation) list \<Rightarrow> 'j op_payload list" where
  "payloads_of chain \<equiv> map (\<lambda>x. op_payload_of (snd x)) chain"

lemma relink_ops_chain:
  assumes ok: "oplog_env_ok env view"
  shows "relink_ops env root ops (fst (hd base)) n s = (Inr (g, m), s') \<Longrightarrow> stored_chain env root s base \<Longrightarrow> base \<noteq> [] \<Longrightarrow>
    \<exists>news. stored_chain env root s' (news @ base) \<and> payloads_of news = rev (payloads_of ops)
      \<and> g = fst (hd (news @ base)) \<and> m = n + length ops"
proof (induction ops arbitrary: base n s)
  case Nil
  then show ?case by (auto intro!: exI [of _ "[]"])
next
  case (Cons x ops)
  obtain i op where x: "x = (i, op)" by force
  let ?op = "op\<lparr>op_parent_ids := [fst (hd base)]\<rparr>"
  from Cons.prems(1) obtain h t where w: "write_operation_blob env root ?op s = (Inr h, t)"
    and rest: "relink_ops env root ops (fst (hd ((h, ?op) # base))) (n + 1) t = (Inr (g, m), s')"
    by (auto simp: x split: sum.splits prod.splits)
  have "stored_chain env root t ((h, ?op) # base)"
    by (rule stored_chain_Cons [OF ok Cons.prems(2) _ w]) (use Cons.prems(3) in \<open>auto split: list.splits\<close>)
  from Cons.IH [OF rest this] obtain news where
    "stored_chain env root s' (news @ (h, ?op) # base)" "payloads_of news = rev (payloads_of ops)"
    "g = fst (hd (news @ (h, ?op) # base))" "m = n + 1 + length ops" by auto
  then show ?case by (intro exI [of _ "news @ [(h, ?op)]"]) (simp add: x)
qed

lemma payload_replay:
  "payloads_of xs = payloads_of ys \<Longrightarrow> res_fold (replay_after rd) xs v = res_fold (replay_after rd) ys v"
proof (induction xs arbitrary: ys v)
  case (Cons x xs)
  then obtain y zs where ys: "ys = y # zs" "op_payload_of (snd x) = op_payload_of (snd y)" "payloads_of xs = payloads_of zs"
    by (auto simp: Cons_eq_map_conv)
  have "replay_after rd x u = replay_after rd y u" for u
    using ys(2) by (cases x; cases y) (simp add: replay_after_def replay_single_op_def is_checkpoint_def)
  with Cons.IH [OF ys(3)] show ?case by (simp add: ys(1) cong: res_bind_cong)
qed simp

lemma payload_checkpoints:
  assumes "payloads_of xs = payloads_of ys"
  shows "(\<forall>x \<in> set xs. \<not> is_checkpoint (snd x)) \<longleftrightarrow> (\<forall>y \<in> set ys. \<not> is_checkpoint (snd y))"
proof -
  have "(\<forall>p \<in> set (payloads_of xs). case p of OpAnnotate k _ \<Rightarrow> k \<noteq> CHECKPOINT_KEY | _ \<Rightarrow> True) \<longleftrightarrow>
      (\<forall>p \<in> set (payloads_of ys). case p of OpAnnotate k _ \<Rightarrow> k \<noteq> CHECKPOINT_KEY | _ \<Rightarrow> True)"
    by (simp only: assms)
  moreover have "\<not> is_checkpoint (snd x) \<longleftrightarrow>
      (case op_payload_of (snd x) of OpAnnotate k _ \<Rightarrow> k \<noteq> CHECKPOINT_KEY | _ \<Rightarrow> True)" for x :: "git_oid \<times> 'a operation"
    by (simp add: is_checkpoint_def split: op_payload.split)
  ultimately show ?thesis by simp
qed

lemma payload_view:
  assumes "payloads_of post = payloads_of post'" "op_payload_of (snd cp) = op_payload_of (snd cp')"
    and "\<forall>x \<in> set post. \<not> is_checkpoint (snd x)" "is_checkpoint (snd cp)"
  shows "view_of_chain ce w rd (post @ cp # pre) = view_of_chain ce w rd (post' @ cp' # pre')"
proof -
  have "\<forall>x \<in> set post'. \<not> is_checkpoint (snd x)" using assms(3) payload_checkpoints [OF assms(1)] by blast
  moreover have "is_checkpoint (snd cp')" using assms(2,4) by (simp add: is_checkpoint_def)
  moreover have "extract_checkpoint ce (snd cp) = extract_checkpoint ce (snd cp')"
    using assms(2) by (simp add: extract_checkpoint_def)
  moreover have "payloads_of (rev post) = payloads_of (rev post')" using assms(1) by (simp add: rev_map [symmetric])
  moreover from this have "res_fold (replay_after rd) (rev post) = res_fold (replay_after rd) (rev post')"
    by (intro ext payload_replay)
  ultimately show ?thesis
    using assms(3,4) by (simp add: view_of_chain_split split: option.split)
qed

text \<open>The shape of a compacted log: a new root, the checkpoint, the operations after it.\<close>

definition compacted :: "(git_oid \<times> 'j operation) list \<Rightarrow> (git_oid \<times> 'j operation) list \<Rightarrow> bool" where
  "compacted chain chain' \<longleftrightarrow> (\<exists>post cp pre e. chain = post @ cp # pre \<and> pre \<noteq> []
     \<and> is_checkpoint (snd cp) \<and> (\<forall>x \<in> set post. \<not> is_checkpoint (snd x))
     \<and> payloads_of chain' = payloads_of post @ [op_payload_of (snd cp), OpCreate e])"

lemma compacted_view:
  assumes "compacted chain chain'"
  shows "view_of_chain ce w rd chain' = view_of_chain ce w rd chain"
proof -
  from assms obtain post cp pre e where split: "chain = post @ cp # pre" "is_checkpoint (snd cp)"
      "\<forall>x \<in> set post. \<not> is_checkpoint (snd x)"
    and payloads: "payloads_of chain' = payloads_of post @ [op_payload_of (snd cp), OpCreate e]"
    by (auto simp: compacted_def)
  from payloads obtain post' cp' pre' where chain': "chain' = post' @ cp' # pre'"
    and same: "payloads_of post = payloads_of post'" "op_payload_of (snd cp) = op_payload_of (snd cp')"
    by (auto simp: map_eq_append_conv map_eq_Cons_conv)
  show ?thesis
    unfolding split(1) chain' by (rule payload_view [OF same split(3,2), symmetric])
qed

text \<open>Steps that write blobs and move no reference.\<close>

definition only_blobs ::
  "('s, 'j) oplog_env \<Rightarrow> ('s \<Rightarrow> string \<Rightarrow> raw_oid option) \<Rightarrow> 's \<Rightarrow> 's \<Rightarrow> bool" where
  "only_blobs env view s t \<longleftrightarrow> view t = view s
     \<and> (\<forall>o' d. ol_read_blob env o' s = Inr d \<longrightarrow> ol_read_blob env o' t = Inr d)"

lemma only_blobs_trans: "only_blobs env view s t \<Longrightarrow> only_blobs env view t u \<Longrightarrow> only_blobs env view s u"
  by (simp add: only_blobs_def)

lemma only_blobs_write:
  "oplog_env_ok env view \<Longrightarrow> write_operation_blob env root op s = (r, t) \<Longrightarrow> only_blobs env view s t"
  using write_operation_blob_cases(1,2) [of env view root op s r t] by (simp add: only_blobs_def)

lemma only_blobs_relink:
  "oplog_env_ok env view \<Longrightarrow> relink_ops env root ops prev n s = (r, t) \<Longrightarrow> only_blobs env view s t"
  using relink_ops_blobs [of env view root ops prev n s r t] by (simp add: only_blobs_def)

lemma stored_chain_only_blobs:
  "oplog_env_ok env view \<Longrightarrow> only_blobs env view s t \<Longrightarrow> stored_chain env root s chain \<Longrightarrow> stored_chain env root t chain"
  unfolding only_blobs_def using stored_chain_stable [of env view root s chain t] by blast

text \<open>The new chain that a compaction of \<open>post @ cp # pre\<close> builds before it moves the head.\<close>

lemma compact_chain_split:
  assumes ok: "oplog_env_ok (ce_oplog ce) view" and split: "chain = post @ cp # pre" "pre \<noteq> []"
      "\<forall>x \<in> set post. \<not> is_checkpoint (snd x)" "is_checkpoint (snd cp)"
    and run: "compact_chain ce root w chain s = (r, s')"
  obtains (failed) e where "r = Inl e" "only_blobs (ce_oplog ce) view s s'"
  | (built) t chain' e where "only_blobs (ce_oplog ce) view s t" "stored_chain (ce_oplog ce) root t chain'"
      "payloads_of chain' = payloads_of post @ [op_payload_of (snd cp), OpCreate e]"
      "(r, s') = (case write_ref_cas (ol_refs (ce_oplog ce)) root (workspace_head_ref (ws_str w)) (fst (hd chain)) (fst (hd chain')) t of
          (Inl e, u) \<Rightarrow> (Inl (CpOpLogWrite (append_error w e)), u)
        | (Inr _, u) \<Rightarrow> (Inr \<lparr>cr_new_head = fst (hd chain'), cr_ops_before = length chain, cr_ops_after = length chain'\<rparr>, u))"
proof -
  let ?env = "ce_oplog ce"
  have idx: "checkpoint_idx 0 chain = Some (length post)"
    using checkpoint_idx_split [OF split(3,4), of 0 pre] by (simp add: split(1))
  have at: "chain ! length post = cp" "take (length post) chain = post" by (simp_all add: split(1))
  have long: "\<not> length chain - 1 \<le> length post" using split(2) by (cases pre) (simp_all add: split(1))
  have ne: "chain ! 0 = hd chain" by (simp add: split(1) hd_conv_nth)
  note body = run [unfolded compact_chain_def idx option.case at if_not_P [OF long] ne]
  have refl: "only_blobs ?env view s s" by (simp add: only_blobs_def)
  show ?thesis
  proof (cases "\<exists>d ep e. extract_checkpoint ce (snd cp) = Some d \<and> cv_epoch (cd_view d) = Some ep \<and> epoch_id_new ep = Inr e")
    case False
    with body have "isl r \<and> s' = s" by (auto split: option.splits sum.splits)
    with refl failed show ?thesis by (auto simp: isl_def)
  next
    case True
    then obtain d ep e where d: "extract_checkpoint ce (snd cp) = Some d" "cv_epoch (cd_view d) = Some ep"
      "epoch_id_new ep = Inr e" by blast
    let ?create = "\<lparr>op_parent_ids = [], op_workspace_id = w, op_timestamp = op_timestamp (snd cp), op_payload_of = OpCreate e\<rparr>"
    note body = body [unfolded d option.case sum.case]
    obtain q1 s1 where w1: "write_operation_blob ?env root ?create s = (q1, s1)" by force
    note keep1 = only_blobs_write [OF ok w1]
    show ?thesis
    proof (cases q1)
      case (Inl x)
      with body w1 keep1 show ?thesis by (intro failed) auto
    next
      case (Inr c)
      note w1 = w1 [unfolded Inr]
      have chain1: "stored_chain ?env root s1 [(c, ?create)]"
        using stored_chain_Cons [OF ok _ _ w1, of "[]"] by (simp add: stored_chain_def)
      let ?cp = "(snd cp)\<lparr>op_parent_ids := [c]\<rparr>"
      note body = body [unfolded w1 prod.case sum.case]
      obtain q2 s2 where w2: "write_operation_blob ?env root ?cp s1 = (q2, s2)" by force
      note keep2 = only_blobs_trans [OF keep1 only_blobs_write [OF ok w2]]
      show ?thesis
      proof (cases q2)
        case (Inl x)
        with body w2 keep2 show ?thesis by (intro failed) auto
      next
        case (Inr a)
        note w2 = w2 [unfolded Inr]
        have chain2: "stored_chain ?env root s2 [(a, ?cp), (c, ?create)]"
          using stored_chain_Cons [OF ok chain1 _ w2] by simp
        note body = body [unfolded w2 prod.case sum.case]
        obtain q3 s3 where w3: "relink_ops ?env root (rev post) a 2 s2 = (q3, s3)" by force
        note keep3 = only_blobs_trans [OF keep2 only_blobs_relink [OF ok w3]]
        show ?thesis
        proof (cases q3)
          case (Inl x)
          with body w3 keep3 show ?thesis by (intro failed) auto
        next
          case (Inr gm)
          obtain g m where gm: "gm = (g, m)" by force
          note w3 = w3 [unfolded Inr gm]
          from relink_ops_chain [OF ok, of root "rev post" "[(a, ?cp), (c, ?create)]" 2 s2 g m s3] w3 chain2
          obtain news where news: "stored_chain ?env root s3 (news @ [(a, ?cp), (c, ?create)])"
            "payloads_of news = payloads_of post" "g = fst (hd (news @ [(a, ?cp), (c, ?create)]))" "m = 2 + length post"
            by (auto simp: rev_map [symmetric])
          have "length news = length post" using arg_cong [OF news(2), of length] by simp
          then have len: "length (news @ [(a, ?cp), (c, ?create)]) = m" using news(4) by simp
          show ?thesis
          proof (rule built [OF keep3 news(1)])
            show "payloads_of (news @ [(a, ?cp), (c, ?create)]) = payloads_of post @ [op_payload_of (snd cp), OpCreate e]"
              by (simp add: news(2))
            show "(r, s') = (case write_ref_cas (ol_refs ?env) root (workspace_head_ref (ws_str w)) (fst (hd chain))
                (fst (hd (news @ [(a, ?cp), (c, ?create)]))) s3 of
                (Inl e, u) \<Rightarrow> (Inl (CpOpLogWrite (append_error w e)), u)
              | (Inr _, u) \<Rightarrow> (Inr \<lparr>cr_new_head = fst (hd (news @ [(a, ?cp), (c, ?create)])),
                  cr_ops_before = length chain, cr_ops_after = length (news @ [(a, ?cp), (c, ?create)])\<rparr>, u))"
              unfolding len news(3) [symmetric] using body w3 by simp
          qed
        qed
      qed
    qed
  qed
qed

lemma log_at_head:
  "log_at env root w s chain \<Longrightarrow> chain \<noteq> [] \<Longrightarrow> git_oid_ok (fst (hd chain)) \<and> fst (hd chain) \<noteq> zero_oid"
  by (cases chain) (auto simp: log_at_def)

lemma compact_chain_log:
  assumes ok: "oplog_env_ok (ce_oplog ce) view" and log: "log_at (ce_oplog ce) root w s chain" and ne: "chain \<noteq> []"
    and run: "compact_chain ce root w chain s = (r, s')"
  shows "only_blobs (ce_oplog ce) view s s' \<or> \<not> isl r"
    and "r = Inr res \<Longrightarrow> \<exists>chain'. log_at (ce_oplog ce) root w s' chain' \<and> (chain' = chain \<or> compacted chain chain')
      \<and> res = \<lparr>cr_new_head = fst (hd chain'), cr_ops_before = length chain, cr_ops_after = length chain'\<rparr>"
    and "v \<noteq> w \<Longrightarrow> log_at (ce_oplog ce) root v s other \<Longrightarrow> log_at (ce_oplog ce) root v s' other"
proof -
  let ?env = "ce_oplog ce"
  have refl: "only_blobs ?env view s s" by (simp add: only_blobs_def)
  have by_blobs: "log_at ?env root v t other" if "only_blobs ?env view s t" "log_at ?env root v s other" for t v other
    by (rule log_at_stable [OF ok that(2)]) (use that(1) in \<open>simp_all add: only_blobs_def\<close>)
  have "(only_blobs ?env view s s' \<or> \<not> isl r)
    \<and> (\<forall>res. r = Inr res \<longrightarrow> (\<exists>chain'. log_at ?env root w s' chain' \<and> (chain' = chain \<or> compacted chain chain')
        \<and> res = \<lparr>cr_new_head = fst (hd chain'), cr_ops_before = length chain, cr_ops_after = length chain'\<rparr>))
    \<and> (\<forall>v other. v \<noteq> w \<longrightarrow> log_at ?env root v s other \<longrightarrow> log_at ?env root v s' other)"
  proof (cases rule: newest_checkpoint [of chain])
    case no_checkpoint
    with run have "isl r \<and> s' = s" by (auto simp: compact_chain_def checkpoint_idx_None [of 0, symmetric])
    with refl show ?thesis by auto
  next
    case (split post cp pre)
    show ?thesis
    proof (cases "pre = []")
      case True
      have "checkpoint_idx 0 chain = Some (length post)"
        using checkpoint_idx_split [OF split(2,3), of 0 pre] by (simp add: split(1))
      with run True ne have "s' = s" "r = Inr \<lparr>cr_new_head = fst (hd chain), cr_ops_before = length chain, cr_ops_after = length chain\<rparr>"
        by (simp_all add: compact_chain_def split(1) hd_conv_nth)
      with log refl show ?thesis by auto
    next
      case False
      show ?thesis
      proof (cases rule: compact_chain_split [OF ok split(1) False split(2,3) run, case_names failed built])
        case (failed e)
        with by_blobs show ?thesis by auto
      next
        case (built t chain' e)
        have ne': "chain' \<noteq> []" using built(3) by auto
        then obtain g q rest where chain': "chain' = (g, q) # rest" by (cases chain') auto
        have h: "git_oid_ok (fst (hd chain))" "git_oid_ok g"
          using log_at_head [OF log ne] built(2) by (simp_all add: stored_chain_def chain')
        obtain raw_h raw_g where raw: "to_git_oid (fst (hd chain)) = Inr raw_h" "to_git_oid g = Inr raw_g"
          "from_git_oid raw_g = Inr g"
          using to_git_oid_ok [OF h(1)] to_git_oid_ok [OF h(2)] by auto
        obtain q' u where cas: "write_ref_cas (ol_refs ?env) root (workspace_head_ref (ws_str w)) (fst (hd chain)) g t = (q', u)"
          by force
        note moved = write_head_cas_cases [OF ok raw(1,2) cas]
        have u: "s' = u" and r: "r = (case q' of Inl e \<Rightarrow> Inl (CpOpLogWrite (append_error w e))
            | Inr _ \<Rightarrow> Inr \<lparr>cr_new_head = fst (hd chain'), cr_ops_before = length chain, cr_ops_after = length chain'\<rparr>)"
          using built(4) cas by (auto simp: chain' split: sum.splits)
        have blobs: "ol_read_blob ?env o' s = Inr d \<Longrightarrow> ol_read_blob ?env o' u = Inr d" for o' d
          using built(1) moved(1) by (simp add: only_blobs_def)
        show ?thesis
        proof (cases q')
          case (Inl x)
          then have "only_blobs ?env view s s'"
            using moved(2) built(1) blobs by (simp add: only_blobs_def u)
          with by_blobs r Inl show ?thesis by simp
        next
          case (Inr x)
          then have view: "view s' = (view s)(workspace_head_ref (ws_str w) \<mapsto> raw_g)"
            using moved(3) built(1) by (simp add: only_blobs_def u)
          have "stored_chain ?env root s' chain'"
            by (rule stored_chain_stable [OF ok built(2)]) (simp add: moved(1) u)
          moreover from this have "distinct (map fst chain')"
            by (intro linked_distinct [of _ "\<lambda>i. read_operation ?env root i s'"]) (auto simp: stored_chain_def)
          ultimately have "log_at ?env root w s' chain'"
            using raw(3) by (simp add: log_at_def stored_chain_def read_head_cases [OF ok] view chain')
          moreover have "compacted chain chain'" using split False built(3) unfolding compacted_def by blast
          moreover have "log_at ?env root v s' other" if "v \<noteq> w" "log_at ?env root v s other" for v other
            by (rule log_at_stable [OF ok that(2)])
              (use that(1) view blobs u in \<open>auto dest: workspace_id.expand\<close>)
          ultimately show ?thesis using r Inr by auto
        qed
      qed
    qed
  qed
  then show "only_blobs ?env view s s' \<or> \<not> isl r"
    "r = Inr res \<Longrightarrow> \<exists>chain'. log_at ?env root w s' chain' \<and> (chain' = chain \<or> compacted chain chain')
      \<and> res = \<lparr>cr_new_head = fst (hd chain'), cr_ops_before = length chain, cr_ops_after = length chain'\<rparr>"
    "v \<noteq> w \<Longrightarrow> log_at ?env root v s other \<Longrightarrow> log_at ?env root v s' other"
    by blast+
qed

section \<open>Properties\<close>

text \<open>C31. Where every checkpoint of the logs records the view of the log below it, replaying a workspace from its newest
  checkpoint succeeds when replaying its whole log does, and gives the same view up to the checkpoint annotations and
  the count of operations: the whole log counts its checkpoints, the replay from one leaves them out. On a log without
  checkpoints it gives the very same view. The appends of the runtime of operations that are not annotations under
  the reserved key keep the checkpoints true, so this holds in every state they reach from empty logs; nothing is said
  of logs that transport merged or whose head was deleted.\<close>

theorem checkpoint_replay_refines:
  assumes "oplog_env_ok (ce_oplog ce) view" "checkpoint_codec_ok ce" "logs_true ce parse root s logs"
  shows "(\<forall>w v. workspace_name_ok (ws_str w) \<longrightarrow>
        materialize (ce_oplog ce) root w (stored_patch_sets ce parse root s) s = Some (Inr v) \<longrightarrow>
        (\<exists>v'. materialize_from_checkpoint ce root w (stored_patch_sets ce parse root s) s = Some (Inr v')
          \<and> essence v' = essence v \<and> mv_op_count v = length (logs w)
          \<and> mv_op_count v' = length (filter (\<lambda>x. \<not> is_checkpoint (snd x)) (logs w))
          \<and> ((\<forall>x \<in> set (logs w). \<not> is_checkpoint (snd x)) \<longrightarrow> v' = v)))
    \<and> (\<forall>s'. append_step ce parse root s s' \<longrightarrow> (\<exists>logs'. logs_true ce parse root s' logs'))"
proof (intro conjI allI impI)
  fix w v
  assume w: "workspace_name_ok (ws_str w)" and full: "materialize (ce_oplog ce) root w (stored_patch_sets ce parse root s) s = Some (Inr v)"
  have log: "log_at (ce_oplog ce) root w s (logs w)" "true_log ce w (stored_patch_sets ce parse root s) (logs w)"
    using assms(3) by (simp_all add: logs_true_def)
  from checkpoint_view_agrees [OF assms(2) w log full] plain_view_same [OF log(1) _ full]
  show "\<exists>v'. materialize_from_checkpoint ce root w (stored_patch_sets ce parse root s) s = Some (Inr v')
      \<and> essence v' = essence v \<and> mv_op_count v = length (logs w)
      \<and> mv_op_count v' = length (filter (\<lambda>x. \<not> is_checkpoint (snd x)) (logs w))
      \<and> ((\<forall>x \<in> set (logs w). \<not> is_checkpoint (snd x)) \<longrightarrow> v' = v)"
    by fastforce
next
  fix s' assume "append_step ce parse root s s'"
  from append_step_keeps [OF assms(1) this assms(3)] show "\<exists>logs'. logs_true ce parse root s' logs'" .
qed

text \<open>On a log with true checkpoints the two replays differ in the number of operations they report:
  full replay counts every operation, replay from the newest checkpoint leaves all checkpoints out.\<close>

theorem checkpoint_replay_counts:
  assumes "checkpoint_codec_ok ce" "workspace_name_ok (ws_str w)"
    and "log_at (ce_oplog ce) root w s chain" "true_log ce w rd chain"
    and "materialize (ce_oplog ce) root w rd s = Some (Inr v)"
  shows "\<exists>v'. materialize_from_checkpoint ce root w rd s = Some (Inr v')
    \<and> mv_op_count v = mv_op_count v' + length (filter (\<lambda>x. is_checkpoint (snd x)) chain)"
  using checkpoint_view_agrees [OF assms] sum_length_filter_compl [of "\<lambda>x. is_checkpoint (snd x)" chain]
  by auto

text \<open>An append of the runtime keeps every checkpoint of every log true: it adds the operation and at most
  one checkpoint on top of it, and nothing when it fails.\<close>

theorem runtime_append_keeps_logs:
  assumes "oplog_env_ok (ce_oplog ce) view" "logs_true ce parse root s logs"
    and "read_head (ce_oplog ce) root w s = Inr old_head"
    and "op_parent_ids op = (case old_head of None \<Rightarrow> [] | Some h \<Rightarrow> [h])"
    and "payload_ok (op_payload_of op)" "\<not> is_checkpoint op"
    and "append_operation_with_runtime_checkpoint ce parse root w op old_head s warned = Some (r, warnings, s', warned')"
    and "\<forall>new. r = Inr new \<longrightarrow> checkpoint_encodes ce w (stored_patch_sets ce parse root s') ((new, op) # logs w)"
  shows "case r of
      Inl _ \<Rightarrow> logs_true ce parse root s' logs
    | Inr new \<Rightarrow> \<exists>cps. logs_true ce parse root s' (logs(w := cps @ (new, op) # logs w))
        \<and> length cps \<le> 1 \<and> (\<forall>x \<in> set cps. is_checkpoint (snd x))"
  by (rule runtime_append_keeps [OF assms(1-7)]) (use assms(8) in simp)

text \<open>A user annotation under the reserved key whose data is no checkpoint switches checkpoints off: while it
  is the newest of its kind every later append succeeds with a warning and writes no checkpoint, and replay from
  checkpoints fails.\<close>

theorem reserved_annotation_blocks_checkpoints:
  assumes ok: "oplog_env_ok (ce_oplog ce) view" and logs: "\<forall>v. log_at (ce_oplog ce) root v s (logs v)"
    and log: "logs w = post @ cp # pre" "\<forall>x \<in> set post. \<not> is_checkpoint (snd x)" "is_checkpoint (snd cp)"
    and bad: "extract_checkpoint ce (snd cp) = None"
    and op: "op_parent_ids op = [fst (hd (logs w))]" "\<not> is_checkpoint op"
    and run: "append_operation_with_runtime_checkpoint ce parse root w op (Some (fst (hd (logs w)))) s warned =
      Some (Inr new, warnings, s', warned')"
  shows "warnings = [WarnSkipped (ws_str w)] \<and> log_at (ce_oplog ce) root w s' ((new, op) # logs w)
    \<and> (\<forall>rd. materialize_from_checkpoint ce root w rd s' =
         Some (Inl (CpInvalidData ''checkpoint annotation has unparseable data'')))"
proof -
  let ?h = "fst (hd (logs w))"
  obtain r1 s1 where app: "append_operation (ce_oplog ce) root w op (Some ?h) s = (r1, s1)" by force
  have new: "r1 = Inr new"
  proof (cases r1)
    case (Inr g)
    with runtime_append_cases [OF app [unfolded Inr] run] show ?thesis by simp
  qed (use run app in \<open>simp add: append_operation_with_runtime_checkpoint_def\<close>)
  have ne: "logs w \<noteq> []" by (simp add: log(1))
  have h: "\<forall>h. Some ?h = Some h \<longrightarrow> git_oid_ok h \<and> h \<noteq> zero_oid"
    using log_at_head [OF spec [OF logs] ne] by simp
  have "\<forall>v. log_at (ce_oplog ce) root v s1 (if v = w then (new, op) # logs w else logs v)"
    using append_operation_log [OF ok logs h _ app] op(1) by (simp add: new)
  then have at: "log_at (ce_oplog ce) root w s1 ((new, op) # logs w)" by metis
  have "view_of_chain ce w rd ((new, op) # logs w) =
      Inl (CpInvalidData ''checkpoint annotation has unparseable data'')" for rd
    using view_of_chain_split [of "(new, op) # post" cp ce w rd pre] log(2,3) op(2) bad by (simp add: log(1))
  with materialize_log(1) [OF at] have fails: "materialize_from_checkpoint ce root w rd s1 =
      Some (Inl (CpInvalidData ''checkpoint annotation has unparseable data''))" for rd by simp
  then have "maybe_checkpoint_after_append ce parse root w new s1 = Some (Inl OtherCheckpointError, s1)"
    by (simp add: maybe_checkpoint_after_append_def)
  then have "warnings = [WarnSkipped (ws_str w)] \<and> s' = s1"
    using run app new by (simp add: append_operation_with_runtime_checkpoint_def)
  with at fails show ?thesis by simp
qed

text \<open>A successful compaction leaves the log as it was, or one that starts with a new root and the newest
  checkpoint and keeps the later operations; the view from the checkpoint is the same, the reported numbers are
  the lengths, and other logs stay. A failed one changes no reference.\<close>

theorem compact_keeps_checkpoint_view:
  assumes ok: "oplog_env_ok (ce_oplog ce) view" and log: "log_at (ce_oplog ce) root w s chain"
    and run: "compact ce root w s = Some (r, s')"
  shows "case r of
      Inl _ \<Rightarrow> view s' = view s
    | Inr res \<Rightarrow> \<exists>chain'. log_at (ce_oplog ce) root w s' chain' \<and> (chain' = chain \<or> compacted chain chain')
        \<and> (\<forall>rd. materialize_from_checkpoint ce root w rd s' = materialize_from_checkpoint ce root w rd s)
        \<and> res = \<lparr>cr_new_head = fst (hd chain'), cr_ops_before = length chain, cr_ops_after = length chain'\<rparr>
        \<and> (\<forall>v other. v \<noteq> w \<longrightarrow> log_at (ce_oplog ce) root v s other \<longrightarrow> log_at (ce_oplog ce) root v s' other)"
proof (cases "chain = []")
  case True
  with run walk_log [OF log, of None None] show ?thesis by (auto simp: compact_def)
next
  case False
  with run walk_log [OF log, of None None] have "compact_chain ce root w chain s = (r, s')"
    by (simp add: compact_def)
  note result = compact_chain_log [OF ok log False this]
  show ?thesis
  proof (cases r)
    case (Inl e)
    with result(1) show ?thesis by (simp add: only_blobs_def)
  next
    case (Inr res)
    from result(2) [OF this] obtain chain' where chain': "log_at (ce_oplog ce) root w s' chain'"
      "chain' = chain \<or> compacted chain chain'"
      "res = \<lparr>cr_new_head = fst (hd chain'), cr_ops_before = length chain, cr_ops_after = length chain'\<rparr>" by blast
    then have "view_of_chain ce w rd chain' = view_of_chain ce w rd chain" for rd
      using compacted_view by blast
    then have "materialize_from_checkpoint ce root w rd s' = materialize_from_checkpoint ce root w rd s" for rd
      by (simp add: materialize_log(1) [OF chain'(1)] materialize_log(1) [OF log])
    with Inr chain' result(3) show ?thesis by auto
  qed
qed

section \<open>Witnesses\<close>

definition sample_create :: "unit operation" where
  "sample_create = sample_op [] (OpCreate (sample_epoch CHR ''a''))"

definition sample_view :: "unit materialized_view" where
  "sample_view = view_empty (sample_ws ''alice'')\<lparr>mv_epoch := Some (sample_epoch CHR ''a''), mv_op_count := 1\<rparr>"

definition sample_data :: "unit checkpoint_data" where
  "sample_data = \<lparr>cd_view = from_view sample_view, cd_op_count = 1, cd_trigger_oid = oid_str (mem_id 1)\<rparr>"

definition sample_object :: "(string, unit) btree" where
  "sample_object = bm_insert ''view'' () bm_empty"

definition sample_checkpoint :: "unit operation" where
  "sample_checkpoint = sample_op [mem_id 1] (OpAnnotate CHECKPOINT_KEY sample_object)"

definition sample_describe :: "git_oid list \<Rightarrow> unit operation" where
  "sample_describe parents = sample_op parents (OpDescribe ''more'')"

definition sample_forged :: "unit operation" where
  "sample_forged = sample_op [mem_id 1] (OpAnnotate CHECKPOINT_KEY bm_empty)"

definition checkpoint_sample :: "(mem_store, unit) checkpoint_env" where
  "checkpoint_sample = \<lparr>ce_oplog = mem_oplog
       [(''create'', sample_create), (''checkpoint'', sample_checkpoint), (''forged'', sample_forged),
        (''describe'', sample_describe [mem_id 2]), (''describe 1'', sample_describe [mem_id 1]),
        (''checkpoint 4'', sample_checkpoint\<lparr>op_parent_ids := [mem_id 4]\<rparr>),
        (''describe 5'', sample_describe [mem_id 5])],
     ce_encode = (\<lambda>d. if d = sample_data then Some sample_object else None),
     ce_decode = (\<lambda>j. if j = sample_object then Some sample_data else None), ce_now = 0\<rparr>"

definition sample_store :: "unit operation list \<Rightarrow> mem_store" where
  "sample_store ops = fst (fold (\<lambda>op (s, head).
     case append_operation (ce_oplog checkpoint_sample) [] (sample_ws ''alice'') op head s of
       (r, s') \<Rightarrow> (s', (case r of Inr h \<Rightarrow> Some h | Inl _ \<Rightarrow> head))) ops ((bm_empty, []), None))"

lemma checkpoint_sample_ok:
  "oplog_env_ok (ce_oplog checkpoint_sample) mem_view" "checkpoint_codec_ok checkpoint_sample"
  "workspace_name_ok (ws_str (sample_ws ''alice''))"
  by (simp_all add: checkpoint_sample_def mem_oplog_ok checkpoint_codec_ok_def workspace_name_ok_def
      workspace_word_def ascii_lower_def sample_ws_def split: if_splits)

lemma sample_logs_empty: "\<forall>v. log_at (ce_oplog checkpoint_sample) [] v (bm_empty, []) []"
  by (simp add: log_at_def read_head_cases [OF checkpoint_sample_ok(1)] mem_view_def)

abbreviation no_patch_sets :: patch_set_reader where
  "no_patch_sets \<equiv> \<lambda>oid. Inl (VPatchSetRead (oid_str oid) ''missing'')"

lemma sample_log_created:
  "log_at (ce_oplog checkpoint_sample) [] (sample_ws ''alice'') (sample_store [sample_create]) [(mem_id 1, sample_create)]"
  by code_simp

lemma sample_log_checkpoint:
  "log_at (ce_oplog checkpoint_sample) [] (sample_ws ''alice'') (sample_store [sample_create, sample_checkpoint])
     [(mem_id 2, sample_checkpoint), (mem_id 1, sample_create)]"
  by code_simp

lemma sample_log_true:
  "true_log checkpoint_sample (sample_ws ''alice'') rd [(mem_id 2, sample_checkpoint), (mem_id 1, sample_create)]"
proof -
  have "view_of_chain checkpoint_sample (sample_ws ''alice'') rd [(mem_id 1, sample_create)] = Inr sample_view"
    by (simp add: view_of_chain_def is_checkpoint_def sample_create_def sample_op_def materialize_from_ops_def
        apply_operation_def sample_view_def view_empty_def)
  moreover have "ce_encode checkpoint_sample \<lparr>cd_view = from_view sample_view, cd_op_count = mv_op_count sample_view,
      cd_trigger_oid = oid_str (mem_id 1)\<rparr> = Some sample_object"
    by (simp add: checkpoint_sample_def sample_data_def sample_view_def view_empty_def)
  moreover have "git_oid_ok (sample_oid CHR ''a'')" by (rule sample_oid_ok) simp
  ultimately show ?thesis
    by (auto simp: sample_checkpoint_def sample_create_def sample_op_def is_checkpoint_def sample_epoch_def)
qed

lemma checkpoint_replay_counts_witness:
  "\<exists>v'. materialize_from_checkpoint checkpoint_sample [] (sample_ws ''alice'') no_patch_sets
      (sample_store [sample_create, sample_checkpoint]) = Some (Inr v') \<and> mv_op_count v' = 1"
proof -
  let ?full = "materialize_from_ops (sample_ws ''alice'') (rev [(mem_id 2, sample_checkpoint), (mem_id 1, sample_create)]) no_patch_sets"
  have full: "\<not> isl ?full \<and> mv_op_count (projr ?full) = 2" by code_simp
  obtain v where v: "materialize (ce_oplog checkpoint_sample) [] (sample_ws ''alice'') no_patch_sets
      (sample_store [sample_create, sample_checkpoint]) = Some (Inr v)" "mv_op_count v = 2"
    using materialize_log(2) [OF sample_log_checkpoint list.distinct(2), of no_patch_sets] full
    by (cases ?full) simp_all
  have "length (filter (\<lambda>x. is_checkpoint (snd x)) [(mem_id 2, sample_checkpoint), (mem_id 1, sample_create)]) = 1"
    by code_simp
  with checkpoint_replay_counts [OF checkpoint_sample_ok(2,3) sample_log_checkpoint sample_log_true v(1)] v(2)
  show ?thesis by fastforce
qed

abbreviation "sample_long \<equiv> sample_store [sample_create, sample_checkpoint, sample_describe [mem_id 2]]"

lemma sample_log_long:
  "log_at (ce_oplog checkpoint_sample) [] (sample_ws ''alice'') sample_long
     [(mem_id 3, sample_describe [mem_id 2]), (mem_id 2, sample_checkpoint), (mem_id 1, sample_create)]"
  by code_simp

lemma compact_keeps_checkpoint_view_witness:
  "\<exists>res s'. compact checkpoint_sample [] (sample_ws ''alice'') sample_long = Some (Inr res, s')
    \<and> (\<forall>rd. materialize_from_checkpoint checkpoint_sample [] (sample_ws ''alice'') rd s' =
         materialize_from_checkpoint checkpoint_sample [] (sample_ws ''alice'') rd sample_long)"
proof -
  let ?run = "compact_chain checkpoint_sample [] (sample_ws ''alice'')
      [(mem_id 3, sample_describe [mem_id 2]), (mem_id 2, sample_checkpoint), (mem_id 1, sample_create)] sample_long"
  have "\<not> isl (fst ?run)" by code_simp
  then obtain res where res: "fst ?run = Inr res" by (auto simp: isl_def split: sum.splits) (metis sum.exhaust)
  have "compact checkpoint_sample [] (sample_ws ''alice'') sample_long = Some ?run"
    using walk_log [OF sample_log_long, of None None] by (simp add: compact_def)
  then have run: "compact checkpoint_sample [] (sample_ws ''alice'') sample_long = Some (Inr res, snd ?run)"
    using res by (metis prod.collapse)
  from compact_keeps_checkpoint_view [OF checkpoint_sample_ok(1) sample_log_long run] run show ?thesis by auto
qed

abbreviation "sample_runtime \<equiv> append_operation_with_runtime_checkpoint checkpoint_sample (\<lambda>_. Inl ''no patch set'')
  [] (sample_ws ''alice'') sample_create None (bm_empty, []) {}"

lemma sample_runtime_run:
  "sample_runtime = Some (Inr (mem_id 1), [], sample_store [sample_create], {})"
proof -
  have app: "append_operation (ce_oplog checkpoint_sample) [] (sample_ws ''alice'') sample_create None (bm_empty, [])
      = (Inr (mem_id 1), sample_store [sample_create])" by code_simp
  have "\<not> isl (view_of_chain checkpoint_sample (sample_ws ''alice'')
      (stored_patch_sets checkpoint_sample (\<lambda>_. Inl ''no patch set'') [] (sample_store [sample_create])) [(mem_id 1, sample_create)])
    \<and> mv_op_count (projr (view_of_chain checkpoint_sample (sample_ws ''alice'')
      (stored_patch_sets checkpoint_sample (\<lambda>_. Inl ''no patch set'') [] (sample_store [sample_create])) [(mem_id 1, sample_create)])) = 1"
    (is "\<not> isl ?v \<and> _") by code_simp
  then obtain v where "?v = Inr v" "mv_op_count v = 1" by (cases ?v) auto
  then show ?thesis
    by (simp add: append_operation_with_runtime_checkpoint_def app maybe_checkpoint_after_append_def
        materialize_log(1) [OF sample_log_created] maybe_write_checkpoint_def should_checkpoint_def
        DEFAULT_CHECKPOINT_INTERVAL_def)
qed

lemma sample_encodes:
  "checkpoint_encodes checkpoint_sample (sample_ws ''alice'') rd [(mem_id 1, sample_create)]"
proof -
  have "view_of_chain checkpoint_sample (sample_ws ''alice'') rd [(mem_id 1, sample_create)] = Inr sample_view"
    by (simp add: view_of_chain_def is_checkpoint_def sample_create_def sample_op_def materialize_from_ops_def
        apply_operation_def sample_view_def view_empty_def)
  then show ?thesis
    by (simp add: checkpoint_encodes_def checkpoint_sample_def sample_data_def sample_view_def view_empty_def)
qed

lemma sample_create_facts:
  "read_head (ce_oplog checkpoint_sample) [] (sample_ws ''alice'') (bm_empty, []) = Inr None"
  "op_parent_ids sample_create = (case None of None \<Rightarrow> [] | Some h \<Rightarrow> [h])"
  "payload_ok (op_payload_of sample_create)" "\<not> is_checkpoint sample_create"
proof -
  show "read_head (ce_oplog checkpoint_sample) [] (sample_ws ''alice'') (bm_empty, []) = Inr None"
    using sample_logs_empty by (simp add: log_at_def)
  have "git_oid_ok (sample_oid CHR ''a'')" by (rule sample_oid_ok) simp
  then show "payload_ok (op_payload_of sample_create)"
    by (simp add: sample_create_def sample_op_def sample_epoch_def)
qed (simp_all add: sample_create_def sample_op_def is_checkpoint_def)

lemma runtime_append_keeps_logs_witness:
  "logs_true checkpoint_sample (\<lambda>_. Inl ''no patch set'') [] (sample_store [sample_create])
     ((\<lambda>_. [])(sample_ws ''alice'' := [(mem_id 1, sample_create)]))"
proof -
  have "logs_true checkpoint_sample (\<lambda>_. Inl ''no patch set'') [] (bm_empty, []) (\<lambda>_. [])"
    using sample_logs_empty by (simp add: logs_true_def)
  from runtime_append_keeps_logs [OF checkpoint_sample_ok(1) this sample_create_facts sample_runtime_run]
  obtain cps where cps: "logs_true checkpoint_sample (\<lambda>_. Inl ''no patch set'') [] (sample_store [sample_create])
      ((\<lambda>_. [])(sample_ws ''alice'' := cps @ [(mem_id 1, sample_create)]))"
    using sample_encodes by auto
  then have "log_at (ce_oplog checkpoint_sample) [] (sample_ws ''alice'') (sample_store [sample_create])
      (cps @ [(mem_id 1, sample_create)])"
    unfolding logs_true_def by (metis fun_upd_same)
  from walk_log [OF this, of None None] walk_log [OF sample_log_created, of None None]
  have "cps = []" by simp
  with cps show ?thesis by simp
qed

abbreviation "sample_checkpointed \<equiv> sample_store [sample_create, sample_checkpoint]"

abbreviation "sample_logs \<equiv> \<lambda>v. if v = sample_ws ''alice'' then [(mem_id 2, sample_checkpoint), (mem_id 1, sample_create)] else []"

lemma sample_logs_true: "logs_true checkpoint_sample parse [] sample_checkpointed sample_logs"
proof -
  have "log_at (ce_oplog checkpoint_sample) [] v sample_checkpointed (sample_logs v)" for v
  proof (cases "v = sample_ws ''alice''")
    case True
    with sample_log_checkpoint show ?thesis by simp
  next
    case False
    have "bm_keys (fst sample_checkpointed) = [workspace_head_ref ''alice'']" by code_simp
    then have "bm_get (fst sample_checkpointed) n = None" if "n \<noteq> workspace_head_ref ''alice''" for n
      using set_bm_keys [of "fst sample_checkpointed"] that by auto
    moreover have "ws_str v \<noteq> ''alice''" using False by (cases v) (simp add: sample_ws_def)
    ultimately show ?thesis
      using False by (simp add: log_at_def read_head_cases [OF checkpoint_sample_ok(1)] mem_view_def)
  qed
  moreover have "true_log checkpoint_sample v rd (sample_logs v)" for v rd using sample_log_true by simp
  ultimately show ?thesis unfolding logs_true_def by blast
qed

text \<open>A log with one checkpoint, and a step that writes a blob.\<close>

lemma checkpoint_replay_refines_witness:
  "\<exists>v v'. materialize (ce_oplog checkpoint_sample) [] (sample_ws ''alice'')
      (stored_patch_sets checkpoint_sample (\<lambda>_. Inl ''no patch set'') [] sample_checkpointed) sample_checkpointed = Some (Inr v)
    \<and> materialize_from_checkpoint checkpoint_sample [] (sample_ws ''alice'')
      (stored_patch_sets checkpoint_sample (\<lambda>_. Inl ''no patch set'') [] sample_checkpointed) sample_checkpointed = Some (Inr v')
    \<and> essence v' = essence v \<and> mv_op_count v = 2 \<and> mv_op_count v' = 1"
proof -
  let ?rd = "stored_patch_sets checkpoint_sample (\<lambda>_. Inl ''no patch set'') [] sample_checkpointed"
  let ?full = "materialize_from_ops (sample_ws ''alice'') (rev [(mem_id 2, sample_checkpoint), (mem_id 1, sample_create)]) ?rd"
  have "\<not> isl ?full" by code_simp
  then obtain v where "materialize (ce_oplog checkpoint_sample) [] (sample_ws ''alice'') ?rd sample_checkpointed = Some (Inr v)"
    using materialize_log(2) [OF sample_log_checkpoint list.distinct(2), of ?rd] by (cases ?full) simp_all
  moreover have "is_checkpoint sample_checkpoint" "\<not> is_checkpoint sample_create" by code_simp+
  ultimately show ?thesis
    using checkpoint_replay_refines [OF checkpoint_sample_ok(1,2) sample_logs_true, of "\<lambda>_. Inl ''no patch set''"] checkpoint_sample_ok(3)
    by fastforce
qed

abbreviation "sample_forged_store \<equiv> sample_store [sample_create, sample_forged]"

lemma sample_log_forged:
  "log_at (ce_oplog checkpoint_sample) [] v sample_forged_store
     (if v = sample_ws ''alice'' then [(mem_id 2, sample_forged), (mem_id 1, sample_create)] else [])"
proof (cases "v = sample_ws ''alice''")
  case True
  have "log_at (ce_oplog checkpoint_sample) [] (sample_ws ''alice'') sample_forged_store
      [(mem_id 2, sample_forged), (mem_id 1, sample_create)]" by code_simp
  with True show ?thesis by simp
next
  case False
  have "bm_keys (fst sample_forged_store) = [workspace_head_ref ''alice'']" by code_simp
  then have "bm_get (fst sample_forged_store) n = None" if "n \<noteq> workspace_head_ref ''alice''" for n
    using set_bm_keys [of "fst sample_forged_store"] that by auto
  moreover have "ws_str v \<noteq> ''alice''" using False by (cases v) (simp add: sample_ws_def)
  ultimately show ?thesis
    using False by (simp add: log_at_def read_head_cases [OF checkpoint_sample_ok(1)] mem_view_def)
qed

lemma reserved_annotation_blocks_checkpoints_witness:
  "\<exists>r s'. append_operation_with_runtime_checkpoint checkpoint_sample (\<lambda>_. Inl ''no patch set'') [] (sample_ws ''alice'')
      (sample_describe [mem_id 2]) (Some (mem_id 2)) sample_forged_store {} = Some (r, [WarnSkipped ''alice''], s', {})"
proof -
  let ?run = "append_operation_with_runtime_checkpoint checkpoint_sample (\<lambda>_. Inl ''no patch set'') [] (sample_ws ''alice'')
      (sample_describe [mem_id 2]) (Some (mem_id 2)) sample_forged_store {}"
  have "?run \<noteq> None \<and> \<not> isl (fst (the ?run)) \<and> snd (snd (snd (the ?run))) = {}" by code_simp
  then obtain new warnings s' where run: "?run = Some (Inr new, warnings, s', {})"
    by (cases ?run) (auto simp: isl_def split: sum.splits, metis sum.exhaust)
  let ?logs = "\<lambda>v. if v = sample_ws ''alice'' then [(mem_id 2, sample_forged), (mem_id 1, sample_create)] else []"
  have cp: "is_checkpoint (snd (mem_id 2, sample_forged))" "extract_checkpoint checkpoint_sample (snd (mem_id 2, sample_forged)) = None"
    "\<not> is_checkpoint (sample_describe [mem_id 2])"
    by code_simp+
  have "\<forall>v. log_at (ce_oplog checkpoint_sample) [] v sample_forged_store (?logs v)" using sample_log_forged by simp
  from reserved_annotation_blocks_checkpoints [OF checkpoint_sample_ok(1) this, of "sample_ws ''alice''" "[]"
      "(mem_id 2, sample_forged)" "[(mem_id 1, sample_create)]" "sample_describe [mem_id 2]"] cp run
  have "warnings = [WarnSkipped ''alice'']" by (simp add: sample_describe_def sample_op_def sample_ws_def)
  with run show ?thesis by blast
qed

end
