(* ===== verification/Global_View.thy ===== *)
theory Global_View
  imports Oplog_Checkpoint Patch_Join
begin

text \<open>
  The view over all workspaces, \<open>crates/maw-core/src/oplog/global_view.rs\<close>: the views of the workspaces
  that are not destroyed are summarised and their patch sets joined one after the other.
\<close>

record workspace_snapshot =
  sn_epoch :: "epoch_id option"
  sn_has_changes :: bool
  sn_patch_count :: nat
  sn_description :: "string option"
  sn_op_count :: nat

record global_view =
  gv_epoch :: "epoch_id option"
  gv_workspace_views :: "(string, workspace_snapshot) btree"
  gv_merged_patch_set :: "patch_set option"
  gv_conflicts :: "path_conflict list"
  gv_total_ops :: nat
  gv_cache_key :: "(string \<times> string) list"

definition snapshot_from_view :: "'j materialized_view \<Rightarrow> workspace_snapshot" where
  "snapshot_from_view v = \<lparr>sn_epoch = mv_epoch v, sn_has_changes = has_changes v,
     sn_patch_count = (case mv_patch_set v of None \<Rightarrow> 0 | Some ps \<Rightarrow> patch_set_len ps),
     sn_description = mv_description v, sn_op_count = mv_op_count v\<rparr>"

definition gv_is_clean :: "global_view \<Rightarrow> bool" where
  "gv_is_clean g \<longleftrightarrow> gv_conflicts g = []"

definition workspace_count :: "global_view \<Rightarrow> nat" where
  "workspace_count g = bm_len (gv_workspace_views g)"

definition gv_workspace_ids :: "global_view \<Rightarrow> string list" where
  "gv_workspace_ids g = bm_keys (gv_workspace_views g)"

definition total_patches :: "global_view \<Rightarrow> nat" where
  "total_patches g = (case gv_merged_patch_set g of None \<Rightarrow> 0 | Some ps \<Rightarrow> patch_set_len ps)"

definition cache_valid :: "global_view \<Rightarrow> (string \<times> string) list \<Rightarrow> bool" where
  "cache_valid g other_key \<longleftrightarrow> gv_cache_key g = other_key"

section \<open>Merging the patch sets\<close>

definition merge_step ::
  "(patch_value \<Rightarrow> string option) \<Rightarrow> patch_set \<Rightarrow> patch_set \<times> path_conflict list \<Rightarrow> patch_set \<times> path_conflict list" where
  "merge_step to_json ps = (\<lambda>(accumulated, all_conflicts).
     (case join to_json accumulated ps of
        Inr result \<Rightarrow> (jr_merged result, all_conflicts @ jr_conflicts result)
      | Inl _ \<Rightarrow> (accumulated, all_conflicts)))"

definition merge_patch_sets ::
  "(patch_value \<Rightarrow> string option) \<Rightarrow> patch_set list \<Rightarrow> patch_set option \<times> path_conflict list" where
  "merge_patch_sets to_json patch_sets =
     (case patch_sets of
        [] \<Rightarrow> (None, [])
      | [ps] \<Rightarrow> (Some ps, [])
      | ps # rest \<Rightarrow>
          (let (accumulated, all_conflicts) = fold (merge_step to_json) rest (ps, []);
               conflicts = dedup_by (\<lambda>a b. pc_path a = pc_path b)
                 (sort_by (\<lambda>a b. cmp_of (pc_path a) (pc_path b)) all_conflicts)
           in (Some (accumulated\<lparr>ps_patches := fold (\<lambda>c. bm_remove (pc_path c)) conflicts (ps_patches accumulated)\<rparr>),
               conflicts)))"

section \<open>The view\<close>

record view_totals =
  vt_views :: "(string, workspace_snapshot) btree"
  vt_epoch :: "epoch_id option"
  vt_ops :: nat
  vt_patch_sets :: "patch_set list"

definition max_epoch :: "epoch_id option \<Rightarrow> epoch_id option \<Rightarrow> epoch_id option" where
  "max_epoch current new = (case new of
     None \<Rightarrow> current
   | Some e \<Rightarrow> (case current of
       None \<Rightarrow> Some e
     | Some c \<Rightarrow> if epoch_str e > epoch_str c then Some e else Some c))"

definition add_view :: "'j materialized_view \<Rightarrow> view_totals \<Rightarrow> view_totals" where
  "add_view v t =
     (if mv_is_destroyed v then t
      else \<lparr>vt_views = bm_insert (ws_str (mv_workspace_id v)) (snapshot_from_view v) (vt_views t),
            vt_epoch = max_epoch (vt_epoch t) (mv_epoch v),
            vt_ops = vt_ops t + mv_op_count v,
            vt_patch_sets = vt_patch_sets t @ (case mv_patch_set v of None \<Rightarrow> [] | Some ps \<Rightarrow> [ps])\<rparr>)"

definition compute_global_view_from_views ::
  "(patch_value \<Rightarrow> string option) \<Rightarrow> 'j materialized_view list \<Rightarrow> (string \<times> string) list \<Rightarrow> global_view" where
  "compute_global_view_from_views to_json views cache_key =
     (let t = fold add_view views \<lparr>vt_views = bm_empty, vt_epoch = None, vt_ops = 0, vt_patch_sets = []\<rparr>;
          (merged, conflicts) = merge_patch_sets to_json (vt_patch_sets t)
      in \<lparr>gv_epoch = vt_epoch t, gv_workspace_views = vt_views t, gv_merged_patch_set = merged,
          gv_conflicts = conflicts, gv_total_ops = vt_ops t, gv_cache_key = cache_key\<rparr>)"

text \<open>One workspace: from its newest checkpoint, or by full replay when that fails.\<close>

definition workspace_view ::
  "('s, 'j) checkpoint_env \<Rightarrow> path \<Rightarrow> workspace_id \<Rightarrow> patch_set_reader \<Rightarrow> 's \<Rightarrow> (view_error + 'j materialized_view) option" where
  "workspace_view ce root w read_patch_set s =
     (case materialize_from_checkpoint ce root w read_patch_set s of
        None \<Rightarrow> None
      | Some (Inr v) \<Rightarrow> Some (Inr v)
      | Some (Inl _) \<Rightarrow> materialize (ce_oplog ce) root w read_patch_set s)"

definition cache_entry :: "workspace_id \<Rightarrow> 'j materialized_view \<Rightarrow> string \<times> string" where
  "cache_entry w v = (ws_str w, case mv_patch_set_oid v of None \<Rightarrow> ''empty'' | Some oid \<Rightarrow> oid_str oid)"

fun collect_views ::
  "('s, 'j) checkpoint_env \<Rightarrow> path \<Rightarrow> patch_set_reader \<Rightarrow> 's \<Rightarrow> workspace_id list \<Rightarrow>
   'j materialized_view list \<Rightarrow> (string \<times> string) list \<Rightarrow>
   (view_error + 'j materialized_view list \<times> (string \<times> string) list) option" where
  "collect_views ce root read_patch_set s [] views cache_key = Some (Inr (views, cache_key))"
| "collect_views ce root read_patch_set s (w # ws) views cache_key =
     (case workspace_view ce root w read_patch_set s of
        None \<Rightarrow> None
      | Some (Inl e) \<Rightarrow> Some (Inl e)
      | Some (Inr v) \<Rightarrow> collect_views ce root read_patch_set s ws (views @ [v]) (cache_key @ [cache_entry w v]))"

definition cmp_key :: "string \<times> string \<Rightarrow> string \<times> string \<Rightarrow> rust_ordering" where
  "cmp_key a b = then_with (cmp_of (fst a) (fst b)) (cmp_of (snd a) (snd b))"

definition compute_global_view ::
  "('s, 'j) checkpoint_env \<Rightarrow> (patch_value \<Rightarrow> string option) \<Rightarrow> path \<Rightarrow> workspace_id list \<Rightarrow> patch_set_reader \<Rightarrow> 's \<Rightarrow>
   (view_error + global_view) option" where
  "compute_global_view ce to_json root workspace_ids read_patch_set s =
     map_option (\<lambda>r. case r of
         Inl e \<Rightarrow> Inl e
       | Inr (views, cache_key) \<Rightarrow> Inr (compute_global_view_from_views to_json views (sort_by cmp_key cache_key)))
     (collect_views ce root read_patch_set s workspace_ids [] [])"

section \<open>What the joins amount to\<close>

text \<open>The values that patch sets have for a path.\<close>

definition path_values :: "patch_set list \<Rightarrow> path \<Rightarrow> patch_value set" where
  "path_values pss p = {v. \<exists>ps \<in> set pss. bm_get (ps_patches ps) p = Some v}"

definition contested :: "patch_set list \<Rightarrow> path set" where
  "contested pss = {p. \<exists>v \<in> path_values pss p. \<exists>w \<in> path_values pss p. v \<noteq> w}"

text \<open>The patch sets that take part: those of the epoch of the first one.\<close>

definition joinable :: "patch_set list \<Rightarrow> patch_set list" where
  "joinable pss = filter (\<lambda>ps. ps_base_epoch ps = ps_base_epoch (hd pss)) pss"

lemma path_values_snoc:
  "path_values (pss @ [ps]) p = path_values pss p \<union> set_option (bm_get (ps_patches ps) p)"
  by (auto simp: path_values_def)

lemma join_conflict_paths:
  assumes "join to_json a b = Inr j"
  shows "pc_path ` set (jr_conflicts j) =
    {p. \<exists>l r. bm_get (ps_patches a) p = Some l \<and> bm_get (ps_patches b) p = Some r \<and> l \<noteq> r}" (is "_ = ?P")
proof
  show "pc_path ` set (jr_conflicts j) \<subseteq> ?P" using join_conflict_iff [OF assms] by blast
  show "?P \<subseteq> pc_path ` set (jr_conflicts j)"
  proof
    fix p assume "p \<in> ?P"
    then obtain l r where "bm_get (ps_patches a) p = Some l" "bm_get (ps_patches b) p = Some r" "l \<noteq> r" by auto
    then have "\<lparr>pc_path = p, pc_sides = sorted_sides to_json l r, pc_reason = classify_conflict l r\<rparr> \<in> set (jr_conflicts j)"
      unfolding join_conflict_iff [OF assms] by auto
    then show "p \<in> pc_path ` set (jr_conflicts j)" by force
  qed
qed

definition merged_so_far :: "patch_set list \<Rightarrow> patch_set \<times> path_conflict list \<Rightarrow> bool" where
  "merged_so_far pss acc \<longleftrightarrow> ps_base_epoch (fst acc) = ps_base_epoch (hd pss)
     \<and> pc_path ` set (snd acc) = contested (joinable pss)
     \<and> (\<forall>p. p \<notin> contested (joinable pss) \<longrightarrow>
          path_values (joinable pss) p = set_option (bm_get (ps_patches (fst acc)) p))"

lemma merged_so_far_step:
  assumes acc: "merged_so_far pss acc" and ne: "pss \<noteq> []"
  shows "merged_so_far (pss @ [ps]) (merge_step to_json ps acc)"
proof -
  obtain a cs where a: "acc = (a, cs)" by force
  note inv = acc [unfolded merged_so_far_def a fst_conv snd_conv]
  show ?thesis
  proof (cases "ps_base_epoch ps = ps_base_epoch (hd pss)")
    case False
    then have "joinable (pss @ [ps]) = joinable pss" using ne by (simp add: joinable_def)
    moreover have "merge_step to_json ps acc = acc"
      using False inv by (simp add: merge_step_def a join_def)
    ultimately show ?thesis using inv ne by (simp add: merged_so_far_def a)
  next
    case True
    then have js: "joinable (pss @ [ps]) = joinable pss @ [ps]" using ne by (simp add: joinable_def)
    obtain j where j: "join to_json a ps = Inr j" using join_defined [of a ps to_json] True inv by auto
    then have step: "merge_step to_json ps acc = (jr_merged j, cs @ jr_conflicts j)"
      by (simp add: merge_step_def a)
    let ?J = "joinable pss"
    have vals: "path_values (?J @ [ps]) p = path_values ?J p \<union> set_option (bm_get (ps_patches ps) p)" for p
      by (rule path_values_snoc)
    have old: "p \<notin> contested ?J \<Longrightarrow> path_values ?J p = set_option (bm_get (ps_patches a) p)" for p
      using inv by simp
    have "p \<in> contested (?J @ [ps]) \<longleftrightarrow> p \<in> contested ?J \<or> p \<in> pc_path ` set (jr_conflicts j)" for p
    proof (cases "p \<in> contested ?J")
      case True
      then show ?thesis unfolding contested_def mem_Collect_eq vals by blast
    next
      case False
      then have "p \<in> contested (?J @ [ps]) \<longleftrightarrow>
          (\<exists>l r. bm_get (ps_patches a) p = Some l \<and> bm_get (ps_patches ps) p = Some r \<and> l \<noteq> r)"
        unfolding contested_def mem_Collect_eq vals old [OF False]
        by (cases "bm_get (ps_patches a) p"; cases "bm_get (ps_patches ps) p") auto
      with False show ?thesis unfolding join_conflict_paths [OF j] by simp
    qed
    then have paths: "contested (?J @ [ps]) = contested ?J \<union> pc_path ` set (jr_conflicts j)" by blast
    have "path_values (?J @ [ps]) p = set_option (bm_get (ps_patches (jr_merged j)) p)"
      if "p \<notin> contested (?J @ [ps])" for p
    proof -
      from that paths have p: "p \<notin> contested ?J" "p \<notin> pc_path ` set (jr_conflicts j)" by auto
      from p(2) show ?thesis
        unfolding vals old [OF p(1)] join_conflict_paths [OF j] join_Inr(3) [OF j]
        by (cases "bm_get (ps_patches a) p"; cases "bm_get (ps_patches ps) p") auto
    qed
    moreover have "ps_base_epoch (jr_merged j) = ps_base_epoch (hd pss)" using join_Inr(2) [OF j] inv by simp
    ultimately show ?thesis
      using inv ne paths by (auto simp: merged_so_far_def js step)
  qed
qed

lemma merged_so_far_fold:
  "merged_so_far pss acc \<Longrightarrow> pss \<noteq> [] \<Longrightarrow> merged_so_far (pss @ rest) (fold (merge_step to_json) rest acc)"
proof (induction rest arbitrary: pss acc)
  case (Cons ps rest)
  from Cons.IH [OF merged_so_far_step [OF Cons.prems]] show ?case by simp
qed simp

lemma contested_single: "contested [ps] = {}" "joinable [ps] = [ps]"
  by (auto simp: contested_def path_values_def joinable_def)

lemma merge_patch_sets_spec:
  assumes "pss \<noteq> []"
  shows "\<exists>m cs. merge_patch_sets to_json pss = (Some m, cs) \<and> ps_base_epoch m = ps_base_epoch (hd pss)
    \<and> (\<forall>p v. bm_get (ps_patches m) p = Some v \<longleftrightarrow> path_values (joinable pss) p = {v})
    \<and> map pc_path cs = sorted_list_of_set (contested (joinable pss))"
proof -
  obtain ps rest where pss: "pss = ps # rest" using assms by (cases pss) auto
  show ?thesis
  proof (cases rest)
    case Nil
    then show ?thesis
      by (auto simp: pss merge_patch_sets_def contested_single path_values_def)
  next
    case (Cons ps2 rest2)
    obtain a cs where run: "fold (merge_step to_json) rest (ps, []) = (a, cs)" by force
    have "merged_so_far [ps] (ps, [])"
      by (auto simp: merged_so_far_def contested_single path_values_def)
    from merged_so_far_fold [OF this, of rest to_json] have inv: "merged_so_far pss (a, cs)"
      by (simp add: pss run)
    let ?s = "sort_by (\<lambda>a b. cmp_of (pc_path a) (pc_path b)) cs"
    let ?cs = "dedup_by (\<lambda>a b. pc_path a = pc_path b) ?s"
    let ?m = "a\<lparr>ps_patches := fold (\<lambda>c. bm_remove (pc_path c)) ?cs (ps_patches a)\<rparr>"
    have merge: "merge_patch_sets to_json pss = (Some ?m, ?cs)"
      using run by (simp add: merge_patch_sets_def pss Cons Let_def)
    have paths: "pc_path ` set ?cs = contested (joinable pss)"
      using inv by (simp add: dedup_by_keys merged_so_far_def)
    have "sorted_wrt (<) (map pc_path ?cs)"
      by (rule dedup_by_sorted) (simp add: sort_by_key)
    then have "sorted_list_of_set (set (map pc_path ?cs)) = map pc_path ?cs"
      by (intro sorted_list_of_set.idem_if_sorted_distinct) (simp_all add: strict_sorted_iff)
    then have "map pc_path ?cs = sorted_list_of_set (contested (joinable pss))"
      by (simp only: paths [symmetric] set_map)
    moreover have "bm_get (ps_patches ?m) p = (if p \<in> contested (joinable pss) then None else bm_get (ps_patches a) p)" for p
    proof -
      have "bm_get (fold (\<lambda>c. bm_remove (pc_path c)) ?cs (ps_patches a)) p =
          bm_get (fold bm_remove (map pc_path ?cs) (ps_patches a)) p"
        by (simp add: fold_map comp_def)
      then show ?thesis by (simp add: bm.get_fold_remove paths)
    qed
    then have "bm_get (ps_patches ?m) p = Some v \<longleftrightarrow> path_values (joinable pss) p = {v}" for p v
    proof (cases "p \<in> contested (joinable pss)")
      case True
      then have "path_values (joinable pss) p \<noteq> {v}" unfolding contested_def by auto
      with True \<open>\<And>p. bm_get (ps_patches ?m) p = _\<close> show ?thesis by simp
    next
      case False
      then have "path_values (joinable pss) p = set_option (bm_get (ps_patches a) p)"
        using inv by (simp add: merged_so_far_def)
      with False \<open>\<And>p. bm_get (ps_patches ?m) p = _\<close> show ?thesis
        by (cases "bm_get (ps_patches a) p") auto
    qed
    moreover have "ps_base_epoch ?m = ps_base_epoch (hd pss)" using inv by (simp add: merged_so_far_def)
    ultimately show ?thesis using merge by blast
  qed
qed

section \<open>Property\<close>

abbreviation live_views :: "'j materialized_view list \<Rightarrow> 'j materialized_view list" where
  "live_views views \<equiv> filter (\<lambda>v. \<not> mv_is_destroyed v) views"

definition patch_sets_of :: "'j materialized_view list \<Rightarrow> patch_set list" where
  "patch_sets_of views = concat (map (\<lambda>v. case mv_patch_set v of None \<Rightarrow> [] | Some ps \<Rightarrow> [ps]) (live_views views))"

lemma max_epoch_bounds:
  "current = Some c \<Longrightarrow> \<exists>m. max_epoch current new = Some m \<and> epoch_str c \<le> epoch_str m"
  "new = Some e \<Longrightarrow> \<exists>m. max_epoch current new = Some m \<and> epoch_str e \<le> epoch_str m"
  "max_epoch current new \<in> {current, new}"
  by (auto simp: max_epoch_def split: option.splits)

lemma add_view_fold:
  "fold add_view views t =
     \<lparr>vt_views = fold (\<lambda>v. bm_insert (ws_str (mv_workspace_id v)) (snapshot_from_view v)) (live_views views) (vt_views t),
      vt_epoch = fold (\<lambda>v e. max_epoch e (mv_epoch v)) (live_views views) (vt_epoch t),
      vt_ops = vt_ops t + sum_list (map mv_op_count (live_views views)),
      vt_patch_sets = vt_patch_sets t @ patch_sets_of views\<rparr>"
  by (induction views arbitrary: t) (auto simp: add_view_def patch_sets_of_def)

lemma max_epoch_fold:
  "(\<forall>c. e = Some c \<longrightarrow> (\<exists>m. fold (\<lambda>v e. max_epoch e (mv_epoch v)) vs e = Some m \<and> epoch_str c \<le> epoch_str m))
   \<and> (\<forall>v \<in> set vs. \<forall>c. mv_epoch v = Some c \<longrightarrow>
        (\<exists>m. fold (\<lambda>v e. max_epoch e (mv_epoch v)) vs e = Some m \<and> epoch_str c \<le> epoch_str m))
   \<and> fold (\<lambda>v e. max_epoch e (mv_epoch v)) vs e \<in> insert e (mv_epoch ` set vs)"
proof (induction vs arbitrary: e)
  case (Cons v vs)
  note ih = Cons.IH [of "max_epoch e (mv_epoch v)"]
  have "\<exists>m. fold (\<lambda>v e. max_epoch e (mv_epoch v)) vs (max_epoch e (mv_epoch v)) = Some m \<and> epoch_str c \<le> epoch_str m"
    if "e = Some c \<or> mv_epoch v = Some c" for c
    using that ih max_epoch_bounds(1,2) [of _ _ "mv_epoch v"] max_epoch_bounds(2) [of "mv_epoch v" _ e] order_trans
    by (metis (no_types, lifting))
  with ih max_epoch_bounds(3) [of e "mv_epoch v"] show ?case by auto
qed simp

text \<open>The global view leaves destroyed workspaces out, adds up the operations of the others, shows the last
  view of each and an epoch none of theirs exceeds. Of the patch sets that share the epoch of the first, the
  merged one changes a path exactly when those that touch it agree, and the conflicting paths, in order, are the
  ones they disagree on, whatever the order of the views.\<close>

theorem global_view_merges_agreement:
  fixes views :: "'j materialized_view list" and to_json :: "patch_value \<Rightarrow> string option" and key :: "(string \<times> string) list"
  defines "g \<equiv> compute_global_view_from_views to_json views key" and "pss \<equiv> patch_sets_of views"
  shows "gv_total_ops g = sum_list (map mv_op_count (live_views views))
    \<and> gv_cache_key g = key
    \<and> (\<forall>i. bm_get (gv_workspace_views g) i =
          map_of (rev (map (\<lambda>v. (ws_str (mv_workspace_id v), snapshot_from_view v)) (live_views views))) i)
    \<and> (\<forall>v \<in> set (live_views views). \<forall>e. mv_epoch v = Some e \<longrightarrow>
          (\<exists>m. gv_epoch g = Some m \<and> epoch_str e \<le> epoch_str m))
    \<and> gv_epoch g \<in> insert None (mv_epoch ` set (live_views views))
    \<and> (case gv_merged_patch_set g of
         None \<Rightarrow> pss = []
       | Some m \<Rightarrow> pss \<noteq> [] \<and> (\<forall>p v. bm_get (ps_patches m) p = Some v \<longleftrightarrow> path_values (joinable pss) p = {v}))
    \<and> map pc_path (gv_conflicts g) = sorted_list_of_set (contested (joinable pss))"
proof -
  let ?t = "fold add_view views \<lparr>vt_views = bm_empty, vt_epoch = None, vt_ops = 0, vt_patch_sets = []\<rparr>"
  obtain m cs where mp: "merge_patch_sets to_json pss = (m, cs)" by force
  have t: "?t = \<lparr>vt_views = fold (\<lambda>v. bm_insert (ws_str (mv_workspace_id v)) (snapshot_from_view v)) (live_views views) bm_empty,
      vt_epoch = fold (\<lambda>v e. max_epoch e (mv_epoch v)) (live_views views) None,
      vt_ops = sum_list (map mv_op_count (live_views views)), vt_patch_sets = pss\<rparr>"
    by (simp add: add_view_fold pss_def)
  have g: "g = \<lparr>gv_epoch = vt_epoch ?t, gv_workspace_views = vt_views ?t, gv_merged_patch_set = m,
      gv_conflicts = cs, gv_total_ops = vt_ops ?t, gv_cache_key = key\<rparr>"
    using mp by (simp add: g_def compute_global_view_from_views_def t Let_def)
  have views: "bm_get (vt_views ?t) i =
      map_of (rev (map (\<lambda>v. (ws_str (mv_workspace_id v), snapshot_from_view v)) (live_views views))) i" for i
    using bm_get_of_list [of "map (\<lambda>v. (ws_str (mv_workspace_id v), snapshot_from_view v)) (live_views views)" i]
    by (simp add: t bm_of_list_def fold_map comp_def)
  have merged: "(case m of None \<Rightarrow> pss = [] | Some m \<Rightarrow> pss \<noteq> [] \<and>
        (\<forall>p v. bm_get (ps_patches m) p = Some v \<longleftrightarrow> path_values (joinable pss) p = {v}))
      \<and> map pc_path cs = sorted_list_of_set (contested (joinable pss))"
  proof (cases "pss = []")
    case True
    then show ?thesis using mp by (auto simp: merge_patch_sets_def joinable_def contested_def path_values_def)
  next
    case False
    from merge_patch_sets_spec [OF this, of to_json] mp False show ?thesis by auto
  qed
  show ?thesis
    using views merged max_epoch_fold [of None "live_views views"] by (simp add: g t)
qed

text \<open>Three workspaces that change the same path differently: the sides of the conflict are those that meet first.\<close>

definition sample_patches :: "patch_value \<Rightarrow> patch_set" where
  "sample_patches v = \<lparr>ps_base_epoch = sample_epoch CHR ''a'', ps_patches = bm_insert [''f''] v bm_empty\<rparr>"

definition sample_live :: "string \<Rightarrow> patch_value \<Rightarrow> unit materialized_view" where
  "sample_live w v = (view_empty (sample_ws w))\<lparr>mv_epoch := Some (sample_epoch CHR ''a''),
     mv_patch_set := Some (sample_patches v), mv_op_count := 2\<rparr>"

abbreviation sample_value :: "char \<Rightarrow> patch_value" where
  "sample_value c \<equiv> PAdd (sample_oid c) (FileId 1)"

lemma global_view_merges_agreement_witness:
  "map pc_path (gv_conflicts (compute_global_view_from_views (\<lambda>_. None)
      [sample_live ''alice'' (sample_value CHR ''a''), sample_live ''bob'' (sample_value CHR ''b'')] [])) = [[''f'']]"
proof -
  let ?views = "[sample_live ''alice'' (sample_value CHR ''a''), sample_live ''bob'' (sample_value CHR ''b'')]"
  have pss: "patch_sets_of ?views = [sample_patches (sample_value CHR ''a''), sample_patches (sample_value CHR ''b'')]"
    by (simp add: patch_sets_of_def sample_live_def view_empty_def)
  have "joinable (patch_sets_of ?views) = patch_sets_of ?views"
    by (simp add: pss joinable_def sample_patches_def)
  moreover have "sample_oid CHR ''a'' \<noteq> sample_oid CHR ''b''" by (simp add: sample_oid_def)
  ultimately have "contested (joinable (patch_sets_of ?views)) = {[''f'']}"
    by (auto simp: pss contested_def path_values_def sample_patches_def)
  with global_view_merges_agreement [where to_json = "\<lambda>_. None" and views = ?views and key = "[]"]
  show ?thesis by simp
qed

text \<open>The record of a conflict depends on the order of the workspaces.\<close>

lemma global_view_sides_depend_on_order:
  "map pc_sides (gv_conflicts (compute_global_view_from_views (\<lambda>_. None)
      [sample_live ''alice'' (sample_value CHR ''a''), sample_live ''bob'' (sample_value CHR ''b''),
       sample_live ''carol'' (sample_value CHR ''c'')] [])) \<noteq>
   map pc_sides (gv_conflicts (compute_global_view_from_views (\<lambda>_. None)
      [sample_live ''alice'' (sample_value CHR ''a''), sample_live ''carol'' (sample_value CHR ''c''),
       sample_live ''bob'' (sample_value CHR ''b'')] []))"
  by code_simp

end
