(* ===== verification/Build_Tree.thy ===== *)
theory Build_Tree
  imports Resolve_Partition Git_Refs
begin

text \<open>
  The build step, \<open>crates/maw-core/src/merge/build.rs\<close>: the epoch's tree is read into a flat map, the
  resolved changes are applied to it, tree objects are written from the deepest directory up, and a commit is
  made with the epoch as its parent. The object store is the record \<open>git_objects\<close>; the order in which a
  \<open>HashMap\<close> is iterated is the argument \<open>hash_iter\<close>. A walk that never ends is \<open>None\<close>.
\<close>

section \<open>Objects\<close>

datatype git_entry_mode = GBlob | GBlobExecutable | GTree | GLink | GCommit

fun to_git_mode :: "entry_mode \<Rightarrow> git_entry_mode" where
  "to_git_mode MBlob = GBlob"
| "to_git_mode MBlobExecutable = GBlobExecutable"
| "to_git_mode MTree = GTree"
| "to_git_mode MLink = GLink"
| "to_git_mode MCommit = GCommit"

record tree_entry =
  te_name :: string
  te_mode :: git_entry_mode
  te_oid :: raw_oid

record commit_info =
  ci_tree_oid :: raw_oid
  ci_parents :: "raw_oid list"
  ci_message :: string

record 's git_objects =
  go_read_tree :: "raw_oid \<Rightarrow> 's \<Rightarrow> git_error + tree_entry list"
  go_read_commit :: "raw_oid \<Rightarrow> 's \<Rightarrow> git_error + commit_info"
  go_write_blob_with_path :: "string \<Rightarrow> string \<Rightarrow> 's \<Rightarrow> (git_error + raw_oid) \<times> 's"
  go_write_tree :: "tree_entry list \<Rightarrow> 's \<Rightarrow> (git_error + raw_oid) \<times> 's"
  go_create_commit :: "raw_oid \<Rightarrow> raw_oid list \<Rightarrow> string \<Rightarrow> 's \<Rightarrow> (git_error + raw_oid) \<times> 's"

datatype build_error =
    BuildGitCommand string string "int option"
  | BuildIo string
  | MalformedLsTree string
  | BuildInvalidOid string string

fun is_upsert :: "resolved_change \<Rightarrow> bool" where
  "is_upsert (RUpsert _ _) = True"
| "is_upsert (RDelete _) = False"

definition is_delete :: "resolved_change \<Rightarrow> bool" where
  "is_delete c \<longleftrightarrow> \<not> is_upsert c"

fun git_mode_str :: "git_entry_mode \<Rightarrow> string" where
  "git_mode_str GBlob = ''100644''"
| "git_mode_str GBlobExecutable = ''100755''"
| "git_mode_str GLink = ''120000''"
| "git_mode_str GCommit = ''160000''"
| "git_mode_str GTree = ''040000''"

section \<open>Reading the epoch's tree\<close>

text \<open>\<open>prefix.join(name)\<close>: joining the empty name adds no component.\<close>

definition join_name :: "path \<Rightarrow> string \<Rightarrow> path" where
  "join_name pre name = (if name = [] then pre else pre @ [name])"

type_synonym flat_tree = "(path, string \<times> string) btree"

partial_function (option) walk_entries ::
  "(raw_oid \<Rightarrow> git_error + tree_entry list) \<Rightarrow> path \<Rightarrow> tree_entry list \<Rightarrow> flat_tree \<Rightarrow> (build_error + flat_tree) option" where
  "walk_entries read pre entries flat =
     (case entries of
        [] \<Rightarrow> Some (Inr flat)
      | entry # rest \<Rightarrow>
          if te_mode entry = GTree then
            (case read (te_oid entry) of
               Inl e \<Rightarrow> Some (Inl (BuildGitCommand (''read_tree '' @ raw_oid_str (te_oid entry)) (git_error_str e) None))
             | Inr entries' \<Rightarrow>
                 Option.bind (walk_entries read (join_name pre (te_name entry)) entries' flat)
                   (\<lambda>r. case r of Inl e \<Rightarrow> Some (Inl e) | Inr flat' \<Rightarrow> walk_entries read pre rest flat'))
          else walk_entries read pre rest
                 (bm_insert (join_name pre (te_name entry)) (git_mode_str (te_mode entry), raw_oid_str (te_oid entry)) flat))"

declare walk_entries.simps [code]

definition walk_tree_recursive ::
  "(raw_oid \<Rightarrow> git_error + tree_entry list) \<Rightarrow> raw_oid \<Rightarrow> path \<Rightarrow> flat_tree \<Rightarrow> (build_error + flat_tree) option" where
  "walk_tree_recursive read tree_oid pre flat =
     (case read tree_oid of
        Inl e \<Rightarrow> Some (Inl (BuildGitCommand (''read_tree '' @ raw_oid_str tree_oid) (git_error_str e) None))
      | Inr entries \<Rightarrow> walk_entries read pre entries flat)"

definition read_epoch_tree :: "'s git_objects \<Rightarrow> epoch_id \<Rightarrow> 's \<Rightarrow> (build_error + flat_tree) option" where
  "read_epoch_tree G epoch s =
     (case raw_oid_from_str (epoch_str epoch) of
        Inl _ \<Rightarrow> Some (Inl (BuildInvalidOid ''epoch OID parse'' (epoch_str epoch)))
      | Inr commit_oid \<Rightarrow>
          (case go_read_commit G commit_oid s of
             Inl e \<Rightarrow> Some (Inl (BuildGitCommand (''read_commit '' @ epoch_str epoch) (git_error_str e) None))
           | Inr info \<Rightarrow> walk_tree_recursive (\<lambda>oid. go_read_tree G oid s) (ci_tree_oid info) [] bm_empty))"

section \<open>Applying the changes\<close>

definition write_blob_at :: "'s git_objects \<Rightarrow> blob \<Rightarrow> string \<Rightarrow> 's \<Rightarrow> (build_error + git_oid) \<times> 's" where
  "write_blob_at G content rel_path s =
     (case go_write_blob_with_path G content rel_path s of
        (Inl e, s') \<Rightarrow> (Inl (BuildGitCommand ''write_blob_with_path'' (git_error_str e) None), s')
      | (Inr oid, s') \<Rightarrow>
          (case git_oid_new (raw_oid_str oid) of
             Inl _ \<Rightarrow> (Inl (BuildInvalidOid ''write_blob_with_path output'' (raw_oid_str oid)), s')
           | Inr g \<Rightarrow> (Inr g, s')))"

definition upsert_mode :: "(path, git_entry_mode) btree \<Rightarrow> flat_tree \<Rightarrow> path \<Rightarrow> string" where
  "upsert_mode modes tree p =
     (case bm_get modes p of
        Some m \<Rightarrow> git_mode_str m
      | None \<Rightarrow> (case bm_get tree p of None \<Rightarrow> ''100644'' | Some (m, _) \<Rightarrow> m))"

fun apply_changes ::
  "'s git_objects \<Rightarrow> (path, git_entry_mode) btree \<Rightarrow> resolved_change list \<Rightarrow> flat_tree \<Rightarrow> 's \<Rightarrow>
   (build_error + flat_tree) \<times> 's" where
  "apply_changes G modes [] tree s = (Inr tree, s)"
| "apply_changes G modes (RUpsert p content # changes) tree s =
     (case write_blob_at G content (from_utf8_lossy (path_str p)) s of
        (Inl e, s') \<Rightarrow> (Inl e, s')
      | (Inr blob_oid, s') \<Rightarrow>
          apply_changes G modes changes (bm_insert p (upsert_mode modes tree p, oid_str blob_oid) tree) s')"
| "apply_changes G modes (RDelete p # changes) tree s = apply_changes G modes changes (bm_remove p tree) s"

section \<open>Writing the tree\<close>

text \<open>Names byte by byte; past its end a directory's name goes on with a slash.\<close>

fun git_name_cmp :: "string \<Rightarrow> bool \<Rightarrow> string \<Rightarrow> bool \<Rightarrow> rust_ordering" where
  "git_name_cmp (a # xs) a_is_tree (b # ys) b_is_tree =
     (if a \<noteq> b then cmp_of a b else git_name_cmp xs a_is_tree ys b_is_tree)"
| "git_name_cmp [] a_is_tree (b # ys) b_is_tree = (if a_is_tree then cmp_of (CHR ''/'') b else Less)"
| "git_name_cmp (a # xs) a_is_tree [] b_is_tree = (if b_is_tree then cmp_of a (CHR ''/'') else Greater)"
| "git_name_cmp [] a_is_tree [] b_is_tree =
     (if a_is_tree = b_is_tree then Equal else if a_is_tree then Greater else Less)"

definition git_tree_entry_cmp :: "tree_entry \<Rightarrow> tree_entry \<Rightarrow> rust_ordering" where
  "git_tree_entry_cmp a b = git_name_cmp (te_name a) (te_mode a = GTree) (te_name b) (te_mode b = GTree)"

text \<open>The loop from a directory up to one that is known already.\<close>

function push_dirs :: "path \<Rightarrow> path list \<Rightarrow> path list" where
  "push_dirs current dirs =
     (if current = [] \<or> current \<in> set dirs then dirs else push_dirs (butlast current) (dirs @ [current]))"
  by auto
termination by (relation "measure (\<lambda>(current, _). length current)") (auto simp: neq_Nil_conv)

declare push_dirs.simps [simp del]

definition all_dirs :: "flat_tree \<Rightarrow> path list" where
  "all_dirs flat = fold (\<lambda>p. push_dirs (butlast p)) (bm_keys flat) [[]]"

definition deepest_first :: "path \<Rightarrow> path \<Rightarrow> rust_ordering" where
  "deepest_first a b = then_with (cmp_of (length b) (length a)) (cmp_of a b)"

text \<open>\<open>file_name().and_then(to_str).unwrap_or_default()\<close>.\<close>

definition entry_name :: "path \<Rightarrow> string" where
  "entry_name p = (if p \<noteq> [] \<and> utf8_valid (last p) then last p else [])"

definition mode_of_str :: "string \<Rightarrow> git_entry_mode" where
  "mode_of_str m = (if m = ''100755'' then GBlobExecutable else if m = ''120000'' then GLink
     else if m = ''160000'' then GCommit else GBlob)"

fun blob_entries :: "path \<Rightarrow> (path \<times> string \<times> string) list \<Rightarrow> build_error + tree_entry list" where
  "blob_entries dir [] = Inr []"
| "blob_entries dir ((p, m_str, o_str) # flat) =
     (if butlast p \<noteq> dir then blob_entries dir flat
      else case raw_oid_from_str o_str of
        Inl _ \<Rightarrow> Inl (BuildInvalidOid (''blob OID for '' @ path_str p) o_str)
      | Inr oid \<Rightarrow>
          res_bind (blob_entries dir flat)
            (\<lambda>es. Inr (\<lparr>te_name = entry_name p, te_mode = mode_of_str m_str, te_oid = oid\<rparr> # es)))"

definition subtree_entries :: "path \<Rightarrow> (path \<times> raw_oid) list \<Rightarrow> tree_entry list" where
  "subtree_entries dir tree_oids =
     map (\<lambda>(p, oid). \<lparr>te_name = entry_name p, te_mode = GTree, te_oid = oid\<rparr>)
       (filter (\<lambda>(p, _). butlast p = dir) tree_oids)"

fun build_dirs ::
  "'s git_objects \<Rightarrow> ((path \<times> raw_oid) list \<Rightarrow> (path \<times> raw_oid) list) \<Rightarrow> flat_tree \<Rightarrow> path list \<Rightarrow>
   (path, raw_oid) btree \<Rightarrow> 's \<Rightarrow> (build_error + (path, raw_oid) btree) \<times> 's" where
  "build_dirs G hash_iter flat [] tree_oids s = (Inr tree_oids, s)"
| "build_dirs G hash_iter flat (dir # dirs) tree_oids s =
     (case blob_entries dir (bm_entries flat) of
        Inl e \<Rightarrow> (Inl e, s)
      | Inr blobs \<Rightarrow>
          (case go_write_tree G (sort_by git_tree_entry_cmp
                  (blobs @ subtree_entries dir (hash_iter (bm_entries tree_oids)))) s of
             (Inl e, s') \<Rightarrow> (Inl (BuildGitCommand ''write_tree'' (git_error_str e) None), s')
           | (Inr tree_oid, s') \<Rightarrow> build_dirs G hash_iter flat dirs (bm_insert dir tree_oid tree_oids) s'))"

definition build_tree ::
  "'s git_objects \<Rightarrow> ((path \<times> raw_oid) list \<Rightarrow> (path \<times> raw_oid) list) \<Rightarrow> flat_tree \<Rightarrow> 's \<Rightarrow>
   (build_error + git_oid) \<times> 's" where
  "build_tree G hash_iter flat s =
     (case build_dirs G hash_iter flat (sort_by deepest_first (all_dirs flat)) bm_empty s of
        (Inl e, s') \<Rightarrow> (Inl e, s')
      | (Inr tree_oids, s') \<Rightarrow>
          (case bm_get tree_oids [] of
             None \<Rightarrow> (Inl (BuildInvalidOid ''root tree OID from write_tree'' []), s')
           | Some root \<Rightarrow>
               (case git_oid_new (raw_oid_str root) of
                  Inl _ \<Rightarrow> (Inl (BuildInvalidOid ''root tree OID from write_tree'' (raw_oid_str root)), s')
                | Inr g \<Rightarrow> (Inr g, s'))))"

section \<open>The commit\<close>

definition create_commit :: "'s git_objects \<Rightarrow> epoch_id \<Rightarrow> git_oid \<Rightarrow> string \<Rightarrow> 's \<Rightarrow> (build_error + git_oid) \<times> 's" where
  "create_commit G parent tree message s =
     (case raw_oid_from_str (oid_str tree) of
        Inl _ \<Rightarrow> (Inl (BuildInvalidOid ''tree OID parse for create_commit'' (oid_str tree)), s)
      | Inr tree_oid \<Rightarrow>
     (case raw_oid_from_str (epoch_str parent) of
        Inl _ \<Rightarrow> (Inl (BuildInvalidOid ''parent OID parse for create_commit'' (epoch_str parent)), s)
      | Inr parent_oid \<Rightarrow>
     (case go_create_commit G tree_oid [parent_oid] message s of
        (Inl e, s') \<Rightarrow>
          (Inl (BuildGitCommand (''create_commit tree='' @ oid_str tree @ '' parent='' @ epoch_str parent) (git_error_str e) None), s')
      | (Inr c, s') \<Rightarrow>
          (case git_oid_new (raw_oid_str c) of
             Inl _ \<Rightarrow> (Inl (BuildInvalidOid ''create_commit output'' (raw_oid_str c)), s')
           | Inr g \<Rightarrow> (Inr g, s')))))"

definition default_message :: "workspace_id list \<Rightarrow> string" where
  "default_message workspace_ids =
     (if workspace_ids = [] then ''epoch: merge''
      else ''epoch: merge '' @ join_with '' '' (sort_by cmp_of (map ws_str workspace_ids)))"

definition build_merge_commit ::
  "'s git_objects \<Rightarrow> ((path \<times> raw_oid) list \<Rightarrow> (path \<times> raw_oid) list) \<Rightarrow> epoch_id \<Rightarrow> workspace_id list \<Rightarrow>
   resolved_change list \<Rightarrow> (path, git_entry_mode) btree \<Rightarrow> string option \<Rightarrow> 's \<Rightarrow>
   ((build_error + git_oid) \<times> 's) option" where
  "build_merge_commit G hash_iter epoch workspace_ids resolved modes message s =
     map_option (\<lambda>r. case r of
         Inl e \<Rightarrow> (Inl e, s)
       | Inr tree \<Rightarrow>
           (case apply_changes G modes (sort_by (\<lambda>a b. cmp_of (change_path a) (change_path b)) resolved) tree s of
              (Inl e, s1) \<Rightarrow> (Inl e, s1)
            | (Inr tree', s1) \<Rightarrow>
                (case build_tree G hash_iter tree' s1 of
                   (Inl e, s2) \<Rightarrow> (Inl e, s2)
                 | (Inr root_tree_oid, s2) \<Rightarrow>
                     create_commit G epoch root_tree_oid
                       (case message of Some m \<Rightarrow> m | None \<Rightarrow> default_message workspace_ids) s2)))
     (read_epoch_tree G epoch s)"

section \<open>The contract of the store\<close>

text \<open>What the repository and git document of the object store: \<open>write_tree\<close> of maw-git puts the entries into git's order, so
  a list that is in this order reads back as it was given, as a commit does; the objects that are there stay, ids are not reused and have 20 bytes. \<open>holds s oid p c\<close> says that the blob \<open>oid\<close> stands for
  the content \<open>c\<close> of the file \<open>p\<close>, directly or as a pointer.\<close>

definition more_objects :: "'s git_objects \<Rightarrow> 's \<Rightarrow> 's \<Rightarrow> bool" where
  "more_objects G s s' \<longleftrightarrow>
     (\<forall>oid es. go_read_tree G oid s = Inr es \<longrightarrow> go_read_tree G oid s' = Inr es)
   \<and> (\<forall>oid c. go_read_commit G oid s = Inr c \<longrightarrow> go_read_commit G oid s' = Inr c)"

definition git_objects_ok :: "'s git_objects \<Rightarrow> ('s \<Rightarrow> raw_oid \<Rightarrow> string \<Rightarrow> blob \<Rightarrow> bool) \<Rightarrow> bool" where
  "git_objects_ok G holds \<longleftrightarrow>
     (\<forall>es s r s'. go_write_tree G es s = (r, s') \<longrightarrow> more_objects G s s'
        \<and> (\<forall>oid. r = Inr oid \<longrightarrow> sort_by git_tree_entry_cmp es = es \<longrightarrow> go_read_tree G oid s' = Inr es)
        \<and> (\<forall>o' p c. holds s o' p c \<longrightarrow> holds s' o' p c))
   \<and> (\<forall>c p s r s'. go_write_blob_with_path G c p s = (r, s') \<longrightarrow> more_objects G s s'
        \<and> (\<forall>oid. r = Inr oid \<longrightarrow> holds s' oid p c)
        \<and> (\<forall>o' p' c'. holds s o' p' c' \<longrightarrow> holds s' o' p' c'))
   \<and> (\<forall>oid s es. go_read_tree G oid s = Inr es \<longrightarrow> list_all (\<lambda>e. length (oid_bytes (te_oid e)) = 20) es)
   \<and> (\<forall>t ps m s r s'. go_create_commit G t ps m s = (r, s') \<longrightarrow> more_objects G s s'
        \<and> (\<forall>oid. r = Inr oid \<longrightarrow> go_read_commit G oid s' = Inr \<lparr>ci_tree_oid = t, ci_parents = ps, ci_message = m\<rparr>)
        \<and> (\<forall>o' p c. holds s o' p c \<longrightarrow> holds s' o' p c))"

end
