(* ===== verification/Merge_Drivers.thy ===== *)
theory Merge_Drivers
  imports Build_Tree Merge_State
begin

text \<open>
  The deterministic merge drivers of the BUILD phase, \<open>src/merge/build_phase.rs\<close> with the drivers of
  \<open>crates/maw-core/src/config.rs\<close>: a path that a configured glob matches keeps the epoch's version
  (\<open>ours\<close>), takes the single workspace's version (\<open>theirs\<close>), or is regenerated by a command in a
  temporary worktree of a provisional commit. The glob library and the temporary worktree with its
  commands are the records \<open>glob_env\<close> and \<open>regen_env\<close>; printing is not modelled.
\<close>

section \<open>Configuration\<close>

datatype merge_driver_kind = Regenerate | KeepOurs | KeepTheirs

record merge_driver =
  md_match_glob :: string
  md_kind :: merge_driver_kind
  md_command :: "string option"
  md_required :: bool

definition default_merge_drivers :: "merge_driver list" where
  "default_merge_drivers =
     [\<lparr>md_match_glob = ''Cargo.lock'', md_kind = Regenerate, md_command = Some ''cargo generate-lockfile'',
       md_required = False\<rparr>,
      \<lparr>md_match_glob = ''package-lock.json'', md_kind = Regenerate,
       md_command = Some ''npm install --package-lock-only'', md_required = False\<rparr>]"

definition effective_drivers :: "merge_driver list \<Rightarrow> merge_driver list" where
  "effective_drivers drivers = (if drivers = [] then default_merge_drivers else drivers)"

section \<open>Errors\<close>

datatype build_phase_error =
    WrongPhase merge_phase merge_phase
  | BpState merge_state_error
  | BpConfig string
  | BpCollect string
  | BpResolve resolve_failure
  | BpBuild build_error
  | BpReadBase path string
  | BpDriver string

section \<open>Choosing a driver\<close>

definition quoted :: "string \<Rightarrow> string" where
  "quoted s = CHR 0x27 # s @ [CHR 0x27]"

record 'g glob_env =
  ge_new :: "string \<Rightarrow> string + 'g"
  ge_matches :: "'g \<Rightarrow> path \<Rightarrow> bool"

record 'g compiled_driver =
  cd_index :: nat
  cd_pattern :: 'g
  cd_driver :: merge_driver

fun compile_drivers :: "'g glob_env \<Rightarrow> nat \<Rightarrow> merge_driver list \<Rightarrow> build_phase_error + 'g compiled_driver list" where
  "compile_drivers ge index [] = Inr []"
| "compile_drivers ge index (driver # drivers) =
     (case ge_new ge (md_match_glob driver) of
        Inl e \<Rightarrow> Inl (BpDriver (''invalid merge driver glob '' @ quoted (md_match_glob driver) @ '': '' @ e))
      | Inr pattern \<Rightarrow>
          res_bind (compile_drivers ge (Suc index) drivers)
            (\<lambda>cds. Inr (\<lparr>cd_index = index, cd_pattern = pattern, cd_driver = driver\<rparr> # cds)))"

definition select_driver :: "'g glob_env \<Rightarrow> path \<Rightarrow> 'g compiled_driver list \<Rightarrow> 'g compiled_driver option" where
  "select_driver ge p compiled = find (\<lambda>d. ge_matches ge (cd_pattern d) p) compiled"

definition remove_conflict_path :: "conflict_record list \<Rightarrow> path \<Rightarrow> conflict_record list" where
  "remove_conflict_path conflicts p = filter (\<lambda>c. cr_path c \<noteq> p) conflicts"

definition ours_change :: "path \<Rightarrow> blob option \<Rightarrow> resolved_change" where
  "ours_change p base = (case base of None \<Rightarrow> RDelete p | Some content \<Rightarrow> RUpsert p content)"

definition theirs_change :: "path \<Rightarrow> path_entry list \<Rightarrow> build_phase_error + resolved_change" where
  "theirs_change p entries =
     (case entries of
        [entry] \<Rightarrow>
          if pe_is_deletion entry then Inr (RDelete p)
          else (case pe_content entry of
              None \<Rightarrow> Inl (BpDriver (''theirs driver for '' @ quoted (path_str p)
                @ '' is missing file content from workspace '' @ ws_str (pe_workspace_id entry)))
            | Some content \<Rightarrow> Inr (RUpsert p content))
      | _ \<Rightarrow> Inl (BpDriver (''theirs driver for '' @ quoted (path_str p)
                @ '' requires exactly one workspace change (found '' @ show_nat (length entries) @ '')'')))"

text \<open>What the loop over the paths carries along.\<close>

record driver_state =
  ds_resolved :: "(path, resolved_change) btree"
  ds_conflicts :: "conflict_record list"
  ds_regenerate :: "(nat, path set) btree"

definition has_command :: "merge_driver \<Rightarrow> bool" where
  "has_command d \<longleftrightarrow> (case md_command d of None \<Rightarrow> False | Some cmd \<Rightarrow> str_trim cmd \<noteq> [])"

definition maybe_apply_driver ::
  "'g glob_env \<Rightarrow> (path, blob) btree \<Rightarrow> 'g compiled_driver list \<Rightarrow> path \<Rightarrow> path_entry list \<Rightarrow> driver_state \<Rightarrow>
   build_phase_error + driver_state" where
  "maybe_apply_driver ge base_contents compiled p entries st =
     (case select_driver ge p compiled of
        None \<Rightarrow> Inr st
      | Some d \<Rightarrow>
          (case md_kind (cd_driver d) of
             KeepOurs \<Rightarrow>
               Inr (st\<lparr>ds_resolved := bm_insert p (ours_change p (bm_get base_contents p)) (ds_resolved st),
                       ds_conflicts := remove_conflict_path (ds_conflicts st) p\<rparr>)
           | KeepTheirs \<Rightarrow>
               res_bind (theirs_change p entries)
                 (\<lambda>change. Inr (st\<lparr>ds_resolved := bm_insert p change (ds_resolved st),
                                   ds_conflicts := remove_conflict_path (ds_conflicts st) p\<rparr>))
           | Regenerate \<Rightarrow>
               if \<not> has_command (cd_driver d) then
                 Inl (BpDriver (''regenerate driver for '' @ quoted (path_str p) @ '' must set a non-empty command''))
               else
                 Inr (st\<lparr>ds_regenerate := bm_insert (cd_index d)
                           (insert p (case bm_get (ds_regenerate st) (cd_index d) of None \<Rightarrow> {} | Some ps \<Rightarrow> ps))
                           (ds_regenerate st),
                         ds_conflicts := remove_conflict_path (ds_conflicts st) p\<rparr>)))"

fun drive_paths ::
  "'g glob_env \<Rightarrow> (path, blob) btree \<Rightarrow> 'g compiled_driver list \<Rightarrow> (path \<times> path_entry list) list \<Rightarrow> driver_state \<Rightarrow>
   build_phase_error + driver_state" where
  "drive_paths ge base_contents compiled [] st = Inr st"
| "drive_paths ge base_contents compiled ((p, entries) # rest) st =
     res_bind (maybe_apply_driver ge base_contents compiled p entries st)
       (drive_paths ge base_contents compiled rest)"

section \<open>Modes and attributes for the tree\<close>

definition record_mode :: "path \<Rightarrow> path_entry \<Rightarrow> (path, git_entry_mode) btree \<Rightarrow> (path, git_entry_mode) btree" where
  "record_mode p entry modes =
     (if pe_kind entry = Deleted then modes
      else case pe_mode entry of
          None \<Rightarrow> modes
        | Some m \<Rightarrow> bm_or_insert p (to_git_mode m) modes)"

definition modes_from_partition :: "partition_result \<Rightarrow> (path, git_entry_mode) btree" where
  "modes_from_partition pt =
     (let from_unique = fold (\<lambda>(p, entry). record_mode p entry) (pt_unique pt) bm_empty
      in fold (\<lambda>(p, entries) modes. case entries of [] \<Rightarrow> modes | first # _ \<Rightarrow> record_mode p first modes)
           (pt_shared pt) from_unique)"

text \<open>The overrides handed to the repository: directory prefix and text of each \<open>.gitattributes\<close>.\<close>

definition attrs_prefix :: "path \<Rightarrow> string" where
  "attrs_prefix p =
     (let s = map (\<lambda>c. if c = CHR 0x5C then CHR ''/'' else c) (from_utf8_lossy (path_str (butlast p)))
      in if s = [] then s else s @ ''/'')"

fun pending_attrs :: "resolved_change list \<Rightarrow> (string \<times> blob) list" where
  "pending_attrs [] = []"
| "pending_attrs (RUpsert p content # rest) =
     (if p \<noteq> [] \<and> last p = ''.gitattributes'' then (attrs_prefix p, content) # pending_attrs rest
      else pending_attrs rest)"
| "pending_attrs (RDelete p # rest) = pending_attrs rest"

section \<open>Regeneration\<close>

text \<open>The temporary worktree: creating it at a commit, running a shell command in it (an error when it cannot be
  spawned, else exit code and standard error), reading files, removing it.\<close>

record ('s, 'w) regen_env =
  rg_create :: "git_oid \<Rightarrow> 's \<Rightarrow> (string + 'w) \<times> 's"
  rg_run :: "string \<Rightarrow> 'w \<Rightarrow> (string + int option \<times> string) \<times> 'w"
  rg_is_file :: "path \<Rightarrow> 'w \<Rightarrow> bool"
  rg_read :: "path \<Rightarrow> 'w \<Rightarrow> string + blob"
  rg_remove :: "'w \<Rightarrow> 's \<Rightarrow> (string + unit) \<times> 's"

definition show_exit :: "int option \<Rightarrow> string" where
  "show_exit code = (case code of None \<Rightarrow> ''None''
     | Some n \<Rightarrow> ''Some('' @ (if n < 0 then ''-'' else []) @ show_nat (nat \<bar>n\<bar>) @ '')'')"

definition regen_failed :: "string list \<Rightarrow> string \<Rightarrow> int option \<Rightarrow> string \<Rightarrow> build_phase_error" where
  "regen_failed touched command code stderr =
     BpDriver (''regenerate command failed for ['' @ join_with '', '' touched @ '']: `'' @ command @ ''` (exit ''
       @ show_exit code @ '')'' @ (if stderr = [] then [] else '': '' @ stderr)
       @ newline # ''  To skip: set required = false on this merge driver'')"

definition regen_command :: "merge_driver \<Rightarrow> string option" where
  "regen_command d = (case md_command d of None \<Rightarrow> None
     | Some cmd \<Rightarrow> if str_trim cmd \<noteq> [] then Some (str_trim cmd) else None)"

text \<open>The commands, one per driver; the result is the drivers whose command succeeded.\<close>

fun run_commands ::
  "('s, 'w) regen_env \<Rightarrow> 'g compiled_driver list \<Rightarrow> (nat \<times> path set) list \<Rightarrow> 'w \<Rightarrow> nat set \<Rightarrow>
   (build_phase_error + nat set) \<times> 'w" where
  "run_commands rg compiled [] w succeeded = (Inr succeeded, w)"
| "run_commands rg compiled ((index, paths) # rest) w succeeded =
     (case find (\<lambda>d. cd_index d = index) compiled of
        None \<Rightarrow> (Inl (BpDriver (''internal error: missing compiled regenerate driver #'' @ show_nat index)), w)
      | Some d \<Rightarrow>
     (case regen_command (cd_driver d) of
        None \<Rightarrow> (Inl (BpDriver (''regenerate driver '' @ quoted (md_match_glob (cd_driver d)) @ '' has no command'')), w)
      | Some command \<Rightarrow>
     (case rg_run rg command w of
        (Inl e, w') \<Rightarrow> (Inl (BpDriver (''failed to spawn regenerate command `'' @ command @ ''`: '' @ e)), w')
      | (Inr (code, stderr), w') \<Rightarrow>
          if code \<noteq> Some 0 then
            (if md_required (cd_driver d) then
               (Inl (regen_failed (map path_str (sorted_list_of_set paths)) command code
                  (str_trim (from_utf8_lossy stderr))), w')
             else run_commands rg compiled rest w' succeeded)
          else run_commands rg compiled rest w' (insert index succeeded))))"

fun read_regenerated :: "('s, 'w) regen_env \<Rightarrow> 'w \<Rightarrow> path list \<Rightarrow> build_phase_error + resolved_change list" where
  "read_regenerated rg w [] = Inr []"
| "read_regenerated rg w (p # ps) =
     (if rg_is_file rg p w then
        (case rg_read rg p w of
           Inl e \<Rightarrow> Inl (BpDriver (''failed to read regenerated file '' @ quoted (path_str p) @ '': '' @ e))
         | Inr content \<Rightarrow> res_bind (read_regenerated rg w ps) (\<lambda>cs. Inr (RUpsert p content # cs)))
      else res_bind (read_regenerated rg w ps) (\<lambda>cs. Inr (RDelete p # cs)))"

definition run_regenerate_drivers ::
  "('s, 'w) regen_env \<Rightarrow> git_oid \<Rightarrow> 'g compiled_driver list \<Rightarrow> (nat, path set) btree \<Rightarrow> 's \<Rightarrow>
   (build_phase_error + resolved_change list) \<times> 's" where
  "run_regenerate_drivers rg candidate compiled regenerate s =
     (case rg_create rg candidate s of
        (Inl e, s1) \<Rightarrow> (Inl (BpDriver e), s1)
      | (Inr w, s1) \<Rightarrow>
          (let (outcome, w') = run_commands rg compiled (bm_entries regenerate) w {};
               result = res_bind outcome (\<lambda>succeeded.
                 res_bind (read_regenerated rg w'
                     (concat (map (\<lambda>(index, paths). if index \<in> succeeded then sorted_list_of_set paths else [])
                       (bm_entries regenerate))))
                   (\<lambda>changes. Inr (sort_by (\<lambda>a b. cmp_of (change_path a) (change_path b)) changes)));
               (cleanup, s2) = rg_remove rg w' s1
           in (case result of
                 Inl e \<Rightarrow> (Inl e, s2)
               | Inr changes \<Rightarrow> (case cleanup of Inl e \<Rightarrow> (Inl (BpDriver e), s2) | Inr _ \<Rightarrow> (Inr changes, s2)))))"

section \<open>All drivers\<close>

text \<open>The repository the step writes to: opened with the pending attributes, with the order in which a hash map
  is iterated and the error that opening reports, if it fails.\<close>

record 's repo_env =
  re_open_error :: "'s \<Rightarrow> git_error option"
  re_with_attrs :: "(string \<times> blob) list \<Rightarrow> 's git_objects"
  re_hash_iter :: "(path \<times> raw_oid) list \<Rightarrow> (path \<times> raw_oid) list"
  re_root :: path

definition open_gix_repo :: "'s repo_env \<Rightarrow> 's \<Rightarrow> build_phase_error + unit" where
  "open_gix_repo re s = (case re_open_error re s of
     Some e \<Rightarrow> Inl (BpBuild (BuildGitCommand (''open repo at '' @ path_str (re_root re)) (git_error_str e) None))
   | None \<Rightarrow> Inr ())"

definition commit_resolved ::
  "'s repo_env \<Rightarrow> epoch_id \<Rightarrow> workspace_id list \<Rightarrow> partition_result \<Rightarrow> resolved_change list \<Rightarrow> string option \<Rightarrow> 's \<Rightarrow>
   ((build_phase_error + git_oid) \<times> 's) option" where
  "commit_resolved re epoch sources pt resolved message s =
     (case open_gix_repo re s of
        Inl e \<Rightarrow> Some (Inl e, s)
      | Inr _ \<Rightarrow>
          map_option (\<lambda>(r, s'). (case r of Inl e \<Rightarrow> Inl (BpBuild e) | Inr c \<Rightarrow> Inr c, s'))
            (build_merge_commit (re_with_attrs re (pending_attrs resolved)) (re_hash_iter re) epoch sources resolved
               (modes_from_partition pt) message s))"

fun change_map :: "resolved_change list \<Rightarrow> (path, resolved_change) btree \<Rightarrow> (path, resolved_change) btree" where
  "change_map [] m = m"
| "change_map (c # cs) m = change_map cs (bm_insert (change_path c) c m)"

definition apply_merge_drivers ::
  "'g glob_env \<Rightarrow> ('s, 'w) regen_env \<Rightarrow> 's repo_env \<Rightarrow> epoch_id \<Rightarrow> workspace_id list \<Rightarrow> partition_result \<Rightarrow>
   (path, blob) btree \<Rightarrow> resolve_result \<Rightarrow> merge_driver list \<Rightarrow> 's \<Rightarrow>
   ((build_phase_error + resolved_change list \<times> conflict_record list) \<times> 's) option" where
  "apply_merge_drivers ge rg re epoch sources pt base_contents rr drivers s =
     (if effective_drivers drivers = [] then Some (Inr (rr_resolved rr, rr_conflicts rr), s)
      else case compile_drivers ge 0 (effective_drivers drivers) of
        Inl e \<Rightarrow> Some (Inl e, s)
      | Inr compiled \<Rightarrow>
     (case drive_paths ge base_contents compiled (map (\<lambda>(p, e). (p, [e])) (pt_unique pt) @ pt_shared pt)
             \<lparr>ds_resolved = change_map (rr_resolved rr) bm_empty, ds_conflicts = rr_conflicts rr,
              ds_regenerate = bm_empty\<rparr> of
        Inl e \<Rightarrow> Some (Inl e, s)
      | Inr st \<Rightarrow>
          (let conflicts = sort_by (\<lambda>a b. cmp_of (cr_path a) (cr_path b)) (ds_conflicts st)
           in if bm_is_empty (ds_regenerate st) then Some (Inr (bm_values (ds_resolved st), conflicts), s)
              else map_option (\<lambda>r. case r of
                  (Inl e, s1) \<Rightarrow> (Inl e, s1)
                | (Inr provisional, s1) \<Rightarrow>
                    (case run_regenerate_drivers rg provisional compiled (ds_regenerate st) s1 of
                       (Inl e, s2) \<Rightarrow> (Inl e, s2)
                     | (Inr regenerated, s2) \<Rightarrow>
                         (Inr (bm_values (change_map regenerated (ds_resolved st)), conflicts), s2)))
                (commit_resolved re epoch sources pt (bm_values (ds_resolved st)) None s))))"

end
