(* ===== verification/Build_Phase.thy ===== *)
theory Build_Phase
  imports Merge_Drivers
begin

text \<open>
  The BUILD phase, \<open>src/merge/build_phase.rs\<close>: collect the workspaces' changes, add the changes of the epoch
  since a stale workspace forked as one more participant, partition, read the bases, resolve, apply the merge
  drivers and build the candidate commit, between two writes of the merge-state file. The collection of
  snapshots, git's merge base and tree diff, reading a file at a commit, the attribute files and the
  configuration file are the fields of \<open>pipeline_env\<close>; \<open>pl_ast\<close> is \<open>None\<close> when the program is compiled
  without the AST merge.
\<close>

record ('s, 'w, 'g, 'l) pipeline_env =
  pl_repo :: "'s repo_env"
  pl_regen :: "('s, 'w) regen_env"
  pl_glob :: "'g glob_env"
  pl_std :: std_choice
  pl_merge :: merge_env
  pl_ast :: "'l ast_env option"
  pl_collect :: "workspace_id list \<Rightarrow> 's \<Rightarrow> (string + ws_patch_set list) \<times> 's"
  pl_merge_base :: "raw_oid \<Rightarrow> raw_oid \<Rightarrow> 's \<Rightarrow> git_error + raw_oid option"
  pl_diff_trees :: "raw_oid \<Rightarrow> raw_oid \<Rightarrow> 's \<Rightarrow> git_error + path list"
  pl_read_file :: "string \<Rightarrow> path \<Rightarrow> 's \<Rightarrow> git_error + blob option"
  pl_attrs :: "string \<Rightarrow> 's \<Rightarrow> (string \<Rightarrow> string option) option"

section \<open>Stale workspaces\<close>

definition workspace_merge_base ::
  "('s, 'w, 'g, 'l) pipeline_env \<Rightarrow> epoch_id \<Rightarrow> epoch_id \<Rightarrow> 's \<Rightarrow> epoch_id" where
  "workspace_merge_base pl ws_epoch current s =
     (if epoch_str ws_epoch = epoch_str current then current
      else if re_open_error (pl_repo pl) s \<noteq> None then ws_epoch
      else case (raw_oid_from_str (epoch_str ws_epoch), raw_oid_from_str (epoch_str current)) of
          (Inr a, Inr b) \<Rightarrow>
            (case pl_merge_base pl a b s of
               Inr (Some base) \<Rightarrow> (case epoch_id_new (raw_oid_str base) of Inr e \<Rightarrow> e | Inl _ \<Rightarrow> ws_epoch)
             | _ \<Rightarrow> ws_epoch)
        | _ \<Rightarrow> ws_epoch)"

definition epoch_delta_paths ::
  "('s, 'w, 'g, 'l) pipeline_env \<Rightarrow> epoch_id \<Rightarrow> epoch_id \<Rightarrow> 's \<Rightarrow> build_phase_error + path list" where
  "epoch_delta_paths pl old_epoch new_epoch s =
     (let mk_err = (\<lambda>e. BpBuild (BuildGitCommand
              (''diff-tree '' @ epoch_str old_epoch @ '' '' @ epoch_str new_epoch) e None));
          repo = re_with_attrs (pl_repo pl) []
      in case re_open_error (pl_repo pl) s of
           Some e \<Rightarrow> Inl (mk_err (git_error_str e))
         | None \<Rightarrow>
      (case raw_oid_from_str (epoch_str old_epoch) of
           Inl e \<Rightarrow> Inl (mk_err (oid_parse_error_str e))
         | Inr old_commit \<Rightarrow>
      (case raw_oid_from_str (epoch_str new_epoch) of
           Inl e \<Rightarrow> Inl (mk_err (oid_parse_error_str e))
         | Inr new_commit \<Rightarrow>
      (case go_read_commit repo old_commit s of
           Inl e \<Rightarrow> Inl (mk_err (git_error_str e))
         | Inr old_info \<Rightarrow>
      (case go_read_commit repo new_commit s of
           Inl e \<Rightarrow> Inl (mk_err (git_error_str e))
         | Inr new_info \<Rightarrow>
      (case pl_diff_trees pl (ci_tree_oid old_info) (ci_tree_oid new_info) s of
           Inl e \<Rightarrow> Inl (mk_err (git_error_str e))
         | Inr paths \<Rightarrow> Inr paths))))))"

datatype read_base_error = RbNotFound | RbGitError string

definition read_file_at_epoch ::
  "('s, 'w, 'g, 'l) pipeline_env \<Rightarrow> epoch_id \<Rightarrow> path \<Rightarrow> 's \<Rightarrow> read_base_error + blob" where
  "read_file_at_epoch pl epoch p s =
     (case re_open_error (pl_repo pl) s of
        Some e \<Rightarrow> Inl (RbGitError (''open repo: '' @ git_error_str e))
      | None \<Rightarrow>
          (case pl_read_file pl (epoch_str epoch) p s of
             Inr (Some content) \<Rightarrow> Inr content
           | Inr None \<Rightarrow> Inl RbNotFound
           | Inl e \<Rightarrow> Inl (RbGitError (''read '' @ epoch_str epoch @ '':'' @ path_str p @ '': '' @ git_error_str e))))"

text \<open>The change the epoch made to a path since the fork, and the content at the fork.\<close>

definition delta_change :: "('s, 'w, 'g, 'l) pipeline_env \<Rightarrow> epoch_id \<Rightarrow> path \<Rightarrow> 's \<Rightarrow> build_phase_error + file_change" where
  "delta_change pl current p s =
     (case read_file_at_epoch pl current p s of
        Inr content \<Rightarrow> Inr (file_change_new p Modified (Some content))
      | Inl RbNotFound \<Rightarrow> Inr (file_change_new p Deleted None)
      | Inl (RbGitError detail) \<Rightarrow> Inl (BpReadBase p detail))"

definition base_override ::
  "('s, 'w, 'g, 'l) pipeline_env \<Rightarrow> epoch_id \<Rightarrow> path \<Rightarrow> 's \<Rightarrow> (path, blob) btree \<Rightarrow> build_phase_error + (path, blob) btree" where
  "base_override pl oldest p s overrides =
     (case read_file_at_epoch pl oldest p s of
        Inr content \<Rightarrow> Inr (bm_insert p content overrides)
      | Inl RbNotFound \<Rightarrow> Inr overrides
      | Inl (RbGitError detail) \<Rightarrow> Inl (BpReadBase p detail))"

fun delta_changes ::
  "('s, 'w, 'g, 'l) pipeline_env \<Rightarrow> epoch_id \<Rightarrow> epoch_id \<Rightarrow> 's \<Rightarrow> path list \<Rightarrow> file_change list \<Rightarrow> (path, blob) btree \<Rightarrow>
   build_phase_error + file_change list \<times> (path, blob) btree" where
  "delta_changes pl current oldest s [] changes overrides = Inr (changes, overrides)"
| "delta_changes pl current oldest s (p # ps) changes overrides =
     res_bind (delta_change pl current p s)
       (\<lambda>change. res_bind (base_override pl oldest p s overrides)
         (\<lambda>overrides'. delta_changes pl current oldest s ps (changes @ [change]) overrides'))"

text \<open>The paths that changed since one of the forks, and the first of the forks; the code's \<open>expect\<close> that there is one
  is the error \<open>at least one stale epoch\<close> of \<open>inject_epoch_delta\<close>, which the guard before it rules out.\<close>

fun union_delta ::
  "('s, 'w, 'g, 'l) pipeline_env \<Rightarrow> epoch_id \<Rightarrow> 's \<Rightarrow> string list \<Rightarrow> path list \<Rightarrow> epoch_id option \<Rightarrow>
   build_phase_error + path list \<times> epoch_id option" where
  "union_delta pl current s [] paths oldest = Inr (paths, oldest)"
| "union_delta pl current s (base_hex # rest) paths oldest =
     (case epoch_id_new base_hex of
        Inl e \<Rightarrow> Inl (BpBuild (BuildGitCommand ''parse stale base epoch'' (validation_error_str e) None))
      | Inr base_epoch \<Rightarrow>
          res_bind (epoch_delta_paths pl base_epoch current s)
            (\<lambda>more. union_delta pl current s rest (paths @ more)
               (case oldest of None \<Rightarrow> Some base_epoch | Some e \<Rightarrow> Some e)))"

definition stale_base_epochs :: "('s, 'w, 'g, 'l) pipeline_env \<Rightarrow> epoch_id \<Rightarrow> ws_patch_set list \<Rightarrow> 's \<Rightarrow> string list" where
  "stale_base_epochs pl current patch_sets s =
     sorted_list_of_set (set (filter (\<lambda>hex. hex \<noteq> epoch_str current)
       (map (\<lambda>ps. epoch_str (workspace_merge_base pl (wp_epoch ps) current s)) patch_sets)))"

definition touched_paths :: "ws_patch_set list \<Rightarrow> path set" where
  "touched_paths patch_sets = set (concat (map (\<lambda>ps. map fc_path (wp_changes ps)) patch_sets))"

definition inject_epoch_delta ::
  "('s, 'w, 'g, 'l) pipeline_env \<Rightarrow> epoch_id \<Rightarrow> ws_patch_set list \<Rightarrow> 's \<Rightarrow>
   build_phase_error + ws_patch_set list \<times> (path, blob) btree" where
  "inject_epoch_delta pl current patch_sets s =
     (let stale = stale_base_epochs pl current patch_sets s
      in if stale = [] then Inr (patch_sets, bm_empty)
         else res_bind (union_delta pl current s stale [] None)
           (\<lambda>(delta_paths, oldest).
              let overlapping = sorted_list_of_set (set delta_paths \<inter> touched_paths patch_sets)
              in if overlapping = [] then Inr (patch_sets, bm_empty)
                 else case oldest of
                     None \<Rightarrow> Inl (BpDriver ''at least one stale epoch'')
                   | Some oldest_base \<Rightarrow>
                       res_bind (delta_changes pl current oldest_base s overlapping [] bm_empty)
                         (\<lambda>(changes, overrides).
                            Inr (patch_sets @ [ws_patch_set_new epoch_delta current changes], overrides))))"

section \<open>The pipeline\<close>

definition partition_paths :: "partition_result \<Rightarrow> path list" where
  "partition_paths pt = map fst (pt_unique pt) @ map fst (pt_shared pt)"

fun read_bases ::
  "('s, 'w, 'g, 'l) pipeline_env \<Rightarrow> epoch_id \<Rightarrow> 's \<Rightarrow> path list \<Rightarrow> (path, blob) btree \<Rightarrow> build_phase_error + (path, blob) btree" where
  "read_bases pl epoch s [] bases = Inr bases"
| "read_bases pl epoch s (p # ps) bases =
     (case read_file_at_epoch pl epoch p s of
        Inr content \<Rightarrow> read_bases pl epoch s ps (bm_insert p content bases)
      | Inl RbNotFound \<Rightarrow> read_bases pl epoch s ps bases
      | Inl (RbGitError detail) \<Rightarrow> Inl (BpReadBase p detail))"

definition read_base_contents ::
  "('s, 'w, 'g, 'l) pipeline_env \<Rightarrow> epoch_id \<Rightarrow> partition_result \<Rightarrow> 's \<Rightarrow> build_phase_error + (path, blob) btree" where
  "read_base_contents pl epoch pt s = read_bases pl epoch s (partition_paths pt) bm_empty"

definition load_attrs_at_epoch :: "('s, 'w, 'g, 'l) pipeline_env \<Rightarrow> epoch_id \<Rightarrow> 's \<Rightarrow> string \<Rightarrow> string option" where
  "load_attrs_at_epoch pl epoch s =
     (if re_open_error (pl_repo pl) s \<noteq> None then (\<lambda>_. None)
      else case pl_attrs pl (epoch_str epoch) s of None \<Rightarrow> (\<lambda>_. None) | Some attrs \<Rightarrow> attrs)"

definition resolve_partition_for_build ::
  "('s, 'w, 'g, 'l) pipeline_env \<Rightarrow> partition_result \<Rightarrow> (path, blob) btree \<Rightarrow> (string \<Rightarrow> string option) \<Rightarrow>
   build_phase_error + resolve_result" where
  "resolve_partition_for_build pl pt bases attrs =
     (let env = (pl_merge pl)\<lparr>me_attrs := Some attrs\<rparr>
      in case (case pl_ast pl of
                 Some ast \<Rightarrow> resolve_partition_with_ast_and_attrs env ast pt bases
               | None \<Rightarrow> resolve_partition_with_attrs env pt bases) of
           Inl e \<Rightarrow> Inl (BpResolve e)
         | Inr rr \<Rightarrow> Inr rr)"

record build_phase_output =
  bo_candidate :: git_oid
  bo_conflicts :: "conflict_record list"
  bo_resolved_count :: nat
  bo_unique_count :: nat
  bo_shared_count :: nat
  bo_resolved_paths :: "path list"

text \<open>From the partition on, the two entry points do the same.\<close>

definition resolve_and_commit ::
  "('s, 'w, 'g, 'l) pipeline_env \<Rightarrow> epoch_id \<Rightarrow> workspace_id list \<Rightarrow> string option \<Rightarrow> merge_driver list \<Rightarrow>
   partition_result \<Rightarrow> (path, blob) btree \<Rightarrow> 's \<Rightarrow> ((build_phase_error + build_phase_output) \<times> 's) option" where
  "resolve_and_commit pl epoch sources message drivers pt bases s =
     (case resolve_partition_for_build pl pt bases (load_attrs_at_epoch pl epoch s) of
        Inl e \<Rightarrow> Some (Inl e, s)
      | Inr rr \<Rightarrow>
          Option.bind (apply_merge_drivers (pl_glob pl) (pl_regen pl) (pl_repo pl) epoch sources pt bases rr drivers s)
            (\<lambda>(r, s1). case r of
                Inl e \<Rightarrow> Some (Inl e, s1)
              | Inr (resolved, conflicts) \<Rightarrow>
                  map_option (\<lambda>(c, s2). (case c of
                       Inl e \<Rightarrow> Inl e
                     | Inr candidate \<Rightarrow> Inr \<lparr>bo_candidate = candidate, bo_conflicts = conflicts,
                         bo_resolved_count = length resolved, bo_unique_count = unique_count pt,
                         bo_shared_count = shared_count pt, bo_resolved_paths = map change_path resolved\<rparr>, s2))
                    (commit_resolved (pl_repo pl) epoch sources pt resolved message s1)))"

definition run_pipeline ::
  "('s, 'w, 'g, 'l) pipeline_env \<Rightarrow> merge_state_file \<Rightarrow> merge_driver list \<Rightarrow> 's \<Rightarrow>
   ((build_phase_error + build_phase_output) \<times> 's) option" where
  "run_pipeline pl state drivers s0 =
     (case pl_collect pl (ms_sources state) s0 of
        (Inl e, s) \<Rightarrow> Some (Inl (BpCollect e), s)
      | (Inr patch_sets, s) \<Rightarrow>
     (case inject_epoch_delta pl (ms_epoch_before state) patch_sets s of
        Inl e \<Rightarrow> Some (Inl e, s)
      | Inr (patch_sets', overrides) \<Rightarrow>
          (let pt = partition_by_path (pl_std pl) patch_sets'
           in case read_base_contents pl (ms_epoch_before state) pt s of
                Inl e \<Rightarrow> Some (Inl e, s)
              | Inr bases \<Rightarrow>
                  resolve_and_commit pl (ms_epoch_before state) (ms_sources state) (ms_commit_message state) drivers pt
                    (fold (\<lambda>(p, content). bm_insert p content) (bm_entries overrides) bases) s)))"

definition run_build_phase_with_inputs ::
  "('s, 'w, 'g, 'l) pipeline_env \<Rightarrow> epoch_id \<Rightarrow> workspace_id list \<Rightarrow> 's \<Rightarrow>
   ((build_phase_error + build_phase_output) \<times> 's) option" where
  "run_build_phase_with_inputs pl epoch sources s0 =
     (case pl_collect pl sources s0 of
        (Inl e, s) \<Rightarrow> Some (Inl (BpCollect e), s)
      | (Inr patch_sets, s) \<Rightarrow>
          (let pt = partition_by_path (pl_std pl) patch_sets
           in case read_base_contents pl epoch pt s of
                Inl e \<Rightarrow> Some (Inl e, s)
              | Inr bases \<Rightarrow> resolve_and_commit pl epoch sources None [] pt bases s))"

section \<open>The phase\<close>

text \<open>The merge-state file around the pipeline: its text, the faults of the first read and the two writes, the
  configured drivers, the clock and the failpoints.\<close>

record phase_env =
  ph_codec :: merge_state_codec
  ph_io :: "nat \<Rightarrow> io_env"
  ph_manifold_dir :: path
  ph_load_config :: "path \<Rightarrow> disk \<Rightarrow> string + merge_driver list"
  ph_now :: "nat \<Rightarrow> u64"
  ph_failpoint :: "string \<Rightarrow> string option"

definition fp_build :: "phase_env \<Rightarrow> string \<Rightarrow> build_phase_error + unit" where
  "fp_build ph name = (case ph_failpoint ph name of Some m \<Rightarrow> Inl (BpDriver m) | None \<Rightarrow> Inr ())"

definition start_build ::
  "phase_env \<Rightarrow> disk \<Rightarrow> (build_phase_error + merge_state_file \<times> merge_driver list) \<times> disk" where
  "start_build ph d =
     (let state_path = default_path (ph_manifold_dir ph)
      in case read_merge_state (ph_codec ph) (ph_io ph 0) state_path d of
           (Inl e, d1) \<Rightarrow> (Inl (BpState e), d1)
         | (Inr state, d1) \<Rightarrow>
      if ms_phase state \<noteq> Prepare then (Inl (WrongPhase Prepare (ms_phase state)), d1)
      else (case ph_load_config ph (ph_manifold_dir ph @ [''config.toml'']) d1 of
           Inl e \<Rightarrow> (Inl (BpConfig e), d1)
         | Inr drivers \<Rightarrow>
      (case fp_build ph ''FP_BUILD_BEFORE_WORKTREE_ADD'' of
           Inl e \<Rightarrow> (Inl e, d1)
         | Inr _ \<Rightarrow>
      (case advance Build (ph_now ph 0) state of
           (Inl e, _) \<Rightarrow> (Inl (BpState e), d1)
         | (Inr _, state') \<Rightarrow>
      (case write_atomic (ph_codec ph) (ph_io ph 1) state_path state' d1 of
           (Inl e, d2) \<Rightarrow> (Inl (BpState e), d2)
         | (Inr _, d2) \<Rightarrow>
      (case res_bind (fp_build ph ''FP_BUILD_AFTER_WORKTREE_ADD'')
              (\<lambda>_. fp_build ph ''FP_BUILD_BEFORE_MERGE_COMPUTE'') of
           Inl e \<Rightarrow> (Inl e, d2)
         | Inr _ \<Rightarrow> (Inr (state', drivers), d2)))))))"

definition record_candidate ::
  "phase_env \<Rightarrow> merge_state_file \<Rightarrow> build_phase_output \<Rightarrow> disk \<Rightarrow> (build_phase_error + build_phase_output) \<times> disk" where
  "record_candidate ph state output d =
     (case fp_build ph ''FP_BUILD_AFTER_MERGE_COMPUTE'' of
        Inl e \<Rightarrow> (Inl e, d)
      | Inr _ \<Rightarrow>
          (case write_atomic (ph_codec ph) (ph_io ph 2) (default_path (ph_manifold_dir ph))
                  (state\<lparr>ms_epoch_candidate := Some (bo_candidate output), ms_updated_at := ph_now ph 1\<rparr>) d of
             (Inl e, d') \<Rightarrow> (Inl (BpState e), d')
           | (Inr _, d') \<Rightarrow> (Inr output, d')))"

definition run_build_phase ::
  "('s, 'w, 'g, 'l) pipeline_env \<Rightarrow> phase_env \<Rightarrow> 's \<times> disk \<Rightarrow>
   ((build_phase_error + build_phase_output) \<times> 's \<times> disk) option" where
  "run_build_phase pl ph = (\<lambda>(s, d).
     case start_build ph d of
       (Inl e, d1) \<Rightarrow> Some (Inl e, s, d1)
     | (Inr (state, drivers), d1) \<Rightarrow>
         map_option (\<lambda>(r, s1). case r of
             Inl e \<Rightarrow> (Inl e, s1, d1)
           | Inr output \<Rightarrow> (let (r', d2) = record_candidate ph state output d1 in (r', s1, d2)))
           (run_pipeline pl state drivers s))"

end
