(* ===== verification/Driver_Facts.thy ===== *)
theory Driver_Facts
  imports Merge_Drivers
begin

text \<open>
  What the merge drivers decide, path by path: the choice of each kind of driver, and what becomes of the
  conflict of a path. The last part shows a conflict that an optional command loses when it fails.
\<close>

section \<open>One path\<close>

definition driver_for :: "'g glob_env \<Rightarrow> 'g compiled_driver list \<Rightarrow> path \<Rightarrow> merge_driver option" where
  "driver_for ge compiled p = map_option cd_driver (select_driver ge p compiled)"

text \<open>What the driver of a path makes of the resolved change \<open>old\<close> of the path.\<close>

definition driven ::
  "(path, blob) btree \<Rightarrow> merge_driver option \<Rightarrow> path \<Rightarrow> path_entry list \<Rightarrow> resolved_change option \<Rightarrow>
   resolved_change option \<Rightarrow> bool" where
  "driven bases driver p entries old new \<longleftrightarrow>
     (case driver of
        None \<Rightarrow> new = old
      | Some d \<Rightarrow>
          (case md_kind d of
             KeepOurs \<Rightarrow> new = Some (ours_change p (bm_get bases p))
           | KeepTheirs \<Rightarrow> (\<exists>c. theirs_change p entries = Inr c \<and> new = Some c)
           | Regenerate \<Rightarrow> has_command d \<and> new = old))"

definition regenerated_by :: "(nat, path set) btree \<Rightarrow> nat \<Rightarrow> path set" where
  "regenerated_by m i = (case bm_get m i of None \<Rightarrow> {} | Some ps \<Rightarrow> ps)"

definition regenerates :: "'g glob_env \<Rightarrow> 'g compiled_driver list \<Rightarrow> path \<Rightarrow> nat \<Rightarrow> bool" where
  "regenerates ge compiled p i \<longleftrightarrow>
     (case select_driver ge p compiled of None \<Rightarrow> False | Some d \<Rightarrow> md_kind (cd_driver d) = Regenerate \<and> cd_index d = i)"

lemma maybe_apply_driver_ok:
  assumes "maybe_apply_driver ge bases compiled p entries st = Inr st'"
  shows "bm_get (ds_resolved st') q =
      (if q = p then bm_get (ds_resolved st') p else bm_get (ds_resolved st) q)"
    and "driven bases (driver_for ge compiled p) p entries (bm_get (ds_resolved st) p) (bm_get (ds_resolved st') p)"
    and "ds_conflicts st' = filter (\<lambda>c. cr_path c = p \<longrightarrow> driver_for ge compiled p = None) (ds_conflicts st)"
    and "regenerated_by (ds_regenerate st') i =
      regenerated_by (ds_regenerate st) i \<union> (if regenerates ge compiled p i then {p} else {})"
    and "bm_get (ds_regenerate st') i = None \<longleftrightarrow>
      bm_get (ds_regenerate st) i = None \<and> \<not> regenerates ge compiled p i"
proof -
  note defs = maybe_apply_driver_def driver_for_def driven_def remove_conflict_path_def regenerated_by_def regenerates_def
  show "bm_get (ds_resolved st') q =
      (if q = p then bm_get (ds_resolved st') p else bm_get (ds_resolved st) q)"
    using assms by (auto simp: defs result_simps split: option.splits merge_driver_kind.splits if_splits)
  show "driven bases (driver_for ge compiled p) p entries (bm_get (ds_resolved st) p) (bm_get (ds_resolved st') p)"
    using assms by (auto simp: defs result_simps split: option.splits merge_driver_kind.splits if_splits)
  show "ds_conflicts st' = filter (\<lambda>c. cr_path c = p \<longrightarrow> driver_for ge compiled p = None) (ds_conflicts st)"
    using assms by (auto simp: defs result_simps split: option.splits merge_driver_kind.splits if_splits)
  show "regenerated_by (ds_regenerate st') i =
      regenerated_by (ds_regenerate st) i \<union> (if regenerates ge compiled p i then {p} else {})"
    using assms by (auto simp: defs result_simps split: option.splits merge_driver_kind.splits if_splits)
  show "bm_get (ds_regenerate st') i = None \<longleftrightarrow>
      bm_get (ds_regenerate st) i = None \<and> \<not> regenerates ge compiled p i"
    using assms by (auto simp: defs result_simps split: option.splits merge_driver_kind.splits if_splits)
qed

section \<open>All paths\<close>

lemma drive_paths_ok:
  "drive_paths ge bases compiled paths st = Inr st' \<Longrightarrow> distinct (map fst paths) \<Longrightarrow>
   (\<forall>q. q \<notin> fst ` set paths \<longrightarrow> bm_get (ds_resolved st') q = bm_get (ds_resolved st) q)
   \<and> (\<forall>(p, entries) \<in> set paths.
        driven bases (driver_for ge compiled p) p entries (bm_get (ds_resolved st) p) (bm_get (ds_resolved st') p))
   \<and> ds_conflicts st' = filter (\<lambda>c. cr_path c \<in> fst ` set paths \<longrightarrow> driver_for ge compiled (cr_path c) = None)
        (ds_conflicts st)
   \<and> (\<forall>i. regenerated_by (ds_regenerate st') i =
        regenerated_by (ds_regenerate st) i \<union> {p \<in> fst ` set paths. regenerates ge compiled p i})
   \<and> (\<forall>i. bm_get (ds_regenerate st') i = None \<longleftrightarrow>
        bm_get (ds_regenerate st) i = None \<and> (\<forall>p \<in> fst ` set paths. \<not> regenerates ge compiled p i))"
proof (induction paths arbitrary: st)
  case Nil
  then show ?case by simp
next
  case (Cons x paths)
  obtain p entries where x: "x = (p, entries)" by (cases x)
  obtain st1 where first: "maybe_apply_driver ge bases compiled p entries st = Inr st1"
      and rest: "drive_paths ge bases compiled paths st1 = Inr st'"
    using Cons.prems(1) x by (auto simp: result_simps)
  have p: "p \<notin> fst ` set paths" and dist: "distinct (map fst paths)" using Cons.prems(2) x by auto
  note m = maybe_apply_driver_ok [OF first]
  note IH = Cons.IH [OF rest dist]
  have IH1: "bm_get (ds_resolved st') q = bm_get (ds_resolved st1) q" if "q \<notin> fst ` set paths" for q
    using IH that by blast
  have IH2: "driven bases (driver_for ge compiled q) q es (bm_get (ds_resolved st1) q) (bm_get (ds_resolved st') q)"
    if "(q, es) \<in> set paths" for q es
    using IH that by blast
  have IH3: "ds_conflicts st' = filter (\<lambda>c. cr_path c \<in> fst ` set paths \<longrightarrow> driver_for ge compiled (cr_path c) = None)
        (ds_conflicts st1)"
    using IH by blast
  have IH4: "regenerated_by (ds_regenerate st') i =
      regenerated_by (ds_regenerate st1) i \<union> {p \<in> fst ` set paths. regenerates ge compiled p i}" for i
    using IH by blast
  have IH5: "bm_get (ds_regenerate st') i = None \<longleftrightarrow>
        bm_get (ds_regenerate st1) i = None \<and> (\<forall>p \<in> fst ` set paths. \<not> regenerates ge compiled p i)" for i
    using IH by blast
  show ?case
  proof (intro conjI)
    show "\<forall>q. q \<notin> fst ` set (x # paths) \<longrightarrow> bm_get (ds_resolved st') q = bm_get (ds_resolved st) q"
      using IH1 m(1) x by simp
    show "\<forall>(q, es) \<in> set (x # paths).
        driven bases (driver_for ge compiled q) q es (bm_get (ds_resolved st) q) (bm_get (ds_resolved st') q)"
    proof (clarify)
      fix q es assume "(q, es) \<in> set (x # paths)"
      then consider "q = p" "es = entries" | "(q, es) \<in> set paths" "q \<noteq> p" using x p by force
      then show "driven bases (driver_for ge compiled q) q es (bm_get (ds_resolved st) q) (bm_get (ds_resolved st') q)"
      proof cases
        case 1
        then show ?thesis using m(2) IH1 [OF p] by simp
      next
        case 2
        then show ?thesis using IH2 [OF 2(1)] m(1) [of q] by simp
      qed
    qed
    show "ds_conflicts st' = filter (\<lambda>c. cr_path c \<in> fst ` set (x # paths) \<longrightarrow> driver_for ge compiled (cr_path c) = None)
        (ds_conflicts st)"
      unfolding IH3 m(3) filter_filter using x by (intro filter_cong) auto
    show "\<forall>i. regenerated_by (ds_regenerate st') i =
        regenerated_by (ds_regenerate st) i \<union> {q \<in> fst ` set (x # paths). regenerates ge compiled q i}"
      unfolding IH4 m(4) x by auto
    show "\<forall>i. bm_get (ds_regenerate st') i = None \<longleftrightarrow>
        bm_get (ds_regenerate st) i = None \<and> (\<forall>q \<in> fst ` set (x # paths). \<not> regenerates ge compiled q i)"
      unfolding IH5 m(5) x by auto
  qed
qed

section \<open>Regeneration\<close>

lemma run_commands_subset:
  "run_commands rg compiled rows w acc = (Inr succeeded, w') \<Longrightarrow> succeeded \<subseteq> acc \<union> fst ` set rows"
proof (induction rg compiled rows w acc rule: run_commands.induct)
  case (1 rg compiled w succeeded)
  then show ?case by simp
next
  case (2 rg compiled index paths rest w succeeded)
  then show ?case
    by (fastforce split: option.splits prod.splits sum.splits if_splits)
qed

lemma change_path_read: "read_regenerated rg w ps = Inr cs \<Longrightarrow> map change_path cs = ps"
  by (induction ps arbitrary: cs) (auto simp: result_simps split: sum.splits if_splits)

lemma change_map_None: "p \<notin> change_path ` set cs \<Longrightarrow> bm_get (change_map cs m) p = bm_get m p"
  by (induction cs arbitrary: m) auto

text \<open>A map from paths to changes of these paths.\<close>

definition keyed :: "(path, resolved_change) btree \<Rightarrow> bool" where
  "keyed m \<longleftrightarrow> (\<forall>p c. bm_get m p = Some c \<longrightarrow> change_path c = p)"

definition change_at :: "resolved_change list \<Rightarrow> path \<Rightarrow> resolved_change option" where
  "change_at cs p = find (\<lambda>c. change_path c = p) cs"

lemma keyed_insert: "keyed m \<Longrightarrow> keyed (bm_insert (change_path c) c m)"
  by (simp add: keyed_def)

lemma keyed_change_map: "keyed m \<Longrightarrow> keyed (change_map cs m)"
  by (induction cs arbitrary: m) (simp_all add: keyed_insert)

lemma change_at_None: "change_at cs p = None \<longleftrightarrow> p \<notin> change_path ` set cs"
  by (auto simp: change_at_def find_None_iff)

lemma keyed_empty: "keyed bm_empty"
  by (simp add: keyed_def)

lemma change_map_get:
  "distinct (map change_path cs) \<Longrightarrow>
   bm_get (change_map cs m) p = (case change_at cs p of None \<Rightarrow> bm_get m p | Some c \<Rightarrow> Some c)"
proof (induction cs arbitrary: m)
  case (Cons c cs)
  have "change_at cs (change_path c) = None"
    using Cons.prems by (simp add: change_at_None)
  then show ?case using Cons by (auto simp: change_at_def split: option.splits)
qed (simp add: change_at_def)

lemma change_at_Some: "change_at cs p = Some c \<Longrightarrow> c \<in> set cs \<and> change_path c = p"
  unfolding change_at_def by (rule find_SomeD)

lemma change_at_values:
  assumes "keyed m"
  shows "change_at (bm_values m) p = bm_get m p"
proof (cases "bm_get m p")
  case None
  have "p \<notin> change_path ` set (bm_values m)"
  proof
    assume "p \<in> change_path ` set (bm_values m)"
    then obtain q c where "(q, c) \<in> set (bm_entries m)" "change_path c = p" by (auto simp: bm_values_def)
    then have "bm_get m q = Some c" "change_path c = p" by (auto simp: bm.in_entries)
    then show False using assms None by (auto simp: keyed_def)
  qed
  then show ?thesis using None by (simp add: change_at_None)
next
  case (Some c)
  then have c: "change_path c = p" "c \<in> set (bm_values m)"
    using assms by (force simp: keyed_def bm_values_def bm.in_entries [symmetric])+
  then obtain d where d: "change_at (bm_values m) p = Some d"
    by (cases "change_at (bm_values m) p") (auto simp: change_at_None)
  then obtain q where "(q, d) \<in> set (bm_entries m)" "change_path d = p"
    using change_at_Some [OF d] by (auto simp: bm_values_def)
  then have "bm_get m q = Some d" "q = p" using assms by (auto simp: bm.in_entries keyed_def)
  then show ?thesis using d Some by simp
qed

lemma keyed_insert_path: "keyed m \<Longrightarrow> change_path c = p \<Longrightarrow> keyed (bm_insert p c m)"
  using keyed_insert by blast

lemma keyed_maybe_apply:
  assumes "maybe_apply_driver ge bases compiled p entries st = Inr st'" "keyed (ds_resolved st)"
  shows "keyed (ds_resolved st')"
proof -
  have "change_path (ours_change p b) = p" for b by (simp add: ours_change_def split: option.split)
  moreover have "theirs_change p entries = Inr c \<Longrightarrow> change_path c = p" for c
    by (auto simp: theirs_change_def split: list.splits if_splits option.splits)
  ultimately show ?thesis using assms
    by (auto simp: maybe_apply_driver_def result_simps keyed_insert_path
        split: option.splits merge_driver_kind.splits if_splits)
qed

lemma keyed_drive_paths:
  "drive_paths ge bases compiled paths st = Inr st' \<Longrightarrow> keyed (ds_resolved st) \<Longrightarrow> keyed (ds_resolved st')"
proof (induction paths arbitrary: st)
  case (Cons x paths)
  obtain p entries st1 where x: "x = (p, entries)" "maybe_apply_driver ge bases compiled p entries st = Inr st1"
      "drive_paths ge bases compiled paths st1 = Inr st'"
    using Cons.prems(1) by (cases x) (auto simp: result_simps)
  show ?case using Cons.IH [OF x(3) keyed_maybe_apply [OF x(2) Cons.prems(2)]] .
qed simp

text \<open>The paths and entries in the order of the loop.\<close>

definition partition_rows :: "partition_result \<Rightarrow> (path \<times> path_entry list) list" where
  "partition_rows pt = map (\<lambda>(p, e). (p, [e])) (pt_unique pt) @ pt_shared pt"

lemma compile_drivers_index:
  "compile_drivers ge i ds = Inr cds \<Longrightarrow> map cd_index cds = [i..<i + length ds] \<and> map cd_driver cds = ds"
proof (induction ds arbitrary: i cds)
  case (Cons d ds)
  obtain p rest where rest: "compile_drivers ge (Suc i) ds = Inr rest"
      "cds = \<lparr>cd_index = i, cd_pattern = p, cd_driver = d\<rparr> # rest"
    using Cons.prems by (auto simp: result_simps split: sum.splits)
  have "[i..<i + length (d # ds)] = i # [Suc i..<Suc i + length ds]" by (subst upt_conv_Cons) simp_all
  then show ?case using Cons.IH [OF rest(1)] rest(2) by simp
qed simp

lemma find_by_index:
  assumes "compile_drivers ge i ds = Inr cds" "d \<in> set cds"
  shows "find (\<lambda>x. cd_index x = cd_index d) cds = Some d"
proof -
  have dist: "distinct (map cd_index cds)" using compile_drivers_index [OF assms(1)] by simp
  have "find (\<lambda>x. cd_index x = cd_index d) cds \<noteq> None" using assms(2) by (auto simp: find_None_iff)
  then obtain x where x: "find (\<lambda>x. cd_index x = cd_index d) cds = Some x" by blast
  then have "x \<in> set cds" "cd_index x = cd_index d" using find_SomeD by fastforce+
  then have "x = d" using dist assms(2) by (simp add: distinct_map inj_on_def)
  then show ?thesis using x by simp
qed

lemma run_commands_failed:
  assumes "run_commands rg compiled rows w acc = (Inr succeeded, w')" "i \<notin> acc"
    and "find (\<lambda>x. cd_index x = i) compiled = Some d" "regen_command (cd_driver d) = Some cmd"
    and "\<forall>w. \<exists>code err w'. rg_run rg cmd w = (Inr (code, err), w') \<and> code \<noteq> Some 0"
  shows "i \<notin> succeeded"
  using assms(1-4) assms(5)
proof (induction rg compiled rows w acc rule: run_commands.induct)
  case (1 rg compiled w succeeded)
  then show ?case by simp
next
  case (2 rg compiled index paths rest w acc)
  show ?case
  proof (cases "index = i")
    case True
    obtain code err w1 where run: "rg_run rg cmd w = (Inr (code, err), w1)" "code \<noteq> Some 0"
      using "2.prems"(5) by blast
    have opt: "\<not> md_required (cd_driver d)" using "2.prems"(1,3,4) True run by (auto split: if_splits)
    then have rest: "run_commands rg compiled rest w1 acc = (Inr succeeded, w')"
      using "2.prems"(1,3,4) True run by simp
    have found: "find (\<lambda>d. cd_index d = index) compiled = Some d" using "2.prems"(3) True by simp
    show ?thesis
      using "2.IH"(1) [OF found "2.prems"(4) run(1) [symmetric] refl refl run(2) opt rest] "2.prems" by blast
  next
    case False
    then show ?thesis using 2 by (auto split: option.splits prod.splits sum.splits if_splits)
  qed
qed

section \<open>What the step returns\<close>

lemma apply_merge_drivers_steps:
  assumes "apply_merge_drivers ge rg re epoch sources pt bases rr drivers s = Some (Inr (resolved, conflicts), s')"
  obtains compiled st where
    "compile_drivers ge 0 (effective_drivers drivers) = Inr compiled"
    "drive_paths ge bases compiled (partition_rows pt)
       \<lparr>ds_resolved = change_map (rr_resolved rr) bm_empty, ds_conflicts = rr_conflicts rr, ds_regenerate = bm_empty\<rparr> = Inr st"
    "conflicts = sort_by (\<lambda>a b. cmp_of (cr_path a) (cr_path b)) (ds_conflicts st)"
    "bm_is_empty (ds_regenerate st) \<and> resolved = bm_values (ds_resolved st) \<and> s' = s
     \<or> \<not> bm_is_empty (ds_regenerate st) \<and> (\<exists>provisional s1 regenerated.
          commit_resolved re epoch sources pt (bm_values (ds_resolved st)) None s = Some (Inr provisional, s1)
        \<and> run_regenerate_drivers rg provisional compiled (ds_regenerate st) s1 = (Inr regenerated, s')
        \<and> resolved = bm_values (change_map regenerated (ds_resolved st)))"
proof -
  have nonempty: "effective_drivers drivers \<noteq> []" by (simp add: effective_drivers_def default_merge_drivers_def)
  then obtain compiled where compiled: "compile_drivers ge 0 (effective_drivers drivers) = Inr compiled"
    using assms by (auto simp: apply_merge_drivers_def split: sum.splits if_splits)
  obtain st where st: "drive_paths ge bases compiled (partition_rows pt)
       \<lparr>ds_resolved = change_map (rr_resolved rr) bm_empty, ds_conflicts = rr_conflicts rr, ds_regenerate = bm_empty\<rparr> = Inr st"
    using assms nonempty compiled
    by (auto simp: apply_merge_drivers_def partition_rows_def split: sum.splits)
  note unfolded = assms [unfolded apply_merge_drivers_def partition_rows_def [symmetric] Let_def]
  show thesis
  proof (cases "bm_is_empty (ds_regenerate st)")
    case True
    then have "resolved = bm_values (ds_resolved st) \<and> s' = s"
        "conflicts = sort_by (\<lambda>a b. cmp_of (cr_path a) (cr_path b)) (ds_conflicts st)"
      using unfolded nonempty compiled st by simp_all
    then show thesis using that [OF compiled st] True by blast
  next
    case False
    obtain r1 s1 where c: "commit_resolved re epoch sources pt (bm_values (ds_resolved st)) None s = Some (r1, s1)"
      using unfolded nonempty compiled st False by auto
    obtain provisional where p: "r1 = Inr provisional"
      using unfolded nonempty compiled st False c by (cases r1) auto
    obtain r2 s2 where g: "run_regenerate_drivers rg provisional compiled (ds_regenerate st) s1 = (r2, s2)" by fastforce
    obtain regenerated where "r2 = Inr regenerated"
      using unfolded nonempty compiled st False c p g by (cases r2) auto
    then have "resolved = bm_values (change_map regenerated (ds_resolved st))" "s2 = s'"
        "conflicts = sort_by (\<lambda>a b. cmp_of (cr_path a) (cr_path b)) (ds_conflicts st)"
        "run_regenerate_drivers rg provisional compiled (ds_regenerate st) s1 = (Inr regenerated, s')"
      using unfolded nonempty compiled st False c p g by auto
    then show thesis using that [OF compiled st] c p False by blast
  qed
qed

lemma regenerated_changes:
  assumes "run_regenerate_drivers rg candidate compiled regenerate s = (Inr changes, s')"
  obtains w w' succeeded cs where
    "run_commands rg compiled (bm_entries regenerate) w {} = (Inr succeeded, w')"
    "read_regenerated rg w' (concat (map (\<lambda>(index, paths). if index \<in> succeeded then sorted_list_of_set paths else [])
        (bm_entries regenerate))) = Inr cs"
    "changes = sort_by (\<lambda>a b. cmp_of (change_path a) (change_path b)) cs"
  using assms
  by (auto simp: run_regenerate_drivers_def Let_def result_simps split: prod.splits sum.splits)

lemma regenerated_paths:
  assumes "run_regenerate_drivers rg candidate compiled regenerate s = (Inr changes, s')"
    and "p \<in> change_path ` set changes"
  obtains i w w' succeeded where "run_commands rg compiled (bm_entries regenerate) w {} = (Inr succeeded, w')"
    "i \<in> succeeded" "p \<in> regenerated_by regenerate i"
proof -
  obtain w w' succeeded cs where run: "run_commands rg compiled (bm_entries regenerate) w {} = (Inr succeeded, w')"
      and cs: "read_regenerated rg w' (concat (map (\<lambda>(index, paths). if index \<in> succeeded then sorted_list_of_set paths else [])
        (bm_entries regenerate))) = Inr cs"
      "changes = sort_by (\<lambda>a b. cmp_of (change_path a) (change_path b)) cs"
    using regenerated_changes [OF assms(1)] .
  have "p \<in> set (map change_path cs)" using assms(2) cs(2) by simp
  then have "p \<in> set (concat (map (\<lambda>(index, paths). if index \<in> succeeded then sorted_list_of_set paths else [])
      (bm_entries regenerate)))"
    unfolding change_path_read [OF cs(1)] .
  then obtain i ps where ps: "(i, ps) \<in> set (bm_entries regenerate)" "i \<in> succeeded" "p \<in> set (sorted_list_of_set ps)"
    by (auto split: if_splits)
  then have "p \<in> ps" by (cases "finite ps") auto
  moreover have "regenerated_by regenerate i = ps" using ps(1) by (simp add: regenerated_by_def bm.in_entries)
  ultimately show thesis using that [OF run ps(2)] by simp
qed

text \<open>The conflicts after the drivers, and the change of every path; \<open>R\<close> says for which paths a change may come
  from the worktree.\<close>

lemma apply_merge_drivers_decides:
  assumes run: "apply_merge_drivers ge rg re epoch sources pt bases rr drivers s = Some (Inr (resolved, conflicts), s')"
    and dist: "distinct (map fst (partition_rows pt))" "distinct (map change_path (rr_resolved rr))"
  obtains compiled where
    "compile_drivers ge 0 (effective_drivers drivers) = Inr compiled"
    "set conflicts = {c \<in> set (rr_conflicts rr). cr_path c \<in> fst ` set (partition_rows pt) \<longrightarrow>
        driver_for ge compiled (cr_path c) = None}"
    "\<forall>(p, entries) \<in> set (partition_rows pt).
        driven bases (driver_for ge compiled p) p entries (change_at (rr_resolved rr) p) (change_at resolved p)
        \<or> (\<exists>i. regenerates ge compiled p i)"
    "\<forall>p. p \<notin> fst ` set (partition_rows pt) \<longrightarrow> change_at resolved p = change_at (rr_resolved rr) p"
proof -
  obtain compiled st where compiled: "compile_drivers ge 0 (effective_drivers drivers) = Inr compiled"
      and st: "drive_paths ge bases compiled (partition_rows pt)
       \<lparr>ds_resolved = change_map (rr_resolved rr) bm_empty, ds_conflicts = rr_conflicts rr, ds_regenerate = bm_empty\<rparr> = Inr st"
      and conflicts: "conflicts = sort_by (\<lambda>a b. cmp_of (cr_path a) (cr_path b)) (ds_conflicts st)"
      and outcome: "bm_is_empty (ds_regenerate st) \<and> resolved = bm_values (ds_resolved st) \<and> s' = s
       \<or> \<not> bm_is_empty (ds_regenerate st) \<and> (\<exists>provisional s1 regenerated.
            commit_resolved re epoch sources pt (bm_values (ds_resolved st)) None s = Some (Inr provisional, s1)
          \<and> run_regenerate_drivers rg provisional compiled (ds_regenerate st) s1 = (Inr regenerated, s')
          \<and> resolved = bm_values (change_map regenerated (ds_resolved st)))"
    using apply_merge_drivers_steps [OF run] .
  note drive = drive_paths_ok [OF st dist(1)]
  have start: "bm_get (change_map (rr_resolved rr) bm_empty) p = change_at (rr_resolved rr) p" for p
    using change_map_get [OF dist(2)] by (simp split: option.splits)
  have same: "bm_get (ds_resolved st) p = change_at (rr_resolved rr) p" if "p \<notin> fst ` set (partition_rows pt)" for p
    using drive that start by simp
  have step: "driven bases (driver_for ge compiled p) p entries (change_at (rr_resolved rr) p) (bm_get (ds_resolved st) p)"
    if "(p, entries) \<in> set (partition_rows pt)" for p entries
    using drive that start by fastforce
  have keyed: "keyed (ds_resolved st)"
    using keyed_drive_paths [OF st] by (simp add: keyed_change_map keyed_empty)
  have regen: "regenerated_by (ds_regenerate st) i = {p \<in> fst ` set (partition_rows pt). regenerates ge compiled p i}" for i
    using drive by (simp add: regenerated_by_def)
  have final: "change_at resolved p = bm_get (ds_resolved st) p"
    if "\<not> (p \<in> fst ` set (partition_rows pt) \<and> (\<exists>i. regenerates ge compiled p i))" for p
    using outcome
  proof (elim disjE exE conjE)
    assume "resolved = bm_values (ds_resolved st)"
    then show ?thesis using change_at_values [OF keyed] by simp
  next
    fix provisional s1 regenerated
    assume g: "run_regenerate_drivers rg provisional compiled (ds_regenerate st) s1 = (Inr regenerated, s')"
      and res: "resolved = bm_values (change_map regenerated (ds_resolved st))"
    have "p \<notin> change_path ` set regenerated"
    proof
      assume "p \<in> change_path ` set regenerated"
      then obtain i where "p \<in> regenerated_by (ds_regenerate st) i" using regenerated_paths [OF g] by blast
      then show False using regen that by auto
    qed
    then show ?thesis
      unfolding res by (simp add: change_at_values keyed_change_map keyed change_map_None)
  qed
  show thesis
  proof (rule that [OF compiled])
    show "set conflicts = {c \<in> set (rr_conflicts rr). cr_path c \<in> fst ` set (partition_rows pt) \<longrightarrow>
        driver_for ge compiled (cr_path c) = None}"
      using drive by (auto simp: conflicts)
    show "\<forall>(p, entries) \<in> set (partition_rows pt).
        driven bases (driver_for ge compiled p) p entries (change_at (rr_resolved rr) p) (change_at resolved p)
        \<or> (\<exists>i. regenerates ge compiled p i)"
      using step final by fastforce
    show "\<forall>p. p \<notin> fst ` set (partition_rows pt) \<longrightarrow> change_at resolved p = change_at (rr_resolved rr) p"
      using same final by simp
  qed
qed

section \<open>A lost conflict\<close>

lemma optional_failure_drops:
  assumes run: "apply_merge_drivers ge rg re epoch sources pt bases rr drivers s = Some (Inr (resolved, conflicts), s')"
    and dist: "distinct (map fst (partition_rows pt))" "distinct (map change_path (rr_resolved rr))"
    and compiled: "compile_drivers ge 0 (effective_drivers drivers) = Inr compiled"
    and p: "p \<in> fst ` set (partition_rows pt)" "p \<notin> change_path ` set (rr_resolved rr)"
    and d: "select_driver ge p compiled = Some d" "md_kind (cd_driver d) = Regenerate"
      "regen_command (cd_driver d) = Some cmd"
    and fails: "\<forall>w. \<exists>code err w'. rg_run rg cmd w = (Inr (code, err), w') \<and> code \<noteq> Some 0"
  shows "p \<notin> change_path ` set resolved" "p \<notin> cr_path ` set conflicts"
proof -
  obtain compiled' st where compiled': "compile_drivers ge 0 (effective_drivers drivers) = Inr compiled'"
      and st: "drive_paths ge bases compiled' (partition_rows pt)
       \<lparr>ds_resolved = change_map (rr_resolved rr) bm_empty, ds_conflicts = rr_conflicts rr, ds_regenerate = bm_empty\<rparr> = Inr st"
      and conflicts: "conflicts = sort_by (\<lambda>a b. cmp_of (cr_path a) (cr_path b)) (ds_conflicts st)"
      and outcome: "bm_is_empty (ds_regenerate st) \<and> resolved = bm_values (ds_resolved st) \<and> s' = s
       \<or> \<not> bm_is_empty (ds_regenerate st) \<and> (\<exists>provisional s1 regenerated.
            commit_resolved re epoch sources pt (bm_values (ds_resolved st)) None s = Some (Inr provisional, s1)
          \<and> run_regenerate_drivers rg provisional compiled' (ds_regenerate st) s1 = (Inr regenerated, s')
          \<and> resolved = bm_values (change_map regenerated (ds_resolved st)))"
    using apply_merge_drivers_steps [OF run] .
  have [simp]: "compiled' = compiled" using compiled compiled' by simp
  note drive = drive_paths_ok [OF st dist(1), simplified]
  have driver: "driver_for ge compiled p = Some (cd_driver d)" using d by (simp add: driver_for_def)
  have filtered: "ds_conflicts st = filter (\<lambda>c. cr_path c \<in> fst ` set (partition_rows pt) \<longrightarrow>
      driver_for ge compiled (cr_path c) = None) (rr_conflicts rr)"
    using drive by blast
  show "p \<notin> cr_path ` set conflicts"
  proof
    assume "p \<in> cr_path ` set conflicts"
    then obtain c where "c \<in> set (ds_conflicts st)" "cr_path c = p" unfolding conflicts by auto
    then show False using driver p(1) unfolding filtered by simp
  qed
  obtain entries where entries: "(p, entries) \<in> set (partition_rows pt)" using p(1) by force
  have start: "change_at (rr_resolved rr) p = None" using p(2) by (simp add: change_at_None)
  have "bm_get (change_map (rr_resolved rr) bm_empty) p = None"
    using change_map_get [OF dist(2)] start by simp
  then have old: "bm_get (ds_resolved st) p = None"
    using drive entries driver d(2) by (fastforce simp: driven_def)
  have absent: "p \<notin> change_path ` set (bm_values m)" if "keyed m" "bm_get m p = None" for m
    using change_at_values [OF that(1), of p] that(2) by (simp add: change_at_None)
  have index: "cd_index d = i" if "regenerates ge compiled p i" for i
    using that d by (simp add: regenerates_def)
  have "find (\<lambda>x. cd_index x = cd_index d) compiled = Some d"
    using find_by_index [OF compiled] d(1) unfolding select_driver_def by (metis find_SomeD)
  note failed = run_commands_failed [OF _ _ this d(3) fails]
  show "p \<notin> change_path ` set resolved"
    using outcome
  proof (elim disjE exE conjE)
    assume "bm_is_empty (ds_regenerate st)"
    moreover have "bm_get (ds_regenerate st) (cd_index d) \<noteq> None"
    proof -
      have "regenerates ge compiled (fst (p, entries)) (cd_index d)" using d by (simp add: regenerates_def)
      then show ?thesis using drive entries by blast
    qed
    ultimately show ?thesis by (simp add: bm_is_empty_iff)
  next
    fix provisional s1 regenerated
    assume g: "run_regenerate_drivers rg provisional compiled' (ds_regenerate st) s1 = (Inr regenerated, s')"
      and res: "resolved = bm_values (change_map regenerated (ds_resolved st))"
    have "p \<notin> change_path ` set regenerated"
    proof
      assume "p \<in> change_path ` set regenerated"
      then obtain i w w' succeeded where
          i: "run_commands rg compiled (bm_entries (ds_regenerate st)) w {} = (Inr succeeded, w')"
            "i \<in> succeeded" "p \<in> regenerated_by (ds_regenerate st) i"
        using regenerated_paths [OF g [simplified]] by metis
      have "regenerates ge compiled p i" using drive i(3) by (simp add: regenerated_by_def)
      then show False using failed [OF i(1)] i(2) index by auto
    qed
    then have "bm_get (change_map regenerated (ds_resolved st)) p = None" using old by (simp add: change_map_None)
    moreover have "keyed (change_map regenerated (ds_resolved st))"
      using keyed_drive_paths [OF st] by (simp add: keyed_change_map keyed_empty)
    ultimately show ?thesis unfolding res by (rule absent [rotated])
  qed
qed

end
