(* ===== verification/Build_Facts.thy ===== *)
theory Build_Facts
  imports Build_Tree
begin

text \<open>
  What the build step does: a flat map that is written as trees reads back as it was, the trees do not depend on
  the iteration order of the hash map, and the merge commit is a child of the epoch whose files are the epoch's
  with the resolved changes applied.
\<close>

section \<open>The directories\<close>

lemma push_dirs_set:
  "\<forall>d \<in> set dirs. length d \<le> length current \<longrightarrow> (\<forall>p. prefix p d \<longrightarrow> p \<noteq> [] \<longrightarrow> p \<in> set dirs) \<Longrightarrow>
   set (push_dirs current dirs) = set dirs \<union> {p. p \<noteq> [] \<and> prefix p current}"
proof (induction current dirs rule: push_dirs.induct)
  case (1 current dirs)
  show ?case
  proof (cases "current = [] \<or> current \<in> set dirs")
    case True
    with "1.prems" show ?thesis by (subst push_dirs.simps) auto
  next
    case False
    then have "length (butlast current) < length current" by simp
    then have "\<forall>d \<in> set (dirs @ [current]). length d \<le> length (butlast current) \<longrightarrow>
        (\<forall>p. prefix p d \<longrightarrow> p \<noteq> [] \<longrightarrow> p \<in> set (dirs @ [current]))"
      using "1.prems" by fastforce
    from "1.IH" [OF False this]
    have "set (push_dirs (butlast current) (dirs @ [current]))
        = set dirs \<union> {current} \<union> {p. p \<noteq> [] \<and> prefix p (butlast current)}" by simp
    moreover have "prefix p current \<longleftrightarrow> p = current \<or> prefix p (butlast current)" for p
      using False prefix_snoc [of p "butlast current" "last current"] by simp
    ultimately show ?thesis using False by (subst push_dirs.simps) auto
  qed
qed

lemma push_dirs_distinct: "distinct dirs \<Longrightarrow> distinct (push_dirs current dirs)"
proof (induction current dirs rule: push_dirs.induct)
  case (1 current dirs)
  then show ?case by (subst push_dirs.simps) simp
qed

lemma fold_push_dirs:
  assumes "\<forall>d \<in> set dirs. \<forall>p. prefix p d \<longrightarrow> p \<noteq> [] \<longrightarrow> p \<in> set dirs" "distinct dirs"
  shows "set (fold (\<lambda>p. push_dirs (butlast p)) ks dirs)
      = set dirs \<union> {d. d \<noteq> [] \<and> (\<exists>k \<in> set ks. prefix d (butlast k))}
    \<and> distinct (fold (\<lambda>p. push_dirs (butlast p)) ks dirs)"
  using assms
proof (induction ks arbitrary: dirs)
  case Nil
  then show ?case by simp
next
  case (Cons k ks)
  have step: "set (push_dirs (butlast k) dirs) = set dirs \<union> {p. p \<noteq> [] \<and> prefix p (butlast k)}"
    using Cons.prems(1) by (intro push_dirs_set) blast
  have "\<forall>d \<in> set (push_dirs (butlast k) dirs). \<forall>p. prefix p d \<longrightarrow> p \<noteq> [] \<longrightarrow> p \<in> set (push_dirs (butlast k) dirs)"
    using Cons.prems(1) unfolding step by (blast intro: prefix_order.trans)
  from Cons.IH [OF this push_dirs_distinct [OF Cons.prems(2)]] show ?case
    unfolding step by auto
qed

lemma strict_prefix_butlast: "k \<noteq> [] \<Longrightarrow> prefix d (butlast k) \<longleftrightarrow> strict_prefix d k"
proof (cases k rule: rev_cases)
  case (snoc xs x)
  have "\<not> prefix (xs @ [x]) xs" using prefix_length_le by force
  then show ?thesis using snoc by (auto simp: strict_prefix_def)
qed simp

lemma all_dirs_facts:
  assumes "\<forall>k \<in> dom (bm_get flat). k \<noteq> []"
  shows "set (all_dirs flat) = insert [] {d. \<exists>k \<in> dom (bm_get flat). strict_prefix d k}"
    and "distinct (all_dirs flat)"
proof -
  have "set (all_dirs flat) = insert [] {d. d \<noteq> [] \<and> (\<exists>k \<in> set (bm_keys flat). prefix d (butlast k))}
      \<and> distinct (all_dirs flat)"
    unfolding all_dirs_def using fold_push_dirs [of "[[]]" "bm_keys flat"] by simp
  then show "set (all_dirs flat) = insert [] {d. \<exists>k \<in> dom (bm_get flat). strict_prefix d k}"
    and "distinct (all_dirs flat)"
    using assms strict_prefix_butlast unfolding set_bm_keys by auto
qed

lemma distinct_insort_by [simp]: "distinct (insort_by cmp x xs) \<longleftrightarrow> x \<notin> set xs \<and> distinct xs"
  by (induction xs) auto

lemma distinct_sort_by [simp]: "distinct (sort_by cmp xs) = distinct xs"
  by (induction xs) auto

lemma deepest_first_cmp: "total_cmp deepest_first"
proof -
  have "total_cmp (\<lambda>a b. cmp_of (length (b :: path)) (length a))"
    by unfold_locales (auto simp: cmp_of_def split: if_splits)
  from total_cmp_then [OF this linorder_cmp.total_cmp_axioms] show ?thesis
    by (simp add: deepest_first_def [abs_def])
qed

interpretation deepest: total_cmp deepest_first
  by (rule deepest_first_cmp)

lemma deepest_first_sorted: "sorted_wrt (\<lambda>a b. length b \<le> length a) (sort_by deepest_first xs)"
  by (rule sorted_wrt_mono_rel [OF _ deepest.sorted_sort_by])
    (auto simp: deepest_first_def then_with_iff cmp_of_def split: if_splits)

section \<open>Walking what was written\<close>

definition adds :: "flat_tree \<Rightarrow> (path \<Rightarrow> bool) \<Rightarrow> flat_tree \<Rightarrow> flat_tree \<Rightarrow> bool" where
  "adds F P acc acc' \<longleftrightarrow>
     (\<forall>k. bm_get acc' k = (if P k \<and> bm_get F k \<noteq> None then bm_get F k else bm_get acc k))"

text \<open>The tree \<open>oid\<close> lists, below the directory \<open>d\<close>, what the flat map has there.\<close>

definition lists_below :: "'s git_objects \<Rightarrow> flat_tree \<Rightarrow> 's \<Rightarrow> path \<Rightarrow> raw_oid \<Rightarrow> bool" where
  "lists_below G F s d oid \<longleftrightarrow>
     (\<forall>s' acc. more_objects G s s' \<longrightarrow>
        (\<exists>acc'. walk_tree_recursive (\<lambda>o'. go_read_tree G o' s') oid d acc = Some (Inr acc')
           \<and> adds F (strict_prefix d) acc acc'))"

definition entry_ok :: "'s git_objects \<Rightarrow> flat_tree \<Rightarrow> 's \<Rightarrow> path \<Rightarrow> tree_entry \<Rightarrow> bool" where
  "entry_ok G F s d e \<longleftrightarrow> te_name e \<noteq> [] \<and>
     (if te_mode e = GTree then lists_below G F s (d @ [te_name e]) (te_oid e)
      else bm_get F (d @ [te_name e]) = Some (git_mode_str (te_mode e), raw_oid_str (te_oid e)))"

definition entry_covers :: "path \<Rightarrow> tree_entry \<Rightarrow> path \<Rightarrow> bool" where
  "entry_covers d e k \<longleftrightarrow>
     (if te_mode e = GTree then strict_prefix (d @ [te_name e]) k else k = d @ [te_name e])"

lemma more_objects_refl: "more_objects G s s"
  by (simp add: more_objects_def)

lemma more_objects_trans: "more_objects G s s' \<Longrightarrow> more_objects G s' s'' \<Longrightarrow> more_objects G s s''"
  by (simp add: more_objects_def)

lemma lists_below_more: "lists_below G F s d oid \<Longrightarrow> more_objects G s s' \<Longrightarrow> lists_below G F s' d oid"
  unfolding lists_below_def by (metis more_objects_trans)

lemma walk_entries_adds:
  assumes "\<forall>e \<in> set es. entry_ok G F s d e" "more_objects G s s'"
  shows "\<exists>acc'. walk_entries (\<lambda>o'. go_read_tree G o' s') d es acc = Some (Inr acc')
    \<and> adds F (\<lambda>k. \<exists>e \<in> set es. entry_covers d e k) acc acc'"
  using assms(1)
proof (induction es arbitrary: acc)
  case Nil
  then show ?case by (subst walk_entries.simps) (simp add: adds_def)
next
  case (Cons e es)
  have e: "entry_ok G F s d e" using Cons.prems by simp
  have join: "join_name d (te_name e) = d @ [te_name e]" using e by (simp add: entry_ok_def join_name_def)
  show ?case
  proof (cases "te_mode e = GTree")
    case True
    then have "lists_below G F s (d @ [te_name e]) (te_oid e)" using e by (simp add: entry_ok_def)
    then obtain acc1 where
        w1: "walk_tree_recursive (\<lambda>o'. go_read_tree G o' s') (te_oid e) (d @ [te_name e]) acc = Some (Inr acc1)"
        and a1: "adds F (strict_prefix (d @ [te_name e])) acc acc1"
      using assms(2) unfolding lists_below_def by blast
    obtain acc2 where w2: "walk_entries (\<lambda>o'. go_read_tree G o' s') d es acc1 = Some (Inr acc2)"
        and a2: "adds F (\<lambda>k. \<exists>e \<in> set es. entry_covers d e k) acc1 acc2"
      using Cons by auto
    have "walk_entries (\<lambda>o'. go_read_tree G o' s') d (e # es) acc = Some (Inr acc2)"
      using True w1 w2 join by (subst walk_entries.simps) (auto simp: walk_tree_recursive_def split: sum.splits)
    moreover have "adds F (\<lambda>k. \<exists>e \<in> set (e # es). entry_covers d e k) acc acc2"
      using a1 a2 True unfolding adds_def entry_covers_def by simp
    ultimately show ?thesis by blast
  next
    case False
    let ?acc = "bm_insert (d @ [te_name e]) (git_mode_str (te_mode e), raw_oid_str (te_oid e)) acc"
    obtain acc2 where w2: "walk_entries (\<lambda>o'. go_read_tree G o' s') d es ?acc = Some (Inr acc2)"
        and a2: "adds F (\<lambda>k. \<exists>e \<in> set es. entry_covers d e k) ?acc acc2"
      using Cons by fastforce
    have "walk_entries (\<lambda>o'. go_read_tree G o' s') d (e # es) acc = Some (Inr acc2)"
      using False w2 join by (subst walk_entries.simps) simp
    moreover have "adds F (\<lambda>k. \<exists>e \<in> set (e # es). entry_covers d e k) acc acc2"
      using a2 False e unfolding adds_def entry_covers_def entry_ok_def by simp
    ultimately show ?thesis by blast
  qed
qed

section \<open>Flat maps that trees can represent\<close>

definition name_ok :: "string \<Rightarrow> bool" where
  "name_ok c \<longleftrightarrow> c \<noteq> [] \<and> CHR ''/'' \<notin> set c \<and> utf8_valid c"

definition paths_ok :: "path set \<Rightarrow> bool" where
  "paths_ok K \<longleftrightarrow> (\<forall>k \<in> K. k \<noteq> [] \<and> list_all name_ok k) \<and> (\<forall>k \<in> K. \<forall>j \<in> K. \<not> strict_prefix k j)"

definition flat_values_ok :: "flat_tree \<Rightarrow> bool" where
  "flat_values_ok F \<longleftrightarrow> (\<forall>k m o'. bm_get F k = Some (m, o') \<longrightarrow>
     git_mode_str (mode_of_str m) = m \<and> (\<exists>r. raw_oid_from_str o' = Inr r \<and> raw_oid_str r = o'))"

definition flat_ok :: "flat_tree \<Rightarrow> bool" where
  "flat_ok F \<longleftrightarrow> paths_ok (dom (bm_get F)) \<and> flat_values_ok F"

lemma paths_okD:
  assumes "paths_ok K" "k \<in> K"
  shows "k \<noteq> []" "list_all name_ok k" "j \<in> K \<Longrightarrow> \<not> strict_prefix k j"
  using assms by (auto simp: paths_ok_def)

lemma entry_name_ok: "k \<noteq> [] \<Longrightarrow> list_all name_ok k \<Longrightarrow> entry_name k = last k \<and> name_ok (last k)"
  by (auto simp: entry_name_def list_all_iff name_ok_def)

lemma mode_of_str_not_tree: "mode_of_str m \<noteq> GTree"
  by (simp add: mode_of_str_def)

definition blob_entry :: "path \<times> string \<times> string \<Rightarrow> tree_entry" where
  "blob_entry x = (case x of (p, m, o') \<Rightarrow>
     \<lparr>te_name = entry_name p, te_mode = mode_of_str m,
      te_oid = (case raw_oid_from_str o' of Inr r \<Rightarrow> r | Inl _ \<Rightarrow> ZERO)\<rparr>)"

lemma blob_entries_ok:
  assumes "\<forall>(p, m, o') \<in> set xs. \<exists>r. raw_oid_from_str o' = Inr r"
  shows "blob_entries d xs = Inr (map blob_entry (filter (\<lambda>(p, _). butlast p = d) xs))"
  using assms by (induction d xs rule: blob_entries.induct) (auto simp: blob_entry_def)

lemma blob_entries_flat:
  assumes "flat_ok F"
  shows "blob_entries d (bm_entries F) = Inr (map blob_entry (filter (\<lambda>(p, _). butlast p = d) (bm_entries F)))"
proof (rule blob_entries_ok, clarify)
  fix p m o'
  assume "(p, m, o') \<in> set (bm_entries F)"
  then have "bm_get F p = Some (m, o')" by (simp add: bm.in_entries)
  then show "\<exists>r. raw_oid_from_str o' = Inr r" using assms unfolding flat_ok_def flat_values_ok_def by metis
qed

lemma blob_entry_facts:
  assumes "flat_ok F" "bm_get F p = Some (m, o')"
  shows "te_name (blob_entry (p, m, o')) = last p" "te_mode (blob_entry (p, m, o')) \<noteq> GTree"
    "git_mode_str (te_mode (blob_entry (p, m, o'))) = m" "raw_oid_str (te_oid (blob_entry (p, m, o'))) = o'"
    "name_ok (last p)" "p \<noteq> []"
proof -
  have p: "p \<noteq> []" "list_all name_ok p"
    using assms paths_okD [of "dom (bm_get F)" p] by (auto simp: flat_ok_def)
  obtain r where r: "raw_oid_from_str o' = Inr r" "raw_oid_str r = o'"
    using assms unfolding flat_ok_def flat_values_ok_def by metis
  have m: "git_mode_str (mode_of_str m) = m" using assms unfolding flat_ok_def flat_values_ok_def by metis
  show "te_name (blob_entry (p, m, o')) = last p" "te_mode (blob_entry (p, m, o')) \<noteq> GTree"
    "git_mode_str (te_mode (blob_entry (p, m, o'))) = m" "raw_oid_str (te_oid (blob_entry (p, m, o'))) = o'"
    "name_ok (last p)" "p \<noteq> []"
    using p r m entry_name_ok [OF p] by (simp_all add: blob_entry_def mode_of_str_not_tree)
qed

section \<open>One directory\<close>

definition dir_entries ::
  "((path \<times> raw_oid) list \<Rightarrow> (path \<times> raw_oid) list) \<Rightarrow> flat_tree \<Rightarrow> (path, raw_oid) btree \<Rightarrow> path \<Rightarrow> tree_entry list" where
  "dir_entries hash_iter F T d =
     map blob_entry (filter (\<lambda>(p, _). butlast p = d) (bm_entries F)) @ subtree_entries d (hash_iter (bm_entries T))"

lemma all_dirs_flat:
  assumes "flat_ok F"
  shows "set (all_dirs F) = insert [] {d. \<exists>k \<in> dom (bm_get F). strict_prefix d k}" "distinct (all_dirs F)"
proof -
  have "\<forall>k \<in> dom (bm_get F). k \<noteq> []" using assms paths_okD(1) by (auto simp: flat_ok_def)
  from all_dirs_facts [OF this]
  show "set (all_dirs F) = insert [] {d. \<exists>k \<in> dom (bm_get F). strict_prefix d k}" "distinct (all_dirs F)" by auto
qed

lemma all_dirs_names:
  assumes "flat_ok F" "d \<in> set (all_dirs F)"
  shows "list_all name_ok d"
proof (cases "d = []")
  case False
  then obtain k where k: "k \<in> dom (bm_get F)" "strict_prefix d k"
    using assms(2) unfolding all_dirs_flat(1) [OF assms(1)] by auto
  have "list_all name_ok k" using assms(1) k(1) paths_okD(2) unfolding flat_ok_def by blast
  then show ?thesis using k(2) set_mono_prefix unfolding list_all_iff strict_prefix_def by blast
qed simp

text \<open>Where a loop of the build stands: the directories already written, and those still to come.\<close>

definition dirs_written :: "'s git_objects \<Rightarrow> flat_tree \<Rightarrow> path list \<Rightarrow> (path, raw_oid) btree \<Rightarrow> 's \<Rightarrow> bool" where
  "dirs_written G F dirs T s \<longleftrightarrow>
     sorted_wrt (\<lambda>a b. length b \<le> length a) dirs \<and> distinct dirs
   \<and> dom (bm_get T) \<inter> set dirs = {} \<and> dom (bm_get T) \<union> set dirs = set (all_dirs F)
   \<and> (\<forall>d oid. bm_get T d = Some oid \<longrightarrow> lists_below G F s d oid)"

lemma set_dir_entries:
  assumes "\<forall>xs. set (hash_iter xs) = set xs"
  shows "e \<in> set (dir_entries hash_iter F T d) \<longleftrightarrow>
     (\<exists>p m o'. bm_get F p = Some (m, o') \<and> butlast p = d \<and> e = blob_entry (p, m, o'))
   \<or> (\<exists>p oid. bm_get T p = Some oid \<and> butlast p = d \<and> e = \<lparr>te_name = entry_name p, te_mode = GTree, te_oid = oid\<rparr>)"
  using assms unfolding dir_entries_def subtree_entries_def
  by (auto simp: image_iff bm.in_entries Bex_def)

lemma dir_entries_ok:
  assumes F: "flat_ok F" and perm: "\<forall>xs. set (hash_iter xs) = set xs"
    and w: "dirs_written G F (d # dirs) T s" and e: "e \<in> set (dir_entries hash_iter F T d)"
  shows "entry_ok G F s d e"
  using e unfolding set_dir_entries [OF perm]
proof (elim disjE exE conjE)
  fix p m o'
  assume p: "bm_get F p = Some (m, o')" "butlast p = d" "e = blob_entry (p, m, o')"
  note facts = blob_entry_facts [OF F p(1)]
  have "d @ [last p] = p" using p(2) facts(6) by auto
  then show ?thesis using facts p by (simp add: entry_ok_def name_ok_def)
next
  fix p oid
  assume p: "bm_get T p = Some oid" "butlast p = d" "e = \<lparr>te_name = entry_name p, te_mode = GTree, te_oid = oid\<rparr>"
  have "p \<in> set (all_dirs F)" "p \<noteq> d" using w p(1) by (auto simp: dirs_written_def)
  then have "list_all name_ok p" "p \<noteq> []" using all_dirs_names [OF F] p(2) by auto
  moreover have "d @ [last p] = p" using p(2) \<open>p \<noteq> []\<close> by auto
  moreover have "lists_below G F s p oid" using w p(1) by (simp add: dirs_written_def)
  ultimately show ?thesis using entry_name_ok [of p] p(3) by (simp add: entry_ok_def name_ok_def)
qed

lemma child_dir_written:
  assumes "dirs_written G F (d # dirs) T s" "d @ [n] \<in> set (all_dirs F)"
  shows "\<exists>oid. bm_get T (d @ [n]) = Some oid"
proof -
  have "d @ [n] \<notin> set (d # dirs)" using assms(1) by (auto simp: dirs_written_def)
  then show ?thesis using assms unfolding dirs_written_def by blast
qed

lemma dir_entries_cover:
  assumes F: "flat_ok F" and perm: "\<forall>xs. set (hash_iter xs) = set xs"
    and w: "dirs_written G F (d # dirs) T s" and k: "bm_get F k = Some v"
  shows "(\<exists>e \<in> set (dir_entries hash_iter F T d). entry_covers d e k) \<longleftrightarrow> strict_prefix d k"
proof
  assume "\<exists>e \<in> set (dir_entries hash_iter F T d). entry_covers d e k"
  then show "strict_prefix d k"
    by (auto simp: entry_covers_def strict_prefix_def prefix_def split: if_splits)
next
  assume "strict_prefix d k"
  then obtain n rest where kr: "k = d @ n # rest" by (rule strict_prefixE')
  show "\<exists>e \<in> set (dir_entries hash_iter F T d). entry_covers d e k"
  proof (cases "rest = []")
    case True
    obtain m o' where v: "v = (m, o')" by (cases v)
    note facts = blob_entry_facts [OF F k [unfolded v]]
    have "blob_entry (k, m, o') \<in> set (dir_entries hash_iter F T d)"
      unfolding set_dir_entries [OF perm] using k v kr True by (intro disjI1 exI conjI) auto
    moreover have "entry_covers d (blob_entry (k, m, o')) k" using facts kr True by (simp add: entry_covers_def)
    ultimately show ?thesis by blast
  next
    case False
    then have sp: "strict_prefix (d @ [n]) k" using kr by (simp add: strict_prefix_def)
    then have mem: "d @ [n] \<in> set (all_dirs F)" unfolding all_dirs_flat(1) [OF F] using k by blast
    then obtain oid where oid: "bm_get T (d @ [n]) = Some oid" using child_dir_written [OF w] by blast
    let ?e = "\<lparr>te_name = entry_name (d @ [n]), te_mode = GTree, te_oid = oid\<rparr>"
    have "?e \<in> set (dir_entries hash_iter F T d)" using oid by (auto simp: set_dir_entries [OF perm])
    moreover have "entry_name (d @ [n]) = n" using entry_name_ok [OF _ all_dirs_names [OF F mem]] by simp
    then have "entry_covers d ?e k" using sp by (simp add: entry_covers_def)
    ultimately show ?thesis by blast
  qed
qed

section \<open>All directories\<close>

lemma sort_by_fixed: "successively (\<lambda>a b. cmp a b \<noteq> Greater) xs \<Longrightarrow> sort_by cmp xs = xs"
  by (induction xs rule: induct_list012) auto

lemma successively_insort_by:
  assumes "\<And>a b. cmp a b = Greater \<Longrightarrow> cmp b a \<noteq> Greater" "successively (\<lambda>a b. cmp a b \<noteq> Greater) xs"
  shows "successively (\<lambda>a b. cmp a b \<noteq> Greater) (insort_by cmp x xs)"
  using assms(2) by (induction xs rule: induct_list012) (auto simp: assms(1))

lemma sort_by_idem:
  assumes "\<And>a b. cmp a b = Greater \<Longrightarrow> cmp b a \<noteq> Greater"
  shows "sort_by cmp (sort_by cmp xs) = sort_by cmp xs"
proof (rule sort_by_fixed)
  show "successively (\<lambda>a b. cmp a b \<noteq> Greater) (sort_by cmp xs)"
    by (induction xs) (simp_all add: successively_insort_by [OF assms])
qed

lemma git_name_cmp_asym: "git_name_cmp a x b y = Greater \<Longrightarrow> git_name_cmp b y a x \<noteq> Greater"
  by (induction a x b y rule: git_name_cmp.induct) (auto split: if_splits)

lemma sorted_entries_fixed: "sort_by git_tree_entry_cmp (sort_by git_tree_entry_cmp es) = sort_by git_tree_entry_cmp es"
  by (rule sort_by_idem) (simp add: git_tree_entry_cmp_def git_name_cmp_asym)

lemma git_objects_okD:
  assumes "git_objects_ok G holds"
  shows "go_write_tree G es s = (r, s') \<Longrightarrow> more_objects G s s'"
    and "go_write_tree G es s = (Inr oid, s') \<Longrightarrow> sort_by git_tree_entry_cmp es = es \<Longrightarrow> go_read_tree G oid s' = Inr es"
    and "go_write_tree G es s = (r, s') \<Longrightarrow> holds s o' p c \<Longrightarrow> holds s' o' p c"
    and "go_write_blob_with_path G c p s = (q, s') \<Longrightarrow> more_objects G s s'"
    and "go_write_blob_with_path G c p s = (Inr oid, s') \<Longrightarrow> holds s' oid p c"
    and "go_write_blob_with_path G c p s = (q, s') \<Longrightarrow> holds s o' p' c' \<Longrightarrow> holds s' o' p' c'"
    and "go_create_commit G t ps m s = (v, s') \<Longrightarrow> more_objects G s s'"
    and "go_create_commit G t ps m s = (Inr oid, s') \<Longrightarrow>
           go_read_commit G oid s' = Inr \<lparr>ci_tree_oid = t, ci_parents = ps, ci_message = m\<rparr>"
    and "go_create_commit G t ps m s = (v, s') \<Longrightarrow> holds s o' p c \<Longrightarrow> holds s' o' p c"
    and "go_read_tree G oid s = Inr es \<Longrightarrow> list_all (\<lambda>e. length (oid_bytes (te_oid e)) = 20) es"
  using assms unfolding git_objects_ok_def by - (elim conjE; metis)+

lemma build_dirs_Cons:
  assumes "flat_ok F" "build_dirs G hash_iter F (d # dirs) T s = (Inr T', s')"
  obtains oid s1 where
    "go_write_tree G (sort_by git_tree_entry_cmp (dir_entries hash_iter F T d)) s = (Inr oid, s1)"
    "build_dirs G hash_iter F dirs (bm_insert d oid T) s1 = (Inr T', s')"
  using assms by (auto simp: blob_entries_flat dir_entries_def split: prod.splits sum.splits)

lemma written_dir_lists:
  assumes G: "git_objects_ok G holds" and F: "flat_ok F" and perm: "\<forall>xs. set (hash_iter xs) = set xs"
    and w: "dirs_written G F (d # dirs) T s"
    and wr: "go_write_tree G (sort_by git_tree_entry_cmp (dir_entries hash_iter F T d)) s = (Inr oid, s1)"
  shows "lists_below G F s1 d oid"
  unfolding lists_below_def
proof (intro allI impI)
  fix s' acc assume more: "more_objects G s1 s'"
  let ?es = "sort_by git_tree_entry_cmp (dir_entries hash_iter F T d)"
  have read: "go_read_tree G oid s' = Inr ?es"
    using git_objects_okD(2) [OF G wr sorted_entries_fixed] more by (simp add: more_objects_def)
  have ok: "\<forall>e \<in> set ?es. entry_ok G F s d e" using dir_entries_ok [OF F perm w] by simp
  have more': "more_objects G s s'" using git_objects_okD(1) [OF G wr] more by (rule more_objects_trans)
  obtain acc' where acc': "walk_entries (\<lambda>o'. go_read_tree G o' s') d ?es acc = Some (Inr acc')"
      "adds F (\<lambda>k. \<exists>e \<in> set ?es. entry_covers d e k) acc acc'"
    using walk_entries_adds [OF ok more'] by blast
  have "adds F (strict_prefix d) acc acc'"
    unfolding adds_def
  proof
    fix k show "bm_get acc' k = (if strict_prefix d k \<and> bm_get F k \<noteq> None then bm_get F k else bm_get acc k)"
      using acc'(2) dir_entries_cover [OF F perm w, of k] by (cases "bm_get F k") (auto simp: adds_def)
  qed
  then show "\<exists>acc'. walk_tree_recursive (\<lambda>o'. go_read_tree G o' s') oid d acc = Some (Inr acc')
      \<and> adds F (strict_prefix d) acc acc'"
    using acc'(1) read by (auto simp: walk_tree_recursive_def)
qed

lemma dirs_written_step:
  assumes "dirs_written G F (d # dirs) T s" "more_objects G s s1" "lists_below G F s1 d oid"
  shows "dirs_written G F dirs (bm_insert d oid T) s1"
proof -
  have "lists_below G F s1 c o'" if "bm_get T c = Some o'" for c o'
    using assms(1) lists_below_more [OF _ assms(2)] that by (simp add: dirs_written_def)
  then have "\<forall>c o'. bm_get (bm_insert d oid T) c = Some o' \<longrightarrow> lists_below G F s1 c o'"
    using assms(3) by simp
  moreover have "dom (bm_get (bm_insert d oid T)) = insert d (dom (bm_get T))" by (auto simp: dom_def)
  moreover have "d \<notin> dom (bm_get T)" "dom (bm_get T) \<inter> set dirs = {}" "d \<notin> set dirs"
      "dom (bm_get T) \<union> insert d (set dirs) = set (all_dirs F)"
      "sorted_wrt (\<lambda>a b. length b \<le> length a) dirs" "distinct dirs"
    using assms(1) by (simp_all add: dirs_written_def)
  ultimately show ?thesis unfolding dirs_written_def by simp
qed

lemma build_dirs_lists:
  assumes G: "git_objects_ok G holds" and F: "flat_ok F" and perm: "\<forall>xs. set (hash_iter xs) = set xs"
  shows "dirs_written G F dirs T s \<Longrightarrow> build_dirs G hash_iter F dirs T s = (Inr T', s') \<Longrightarrow>
    dirs_written G F [] T' s' \<and> more_objects G s s' \<and> (\<forall>o' p c. holds s o' p c \<longrightarrow> holds s' o' p c)"
proof (induction dirs arbitrary: T s)
  case Nil
  then show ?case by (simp add: more_objects_refl)
next
  case (Cons d dirs)
  obtain oid s1 where
      wr: "go_write_tree G (sort_by git_tree_entry_cmp (dir_entries hash_iter F T d)) s = (Inr oid, s1)"
      and rest: "build_dirs G hash_iter F dirs (bm_insert d oid T) s1 = (Inr T', s')"
    using build_dirs_Cons [OF F Cons.prems(2)] .
  have more: "more_objects G s s1" using git_objects_okD(1) [OF G wr] .
  have "dirs_written G F dirs (bm_insert d oid T) s1"
    using dirs_written_step [OF Cons.prems(1) more written_dir_lists [OF G F perm Cons.prems(1) wr]] .
  note IH = Cons.IH [OF this rest]
  show ?case
  proof (intro conjI allI impI)
    show "dirs_written G F [] T' s'" using IH by simp
    show "more_objects G s s'" using more_objects_trans [OF more] IH by simp
    fix o' p c assume "holds s o' p c"
    then show "holds s' o' p c" using IH git_objects_okD(3) [OF G wr] by simp
  qed
qed

lemma dirs_written_start:
  assumes "flat_ok F"
  shows "dirs_written G F (sort_by deepest_first (all_dirs F)) bm_empty s"
proof -
  have "dom (bm_get (bm_empty :: (path, raw_oid) btree)) = {}" by (simp add: dom_def)
  then show ?thesis using all_dirs_flat(2) [OF assms] unfolding dirs_written_def by (simp add: deepest_first_sorted)
qed

lemma build_tree_lists:
  assumes G: "git_objects_ok G holds" and F: "flat_ok F" and perm: "\<forall>xs. set (hash_iter xs) = set xs"
    and run: "build_tree G hash_iter F s = (Inr g, s')"
  shows "\<exists>root. raw_oid_str root = oid_str g \<and> git_oid_ok g \<and> lists_below G F s' [] root"
    and "more_objects G s s'" and "holds s o' p c \<Longrightarrow> holds s' o' p c"
proof -
  obtain T' where dirs: "build_dirs G hash_iter F (sort_by deepest_first (all_dirs F)) bm_empty s = (Inr T', s')"
      and root: "\<exists>root. bm_get T' [] = Some root \<and> git_oid_new (raw_oid_str root) = Inr g"
    using run by (auto simp: build_tree_def split: prod.splits sum.splits option.splits)
  note facts = build_dirs_lists [OF G F perm dirs_written_start [OF F] dirs]
  show "\<exists>root. raw_oid_str root = oid_str g \<and> git_oid_ok g \<and> lists_below G F s' [] root"
    using root facts by (auto simp: dirs_written_def result_simps)
  show "more_objects G s s'" "holds s o' p c \<Longrightarrow> holds s' o' p c" using facts by simp_all
qed

lemma lists_root:
  assumes "lists_below G F s [] root" "\<forall>k \<in> dom (bm_get F). k \<noteq> []"
  shows "walk_tree_recursive (\<lambda>o'. go_read_tree G o' s) root [] bm_empty = Some (Inr F)"
proof -
  obtain acc' where acc': "walk_tree_recursive (\<lambda>o'. go_read_tree G o' s) root [] bm_empty = Some (Inr acc')"
      "adds F (strict_prefix []) bm_empty acc'"
    using assms(1) [unfolded lists_below_def, rule_format, OF more_objects_refl, of bm_empty] by (elim exE conjE)
  have "acc' = F"
  proof (rule bm.eqI)
    fix k show "bm_get acc' k = bm_get F k"
      using acc'(2) assms(2) by (cases "bm_get F k") (auto simp: adds_def strict_prefix_def)
  qed
  with acc'(1) show ?thesis by simp
qed

lemma flat_reads_back:
  assumes "git_objects_ok G holds" "flat_ok F" "\<forall>xs. set (hash_iter xs) = set xs"
    and "build_tree G hash_iter F s = (Inr g, s')"
  obtains root where "raw_oid_str root = oid_str g" "git_oid_ok g"
    "walk_tree_recursive (\<lambda>o'. go_read_tree G o' s') root [] bm_empty = Some (Inr F)"
proof -
  have "\<forall>k \<in> dom (bm_get F). k \<noteq> []" using assms(2) paths_okD(1) by (auto simp: flat_ok_def)
  moreover obtain root where "raw_oid_str root = oid_str g" "git_oid_ok g" "lists_below G F s' [] root"
    using build_tree_lists(1) [OF assms] by (elim exE conjE)
  ultimately show thesis using lists_root that by metis
qed

section \<open>The changes\<close>

text \<open>The content of \<open>p\<close> among the changes, \<open>None\<close> for a deletion.\<close>

fun changed_to :: "resolved_change list \<Rightarrow> path \<Rightarrow> blob option option" where
  "changed_to [] p = None"
| "changed_to (RUpsert q content # cs) p = (if p = q then Some (Some content) else changed_to cs p)"
| "changed_to (RDelete q # cs) p = (if p = q then Some None else changed_to cs p)"

lemma changed_to_None: "changed_to cs p = None \<longleftrightarrow> p \<notin> change_path ` set cs"
  by (induction cs p rule: changed_to.induct) auto

lemma changed_to_member:
  "distinct (map change_path cs) \<Longrightarrow> changed_to cs p = Some x \<longleftrightarrow>
     (case x of Some c \<Rightarrow> RUpsert p c \<in> set cs | None \<Rightarrow> RDelete p \<in> set cs)"
proof (induction cs p rule: changed_to.induct)
  case (1 p)
  then show ?case by (simp split: option.splits)
next
  case (2 q content cs p)
  then show ?case by (force split: option.splits)
next
  case (3 q cs p)
  then show ?case by (force split: option.splits)
qed

lemma changed_to_permuted:
  assumes "distinct (map change_path cs)" "distinct (map change_path ds)" "set cs = set ds"
  shows "changed_to cs p = changed_to ds p"
proof (cases "changed_to ds p")
  case None
  then show ?thesis using assms(3) by (metis changed_to_None)
next
  case (Some x)
  then show ?thesis
    using assms(3) changed_to_member [OF assms(1), of p x] changed_to_member [OF assms(2), of p x] by (simp split: option.splits)
qed

lemma write_blob_at_ok:
  "write_blob_at G content p s = (Inr g, s') \<longleftrightarrow>
   (\<exists>oid. go_write_blob_with_path G content p s = (Inr oid, s') \<and> git_oid_new (raw_oid_str oid) = Inr g)"
  by (auto simp: write_blob_at_def split: prod.splits sum.splits)

text \<open>What the flat map holds at \<open>p\<close> after the changes.\<close>

definition merged_entry ::
  "('s \<Rightarrow> raw_oid \<Rightarrow> string \<Rightarrow> blob \<Rightarrow> bool) \<Rightarrow> (path, git_entry_mode) btree \<Rightarrow> flat_tree \<Rightarrow> resolved_change list \<Rightarrow>
   's \<Rightarrow> path \<Rightarrow> (string \<times> string) option \<Rightarrow> bool" where
  "merged_entry holds modes tree cs s p v \<longleftrightarrow>
     (case changed_to cs p of
        None \<Rightarrow> v = bm_get tree p
      | Some None \<Rightarrow> v = None
      | Some (Some content) \<Rightarrow>
          (\<exists>oid. v = Some (upsert_mode modes tree p, raw_oid_str oid) \<and> length (oid_bytes oid) = 20
             \<and> holds s oid (from_utf8_lossy (path_str p)) content))"

lemma raw_oid_20:
  assumes "git_oid_new (raw_oid_str oid) = Inr g"
  shows "length (oid_bytes oid) = 20" "oid_str g = raw_oid_str oid" "git_oid_ok g"
  using assms by (auto simp: result_simps git_oid_ok_def raw_oid_str_def byte_hex_def length_concat
      o_def sum_list_triv)

lemma apply_changes_merges:
  assumes G: "git_objects_ok G holds"
  shows "distinct (map change_path cs) \<Longrightarrow> apply_changes G modes cs tree s = (Inr tree', s') \<Longrightarrow>
    more_objects G s s' \<and> (\<forall>o' p c. holds s o' p c \<longrightarrow> holds s' o' p c)
    \<and> (\<forall>p. merged_entry holds modes tree cs s' p (bm_get tree' p))"
proof (induction cs arbitrary: tree s)
  case Nil
  then show ?case by (simp add: more_objects_refl merged_entry_def)
next
  case (Cons c cs)
  show ?case
  proof (cases c)
    case (RUpsert q content)
    obtain s1 oid g where
        wr: "go_write_blob_with_path G content (from_utf8_lossy (path_str q)) s = (Inr oid, s1)"
        and g: "git_oid_new (raw_oid_str oid) = Inr g"
        and rest: "apply_changes G modes cs (bm_insert q (upsert_mode modes tree q, oid_str g) tree) s1 = (Inr tree', s')"
      using Cons.prems(2) RUpsert by (auto simp: write_blob_at_ok split: prod.splits sum.splits)
    have q: "changed_to cs q = None" using Cons.prems(1) RUpsert by (simp add: changed_to_None)
    from Cons.IH [OF _ rest] Cons.prems(1)
    have IH: "more_objects G s1 s'" "\<forall>o' p c. holds s1 o' p c \<longrightarrow> holds s' o' p c"
        "merged_entry holds modes (bm_insert q (upsert_mode modes tree q, oid_str g) tree) cs s' p (bm_get tree' p)" for p
      by simp_all
    have "merged_entry holds modes tree (c # cs) s' p (bm_get tree' p)" for p
    proof (cases "p = q")
      case True
      have "holds s' oid (from_utf8_lossy (path_str q)) content"
        using git_objects_okD(5) [OF G wr] IH(2) by simp
      then show ?thesis using IH(3) [of q] raw_oid_20 [OF g] q RUpsert True
        by (auto simp: merged_entry_def)
    next
      case False
      then have "upsert_mode modes (bm_insert q (upsert_mode modes tree q, oid_str g) tree) p = upsert_mode modes tree p"
        by (simp add: upsert_mode_def split: option.split)
      then show ?thesis using IH(3) [of p] RUpsert False
        by (cases "changed_to cs p" rule: option.exhaust) (auto simp: merged_entry_def split: option.splits)
    qed
    moreover have "more_objects G s s'" using git_objects_okD(4) [OF G wr] IH(1) by (rule more_objects_trans)
    ultimately show ?thesis using git_objects_okD(6) [OF G wr] IH(2) by simp
  next
    case (RDelete q)
    have rest: "apply_changes G modes cs (bm_remove q tree) s = (Inr tree', s')"
      using Cons.prems(2) RDelete by simp
    have q: "changed_to cs q = None" using Cons.prems(1) RDelete by (simp add: changed_to_None)
    from Cons.IH [OF _ rest] Cons.prems(1)
    have IH: "more_objects G s s'" "\<forall>o' p c. holds s o' p c \<longrightarrow> holds s' o' p c"
        "merged_entry holds modes (bm_remove q tree) cs s' p (bm_get tree' p)" for p
      by simp_all
    have "merged_entry holds modes tree (c # cs) s' p (bm_get tree' p)" for p
      using IH(3) [of p] RDelete q
      by (cases "p = q"; cases "changed_to cs p" rule: option.exhaust)
        (auto simp: merged_entry_def upsert_mode_def split: option.splits)
    then show ?thesis using IH(1,2) by simp
  qed
qed

section \<open>The whole step\<close>

text \<open>The paths of the merged tree can be represented: no file is a directory of another.\<close>

definition merged_paths :: "flat_tree \<Rightarrow> resolved_change list \<Rightarrow> path set" where
  "merged_paths tree cs =
     {p. case changed_to cs p of None \<Rightarrow> bm_get tree p \<noteq> None | Some x \<Rightarrow> x \<noteq> None}"

lemma git_mode_round: "m \<noteq> GTree \<Longrightarrow> mode_of_str (git_mode_str m) = m"
  by (cases m) (simp_all add: mode_of_str_def)

lemma raw_oid_str_lower: "list_all lower_hex (raw_oid_str r)"
proof -
  have "unat b div 16 < 16" for b :: u8
    using unsigned_less [of b, where ?'a = nat] by (simp add: less_mult_imp_div_less)
  then show ?thesis
    by (auto simp: raw_oid_str_def byte_hex_def list_all_iff intro!: lower_hex_hex_char)
qed

lemma length_raw_oid_str: "length (raw_oid_str r) = 2 * length (oid_bytes r)"
  by (simp add: raw_oid_str_def byte_hex_def length_concat o_def sum_list_triv)

lemma raw_oid_parses: "length (oid_bytes r) = 20 \<Longrightarrow> raw_oid_from_str (raw_oid_str r) = Inr r"
  using raw_oid_roundtrip [of "raw_oid_str r"] raw_oid_str_lower length_raw_oid_str [of r] raw_oid_str_inj by auto

text \<open>What a walk puts into the map has one of git's file modes and a printed id.\<close>

definition printed_value :: "string \<times> string \<Rightarrow> bool" where
  "printed_value v \<longleftrightarrow> (\<exists>m oid. m \<noteq> GTree \<and> length (oid_bytes oid) = 20 \<and> v = (git_mode_str m, raw_oid_str oid))"

definition printed :: "flat_tree \<Rightarrow> bool" where
  "printed flat \<longleftrightarrow> (\<forall>k v. bm_get flat k = Some v \<longrightarrow> printed_value v)"

definition oids_20 :: "tree_entry list \<Rightarrow> bool" where
  "oids_20 es \<longleftrightarrow> list_all (\<lambda>e. length (oid_bytes (te_oid e)) = 20) es"

lemma printedD: "printed flat \<Longrightarrow> bm_get flat k = Some v \<Longrightarrow> printed_value v"
  unfolding printed_def by blast

lemma printed_insert: "printed flat \<Longrightarrow> printed_value v \<Longrightarrow> printed (bm_insert k v flat)"
  by (auto simp: printed_def)

lemma walk_entries_printed:
  assumes read: "\<forall>oid es. read oid = Inr es \<longrightarrow> oids_20 es"
  shows "walk_entries read pre es acc = Some r \<Longrightarrow> oids_20 es \<Longrightarrow> printed acc \<Longrightarrow> (\<forall>flat. r = Inr flat \<longrightarrow> printed flat)"
proof -
  have "(\<forall>oid es. read oid = Inr es \<longrightarrow> oids_20 es) \<longrightarrow> oids_20 es \<longrightarrow> printed acc \<longrightarrow> (\<forall>flat. r = Inr flat \<longrightarrow> printed flat)"
    if "walk_entries read pre es acc = Some r" for read pre es acc r
  proof (rule walk_entries.raw_induct [where P = "\<lambda>read pre es acc r. (\<forall>oid es. read oid = Inr es \<longrightarrow> oids_20 es) \<longrightarrow>
        oids_20 es \<longrightarrow> printed acc \<longrightarrow> (\<forall>flat. r = Inr flat \<longrightarrow> printed flat)", OF _ that], goal_cases)
    case (1 walk read pre es acc r)
    show ?case
    proof (cases es)
      case Nil
      then show ?thesis using 1(2) by auto
    next
      case (Cons e es')
      show ?thesis
      proof (cases "te_mode e = GTree")
        case True
        show ?thesis
        proof (intro impI allI)
          fix flat
          assume ok: "\<forall>oid es. read oid = Inr es \<longrightarrow> oids_20 es" "oids_20 es" "printed acc" and r: "r = Inr flat"
          obtain es1 acc1 where sub: "read (te_oid e) = Inr es1"
              "walk read (join_name pre (te_name e)) es1 acc = Some (Inr acc1)" "walk read pre es' acc1 = Some (Inr flat)"
            using 1(2) r by (auto simp: Cons True Option.bind_eq_Some_conv split: sum.splits) (metis sum.exhaust)
          have "printed acc1" using 1(1) [OF sub(2)] ok sub(1) by blast
          then show "printed flat" using 1(1) [OF sub(3)] ok by (auto simp: Cons oids_20_def)
        qed
      next
        case False
        let ?acc = "bm_insert (join_name pre (te_name e)) (git_mode_str (te_mode e), raw_oid_str (te_oid e)) acc"
        have nxt: "walk read pre es' ?acc = Some r" using 1(2) False by (simp add: Cons)
        show ?thesis
        proof (intro impI)
          assume ok: "\<forall>oid es. read oid = Inr es \<longrightarrow> oids_20 es" "oids_20 es" "printed acc"
          have "printed_value (git_mode_str (te_mode e), raw_oid_str (te_oid e))"
            using False ok(2) unfolding printed_value_def Cons oids_20_def by auto
          then have "printed ?acc" using printed_insert [OF ok(3)] by simp
          moreover have "oids_20 es'" using ok(2) by (simp add: Cons oids_20_def)
          ultimately show "\<forall>flat. r = Inr flat \<longrightarrow> printed flat" using 1(1) [OF nxt] ok(1) by simp
        qed
      qed
    qed
  qed
  then show "walk_entries read pre es acc = Some r \<Longrightarrow> oids_20 es \<Longrightarrow> printed acc \<Longrightarrow> (\<forall>flat. r = Inr flat \<longrightarrow> printed flat)"
    using read by blast
qed

lemma read_epoch_tree_printed:
  assumes "git_objects_ok G holds" "read_epoch_tree G epoch s = Some (Inr tree)"
  shows "printed tree"
proof -
  have read: "\<forall>oid es. go_read_tree G oid s = Inr es \<longrightarrow> oids_20 es"
    using git_objects_okD(10) [OF assms(1)] unfolding oids_20_def by blast
  obtain root es where es: "go_read_tree G root s = Inr es"
      "walk_entries (\<lambda>oid. go_read_tree G oid s) [] es bm_empty = Some (Inr tree)"
    using assms(2) by (auto simp: read_epoch_tree_def walk_tree_recursive_def split: sum.splits)
  have "printed bm_empty" by (simp add: printed_def)
  with walk_entries_printed [OF read es(2)] es(1) read show ?thesis by blast
qed

definition modes_ok :: "(path, git_entry_mode) btree \<Rightarrow> bool" where
  "modes_ok modes \<longleftrightarrow> (\<forall>p m. bm_get modes p = Some m \<longrightarrow> m \<noteq> GTree)"

lemma printed_values_ok: "printed F \<Longrightarrow> flat_values_ok F"
  using raw_oid_parses git_mode_round unfolding printed_def flat_values_ok_def printed_value_def by fastforce

lemma upsert_mode_printed:
  assumes "printed tree" "modes_ok modes"
  shows "\<exists>m. m \<noteq> GTree \<and> upsert_mode modes tree p = git_mode_str m"
proof (cases "bm_get modes p")
  case (Some m)
  then show ?thesis using assms(2) by (auto simp: upsert_mode_def modes_ok_def)
next
  case modes: None
  show ?thesis
  proof (cases "bm_get tree p")
    case None
    then have "upsert_mode modes tree p = git_mode_str GBlob" using modes by (simp add: upsert_mode_def)
    then show ?thesis by blast
  next
    case (Some v)
    then have "printed_value v" using printedD [OF assms(1)] by blast
    then show ?thesis using Some modes by (auto simp: upsert_mode_def printed_value_def)
  qed
qed

lemma merged_printed:
  assumes "printed tree" "modes_ok modes" "\<forall>p. merged_entry holds modes tree cs s p (bm_get tree' p)"
  shows "printed tree'" "dom (bm_get tree') = merged_paths tree cs"
proof -
  show "printed tree'"
    unfolding printed_def
  proof (intro allI impI)
    fix p v assume v: "bm_get tree' p = Some v"
    have m: "merged_entry holds modes tree cs s p (bm_get tree' p)" using assms(3) by blast
    show "printed_value v"
    proof (cases "changed_to cs p")
      case None
      then have "bm_get tree' p = bm_get tree p" using m by (simp add: merged_entry_def)
      then have "bm_get tree p = Some v" using v by metis
      then show ?thesis by (rule printedD [OF assms(1)])
    next
      case (Some x)
      then obtain oid where "v = (upsert_mode modes tree p, raw_oid_str oid)" "length (oid_bytes oid) = 20"
        using m v by (auto simp: merged_entry_def split: option.splits)
      then show ?thesis using upsert_mode_printed [OF assms(1,2), of p] unfolding printed_value_def by blast
    qed
  qed
  have "p \<in> dom (bm_get tree') \<longleftrightarrow> p \<in> merged_paths tree cs" for p
  proof (cases "changed_to cs p")
    case None
    then have "bm_get tree' p = bm_get tree p"
      using assms(3) [rule_format, of p] by (simp add: merged_entry_def)
    then show ?thesis using None by (simp add: merged_paths_def domIff)
  next
    case (Some x)
    then show ?thesis
      using assms(3) [rule_format, of p] by (auto simp: merged_entry_def merged_paths_def split: option.splits)
  qed
  then show "dom (bm_get tree') = merged_paths tree cs" by blast
qed

lemma create_commit_ok:
  assumes "create_commit G parent tree message s = (Inr c, s')"
  obtains t p raw where "raw_oid_from_str (oid_str tree) = Inr t" "raw_oid_from_str (epoch_str parent) = Inr p"
    "go_create_commit G t [p] message s = (Inr raw, s')" "git_oid_new (raw_oid_str raw) = Inr c"
  using assms by (auto simp: create_commit_def split: sum.splits prod.splits)

lemma build_merge_commit_steps:
  assumes "build_merge_commit G hash_iter epoch wss resolved modes message s = Some (Inr c, s')"
    and "read_epoch_tree G epoch s = Some (Inr tree)"
  obtains tree' s1 root s2 where
    "apply_changes G modes (sort_by (\<lambda>a b. cmp_of (change_path a) (change_path b)) resolved) tree s = (Inr tree', s1)"
    "build_tree G hash_iter tree' s1 = (Inr root, s2)"
    "create_commit G epoch root (case message of Some m \<Rightarrow> m | None \<Rightarrow> default_message wss) s2 = (Inr c, s')"
  using assms by (auto simp: build_merge_commit_def split: prod.splits sum.splits)

text \<open>The commit \<open>c\<close>: its parent is the epoch and its files are those of the merged map.\<close>

definition merge_commit_of ::
  "'s git_objects \<Rightarrow> ('s \<Rightarrow> raw_oid \<Rightarrow> string \<Rightarrow> blob \<Rightarrow> bool) \<Rightarrow> epoch_id \<Rightarrow> string \<Rightarrow>
   (path, git_entry_mode) btree \<Rightarrow> flat_tree \<Rightarrow> resolved_change list \<Rightarrow> git_oid \<Rightarrow> 's \<Rightarrow> bool" where
  "merge_commit_of G holds epoch message modes tree cs c s \<longleftrightarrow>
     (\<exists>raw parent info tree'.
        raw_oid_from_str (oid_str c) = Inr raw \<and> raw_oid_from_str (epoch_str epoch) = Inr parent
      \<and> go_read_commit G raw s = Inr info \<and> ci_parents info = [parent] \<and> ci_message info = message
      \<and> read_epoch_tree G (EpochId c) s = Some (Inr tree')
      \<and> (\<forall>p. merged_entry holds modes tree cs s p (bm_get tree' p)))"

lemma distinct_map_sort_by: "distinct (map f (sort_by cmp xs)) \<longleftrightarrow> distinct (map f xs)"
proof -
  have "mset (insort_by cmp x xs) = add_mset x (mset xs)" for x xs by (induction xs) auto
  then have "mset (sort_by cmp xs) = mset xs" by (induction xs) auto
  then show ?thesis by (metis mset_eq_imp_distinct_iff mset_map)
qed

lemma merged_entry_later:
  "merged_entry holds modes tree cs s p v \<Longrightarrow> (\<And>o' p c. holds s o' p c \<Longrightarrow> holds s' o' p c) \<Longrightarrow>
   merged_entry holds modes tree cs s' p v"
  by (auto simp: merged_entry_def split: option.splits)

lemma build_merge_commit_merges:
  assumes G: "git_objects_ok G holds" and perm: "\<forall>xs. set (hash_iter xs) = set xs"
    and tree: "read_epoch_tree G epoch s = Some (Inr tree)" and modes: "modes_ok modes"
    and paths: "distinct (map change_path resolved)" "paths_ok (merged_paths tree resolved)"
    and run: "build_merge_commit G hash_iter epoch wss resolved modes message s = Some (Inr c, s')"
  shows "merge_commit_of G holds epoch (case message of Some m \<Rightarrow> m | None \<Rightarrow> default_message wss) modes tree resolved c s'"
proof -
  let ?sorted = "sort_by (\<lambda>a b. cmp_of (change_path a) (change_path b)) resolved"
  obtain tree' s1 root s2 where
      app: "apply_changes G modes ?sorted tree s = (Inr tree', s1)"
      and bt: "build_tree G hash_iter tree' s1 = (Inr root, s2)"
      and cc: "create_commit G epoch root (case message of Some m \<Rightarrow> m | None \<Rightarrow> default_message wss) s2 = (Inr c, s')"
    using build_merge_commit_steps [OF run tree] .
  have dist: "distinct (map change_path ?sorted)" using paths(1) by (simp add: distinct_map_sort_by)
  have same: "changed_to ?sorted p = changed_to resolved p" for p
    using changed_to_permuted [OF dist paths(1)] by simp
  have m1: "merged_entry holds modes tree resolved s1 p (bm_get tree' p)" for p
    using apply_changes_merges [OF G dist app] unfolding merged_entry_def same by blast
  have printed: "printed tree'" and dom: "dom (bm_get tree') = merged_paths tree resolved"
    using merged_printed [OF read_epoch_tree_printed [OF G tree] modes allI [OF m1]] by simp_all
  have F: "flat_ok tree'" using printed_values_ok [OF printed] paths(2) dom by (simp add: flat_ok_def)
  obtain t p raw where cr: "raw_oid_from_str (oid_str root) = Inr t" "raw_oid_from_str (epoch_str epoch) = Inr p"
      "go_create_commit G t [p] (case message of Some m \<Rightarrow> m | None \<Rightarrow> default_message wss) s2 = (Inr raw, s')"
      "git_oid_new (raw_oid_str raw) = Inr c"
    using create_commit_ok [OF cc] .
  obtain top where top: "raw_oid_str top = oid_str root" "git_oid_ok root" "lists_below G tree' s2 [] top"
    using build_tree_lists(1) [OF G F perm bt] by (elim exE conjE)
  have "t = top" using cr(1) top(1,2) raw_oid_roundtrip [of "oid_str root"] raw_oid_str_inj
    unfolding git_oid_ok_def by (metis sum.inject(2))
  have raw: "raw_oid_from_str (oid_str c) = Inr raw" using to_git_oid_raw(2) [OF cr(4)] .
  have info: "go_read_commit G raw s' = Inr \<lparr>ci_tree_oid = t, ci_parents = [p],
      ci_message = (case message of Some m \<Rightarrow> m | None \<Rightarrow> default_message wss)\<rparr>"
    using git_objects_okD(8) [OF G cr(3)] .
  have "lists_below G tree' s' [] t"
    using lists_below_more [OF top(3) git_objects_okD(7) [OF G cr(3)]] \<open>t = top\<close> by simp
  then have "walk_tree_recursive (\<lambda>o'. go_read_tree G o' s') t [] bm_empty = Some (Inr tree')"
    using lists_root F paths_okD(1) unfolding flat_ok_def by metis
  then have rd: "read_epoch_tree G (EpochId c) s' = Some (Inr tree')"
    using raw info by (simp add: read_epoch_tree_def epoch_str_def)
  have "holds s1 o' q x \<Longrightarrow> holds s' o' q x" for o' q x
    using build_tree_lists(3) [OF G F perm bt] git_objects_okD(9) [OF G cr(3)] by blast
  then have "merged_entry holds modes tree resolved s' q (bm_get tree' q)" for q
    using merged_entry_later [OF m1] by blast
  then show ?thesis using raw cr(2) info rd unfolding merge_commit_of_def by fastforce
qed

end
