(* ===== verification/Build_Result.thy ===== *)
theory Build_Result
  imports Build_Facts
begin

text \<open>
  The properties of the build step: the trees are in git's canonical order and do not depend on the iteration
  order of the hash map, they read back as the flat map, and the merge commit has the merged files. A small
  object store of numbered objects shows that the contract of the store can be met.
\<close>

section \<open>The canonical order\<close>

definition tree_key :: "tree_entry \<Rightarrow> string" where
  "tree_key e = te_name e @ (if te_mode e = GTree then ''/'' else [])"

text \<open>What git asks of a tree object: every name once, ordered with a slash after the directories.\<close>

definition canonical_tree :: "tree_entry list \<Rightarrow> bool" where
  "canonical_tree es \<longleftrightarrow> sorted_wrt (<) (map tree_key es) \<and> distinct (map te_name es) \<and> list_all (name_ok \<circ> te_name) es"

lemma git_name_cmp_key:
  "CHR ''/'' \<notin> set a \<Longrightarrow> CHR ''/'' \<notin> set b \<Longrightarrow>
   git_name_cmp a ta b tb = cmp_of (a @ (if ta then ''/'' else [])) (b @ (if tb then ''/'' else []))"
  by (induction a ta b tb rule: git_name_cmp.induct) (auto simp: cmp_of_def)

lemma git_tree_entry_cmp_key:
  "name_ok (te_name a) \<Longrightarrow> name_ok (te_name b) \<Longrightarrow> git_tree_entry_cmp a b = cmp_of (tree_key a) (tree_key b)"
  using git_name_cmp_key [of "te_name a" "te_name b"] by (simp add: git_tree_entry_cmp_def tree_key_def name_ok_def)

lemma tree_key_inj:
  assumes "name_ok (te_name a)" "name_ok (te_name b)" "tree_key a = tree_key b"
  shows "te_name a = te_name b"
proof (cases "te_mode a = GTree \<longleftrightarrow> te_mode b = GTree")
  case False
  then have "CHR ''/'' \<in> set (te_name a) \<or> CHR ''/'' \<in> set (te_name b)"
    using assms(3) by (cases "te_mode a = GTree") (auto simp: tree_key_def in_set_conv_decomp, metis)
  then show ?thesis using assms(1,2) by (simp add: name_ok_def)
qed (use assms(3) in \<open>auto simp: tree_key_def\<close>)

lemma insort_by_cong:
  "(\<And>y. y \<in> set xs \<Longrightarrow> c x y = d x y) \<Longrightarrow> insort_by c x xs = insort_by d x xs"
  by (induction xs) auto

lemma sort_by_cong:
  "(\<And>x y. x \<in> set xs \<Longrightarrow> y \<in> set xs \<Longrightarrow> c x y = d x y) \<Longrightarrow> sort_by c xs = sort_by d xs"
proof (induction xs)
  case (Cons x xs)
  then have "sort_by c xs = sort_by d xs" by auto
  then show ?case using Cons.prems by (auto intro: insort_by_cong)
qed simp

lemma sort_entries_key:
  assumes "list_all (name_ok \<circ> te_name) es"
  shows "sort_by git_tree_entry_cmp es = sort_key tree_key es"
proof -
  have "sort_by git_tree_entry_cmp es = sort_by (\<lambda>a b. cmp_of (tree_key a) (tree_key b)) es"
    using assms git_tree_entry_cmp_key by (intro sort_by_cong) (auto simp: list_all_iff)
  then show ?thesis by (simp add: sort_by_key)
qed

lemma sorted_entries_canonical:
  assumes ok: "list_all (name_ok \<circ> te_name) es" and dist: "distinct (map te_name es)"
  shows "canonical_tree (sort_by git_tree_entry_cmp es)"
proof -
  have "inj_on tree_key (set es)"
  proof (rule inj_onI)
    fix a b assume ab: "a \<in> set es" "b \<in> set es" "tree_key a = tree_key b"
    then have "te_name a = te_name b" using tree_key_inj ok by (simp add: list_all_iff)
    then show "a = b" using dist ab by (simp add: distinct_map inj_on_def)
  qed
  then have "distinct (map tree_key (sort_key tree_key es))" using dist by (simp add: distinct_map)
  then have "sorted_wrt (<) (map tree_key (sort_by git_tree_entry_cmp es))"
    by (simp add: strict_sorted_iff sort_entries_key [OF ok])
  moreover have "distinct (map te_name (sort_by git_tree_entry_cmp es))"
    using dist by (simp add: distinct_map_sort_by)
  ultimately show ?thesis using ok by (simp add: canonical_tree_def list_all_iff)
qed

lemma sorted_entries_unique:
  assumes "list_all (name_ok \<circ> te_name) es" "distinct (map te_name es)"
    and "list_all (name_ok \<circ> te_name) fs" "distinct (map te_name fs)" "set es = set fs"
  shows "sort_by git_tree_entry_cmp es = sort_by git_tree_entry_cmp fs"
  using sorted_entries_canonical [OF assms(1,2)] sorted_entries_canonical [OF assms(3,4)] assms(5)
  by (intro strict_keys_unique [where f = tree_key]) (auto simp: canonical_tree_def)

section \<open>One directory at a time\<close>

definition dirs_todo :: "flat_tree \<Rightarrow> path list \<Rightarrow> (path, raw_oid) btree \<Rightarrow> bool" where
  "dirs_todo F dirs T \<longleftrightarrow>
     sorted_wrt (\<lambda>a b. length b \<le> length a) dirs \<and> distinct dirs
   \<and> dom (bm_get T) \<inter> set dirs = {} \<and> dom (bm_get T) \<union> set dirs = set (all_dirs F)"

lemma dirs_todo_start: "flat_ok F \<Longrightarrow> dirs_todo F (sort_by deepest_first (all_dirs F)) bm_empty"
  using dirs_written_start unfolding dirs_todo_def dirs_written_def by metis

lemma dirs_todo_step: "dirs_todo F (d # dirs) T \<Longrightarrow> dirs_todo F dirs (bm_insert d oid T)"
proof -
  assume todo: "dirs_todo F (d # dirs) T"
  moreover have "dom (bm_get (bm_insert d oid T)) = insert d (dom (bm_get T))" by (auto simp: dom_def)
  ultimately show ?thesis unfolding dirs_todo_def by auto
qed

lemma dir_entries_split:
  "dir_entries h F T d =
   map blob_entry (filter (\<lambda>(p, _). butlast p = d) (bm_entries F)) @ subtree_entries d (h (bm_entries T))"
  by (rule dir_entries_def)

lemma blob_here:
  assumes F: "flat_ok F" and x: "x \<in> set (filter (\<lambda>(p, _). butlast p = d) (bm_entries F))"
  shows "te_name (blob_entry x) = last (fst x)" "name_ok (te_name (blob_entry x))"
    "fst x = d @ [te_name (blob_entry x)]" "fst x \<in> dom (bm_get F)"
proof -
  obtain p m o' where xx: "x = (p, m, o')" by (cases x)
  with x have p: "bm_get F p = Some (m, o')" "butlast p = d" by (auto simp: bm.in_entries)
  note facts = blob_entry_facts [OF F p(1)]
  show "te_name (blob_entry x) = last (fst x)" "name_ok (te_name (blob_entry x))"
    "fst x = d @ [te_name (blob_entry x)]" "fst x \<in> dom (bm_get F)"
    using facts p xx by auto
qed

lemma subtree_here:
  assumes F: "flat_ok F" and todo: "dirs_todo F (d # dirs) T" and perm: "\<forall>xs. mset (h xs) = mset xs"
    and x: "x \<in> set (filter (\<lambda>(p, _). butlast p = d) (h (bm_entries T)))"
  shows "entry_name (fst x) = last (fst x)" "name_ok (last (fst x))" "fst x = d @ [last (fst x)]"
    "fst x \<in> set (all_dirs F)"
proof -
  obtain p oid where xx: "x = (p, oid)" by (cases x)
  have "set (h (bm_entries T)) = set (bm_entries T)" using perm mset_eq_setD by blast
  with x xx have p: "bm_get T p = Some oid" "butlast p = d" by (auto simp: bm.in_entries)
  then have "p \<noteq> d" "p \<in> set (all_dirs F)" using todo by (auto simp: dirs_todo_def)
  then have "p \<noteq> []" "list_all name_ok p" using p(2) all_dirs_names [OF F] by auto
  from entry_name_ok [OF this] show "entry_name (fst x) = last (fst x)" "name_ok (last (fst x))"
    "fst x = d @ [last (fst x)]" "fst x \<in> set (all_dirs F)"
    using xx p(2) \<open>p \<noteq> []\<close> \<open>p \<in> set (all_dirs F)\<close> by auto
qed

lemma dir_names:
  assumes F: "flat_ok F" and todo: "dirs_todo F (d # dirs) T" and perm: "\<forall>xs. mset (h xs) = mset xs"
  shows "list_all (name_ok \<circ> te_name) (dir_entries h F T d)" "distinct (map te_name (dir_entries h F T d))"
proof -
  let ?b = "filter (\<lambda>(p, _). butlast p = d) (bm_entries F)"
  let ?t = "filter (\<lambda>(p, _). butlast p = d) (h (bm_entries T))"
  note bh = blob_here [OF F] and sh = subtree_here [OF F todo perm]
  have tnames: "map te_name (subtree_entries d (h (bm_entries T))) = map (last \<circ> fst) ?t"
    using sh(1) by (auto simp: subtree_entries_def)
  have bnames: "map te_name (map blob_entry ?b) = map (last \<circ> fst) ?b" using bh(1) by auto
  have ok: "name_ok n" if "n \<in> set (map te_name (dir_entries h F T d))" for n
    using that bh(2) sh(2) unfolding dir_entries_split map_append tnames by auto
  then show "list_all (name_ok \<circ> te_name) (dir_entries h F T d)" by (auto simp: list_all_iff)
  have dT: "distinct (map fst (h (bm_entries T)))"
    using perm increasing_distinct [OF bm.entries_increasing, of T] by (metis mset_eq_imp_distinct_iff mset_map)
  have inj: "inj_on last (fst ` set ?t)" "inj_on last (fst ` set ?b)"
    using sh(3) bh(1,3) by (auto intro!: inj_onI) (metis fst_conv)+
  have dt: "distinct (map (last \<circ> fst) ?t)"
    using inj(1) distinct_map_filter [OF dT] by (simp add: distinct_map flip: map_map)
  have db: "distinct (map (last \<circ> fst) ?b)"
    using inj(2) distinct_map_filter [OF increasing_distinct [OF bm.entries_increasing]]
    by (simp add: distinct_map flip: map_map)
  have "last (fst x) \<noteq> last (fst y)" if "x \<in> set ?b" "y \<in> set ?t" for x y
  proof
    assume same: "last (fst x) = last (fst y)"
    have "fst x = fst y" using bh(1,3) [OF that(1)] sh(3) [OF that(2)] same by metis
    moreover have "fst x \<in> dom (bm_get F)" "fst x \<noteq> []" using bh(3,4) [OF that(1)] by auto
    moreover have "fst y \<in> set (all_dirs F)" using sh(4) [OF that(2)] .
    ultimately obtain k where "k \<in> dom (bm_get F)" "strict_prefix (fst x) k"
      unfolding all_dirs_flat(1) [OF F] by auto
    then show False using \<open>fst x \<in> dom (bm_get F)\<close> F paths_okD(3) unfolding flat_ok_def by metis
  qed
  then have "(last \<circ> fst) ` set ?b \<inter> (last \<circ> fst) ` set ?t = {}" by auto
  then show "distinct (map te_name (dir_entries h F T d))"
    unfolding dir_entries_split map_append tnames bnames using dt db by (simp only: distinct_append set_map)
qed

lemma dir_entries_same_set:
  assumes "\<forall>xs. mset (h xs) = mset xs" "\<forall>xs. mset (h' xs) = mset xs"
  shows "set (dir_entries h F T d) = set (dir_entries h' F T d)"
proof -
  have "set (h xs) = set (h' xs)" for xs using assms by (metis mset_eq_setD)
  then show ?thesis by (auto simp: dir_entries_def subtree_entries_def)
qed

section \<open>Determinism\<close>

text \<open>A store that refuses every tree out of git's order.\<close>

definition canonical_only :: "'s git_objects \<Rightarrow> 's git_objects" where
  "canonical_only G = G\<lparr>go_write_tree := (\<lambda>es s.
     if canonical_tree es then go_write_tree G es s else (Inl (BackendError ''malformed tree''), s))\<rparr>"

lemma build_dirs_same:
  assumes F: "flat_ok F" and perm: "\<forall>xs. mset (h xs) = mset xs" "\<forall>xs. mset (h' xs) = mset xs"
  shows "dirs_todo F dirs T \<Longrightarrow>
    build_dirs (canonical_only G) h F dirs T s = build_dirs G h' F dirs T s"
proof (induction dirs arbitrary: T s)
  case Nil
  then show ?case by simp
next
  case (Cons d dirs)
  note names = dir_names [OF F Cons.prems]
  have same: "sort_by git_tree_entry_cmp (dir_entries h F T d) = sort_by git_tree_entry_cmp (dir_entries h' F T d)"
    using names perm dir_entries_same_set [OF perm] by (intro sorted_entries_unique)
  have canon: "canonical_tree (sort_by git_tree_entry_cmp (dir_entries h' F T d))"
    using sorted_entries_canonical names perm(2) by blast
  have "build_dirs (canonical_only G) h F dirs (bm_insert d oid T) s' = build_dirs G h' F dirs (bm_insert d oid T) s'"
    for oid s' using Cons.IH dirs_todo_step [OF Cons.prems] by blast
  then show ?case
    using same canon
    by (simp add: blob_entries_flat [OF F] dir_entries_def [symmetric] canonical_only_def
        split: prod.splits sum.splits)
qed

text \<open>The tree does not depend on the iteration order of the hash map of the directories written so far, and
  each tree object is in git's canonical order with no name twice: a store that refuses all other trees gives the
  same result, error or id.\<close>

theorem build_tree_canonical:
  assumes "flat_ok F" "\<forall>xs. mset (h xs) = mset xs" "\<forall>xs. mset (h' xs) = mset xs"
  shows "build_tree (canonical_only G) h F s = build_tree G h' F s"
  by (simp add: build_tree_def build_dirs_same [OF assms dirs_todo_start [OF assms(1)]])

text \<open>C25. Written trees read back: when \<open>build_tree\<close> returns the root \<open>g\<close>, walking \<open>g\<close> in the store as it is then
  gives the flat map back, every path with its mode and its object.\<close>

theorem build_tree_reads_back:
  assumes "git_objects_ok G holds" "flat_ok F" "\<forall>xs. mset (h xs) = mset xs"
    and "build_tree G h F s = (Inr g, s')"
  shows "\<exists>root. raw_oid_from_str (oid_str g) = Inr root
    \<and> walk_tree_recursive (\<lambda>o'. go_read_tree G o' s') root [] bm_empty = Some (Inr F)"
proof -
  have perm: "\<forall>xs. set (h xs) = set xs" using assms(3) mset_eq_setD by blast
  obtain root where root: "raw_oid_str root = oid_str g" "git_oid_ok g"
      "walk_tree_recursive (\<lambda>o'. go_read_tree G o' s') root [] bm_empty = Some (Inr F)"
    using flat_reads_back [OF assms(1,2) perm assms(4)] .
  obtain q where q: "raw_oid_from_str (oid_str g) = Inr q" "raw_oid_str q = oid_str g"
    using raw_oid_roundtrip [of "oid_str g"] root(2) by (auto simp: git_oid_ok_def)
  then have "q = root" using root(1) raw_oid_str_inj by metis
  then show ?thesis using q(1) root(3) by blast
qed

text \<open>C9. The merge commit: when \<open>build_merge_commit\<close> succeeds on changes of distinct paths, the commit has the
  epoch as its only parent and the given or default message, and reading it back the way an epoch is read gives
  at every path the epoch's entry when no change touches it, nothing when the change deletes it, and otherwise a
  blob standing for the new content, with the mode captured for the path, else the epoch's, else \<open>100644\<close>.\<close>

theorem build_merge_commit_correct:
  assumes "git_objects_ok G holds" "\<forall>xs. mset (h xs) = mset xs"
    and "read_epoch_tree G epoch s = Some (Inr tree)" "modes_ok modes"
    and "distinct (map change_path resolved)" "paths_ok (merged_paths tree resolved)"
    and "build_merge_commit G h epoch wss resolved modes message s = Some (Inr c, s')"
  shows "merge_commit_of G holds epoch (case message of Some m \<Rightarrow> m | None \<Rightarrow> default_message wss) modes tree resolved c s'"
proof -
  have perm: "\<forall>xs. set (h xs) = set xs" using assms(2) mset_eq_setD by blast
  show ?thesis by (rule build_merge_commit_merges [OF assms(1) perm assms(3-7)])
qed

section \<open>A store of numbered objects\<close>

datatype stored = STree "tree_entry list" | SCommit commit_info | SBlob string blob

definition numbered :: "nat \<Rightarrow> raw_oid" where
  "numbered n = RawOid (replicate 19 0 @ [word_of_nat n])"

type_synonym object_list = "(raw_oid \<times> stored) list"

definition add_object :: "stored \<Rightarrow> object_list \<Rightarrow> (git_error + raw_oid) \<times> object_list" where
  "add_object x s =
     (if map_of s (numbered (Suc (length s))) = None
      then (Inr (numbered (Suc (length s))), s @ [(numbered (Suc (length s)), x)])
      else (Inl (BackendError ''full''), s))"

definition object_store :: "object_list git_objects" where
  "object_store = \<lparr>
     go_read_tree = (\<lambda>oid s. case map_of s oid of
         Some (STree es) \<Rightarrow> if oids_20 es then Inr es else Inl (BackendError ''corrupt'')
       | _ \<Rightarrow> Inl (BackendError ''no tree'')),
     go_read_commit = (\<lambda>oid s. case map_of s oid of Some (SCommit c) \<Rightarrow> Inr c | _ \<Rightarrow> Inl (BackendError ''no commit'')),
     go_write_blob_with_path = (\<lambda>c p. add_object (SBlob p c)),
     go_write_tree = (\<lambda>es s. if oids_20 es then add_object (STree es) s else (Inl (BackendError ''corrupt''), s)),
     go_create_commit = (\<lambda>t ps m. add_object (SCommit \<lparr>ci_tree_oid = t, ci_parents = ps, ci_message = m\<rparr>))\<rparr>"

definition object_holds :: "object_list \<Rightarrow> raw_oid \<Rightarrow> string \<Rightarrow> blob \<Rightarrow> bool" where
  "object_holds s oid p c \<longleftrightarrow> map_of s oid = Some (SBlob p c)"

lemma add_object_facts:
  assumes "add_object x s = (r, s')"
  shows "map_of s oid = Some y \<Longrightarrow> map_of s' oid = Some y" and "r = Inr oid \<Longrightarrow> map_of s' oid = Some x"
  using assms by (auto simp: add_object_def map_add_def split: if_splits option.splits)

lemma object_store_more:
  assumes "\<And>oid y. map_of s oid = Some y \<Longrightarrow> map_of s' oid = Some y"
  shows "more_objects object_store s s'" "object_holds s o' p c \<Longrightarrow> object_holds s' o' p c"
  using assms by (auto simp: more_objects_def object_store_def object_holds_def split: option.splits stored.splits if_splits)

lemma object_store_ok: "git_objects_ok object_store object_holds"
  unfolding git_objects_ok_def
proof (intro conjI allI impI)
  fix es s r s'
  assume "go_write_tree object_store es s = (r, s')"
  then consider "oids_20 es" "add_object (STree es) s = (r, s')" | "r = Inl (BackendError ''corrupt'')" "s' = s"
    by (auto simp: object_store_def split: if_splits)
  then show "more_objects object_store s s'" and "\<And>oid. r = Inr oid \<Longrightarrow> go_read_tree object_store oid s' = Inr es"
    and "\<And>o' p c. object_holds s o' p c \<Longrightarrow> object_holds s' o' p c"
    using object_store_more [of s s'] add_object_facts [of "STree es" s r s']
    by (cases; auto simp: object_store_def)+
next
  fix c p s r s'
  assume "go_write_blob_with_path object_store c p s = (r, s')"
  then have "add_object (SBlob p c) s = (r, s')" by (simp add: object_store_def)
  note facts = add_object_facts [OF this]
  show "more_objects object_store s s'" and "\<And>oid. r = Inr oid \<Longrightarrow> object_holds s' oid p c"
    and "\<And>o' p' c'. object_holds s o' p' c' \<Longrightarrow> object_holds s' o' p' c'"
    using object_store_more [of s s'] facts by (auto simp: object_holds_def)
next
  fix oid s es
  assume "go_read_tree object_store oid s = Inr es"
  then show "list_all (\<lambda>e. length (oid_bytes (te_oid e)) = 20) es"
    by (auto simp: object_store_def oids_20_def split: option.splits stored.splits if_splits)
next
  fix t ps m s r s'
  assume "go_create_commit object_store t ps m s = (r, s')"
  then have "add_object (SCommit \<lparr>ci_tree_oid = t, ci_parents = ps, ci_message = m\<rparr>) s = (r, s')"
    by (simp add: object_store_def)
  note facts = add_object_facts [OF this]
  show "more_objects object_store s s'"
    and "\<And>oid. r = Inr oid \<Longrightarrow> go_read_commit object_store oid s' = Inr \<lparr>ci_tree_oid = t, ci_parents = ps, ci_message = m\<rparr>"
    and "\<And>o' p c. object_holds s o' p c \<Longrightarrow> object_holds s' o' p c"
    using object_store_more [of s s'] facts by (auto simp: object_store_def)
qed

section \<open>An instance\<close>

lemma paths_ok_mono: "paths_ok K \<Longrightarrow> J \<subseteq> K \<Longrightarrow> paths_ok J"
  unfolding paths_ok_def by blast

lemma merged_paths_bound: "merged_paths tree cs \<subseteq> set (bm_keys tree @ map change_path cs)"
proof
  fix p assume p: "p \<in> merged_paths tree cs"
  show "p \<in> set (bm_keys tree @ map change_path cs)"
  proof (cases "changed_to cs p")
    case None
    then have "p \<in> dom (bm_get tree)" using p by (simp add: merged_paths_def domIff)
    then show ?thesis by (simp add: set_bm_keys)
  next
    case (Some x)
    then show ?thesis using changed_to_None [of cs p] by simp
  qed
qed

definition sample_objects :: object_list where
  "sample_objects =
     [(numbered 1, SBlob ''a'' ''one''), (numbered 2, SBlob ''lib/x'' ''two''),
      (numbered 3, STree [\<lparr>te_name = ''x'', te_mode = GBlobExecutable, te_oid = numbered 2\<rparr>]),
      (numbered 4, STree [\<lparr>te_name = ''a'', te_mode = GBlob, te_oid = numbered 1\<rparr>,
                          \<lparr>te_name = ''lib'', te_mode = GTree, te_oid = numbered 3\<rparr>]),
      (numbered 5, SCommit \<lparr>ci_tree_oid = numbered 4, ci_parents = [], ci_message = ''start''\<rparr>)]"

definition sample_epoch_5 :: epoch_id where
  "sample_epoch_5 = EpochId (GitOid (raw_oid_str (numbered 5)))"

definition sample_flat :: flat_tree where
  "sample_flat = bm_of_list [([''a''], ''100644'', raw_oid_str (numbered 1)),
     ([''lib'', ''x''], ''100755'', raw_oid_str (numbered 2))]"

definition sample_resolved :: "resolved_change list" where
  "sample_resolved = [RUpsert [''lib'', ''y'', ''z''] ''three'', RDelete [''a''], RUpsert [''lib'', ''x''] ''four'']"

definition sample_build :: "((build_error + git_oid) \<times> object_list) option" where
  "sample_build = build_merge_commit object_store (\<lambda>xs. xs) sample_epoch_5 [] sample_resolved bm_empty None sample_objects"

lemma sample_flat_read: "read_epoch_tree object_store sample_epoch_5 sample_objects = Some (Inr sample_flat)"
  by code_simp

lemma sample_build_ok: "case sample_build of Some (Inr c, s') \<Rightarrow> True | _ \<Rightarrow> False"
  by code_simp

lemma sample_paths_ok: "paths_ok (set (bm_keys sample_flat @ map change_path sample_resolved))"
  by code_simp

theorem build_merge_commit_correct_witness:
  "\<exists>c s'. sample_build = Some (Inr c, s')
    \<and> merge_commit_of object_store object_holds sample_epoch_5 ''epoch: merge'' bm_empty sample_flat sample_resolved c s'"
proof -
  obtain c s' where run: "sample_build = Some (Inr c, s')"
    using sample_build_ok by (auto split: option.splits prod.splits sum.splits)
  have "merge_commit_of object_store object_holds sample_epoch_5
      (case None of Some m \<Rightarrow> m | None \<Rightarrow> default_message []) bm_empty sample_flat sample_resolved c s'"
  proof (rule build_merge_commit_correct [OF object_store_ok _ sample_flat_read])
    show "modes_ok bm_empty" by (simp add: modes_ok_def)
    show "distinct (map change_path sample_resolved)" by code_simp
    show "paths_ok (merged_paths sample_flat sample_resolved)"
      by (rule paths_ok_mono [OF sample_paths_ok merged_paths_bound])
    show "build_merge_commit object_store (\<lambda>xs. xs) sample_epoch_5 [] sample_resolved bm_empty None sample_objects = Some (Inr c, s')"
      using run by (simp add: sample_build_def)
  qed simp
  then have "merge_commit_of object_store object_holds sample_epoch_5 ''epoch: merge'' bm_empty sample_flat sample_resolved c s'"
    by (simp add: default_message_def)
  with run show ?thesis by blast
qed

lemma flat_ok_sample: "flat_ok sample_flat"
proof -
  have "printed sample_flat"
    using read_epoch_tree_printed [OF object_store_ok sample_flat_read] .
  moreover have "paths_ok (dom (bm_get sample_flat))"
    unfolding set_bm_keys [symmetric] by (rule paths_ok_mono [OF sample_paths_ok]) simp
  ultimately show ?thesis by (simp add: flat_ok_def printed_values_ok)
qed

theorem build_tree_canonical_witness:
  "build_tree (canonical_only object_store) rev sample_flat [] = build_tree object_store (\<lambda>xs. xs) sample_flat []
   \<and> (case build_tree object_store (\<lambda>xs. xs) sample_flat [] of (Inr g, _) \<Rightarrow> True | _ \<Rightarrow> False)"
proof
  show "build_tree (canonical_only object_store) rev sample_flat [] = build_tree object_store (\<lambda>xs. xs) sample_flat []"
    by (rule build_tree_canonical [OF flat_ok_sample]) simp_all
  show "case build_tree object_store (\<lambda>xs. xs) sample_flat [] of (Inr g, _) \<Rightarrow> True | _ \<Rightarrow> False"
    by code_simp
qed

theorem build_tree_reads_back_witness:
  "\<exists>g s' root. build_tree object_store rev sample_flat [] = (Inr g, s') \<and> raw_oid_from_str (oid_str g) = Inr root
    \<and> walk_tree_recursive (\<lambda>o'. go_read_tree object_store o' s') root [] bm_empty = Some (Inr sample_flat)"
proof -
  have "case build_tree object_store rev sample_flat [] of (Inr g, _) \<Rightarrow> True | _ \<Rightarrow> False"
    by code_simp
  then obtain g s' where run: "build_tree object_store rev sample_flat [] = (Inr g, s')"
    by (auto split: prod.splits sum.splits)
  show ?thesis
    using build_tree_reads_back [OF object_store_ok flat_ok_sample _ run] run by auto
qed

text \<open>What a path that is both a file and a directory leads to: the tree holds the name twice.\<close>

definition clash_flat :: flat_tree where
  "clash_flat = bm_of_list [([''lib''], ''100644'', raw_oid_str (numbered 1)),
     ([''lib'', ''a''], ''100644'', raw_oid_str (numbered 2))]"

text \<open>A path clash corrupts the tree: for a map with the file \<open>lib\<close> and a file below \<open>lib\<close>, the step
  succeeds and writes a root tree with two entries named \<open>lib\<close>, a blob and a tree, which git calls malformed.\<close>

theorem path_clash_malformed_tree:
  "case build_tree object_store (\<lambda>xs. xs) clash_flat [] of
     (Inr g, s') \<Rightarrow> (case raw_oid_from_str (oid_str g) of
        Inr root \<Rightarrow> (case go_read_tree object_store root s' of
           Inr es \<Rightarrow> map te_name es = [''lib'', ''lib''] \<and> map te_mode es = [GBlob, GTree]
         | Inl _ \<Rightarrow> False)
      | Inl _ \<Rightarrow> False)
   | (Inl _, _) \<Rightarrow> False"
  by code_simp

end
