(* ===== verification/Pipeline_Facts.thy ===== *)
theory Pipeline_Facts
  imports Build_Phase Driver_Facts Build_Result Resolve_Facts
begin

text \<open>
  The BUILD phase as a whole: what the epoch delta makes of stale workspaces, how the partition, the
  resolution, the drivers and the tree fit together, and the merge-state file around them.
\<close>

section \<open>The epoch delta\<close>

lemma union_delta_ok:
  "union_delta pl current s hexes paths oldest = Inr (paths', oldest') \<Longrightarrow>
   set paths \<subseteq> set paths'
   \<and> (\<forall>hex \<in> set hexes. \<exists>e dp. epoch_id_new hex = Inr e \<and> epoch_delta_paths pl e current s = Inr dp \<and> set dp \<subseteq> set paths')
   \<and> (hexes \<noteq> [] \<longrightarrow> oldest' \<noteq> None) \<and> (oldest \<noteq> None \<longrightarrow> oldest' \<noteq> None)"
proof (induction pl current s hexes paths oldest rule: union_delta.induct)
  case (1 pl current s paths oldest)
  then show ?case by simp
next
  case (2 pl current s hex rest paths oldest)
  obtain e dp where e: "epoch_id_new hex = Inr e" "epoch_delta_paths pl e current s = Inr dp"
    using "2.prems" by (auto simp: result_simps split: sum.splits)
  have rec: "union_delta pl current s rest (paths @ dp) (case oldest of None \<Rightarrow> Some e | Some x \<Rightarrow> Some x) = Inr (paths', oldest')"
    using "2.prems" e by simp
  have some: "(case oldest of None \<Rightarrow> Some e | Some x \<Rightarrow> Some x) \<noteq> None" by (simp split: option.split)
  note IH = "2.IH" [OF e rec]
  have "set dp \<subseteq> set paths'" "set paths \<subseteq> set paths'" using IH by auto
  then show ?case using IH e some by auto
qed

lemma delta_changes_ok:
  "delta_changes pl current oldest s ps changes ov = Inr (changes', ov') \<Longrightarrow>
   \<exists>cs. changes' = changes @ cs \<and> map fc_path cs = ps \<and> (\<forall>c \<in> set cs. delta_change pl current (fc_path c) s = Inr c)
     \<and> (\<forall>p. bm_get ov' p = (if p \<in> set ps then (case read_file_at_epoch pl oldest p s of Inr b \<Rightarrow> Some b | Inl _ \<Rightarrow> bm_get ov p)
                            else bm_get ov p))"
proof (induction pl current oldest s ps changes ov rule: delta_changes.induct)
  case (1 pl current oldest s changes ov)
  then show ?case by simp
next
  case (2 pl current oldest s p ps changes ov)
  obtain c ov1 where c: "delta_change pl current p s = Inr c" and o1: "base_override pl oldest p s ov = Inr ov1"
      and rec: "delta_changes pl current oldest s ps (changes @ [c]) ov1 = Inr (changes', ov')"
    using "2.prems" by (auto simp: result_simps)
  obtain cs where cs: "changes' = (changes @ [c]) @ cs" "map fc_path cs = ps"
      "\<forall>c \<in> set cs. delta_change pl current (fc_path c) s = Inr c"
      and ov: "\<And>q. bm_get ov' q = (if q \<in> set ps then (case read_file_at_epoch pl oldest q s of Inr b \<Rightarrow> Some b | Inl _ \<Rightarrow> bm_get ov1 q)
                            else bm_get ov1 q)"
    using "2.IH" [OF c o1 rec] by blast
  have path: "fc_path c = p"
    using c by (auto simp: delta_change_def file_change_new_def split: sum.splits read_base_error.splits)
  have "bm_get ov1 q = (if q = p then (case read_file_at_epoch pl oldest p s of Inr b \<Rightarrow> Some b | Inl _ \<Rightarrow> bm_get ov p) else bm_get ov q)" for q
    using o1 by (auto simp: base_override_def split: sum.splits read_base_error.splits)
  then have "bm_get ov' q = (if q \<in> set (p # ps) then (case read_file_at_epoch pl oldest q s of Inr b \<Rightarrow> Some b | Inl _ \<Rightarrow> bm_get ov q)
      else bm_get ov q)" for q
    using ov [of q] by (auto split: sum.splits)
  then show ?case using cs path c by (intro exI [of _ "c # cs"]) auto
qed

lemma epoch_from_str: "git_oid_ok (epoch_oid e) \<Longrightarrow> epoch_id_new (epoch_str e) = Inr e"
  by (cases e) (auto simp: epoch_id_new_ok epoch_str_def)

lemma epoch_str_inj: "epoch_str a = epoch_str b \<longleftrightarrow> a = b"
  by (cases a; cases b) (auto simp: epoch_str_def git_oid.expand)

text \<open>The forks of the stale workspaces.\<close>

lemma stale_base_epochs_iff:
  "hex \<in> set (stale_base_epochs pl current pss s) \<longleftrightarrow>
   hex \<noteq> epoch_str current \<and> (\<exists>ps \<in> set pss. hex = epoch_str (workspace_merge_base pl (wp_epoch ps) current s))"
  by (auto simp: stale_base_epochs_def)

lemma inject_epoch_delta_ok:
  assumes "inject_epoch_delta pl current pss s = Inr (pss', ov)"
  obtains "pss' = pss" "ov = bm_empty"
    "\<forall>hex \<in> set (stale_base_epochs pl current pss s). \<exists>e dp. epoch_id_new hex = Inr e
       \<and> epoch_delta_paths pl e current s = Inr dp \<and> set dp \<inter> touched_paths pss = {}"
  | cs paths oldest where "pss' = pss @ [ws_patch_set_new epoch_delta current cs]"
    "\<forall>c \<in> set cs. delta_change pl current (fc_path c) s = Inr c"
    "fc_path ` set cs = set paths \<inter> touched_paths pss"
    "\<forall>hex \<in> set (stale_base_epochs pl current pss s). \<exists>e dp. epoch_id_new hex = Inr e
       \<and> epoch_delta_paths pl e current s = Inr dp \<and> set dp \<subseteq> set paths"
    "\<forall>p. bm_get ov p = (if p \<in> fc_path ` set cs
       then (case read_file_at_epoch pl oldest p s of Inr b \<Rightarrow> Some b | Inl _ \<Rightarrow> None) else None)"
proof (cases "stale_base_epochs pl current pss s = []")
  case True
  then have "pss' = pss" "ov = bm_empty" using assms by (simp_all add: inject_epoch_delta_def)
  then show thesis using that(1) True by simp
next
  case False
  obtain paths oldest' where u: "union_delta pl current s (stale_base_epochs pl current pss s) [] None = Inr (paths, oldest')"
    using assms False by (auto simp: inject_epoch_delta_def result_simps)
  note un = union_delta_ok [OF u]
  let ?ol = "sorted_list_of_set (set paths \<inter> touched_paths pss)"
  have fin: "finite (set paths \<inter> touched_paths pss)" by simp
  show thesis
  proof (cases "?ol = []")
    case True
    then have empty: "set paths \<inter> touched_paths pss = {}" using fin by (metis sorted_list_of_set_eq_Nil_iff)
    have "pss' = pss" "ov = bm_empty" using assms False u True by (simp_all add: inject_epoch_delta_def)
    then show thesis using that(1) un empty by blast
  next
    case nonempty: False
    obtain oldest where o': "oldest' = Some oldest" using un False by auto
    obtain changes where d: "delta_changes pl current oldest s ?ol [] bm_empty = Inr (changes, ov)"
        and p: "pss' = pss @ [ws_patch_set_new epoch_delta current changes]"
      using assms False u nonempty o' by (auto simp: inject_epoch_delta_def result_simps)
    note dc = delta_changes_ok [OF d]
    have paths_of: "fc_path ` set changes = set paths \<inter> touched_paths pss"
    proof -
      have "map fc_path changes = ?ol" using dc by auto
      then show ?thesis using fin by (metis list.set_map set_sorted_list_of_set)
    qed
    have a: "\<forall>c \<in> set changes. delta_change pl current (fc_path c) s = Inr c" using dc by auto
    have b: "\<forall>p. bm_get ov p = (if p \<in> fc_path ` set changes
       then (case read_file_at_epoch pl oldest p s of Inr b \<Rightarrow> Some b | Inl _ \<Rightarrow> None) else None)"
      using dc fin unfolding paths_of by (auto split: sum.split)
    show thesis using that(2) [OF p a paths_of _ b] un by blast
  qed
qed

lemma change_in_changes:
  "ps \<in> set pss \<Longrightarrow> c \<in> set (wp_changes ps) \<Longrightarrow> entry_of_change ps c \<in> set (changes_at pss (fc_path c))"
  by (force simp: changes_at_def all_changes_def)

lemma changes_at_append: "changes_at (pss @ qss) p = changes_at pss p @ changes_at qss p"
  by (simp add: changes_at_def all_changes_def)

lemma partition_shared_iff:
  "(p, es) \<in> set (pt_shared (partition_by_path sc pss)) \<longleftrightarrow>
   2 \<le> length (changes_at pss p) \<and> es = sort_by ws_cmp (changes_at pss p)"
  using shared_iff by blast

lemma delta_paths_shared:
  assumes inj: "inject_epoch_delta pl current pss s = Inr (pss', ov)"
    and stale: "ps \<in> set pss" "epoch_str base \<noteq> epoch_str current"
      "workspace_merge_base pl (wp_epoch ps) current s = base"
    and delta: "epoch_delta_paths pl base current s = Inr dp" "p \<in> set dp"
    and touched: "q \<in> set pss" "c \<in> set (wp_changes q)" "fc_path c = p"
  shows "\<exists>es e. (p, es) \<in> set (pt_shared (partition_by_path sc pss')) \<and> entry_of_change q c \<in> set es
    \<and> e \<in> set es \<and> pe_workspace_id e = epoch_delta
    \<and> (case read_file_at_epoch pl current p s of
         Inr content \<Rightarrow> pe_kind e = Modified \<and> pe_content e = Some content
       | Inl err \<Rightarrow> err = RbNotFound \<and> pe_kind e = Deleted)"
    (is "\<exists>es e. ?P es e")
proof -
  have hex: "epoch_str base \<in> set (stale_base_epochs pl current pss s)"
    using stale by (auto simp: stale_base_epochs_iff)
  have t: "p \<in> touched_paths pss" using touched by (force simp: touched_paths_def)
  have base: "e = base" if "epoch_id_new (epoch_str base) = Inr e" for e
    using that by (cases base) (auto simp: epoch_id_new_ok epoch_str_def)
  have covers: "set dp \<subseteq> set paths"
    if "\<forall>hex \<in> set (stale_base_epochs pl current pss s). \<exists>e dp. epoch_id_new hex = Inr e
       \<and> epoch_delta_paths pl e current s = Inr dp \<and> set dp \<subseteq> set paths" for paths
    using that hex base delta(1) by fastforce
  have not_disjoint: "\<not> (\<forall>hex \<in> set (stale_base_epochs pl current pss s). \<exists>e dp. epoch_id_new hex = Inr e
       \<and> epoch_delta_paths pl e current s = Inr dp \<and> set dp \<inter> touched_paths pss = {})"
    using hex base delta t by fastforce
  obtain cs paths where p': "pss' = pss @ [ws_patch_set_new epoch_delta current cs]"
      and dc: "\<forall>c \<in> set cs. delta_change pl current (fc_path c) s = Inr c"
      and paths: "fc_path ` set cs = set paths \<inter> touched_paths pss" "set dp \<subseteq> set paths"
    using inj
  proof (rule inject_epoch_delta_ok)
    assume "\<forall>hex \<in> set (stale_base_epochs pl current pss s). \<exists>e dp. epoch_id_new hex = Inr e
       \<and> epoch_delta_paths pl e current s = Inr dp \<and> set dp \<inter> touched_paths pss = {}"
    with not_disjoint show thesis by (rule notE)
  next
    fix cs paths oldest
    assume "pss' = pss @ [ws_patch_set_new epoch_delta current cs]"
      "\<forall>c \<in> set cs. delta_change pl current (fc_path c) s = Inr c"
      "fc_path ` set cs = set paths \<inter> touched_paths pss"
      and hexes: "\<forall>hex \<in> set (stale_base_epochs pl current pss s). \<exists>e dp. epoch_id_new hex = Inr e
       \<and> epoch_delta_paths pl e current s = Inr dp \<and> set dp \<subseteq> set paths"
    then show thesis using that covers [OF hexes] by blast
  qed
  obtain x where x: "x \<in> set cs" "fc_path x = p" using paths delta(2) t by (metis IntI imageE subsetD)
  let ?syn = "ws_patch_set_new epoch_delta current cs"
  have x': "x \<in> set (wp_changes ?syn)" using x by (simp add: ws_patch_set_new_def)
  have e1: "entry_of_change q c \<in> set (changes_at pss p)" using change_in_changes [OF touched(1,2)] touched(3) by simp
  have e2: "entry_of_change ?syn x \<in> set (changes_at [?syn] p)" using change_in_changes [OF _ x', of "[?syn]"] x(2) by simp
  have split: "changes_at pss' p = changes_at pss p @ changes_at [?syn] p" unfolding p' by (rule changes_at_append)
  have two: "2 \<le> length (changes_at pss' p)"
    using e1 e2 unfolding split
    by (cases "changes_at pss p"; cases "changes_at [?syn] p") auto
  have "?P (sort_by ws_cmp (changes_at pss' p)) (entry_of_change ?syn x)"
  proof (intro conjI)
    show "(p, sort_by ws_cmp (changes_at pss' p)) \<in> set (pt_shared (partition_by_path sc pss'))"
      using two by (simp add: partition_shared_iff)
    show "entry_of_change q c \<in> set (sort_by ws_cmp (changes_at pss' p))"
      "entry_of_change ?syn x \<in> set (sort_by ws_cmp (changes_at pss' p))"
      using e1 e2 by (simp_all add: split)
    show "pe_workspace_id (entry_of_change ?syn x) = epoch_delta"
      by (simp add: entry_of_change_def path_entry_with_mode_def ws_patch_set_new_def)
    have "delta_change pl current p s = Inr x" using dc x by blast
    then show "case read_file_at_epoch pl current p s of
         Inr content \<Rightarrow> pe_kind (entry_of_change ?syn x) = Modified \<and> pe_content (entry_of_change ?syn x) = Some content
       | Inl err \<Rightarrow> err = RbNotFound \<and> pe_kind (entry_of_change ?syn x) = Deleted"
      by (auto simp: delta_change_def entry_of_change_def path_entry_with_mode_def file_change_new_def
          split: sum.splits read_base_error.splits)
  qed
  then show ?thesis by blast
qed

section \<open>The partition\<close>

lemma partition_rows_paths: "map fst (partition_rows pt) = partition_paths pt"
  by (auto simp: partition_rows_def partition_paths_def)

lemma partition_paths_distinct: "distinct (partition_paths (partition_by_path sc pss))"
proof -
  have "sorted_wrt (<) (map fst (pt_unique (partition_by_path sc pss)))"
    "sorted_wrt (<) (map fst (pt_shared (partition_by_path sc pss)))"
    unfolding partition_unfold using split_index_sorted [OF bm.entries_increasing] by blast+
  moreover have "(p, e) \<in> set (pt_unique (partition_by_path sc pss)) \<Longrightarrow>
      (p, es) \<notin> set (pt_shared (partition_by_path sc pss))" for p e es
    by (auto simp: unique_iff shared_iff)
  ultimately show ?thesis by (force simp: partition_paths_def strict_sorted_iff)
qed

text \<open>Every path of the partition has its outcome, once; only the directory side of a clash has none.\<close>

lemma accounted:
  fixes pl :: "('s, 'w, 'g, 'l) pipeline_env"
  assumes run: "resolve_partition_for_build pl pt bases attrs = Inr rr" and dist: "distinct (partition_paths pt)"
  shows "distinct (map change_path (rr_resolved rr) @ map cr_path (rr_conflicts rr))"
    and "p \<in> set (partition_paths pt) \<Longrightarrow> p \<notin> df_clash_paths pt \<Longrightarrow>
      p \<in> change_path ` set (rr_resolved rr) \<union> cr_path ` set (rr_conflicts rr)"
    and "p \<in> df_file_path ` set (pt_df_clashes pt) \<Longrightarrow> p \<in> cr_path ` set (rr_conflicts rr)"
proof -
  let ?env = "(pl_merge pl)\<lparr>me_attrs := Some attrs\<rparr>"
  define pipeline where "pipeline = (case pl_ast pl of
      Some ast \<Rightarrow> resolve_partition_with_ast_and_attrs ?env ast | None \<Rightarrow> resolve_partition_with_attrs ?env)"
  have two: "pipeline = resolve_partition_with_attrs ?env \<or> (\<exists>ast :: 'l ast_env. pipeline = resolve_partition_with_ast_and_attrs ?env ast)"
    by (cases "pl_ast pl") (auto simp: pipeline_def)
  have res: "pipeline pt bases = Inr rr"
    using run by (cases "pl_ast pl") (auto simp: resolve_partition_for_build_def pipeline_def split: sum.splits)
  let ?clash = "df_file_path ` set (pt_df_clashes pt)"
  define rest where "rest = filter (\<lambda>p. p \<notin> df_clash_paths pt) (map fst (pt_unique pt) @ map fst (pt_shared pt))"
  have m: "mset (map change_path (rr_resolved rr) @ map cr_path (rr_conflicts rr)) = mset_set ?clash + mset rest"
    using two partition_accounted [of pipeline ?env _ pt bases] res by (auto simp: rest_def)
  have disj: "?clash \<inter> set rest = {}" by (auto simp: df_clash_paths_def rest_def)
  have drest: "distinct rest" using dist unfolding partition_paths_def rest_def by (rule distinct_filter)
  then have "mset_set ?clash + mset rest = mset_set (?clash \<union> set rest)"
    using mset_set_Union [OF _ _ disj] by (simp add: mset_set_set [OF drest])
  then have all: "mset (map change_path (rr_resolved rr) @ map cr_path (rr_conflicts rr)) = mset_set (?clash \<union> set rest)"
    using m by simp
  have sub: "set (map change_path (rr_resolved rr) @ map cr_path (rr_conflicts rr)) = ?clash \<union> set rest"
    by (metis all finite_Un finite_imageI finite_set finite_set_mset_mset_set set_mset_mset)
  show "distinct (map change_path (rr_resolved rr) @ map cr_path (rr_conflicts rr))"
    by (metis all distinct_count_atmost_1 count_mset_set(1,3) finite_Un finite_imageI finite_set sub)
  show "p \<in> set (partition_paths pt) \<Longrightarrow> p \<notin> df_clash_paths pt \<Longrightarrow>
      p \<in> change_path ` set (rr_resolved rr) \<union> cr_path ` set (rr_conflicts rr)"
    using sub by (auto simp: partition_paths_def rest_def)
  obtain ast :: "'l ast_env" where "pipeline = resolve_partition_with_attrs ?env \<or> pipeline = resolve_partition_with_ast_and_attrs ?env ast"
    using two by blast
  from partition_accounted [OF this, of pt bases]
  have "\<forall>c \<in> set (pt_df_clashes pt). df_file_path c \<in> cr_path ` set (rr_conflicts rr)"
    unfolding res sum.case by (elim conjE)
  then show "p \<in> ?clash \<Longrightarrow> p \<in> cr_path ` set (rr_conflicts rr)" by blast
qed

section \<open>What the drivers leave\<close>

definition no_regenerate :: "'g glob_env \<Rightarrow> merge_driver list \<Rightarrow> path set \<Rightarrow> bool" where
  "no_regenerate ge drivers ps \<longleftrightarrow>
     (case compile_drivers ge 0 (effective_drivers drivers) of
        Inl _ \<Rightarrow> True
      | Inr compiled \<Rightarrow> (\<forall>p \<in> ps. case driver_for ge compiled p of None \<Rightarrow> True | Some d \<Rightarrow> md_kind d \<noteq> Regenerate))"

lemma distinct_keyed_values: "keyed m \<Longrightarrow> distinct (map change_path (bm_values m))"
proof -
  assume keyed: "keyed m"
  have "map change_path (bm_values m) = bm_keys m"
    using keyed by (auto simp: bm_values_def bm_keys_def keyed_def bm.in_entries [symmetric])
  then show ?thesis using bm_keys_increasing [of m] by (simp add: strict_sorted_iff)
qed

definition regenerated_path :: "'g glob_env \<Rightarrow> 'g compiled_driver list \<Rightarrow> path \<Rightarrow> bool" where
  "regenerated_path ge compiled p \<longleftrightarrow> (\<exists>d. driver_for ge compiled p = Some d \<and> md_kind d = Regenerate)"

lemma regenerated_path_iff: "regenerated_path ge compiled p \<longleftrightarrow> (\<exists>i. regenerates ge compiled p i)"
  by (auto simp: regenerated_path_def regenerates_def driver_for_def split: option.splits)

lemma drivers_account:
  assumes run: "apply_merge_drivers ge rg re epoch sources pt bases rr drivers s = Some (Inr (resolved, conflicts), s')"
    and dist: "distinct (partition_paths pt)" "distinct (map change_path (rr_resolved rr))"
    and compiled: "compile_drivers ge 0 (effective_drivers drivers) = Inr compiled"
  shows "distinct (map change_path resolved)"
    and "no_regenerate ge drivers (set (partition_paths pt)) \<Longrightarrow> s' = s"
    and "p \<in> change_path ` set (rr_resolved rr) \<union> cr_path ` set (rr_conflicts rr) \<Longrightarrow> \<not> regenerated_path ge compiled p \<Longrightarrow>
         p \<in> change_path ` set resolved \<union> cr_path ` set conflicts"
    and "p \<in> cr_path ` set (rr_conflicts rr) \<Longrightarrow> driver_for ge compiled p = None \<Longrightarrow> p \<in> cr_path ` set conflicts"
proof -
  have drows: "distinct (map fst (partition_rows pt))" using dist(1) by (simp add: partition_rows_paths)
  have prows: "fst ` set (partition_rows pt) = set (partition_paths pt)"
    using partition_rows_paths [of pt] by (metis list.set_map)
  obtain st where st: "drive_paths ge bases compiled (partition_rows pt)
       \<lparr>ds_resolved = change_map (rr_resolved rr) bm_empty, ds_conflicts = rr_conflicts rr, ds_regenerate = bm_empty\<rparr> = Inr st"
      and outcome: "bm_is_empty (ds_regenerate st) \<and> resolved = bm_values (ds_resolved st) \<and> s' = s
       \<or> \<not> bm_is_empty (ds_regenerate st) \<and> (\<exists>provisional s1 regenerated.
            commit_resolved re epoch sources pt (bm_values (ds_resolved st)) None s = Some (Inr provisional, s1)
          \<and> run_regenerate_drivers rg provisional compiled (ds_regenerate st) s1 = (Inr regenerated, s')
          \<and> resolved = bm_values (change_map regenerated (ds_resolved st)))"
    using apply_merge_drivers_steps [OF run] compiled by (metis sum.inject(2))
  note drive = drive_paths_ok [OF st drows]
  show "s' = s" if none: "no_regenerate ge drivers (set (partition_paths pt))"
  proof -
    have "\<not> regenerates ge compiled p i" if "p \<in> set (partition_paths pt)" for p i
      using none compiled that unfolding no_regenerate_def regenerates_def driver_for_def
      by (fastforce split: option.splits)
    then have "bm_get (ds_regenerate st) i = None" for i using drive prows by auto
    then have "ds_regenerate st = bm_empty" by (intro bm.eqI) simp
    then show ?thesis using outcome by (simp add: bm_is_empty_iff)
  qed
  have keyed: "keyed (ds_resolved st)"
    using keyed_drive_paths [OF st] by (simp add: keyed_change_map keyed_empty)
  show "distinct (map change_path resolved)"
    using outcome distinct_keyed_values [OF keyed] distinct_keyed_values [OF keyed_change_map [OF keyed]] by auto
  obtain compiled' where compiled': "compile_drivers ge 0 (effective_drivers drivers) = Inr compiled'"
    and confl: "set conflicts = {c \<in> set (rr_conflicts rr). cr_path c \<in> fst ` set (partition_rows pt) \<longrightarrow>
        driver_for ge compiled' (cr_path c) = None}"
    and decided: "\<forall>(p, entries) \<in> set (partition_rows pt).
        driven bases (driver_for ge compiled' p) p entries (change_at (rr_resolved rr) p) (change_at resolved p)
        \<or> (\<exists>i. regenerates ge compiled' p i)"
    and others: "\<forall>p. p \<notin> fst ` set (partition_rows pt) \<longrightarrow> change_at resolved p = change_at (rr_resolved rr) p"
    using apply_merge_drivers_decides [OF run drows dist(2)] .
  have [simp]: "compiled' = compiled" using compiled compiled' by simp
  show "p \<in> cr_path ` set conflicts" if "p \<in> cr_path ` set (rr_conflicts rr)" "driver_for ge compiled p = None"
    using that unfolding confl by auto
  show "p \<in> change_path ` set resolved \<union> cr_path ` set conflicts"
    if p: "p \<in> change_path ` set (rr_resolved rr) \<union> cr_path ` set (rr_conflicts rr)" and kind: "\<not> regenerated_path ge compiled p"
  proof -
    have step: "driven bases (driver_for ge compiled p) p es (change_at (rr_resolved rr) p) (change_at resolved p)"
      if "(p, es) \<in> set (partition_rows pt)" for es
      using bspec [OF decided that] kind by (auto simp: regenerated_path_iff)
    show ?thesis
    proof (cases "p \<in> fst ` set (partition_rows pt) \<and> driver_for ge compiled p \<noteq> None")
      case True
      then obtain entries d where d: "(p, entries) \<in> set (partition_rows pt)" "driver_for ge compiled p = Some d" by force
      then have "driven bases (Some d) p entries (change_at (rr_resolved rr) p) (change_at resolved p)"
        using step by fastforce
      moreover have "md_kind d \<noteq> Regenerate" using kind d(2) by (simp add: regenerated_path_def)
      ultimately have "change_at resolved p \<noteq> None"
        by (auto simp: driven_def split: merge_driver_kind.splits)
      then show ?thesis unfolding change_at_None by simp
    next
      case False
      have "change_at resolved p = change_at (rr_resolved rr) p"
      proof (cases "p \<in> fst ` set (partition_rows pt)")
        case True
        then obtain entries where "(p, entries) \<in> set (partition_rows pt)" by force
        then show ?thesis using step [of entries] False True by (simp add: driven_def)
      qed (use others in blast)
      then have "p \<in> change_path ` set resolved" if "p \<in> change_path ` set (rr_resolved rr)"
        using that change_at_None by metis
      moreover have "p \<in> cr_path ` set conflicts" if "p \<in> cr_path ` set (rr_conflicts rr)"
        using that False unfolding confl by auto
      ultimately show ?thesis using p by blast
    qed
  qed
qed

section \<open>From the changes to the commit\<close>

definition no_tree_mode :: "path_entry \<Rightarrow> bool" where
  "no_tree_mode e \<longleftrightarrow> pe_mode e \<noteq> Some MTree"

lemma record_mode_ok: "modes_ok modes \<Longrightarrow> no_tree_mode e \<Longrightarrow> modes_ok (record_mode p e modes)"
proof -
  assume ok: "modes_ok modes" "no_tree_mode e"
  have "to_git_mode m \<noteq> GTree" if "pe_mode e = Some m" for m
    using ok(2) that by (cases m) (auto simp: no_tree_mode_def)
  then show ?thesis using ok(1) by (auto simp: record_mode_def bm_or_insert_def modes_ok_def split: option.split)
qed

lemma modes_from_partition_ok:
  assumes "\<forall>(p, entries) \<in> set (partition_rows pt). list_all no_tree_mode entries"
  shows "modes_ok (modes_from_partition pt)"
proof -
  have u: "\<forall>(p, e) \<in> set (pt_unique pt). no_tree_mode e"
  proof (clarify)
    fix p e assume "(p, e) \<in> set (pt_unique pt)"
    then have "(p, [e]) \<in> set (partition_rows pt)" by (force simp: partition_rows_def)
    then show "no_tree_mode e" using bspec [OF assms] by fastforce
  qed
  have s: "\<forall>(p, es) \<in> set (pt_shared pt). list_all no_tree_mode es"
    using assms by (auto simp: partition_rows_def)
  have fu: "modes_ok m \<Longrightarrow> modes_ok (fold (\<lambda>(p, entry). record_mode p entry) xs m)"
    if "\<forall>(p, e) \<in> set xs. no_tree_mode e" for xs m
    using that by (induction xs arbitrary: m) (auto intro: record_mode_ok)
  have fs: "modes_ok m \<Longrightarrow> modes_ok (fold (\<lambda>(p, entries) modes. case entries of [] \<Rightarrow> modes | first # _ \<Rightarrow> record_mode p first modes) xs m)"
    if "\<forall>(p, es) \<in> set xs. list_all no_tree_mode es" for xs m
    using that
  proof (induction xs arbitrary: m)
    case (Cons x xs)
    obtain p es where x: "x = (p, es)" by (cases x)
    have "modes_ok (case es of [] \<Rightarrow> m | first # _ \<Rightarrow> record_mode p first m)"
      using Cons.prems x by (cases es) (auto intro: record_mode_ok)
    then show ?case using Cons x by auto
  qed simp
  have "modes_ok bm_empty" by (simp add: modes_ok_def)
  then show ?thesis unfolding modes_from_partition_def Let_def using fs [OF s] fu [OF u] by blast
qed

lemma changes_no_tree:
  assumes "\<forall>ps \<in> set pss. \<forall>c \<in> set (wp_changes ps). fc_mode c \<noteq> Some MTree"
  shows "\<forall>(p, entries) \<in> set (partition_rows (partition_by_path sc pss)). list_all no_tree_mode entries"
proof -
  have "no_tree_mode e" if "e \<in> set (changes_at pss p)" for e p
    using that assms by (auto simp: changes_at_def all_changes_def entry_of_change_def path_entry_with_mode_def no_tree_mode_def)
  then show ?thesis
    by (auto simp: partition_rows_def unique_iff shared_iff list_all_iff) (metis list.set_intros(1))
qed

definition repo_ok :: "'s repo_env \<Rightarrow> ('s \<Rightarrow> raw_oid \<Rightarrow> string \<Rightarrow> blob \<Rightarrow> bool) \<Rightarrow> bool" where
  "repo_ok re holds \<longleftrightarrow> (\<forall>attrs. git_objects_ok (re_with_attrs re attrs) holds) \<and> (\<forall>xs. mset (re_hash_iter re xs) = mset xs)"

definition message_or_default :: "string option \<Rightarrow> workspace_id list \<Rightarrow> string" where
  "message_or_default message sources = (case message of Some m \<Rightarrow> m | None \<Rightarrow> default_message sources)"

lemma commit_resolved_merges:
  assumes repo: "repo_ok re holds"
    and tree: "read_epoch_tree (re_with_attrs re (pending_attrs resolved)) epoch s = Some (Inr tree)"
    and modes: "modes_ok (modes_from_partition pt)"
    and paths: "distinct (map change_path resolved)" "paths_ok (merged_paths tree resolved)"
    and run: "commit_resolved re epoch sources pt resolved message s = Some (Inr c, s')"
  shows "merge_commit_of (re_with_attrs re (pending_attrs resolved)) holds epoch (message_or_default message sources)
    (modes_from_partition pt) tree resolved c s'"
proof -
  have G: "git_objects_ok (re_with_attrs re (pending_attrs resolved)) holds" using repo by (simp add: repo_ok_def)
  have perm: "\<forall>xs. set (re_hash_iter re xs) = set xs" using repo mset_eq_setD unfolding repo_ok_def by blast
  have "build_merge_commit (re_with_attrs re (pending_attrs resolved)) (re_hash_iter re) epoch sources resolved
      (modes_from_partition pt) message s = Some (Inr c, s')"
    using run by (auto simp: commit_resolved_def not_Inl_iff split: sum.splits prod.splits)
  from build_merge_commit_merges [OF G perm tree modes paths this] show ?thesis
    by (simp add: message_or_default_def)
qed

text \<open>Where a path of the partition is left: a change, a conflict, a regenerating driver, or the directory side of a
  clash whose file path has its conflict record, unless a driver decides that path.\<close>

definition path_settled ::
  "'g glob_env \<Rightarrow> 'g compiled_driver list \<Rightarrow> df_clash list \<Rightarrow> resolved_change list \<Rightarrow> conflict_record list \<Rightarrow> path \<Rightarrow> bool" where
  "path_settled ge compiled dfs resolved conflicts p \<longleftrightarrow>
     p \<in> change_path ` set resolved \<union> cr_path ` set conflicts
   \<or> regenerated_path ge compiled p
   \<or> (\<exists>c \<in> set dfs. df_dir_child_example c = p
        \<and> (driver_for ge compiled (df_file_path c) = None \<longrightarrow> df_file_path c \<in> cr_path ` set conflicts))"

lemma resolve_and_commit_merges:
  assumes repo: "repo_ok (pl_repo pl) holds" and modes: "modes_ok (modes_from_partition pt)"
    and dist: "distinct (partition_paths pt)"
    and run: "resolve_and_commit pl epoch sources message drivers pt bases s = Some (Inr out, s')"
  shows "\<exists>compiled resolved s2. compile_drivers (pl_glob pl) 0 (effective_drivers drivers) = Inr compiled
    \<and> bo_resolved_paths out = map change_path resolved \<and> distinct (map change_path resolved)
    \<and> (\<forall>p \<in> set (partition_paths pt). path_settled (pl_glob pl) compiled (pt_df_clashes pt) resolved (bo_conflicts out) p)
    \<and> (no_regenerate (pl_glob pl) drivers (set (partition_paths pt)) \<longrightarrow> s2 = s)
    \<and> (\<forall>tree. read_epoch_tree (re_with_attrs (pl_repo pl) (pending_attrs resolved)) epoch s2 = Some (Inr tree) \<longrightarrow>
        paths_ok (merged_paths tree resolved) \<longrightarrow>
        merge_commit_of (re_with_attrs (pl_repo pl) (pending_attrs resolved)) holds epoch (message_or_default message sources)
          (modes_from_partition pt) tree resolved (bo_candidate out) s')"
proof -
  obtain rr where rr: "resolve_partition_for_build pl pt bases (load_attrs_at_epoch pl epoch s) = Inr rr"
    using run by (auto simp: resolve_and_commit_def split: sum.splits)
  obtain r s2 where d: "apply_merge_drivers (pl_glob pl) (pl_regen pl) (pl_repo pl) epoch sources pt bases rr drivers s = Some (r, s2)"
    using run rr by (auto simp: resolve_and_commit_def Option.bind_eq_Some_conv)
  obtain resolved conflicts where r: "r = Inr (resolved, conflicts)"
    using run rr d by (cases r) (auto simp: resolve_and_commit_def)
  obtain c where c: "commit_resolved (pl_repo pl) epoch sources pt resolved message s2 = Some (Inr c, s')"
      and out: "out = \<lparr>bo_candidate = c, bo_conflicts = conflicts,
                         bo_resolved_count = length resolved, bo_unique_count = unique_count pt,
                         bo_shared_count = shared_count pt, bo_resolved_paths = map change_path resolved\<rparr>"
    using run rr d r by (auto simp: resolve_and_commit_def not_Inl_iff split: sum.splits)
  note acc = accounted [OF rr dist]
  have dr: "distinct (map change_path (rr_resolved rr))" using acc(1) by simp
  obtain compiled where compiled: "compile_drivers (pl_glob pl) 0 (effective_drivers drivers) = Inr compiled"
    using apply_merge_drivers_steps [OF d [unfolded r]] by metis
  note nd = drivers_account [OF d [unfolded r] dist dr compiled]
  have "path_settled (pl_glob pl) compiled (pt_df_clashes pt) resolved conflicts p" if p: "p \<in> set (partition_paths pt)" for p
  proof (cases "p \<in> df_dir_child_example ` set (pt_df_clashes pt)")
    case True
    then obtain c where c: "c \<in> set (pt_df_clashes pt)" "df_dir_child_example c = p" by blast
    then have "df_file_path c \<in> cr_path ` set (rr_conflicts rr)" using acc(3) by blast
    then show ?thesis using nd(4) c unfolding path_settled_def by blast
  next
    case False
    then have "p \<in> change_path ` set (rr_resolved rr) \<union> cr_path ` set (rr_conflicts rr)"
      using acc(2) [OF p] acc(3) [of p] by (auto simp: df_clash_paths_def)
    then show ?thesis using nd(3) unfolding path_settled_def by blast
  qed
  moreover have "merge_commit_of (re_with_attrs (pl_repo pl) (pending_attrs resolved)) holds epoch (message_or_default message sources)
          (modes_from_partition pt) tree resolved c s'"
    if "read_epoch_tree (re_with_attrs (pl_repo pl) (pending_attrs resolved)) epoch s2 = Some (Inr tree)"
      "paths_ok (merged_paths tree resolved)" for tree
    by (rule commit_resolved_merges [OF repo that(1) modes nd(1) that(2) c])
  ultimately show ?thesis
    using nd(1,2) compiled out by (intro exI [of _ compiled] exI [of _ resolved] exI [of _ s2]) simp
qed

lemma partition_paths_touched: "set (partition_paths (partition_by_path sc pss)) = touched_paths pss"
proof -
  have fsts: "p \<in> fst ` set xs \<longleftrightarrow> (\<exists>y. (p, y) \<in> set xs)" for p and xs :: "(path \<times> 'a) list" by force
  have "p \<in> set (partition_paths (partition_by_path sc pss)) \<longleftrightarrow> changes_at pss p \<noteq> []" for p
  proof -
    have "(\<exists>e. changes_at pss p = [e]) \<or> 2 \<le> length (changes_at pss p) \<longleftrightarrow> changes_at pss p \<noteq> []"
      by (cases "changes_at pss p" rule: list.exhaust; cases "tl (changes_at pss p)") auto
    then show ?thesis
      by (simp add: partition_paths_def fsts unique_iff shared_iff)
  qed
  moreover have "changes_at pss p \<noteq> [] \<longleftrightarrow> p \<in> touched_paths pss" for p
    by (auto simp: changes_at_def all_changes_def touched_paths_def filter_empty_conv)
  ultimately show ?thesis by blast
qed

text \<open>The synthetic participant touches no further path and brings no modes.\<close>

lemma injected_changes:
  assumes "inject_epoch_delta pl current pss s = Inr (pss', ov)"
  shows "touched_paths pss' = touched_paths pss"
    and "\<forall>ps \<in> set pss. \<forall>c \<in> set (wp_changes ps). fc_mode c \<noteq> Some MTree \<Longrightarrow>
      \<forall>ps \<in> set pss'. \<forall>c \<in> set (wp_changes ps). fc_mode c \<noteq> Some MTree"
proof -
  have no_mode: "fc_mode c = None" if "delta_change pl current p s = Inr c" for p c
    using that by (auto simp: delta_change_def file_change_new_def split: sum.splits read_base_error.splits)
  consider "pss' = pss" | cs paths where "pss' = pss @ [ws_patch_set_new epoch_delta current cs]"
      "\<forall>c \<in> set cs. delta_change pl current (fc_path c) s = Inr c"
      "fc_path ` set cs = set paths \<inter> touched_paths pss"
    using inject_epoch_delta_ok [OF assms] by metis
  then have "touched_paths pss' = touched_paths pss \<and>
     (\<forall>ps \<in> set pss'. ps \<in> set pss \<or> (\<forall>c \<in> set (wp_changes ps). fc_mode c = None))"
  proof cases
    case (2 cs paths)
    have "set (wp_changes (ws_patch_set_new epoch_delta current cs)) = set cs"
      by (simp add: ws_patch_set_new_def)
    with 2 no_mode show ?thesis by (auto simp: touched_paths_def)
  qed auto
  then show "touched_paths pss' = touched_paths pss"
    and "\<forall>ps \<in> set pss. \<forall>c \<in> set (wp_changes ps). fc_mode c \<noteq> Some MTree \<Longrightarrow>
      \<forall>ps \<in> set pss'. \<forall>c \<in> set (wp_changes ps). fc_mode c \<noteq> Some MTree"
    by (blast, metis option.distinct(1))
qed

lemma fold_entries_get:
  fixes m :: "('a::linorder, 'b) btree"
  shows "bm_get (fold (\<lambda>(p, content). bm_insert p content) (bm_entries ov) m) p =
   (case bm_get ov p of None \<Rightarrow> bm_get m p | Some c \<Rightarrow> Some c)"
  by (rule bm_get_fold_entries [where f = "\<lambda>c. c"])

end
