(* ===== verification/Pipeline_Result.thy ===== *)
theory Pipeline_Result
  imports Pipeline_Facts
begin

text \<open>
  What the BUILD phase guarantees: the decisions of the merge drivers, the meeting of stale workspaces with the
  changes of the epoch, the commit that the pipeline builds, and the merge-state file around it. Three theorems
  state what the drivers do where the code's comments promise something else.
\<close>

section \<open>Merge drivers\<close>

text \<open>C16. Every path has the driver of the first glob that matches it, and the driver decides: \<open>ours\<close> writes the
  base's content or deletes the path, \<open>theirs\<close> takes the one change there is, a path without a driver keeps
  what the resolution made of it, and the conflict records that remain are exactly those of paths without a
  driver. Only paths with a regenerating driver can come from the temporary worktree.\<close>

theorem merge_drivers_decide:
  assumes "apply_merge_drivers ge rg re epoch sources pt bases rr drivers s = Some (Inr (resolved, conflicts), s')"
    and "distinct (map fst (partition_rows pt))" "distinct (map change_path (rr_resolved rr))"
  shows "\<exists>compiled. compile_drivers ge 0 (effective_drivers drivers) = Inr compiled
    \<and> set conflicts = {c \<in> set (rr_conflicts rr). cr_path c \<in> fst ` set (partition_rows pt) \<longrightarrow>
        driver_for ge compiled (cr_path c) = None}
    \<and> (\<forall>(p, entries) \<in> set (partition_rows pt).
        case driver_for ge compiled p of
          None \<Rightarrow> change_at resolved p = change_at (rr_resolved rr) p
        | Some d \<Rightarrow> (case md_kind d of
              KeepOurs \<Rightarrow> change_at resolved p = Some (ours_change p (bm_get bases p))
            | KeepTheirs \<Rightarrow> (\<exists>c. theirs_change p entries = Inr c \<and> change_at resolved p = Some c)
            | Regenerate \<Rightarrow> True))
    \<and> (\<forall>p. p \<notin> fst ` set (partition_rows pt) \<longrightarrow> change_at resolved p = change_at (rr_resolved rr) p)"
proof -
  obtain compiled where compiled: "compile_drivers ge 0 (effective_drivers drivers) = Inr compiled"
    and confl: "set conflicts = {c \<in> set (rr_conflicts rr). cr_path c \<in> fst ` set (partition_rows pt) \<longrightarrow>
        driver_for ge compiled (cr_path c) = None}"
    and decided: "\<forall>(p, entries) \<in> set (partition_rows pt).
        driven bases (driver_for ge compiled p) p entries (change_at (rr_resolved rr) p) (change_at resolved p)
        \<or> (\<exists>i. regenerates ge compiled p i)"
    and others: "\<forall>p. p \<notin> fst ` set (partition_rows pt) \<longrightarrow> change_at resolved p = change_at (rr_resolved rr) p"
    using apply_merge_drivers_decides [OF assms] .
  have "case driver_for ge compiled p of
          None \<Rightarrow> change_at resolved p = change_at (rr_resolved rr) p
        | Some d \<Rightarrow> (case md_kind d of
              KeepOurs \<Rightarrow> change_at resolved p = Some (ours_change p (bm_get bases p))
            | KeepTheirs \<Rightarrow> (\<exists>c. theirs_change p entries = Inr c \<and> change_at resolved p = Some c)
            | Regenerate \<Rightarrow> True)" if "(p, entries) \<in> set (partition_rows pt)" for p entries
    using bspec [OF decided that]
    by (auto simp: driven_def driver_for_def regenerates_def split: option.splits merge_driver_kind.splits)
  then show ?thesis using compiled confl others by blast
qed

text \<open>An optional regenerating driver loses the conflict of its path when its command fails: the conflict
  record is gone, nothing was resolved, so the merge goes on as if the path had not been touched and the
  changes of all workspaces to it are dropped.\<close>

theorem optional_regenerate_loses_conflict:
  assumes "apply_merge_drivers ge rg re epoch sources pt bases rr drivers s = Some (Inr (resolved, conflicts), s')"
    and "distinct (map fst (partition_rows pt))" "distinct (map change_path (rr_resolved rr))"
    and "compile_drivers ge 0 (effective_drivers drivers) = Inr compiled"
    and "p \<in> fst ` set (partition_rows pt)" "p \<in> cr_path ` set (rr_conflicts rr)"
      "p \<notin> change_path ` set (rr_resolved rr)"
    and "select_driver ge p compiled = Some d" "md_kind (cd_driver d) = Regenerate"
      "regen_command (cd_driver d) = Some cmd"
    and "\<forall>w. \<exists>code err w'. rg_run rg cmd w = (Inr (code, err), w') \<and> code \<noteq> Some 0"
  shows "p \<notin> change_path ` set resolved \<and> p \<notin> cr_path ` set conflicts"
  using optional_failure_drops [OF assms(1-5,7-11)] by blast

section \<open>Stale workspaces\<close>

text \<open>C15. What the epoch did since a workspace forked takes part in the merge: when a path of the epoch's
  delta was touched by any workspace of the merge, the partition has it as a shared path, and among its
  entries are the workspace's change and one entry of the synthetic participant that carries the epoch's
  content (or its deletion). What the resolution makes of the two is not part of this statement.\<close>

theorem epoch_delta_meets_workspaces:
  assumes "inject_epoch_delta pl current pss s = Inr (pss', ov)"
    and "ps \<in> set pss" "epoch_str base \<noteq> epoch_str current"
      "workspace_merge_base pl (wp_epoch ps) current s = base"
    and "epoch_delta_paths pl base current s = Inr dp" "p \<in> set dp"
    and "q \<in> set pss" "c \<in> set (wp_changes q)" "fc_path c = p"
  shows "\<exists>es e. (p, es) \<in> set (pt_shared (partition_by_path sc pss')) \<and> entry_of_change q c \<in> set es
    \<and> e \<in> set es \<and> pe_workspace_id e = epoch_delta
    \<and> (case read_file_at_epoch pl current p s of
         Inr content \<Rightarrow> pe_kind e = Modified \<and> pe_content e = Some content
       | Inl err \<Rightarrow> err = RbNotFound \<and> pe_kind e = Deleted)"
  using delta_paths_shared [OF assms] .

text \<open>C24. An \<open>ours\<close> driver undoes the epoch: for a stale workspace that touched a path the epoch has changed since
  the fork, the base the drivers see is the content at the fork, so \<open>ours\<close>, which the configuration documents
  as keeping the epoch's version, writes the version from before the epoch's change.\<close>

theorem ours_driver_reverts_epoch:
  assumes inj: "inject_epoch_delta pl current pss s = Inr (pss', ov)"
    and stale: "stale_base_epochs pl current pss s = [epoch_str base]" "git_oid_ok (epoch_oid base)"
    and delta: "epoch_delta_paths pl base current s = Inr dp" "p \<in> set dp"
    and touched: "q \<in> set pss" "c \<in> set (wp_changes q)" "fc_path c = p"
    and old: "read_file_at_epoch pl base p s = Inr content"
    and run: "apply_merge_drivers ge rg re current sources (partition_by_path sc pss')
        (fold (\<lambda>(p, content). bm_insert p content) (bm_entries ov) bases) rr drivers s1 = Some (Inr (resolved, conflicts), s2)"
    and dist: "distinct (map change_path (rr_resolved rr))"
    and driver: "compile_drivers ge 0 (effective_drivers drivers) = Inr compiled"
      "driver_for ge compiled p = Some d" "md_kind d = KeepOurs"
  shows "change_at resolved p = Some (RUpsert p content)"
proof -
  have parsed: "epoch_id_new (epoch_str base) = Inr base" by (rule epoch_from_str [OF stale(2)])
  have u: "union_delta pl current s [epoch_str base] [] None = Inr (dp, Some base)"
    using parsed delta(1) by simp
  let ?overlap = "sorted_list_of_set (set dp \<inter> touched_paths pss)"
  have p: "p \<in> set ?overlap" using touched delta(2) by (force simp: touched_paths_def)
  then have ne: "?overlap \<noteq> []" by auto
  obtain changes where d: "delta_changes pl current base s ?overlap [] bm_empty = Inr (changes, ov)"
    using inj stale(1) u ne by (auto simp: inject_epoch_delta_def result_simps)
  have base: "bm_get ov p = Some content" using delta_changes_ok [OF d] p old by simp
  let ?pt = "partition_by_path sc pss'"
  obtain es e where "(p, es) \<in> set (pt_shared ?pt)"
  proof -
    obtain ps where ps: "ps \<in> set pss" "epoch_str base = epoch_str (workspace_merge_base pl (wp_epoch ps) current s)"
        "epoch_str base \<noteq> epoch_str current"
      using stale_base_epochs_iff [of "epoch_str base" pl current pss s] stale(1) by auto
    then have "workspace_merge_base pl (wp_epoch ps) current s = base" by (simp add: epoch_str_inj)
    from delta_paths_shared [OF inj ps(1,3) this delta touched, of sc] show thesis using that by blast
  qed
  then have row: "(p, es) \<in> set (partition_rows ?pt)" by (simp add: partition_rows_def)
  have drows: "distinct (map fst (partition_rows ?pt))" by (simp add: partition_rows_paths partition_paths_distinct)
  obtain compiled' where c': "compile_drivers ge 0 (effective_drivers drivers) = Inr compiled'"
    and decided: "\<forall>(p, entries) \<in> set (partition_rows ?pt).
        driven (fold (\<lambda>(p, content). bm_insert p content) (bm_entries ov) bases) (driver_for ge compiled' p) p entries
          (change_at (rr_resolved rr) p) (change_at resolved p)
        \<or> (\<exists>i. regenerates ge compiled' p i)"
    using apply_merge_drivers_decides [OF run drows dist] .
  have "compiled' = compiled" using c' driver(1) by simp
  then have "change_at resolved p = Some (ours_change p (bm_get (fold (\<lambda>(p, content). bm_insert p content) (bm_entries ov) bases) p))"
    using bspec [OF decided row] driver(2,3)
    by (auto simp: driven_def driver_for_def regenerates_def)
  moreover have "bm_get (fold (\<lambda>(p, content). bm_insert p content) (bm_entries ov) bases) p = Some content"
    using base by (simp add: fold_entries_get)
  ultimately show ?thesis by (simp add: ours_change_def)
qed

section \<open>The commit\<close>


section \<open>The merge-state file\<close>

lemma default_path_tmp: "merge_state_tmp (default_path dir) \<noteq> default_path dir"
  by (simp add: merge_state_tmp_def default_path_def)

text \<open>What a write leaves when every text that is printed parses to the state printed.\<close>

lemma write_atomic_reads:
  assumes codec: "\<forall>st json. mk_print k st = Inr json \<longrightarrow> mk_parse k json = Inr st"
    and run: "write_atomic k env (default_path dir) st d = (r, d')"
  shows "case r of Inl e \<Rightarrow> bm_get d' (default_path dir) = bm_get d (default_path dir)
    | Inr u \<Rightarrow> read_merge_state k io_healthy (default_path dir) d' = (Inr st, d')"
proof (cases "mk_print k st")
  case (Inl e)
  then show ?thesis using run by (auto simp: write_atomic_def to_json_def io_err_def)
next
  case (Inr json)
  then have "replace_merge_state env (default_path dir) json d = (r, d')"
    using run by (simp add: write_atomic_def to_json_def)
  then show ?thesis
    using ms_file.w_done [OF default_path_tmp] ms_file.w_failed [OF default_path_tmp] codec Inr
    by (cases r) (auto simp: read_merge_state_healthy from_json_def)
qed

definition state_on_disk :: "phase_env \<Rightarrow> disk \<Rightarrow> merge_state_error + merge_state_file" where
  "state_on_disk ph d = fst (read_merge_state (ph_codec ph) io_healthy (default_path (ph_manifold_dir ph)) d)"

lemma state_on_disk_cong:
  "bm_get d' (default_path (ph_manifold_dir ph)) = bm_get d (default_path (ph_manifold_dir ph)) \<Longrightarrow>
   state_on_disk ph d' = state_on_disk ph d"
  by (simp add: state_on_disk_def read_merge_state_healthy)

lemma read_any_fault:
  "read_merge_state k env p d = (Inr st, d') \<Longrightarrow> read_merge_state k io_healthy p d = (Inr st, d) \<and> d' = d"
  by (auto simp: read_merge_state_def fs_defs io_defs io_healthy_def from_json_def
      split: option.splits sum.splits prod.splits io_error.splits)

definition in_build :: "phase_env \<Rightarrow> merge_state_file \<Rightarrow> merge_state_file" where
  "in_build ph st = st\<lparr>ms_phase := Build, ms_updated_at := ph_now ph 0\<rparr>"

lemma start_build_ok:
  assumes codec: "\<forall>st json. mk_print (ph_codec ph) st = Inr json \<longrightarrow> mk_parse (ph_codec ph) json = Inr st"
    and run: "start_build ph d = (r, d')"
  shows "case r of
      Inl e \<Rightarrow> state_on_disk ph d' = state_on_disk ph d
        \<or> (\<exists>st. state_on_disk ph d = Inr st \<and> ms_phase st = Prepare \<and> state_on_disk ph d' = Inr (in_build ph st))
    | Inr (st', drivers) \<Rightarrow> \<exists>st. state_on_disk ph d = Inr st \<and> ms_phase st = Prepare \<and> st' = in_build ph st
        \<and> ph_load_config ph (ph_manifold_dir ph @ [''config.toml'']) d = Inr drivers
        \<and> state_on_disk ph d' = Inr st'"
proof -
  let ?p = "default_path (ph_manifold_dir ph)"
  obtain r1 d1 where read: "read_merge_state (ph_codec ph) (ph_io ph 0) ?p d = (r1, d1)" by force
  have d1: "d1 = d" using read_merge_state_disk [of "ph_codec ph" "ph_io ph 0" ?p d] read by simp
  show ?thesis
  proof (cases "\<exists>st drivers. r1 = Inr st \<and> ms_phase st = Prepare
      \<and> ph_load_config ph (ph_manifold_dir ph @ [''config.toml'']) d = Inr drivers
      \<and> fp_build ph ''FP_BUILD_BEFORE_WORKTREE_ADD'' = Inr ()")
    case False
    then have "(\<exists>e. r = Inl e) \<and> d' = d"
      using run read d1 by (auto simp: start_build_def Let_def split: sum.splits if_splits)
    then show ?thesis by auto
  next
    case True
    then obtain st drivers where st: "r1 = Inr st" "ms_phase st = Prepare"
        "ph_load_config ph (ph_manifold_dir ph @ [''config.toml'']) d = Inr drivers"
        "fp_build ph ''FP_BUILD_BEFORE_WORKTREE_ADD'' = Inr ()" by blast
    have before: "state_on_disk ph d = Inr st"
      using read_any_fault [OF read [unfolded st(1)]] by (simp add: state_on_disk_def)
    have adv: "advance Build (ph_now ph 0) st = (Inr (), in_build ph st)"
      by (simp add: advance_def st(2) can_transition_to_def in_build_def)
    obtain r2 d2 where w: "write_atomic (ph_codec ph) (ph_io ph 1) ?p (in_build ph st) d = (r2, d2)" by force
    have "d' = d2" using run read d1 st adv w
      by (auto simp: start_build_def Let_def split: sum.splits)
    moreover have "case r2 of Inl e \<Rightarrow> (\<exists>e. r = Inl e) | Inr u \<Rightarrow> (\<exists>e. r = Inl e) \<or> r = Inr (in_build ph st, drivers)"
      using run read d1 st adv w by (auto simp: start_build_def Let_def split: sum.splits)
    ultimately show ?thesis
      using write_atomic_reads [OF codec w] before st(2,3) state_on_disk_cong [of d2 ph d]
      by (auto simp: state_on_disk_def split: sum.splits)
  qed
qed

text \<open>C14. The merge-state file tells how far the BUILD phase came: a run that returns an output found a state in
  phase Prepare and leaves that state in phase Build with the output's candidate; a run that fails leaves the
  file as it was or the state in phase Build without a new candidate. In between lies exactly one run of the
  pipeline on the state in phase Build with the configured drivers.\<close>

theorem build_phase_state_file:
  assumes codec: "\<forall>st json. mk_print (ph_codec ph) st = Inr json \<longrightarrow> mk_parse (ph_codec ph) json = Inr st"
    and run: "run_build_phase pl ph (s, d) = Some (r, s', d')"
  shows "case r of
      Inl e \<Rightarrow> state_on_disk ph d' = state_on_disk ph d
        \<or> (\<exists>st. state_on_disk ph d = Inr st \<and> ms_phase st = Prepare \<and> state_on_disk ph d' = Inr (in_build ph st))
    | Inr out \<Rightarrow> \<exists>st drivers. state_on_disk ph d = Inr st \<and> ms_phase st = Prepare
        \<and> ph_load_config ph (ph_manifold_dir ph @ [''config.toml'']) d = Inr drivers
        \<and> run_pipeline pl (in_build ph st) drivers s = Some (Inr out, s')
        \<and> state_on_disk ph d' = Inr (in_build ph st\<lparr>ms_epoch_candidate := Some (bo_candidate out), ms_updated_at := ph_now ph 1\<rparr>)"
proof -
  obtain r1 d1 where start: "start_build ph d = (r1, d1)" by force
  note so = start_build_ok [OF codec start]
  show ?thesis
  proof (cases r1)
    case (Inl e)
    then show ?thesis using run start so by (auto simp: run_build_phase_def)
  next
    case (Inr x)
    obtain st' drivers where x: "x = (st', drivers)" by (cases x)
    obtain st where st: "state_on_disk ph d = Inr st" "ms_phase st = Prepare" "st' = in_build ph st"
        "ph_load_config ph (ph_manifold_dir ph @ [''config.toml'']) d = Inr drivers"
        "state_on_disk ph d1 = Inr st'"
      using so Inr x by auto
    obtain r2 s2 where pipe: "run_pipeline pl st' drivers s = Some (r2, s2)"
      using run start Inr x by (auto simp: run_build_phase_def)
    show ?thesis
    proof (cases r2)
      case (Inl e)
      then show ?thesis using run start Inr x pipe st by (auto simp: run_build_phase_def)
    next
      case out: (Inr out)
      obtain r3 d3 where rec: "record_candidate ph st' out d1 = (r3, d3)" by force
      have end_: "r = r3" "s' = s2" "d' = d3" using run start Inr x pipe out rec by (auto simp: run_build_phase_def)
      show ?thesis
      proof (cases "fp_build ph ''FP_BUILD_AFTER_MERGE_COMPUTE''")
        case (Inl e)
        then show ?thesis using rec end_ st by (auto simp: record_candidate_def)
      next
        case (Inr u)
        obtain r4 d4 where w: "write_atomic (ph_codec ph) (ph_io ph 2) (default_path (ph_manifold_dir ph))
            (st'\<lparr>ms_epoch_candidate := Some (bo_candidate out), ms_updated_at := ph_now ph 1\<rparr>) d1 = (r4, d4)" by force
        show ?thesis
          using write_atomic_reads [OF codec w] rec end_ st w Inr pipe out state_on_disk_cong [of d4 ph d1]
          by (auto simp: record_candidate_def state_on_disk_def split: sum.splits)
      qed
    qed
  qed
qed

section \<open>Witnesses\<close>

text \<open>An epoch that changed \<open>a\<close> after alice forked from commit 5; alice changed \<open>a\<close> as well, bob added \<open>b\<close> at
  the current epoch.\<close>

definition moved_objects :: object_list where
  "moved_objects = sample_objects @
     [(numbered 6, SBlob ''a'' ''two''),
      (numbered 7, STree [\<lparr>te_name = ''a'', te_mode = GBlob, te_oid = numbered 6\<rparr>,
                          \<lparr>te_name = ''lib'', te_mode = GTree, te_oid = numbered 3\<rparr>]),
      (numbered 8, SCommit \<lparr>ci_tree_oid = numbered 7, ci_parents = [numbered 5], ci_message = ''next''\<rparr>)]"

definition sample_epoch_8 :: epoch_id where
  "sample_epoch_8 = EpochId (GitOid (raw_oid_str (numbered 8)))"

definition sample_alice :: ws_patch_set where
  "sample_alice = ws_patch_set_new (sample_ws ''alice'') sample_epoch_5
     [file_change_new [''a''] Modified (Some ''mine'')]"

definition sample_bob :: ws_patch_set where
  "sample_bob = ws_patch_set_new (sample_ws ''bob'') sample_epoch_8
     [file_change_new [''b''] Added (Some ''new'')]"

definition sample_repo :: "object_list repo_env" where
  "sample_repo = \<lparr>re_open_error = (\<lambda>_. None), re_with_attrs = (\<lambda>_. object_store), re_hash_iter = (\<lambda>xs. xs),
     re_root = [''repo'']\<rparr>"

text \<open>A worktree in which every command fails.\<close>

definition sample_regen :: "(object_list, unit) regen_env" where
  "sample_regen = \<lparr>rg_create = (\<lambda>_ s. (Inr (), s)), rg_run = (\<lambda>_ w. (Inr (Some 1, ''no network''), w)),
     rg_is_file = (\<lambda>_ _. True), rg_read = (\<lambda>_ _. Inr ''x''), rg_remove = (\<lambda>_ s. (Inr (), s))\<rparr>"

definition sample_glob :: "string glob_env" where
  "sample_glob = \<lparr>ge_new = Inr, ge_matches = (\<lambda>g p. path_str p = g)\<rparr>"

definition sample_pipeline :: "(object_list, unit, string, unit) pipeline_env" where
  "sample_pipeline = \<lparr>pl_repo = sample_repo, pl_regen = sample_regen, pl_glob = sample_glob, pl_std = stable_choice,
     pl_merge = sample_env, pl_ast = None, pl_collect = (\<lambda>_ s. (Inr [sample_alice, sample_bob], s)),
     pl_merge_base = (\<lambda>a _ _. Inr (Some a)), pl_diff_trees = (\<lambda>_ _ _. Inr [[''a'']]),
     pl_read_file = (\<lambda>hex p _. Inr (if p = [''a''] then Some (if hex = epoch_str sample_epoch_5 then ''one'' else ''two'') else None)),
     pl_attrs = (\<lambda>_ _. None)\<rparr>"

definition ours_on_a :: "merge_driver list" where
  "ours_on_a = [\<lparr>md_match_glob = ''a'', md_kind = KeepOurs, md_command = None, md_required = True\<rparr>]"

definition sample_state_8 :: "merge_phase \<Rightarrow> merge_state_file" where
  "sample_state_8 ph = (merge_state_new [sample_ws ''alice'', sample_ws ''bob''] sample_epoch_8 100)\<lparr>ms_phase := ph\<rparr>"


lemma sample_compiled:
  "compile_drivers sample_glob 0 (effective_drivers ours_on_a) =
     Inr [\<lparr>cd_index = 0, cd_pattern = ''a'', cd_driver = hd ours_on_a\<rparr>]"
  by code_simp

lemma sample_delta:
  "inject_epoch_delta sample_pipeline sample_epoch_8 [sample_alice, sample_bob] moved_objects =
     Inr ([sample_alice, sample_bob, ws_patch_set_new epoch_delta sample_epoch_8 [file_change_new [''a''] Modified (Some ''two'')]],
          bm_insert [''a''] ''one'' bm_empty)"
  by code_simp

lemma sample_delta_paths: "epoch_delta_paths sample_pipeline sample_epoch_5 sample_epoch_8 moved_objects = Inr [[''a'']]"
  by code_simp

lemma sample_stale: "stale_base_epochs sample_pipeline sample_epoch_8 [sample_alice, sample_bob] moved_objects = [epoch_str sample_epoch_5]"
  by code_simp

lemma sample_merge_base:
  "workspace_merge_base sample_pipeline (wp_epoch sample_alice) sample_epoch_8 moved_objects = sample_epoch_5"
  "epoch_str sample_epoch_5 \<noteq> epoch_str sample_epoch_8" "git_oid_ok (epoch_oid sample_epoch_5)"
  by code_simp+

theorem epoch_delta_meets_workspaces_witness:
  "\<exists>pss' ov es e. inject_epoch_delta sample_pipeline sample_epoch_8 [sample_alice, sample_bob] moved_objects = Inr (pss', ov)
    \<and> ([''a''], es) \<in> set (pt_shared (partition_by_path stable_choice pss'))
    \<and> e \<in> set es \<and> pe_workspace_id e = epoch_delta \<and> pe_content e = Some ''two''"
proof -
  have c: "file_change_new [''a''] Modified (Some ''mine'') \<in> set (wp_changes sample_alice)"
      "fc_path (file_change_new [''a''] Modified (Some ''mine'')) = [''a'']"
    by (simp_all add: sample_alice_def ws_patch_set_new_def file_change_new_def)
  have two: "read_file_at_epoch sample_pipeline sample_epoch_8 [''a''] moved_objects = Inr ''two''" by code_simp
  from epoch_delta_meets_workspaces [OF sample_delta _ sample_merge_base(2,1) sample_delta_paths _ _ c, of stable_choice]
  show ?thesis using sample_delta two by auto
qed

definition sample_driven :: "string \<Rightarrow> ((build_phase_error + resolved_change list \<times> conflict_record list) \<times> object_list) option" where
  "sample_driven old = apply_merge_drivers sample_glob sample_regen sample_repo sample_epoch_8 []
     (partition_by_path stable_choice
        [sample_alice, sample_bob, ws_patch_set_new epoch_delta sample_epoch_8 [file_change_new [''a''] Modified (Some ''two'')]])
     (fold (\<lambda>(p, content). bm_insert p content) (bm_entries (bm_insert [''a''] old bm_empty)) bm_empty)
     \<lparr>rr_resolved = [], rr_conflicts = []\<rparr> ours_on_a moved_objects"

lemma sample_driven_ok: "sample_driven ''one'' = Some (Inr ([RUpsert [''a''] ''one''], []), moved_objects)"
  by code_simp

theorem ours_driver_reverts_epoch_witness:
  "change_at [RUpsert [''a''] ''one''] [''a''] = Some (RUpsert [''a''] ''one'')
   \<and> read_file_at_epoch sample_pipeline sample_epoch_8 [''a''] moved_objects = Inr ''two''"
proof
  have c: "file_change_new [''a''] Modified (Some ''mine'') \<in> set (wp_changes sample_alice)"
      "fc_path (file_change_new [''a''] Modified (Some ''mine'')) = [''a'']"
    by (simp_all add: sample_alice_def ws_patch_set_new_def file_change_new_def)
  have one: "read_file_at_epoch sample_pipeline sample_epoch_5 [''a''] moved_objects = Inr ''one''" by code_simp
  have driver: "driver_for sample_glob [\<lparr>cd_index = 0, cd_pattern = ''a'', cd_driver = hd ours_on_a\<rparr>] [''a''] = Some (hd ours_on_a)"
      "md_kind (hd ours_on_a) = KeepOurs"
    by code_simp+
  show "change_at [RUpsert [''a''] ''one''] [''a''] = Some (RUpsert [''a''] ''one'')"
    by (rule ours_driver_reverts_epoch [OF sample_delta sample_stale sample_merge_base(3) sample_delta_paths _ _ c one
          sample_driven_ok [unfolded sample_driven_def] _ sample_compiled driver]) simp_all
  show "read_file_at_epoch sample_pipeline sample_epoch_8 [''a''] moved_objects = Inr ''two''" by code_simp
qed

theorem merge_drivers_decide_witness:
  "\<exists>compiled. compile_drivers sample_glob 0 (effective_drivers ours_on_a) = Inr compiled
     \<and> driver_for sample_glob compiled [''b''] = None"
proof -
  let ?pt = "partition_by_path stable_choice
        [sample_alice, sample_bob, ws_patch_set_new epoch_delta sample_epoch_8 [file_change_new [''a''] Modified (Some ''two'')]]"
  have "distinct (map fst (partition_rows ?pt))" by (simp add: partition_rows_paths partition_paths_distinct)
  from merge_drivers_decide [OF sample_driven_ok [unfolded sample_driven_def] this]
  obtain compiled where "compile_drivers sample_glob 0 (effective_drivers ours_on_a) = Inr compiled" by auto
  moreover have "driver_for sample_glob [\<lparr>cd_index = 0, cd_pattern = ''a'', cd_driver = hd ours_on_a\<rparr>] [''b''] = None"
    by code_simp
  ultimately show ?thesis using sample_compiled by simp
qed

text \<open>Two workspaces that both changed \<open>Cargo.lock\<close>, without a network: the default driver.\<close>

definition lock_partition :: partition_result where
  "lock_partition = \<lparr>pt_unique = [], pt_shared = [([''Cargo.lock''],
     [sample_entry ''alice'' Modified ''y'', sample_entry ''bob'' Modified ''z''])], pt_df_clashes = []\<rparr>"

definition lock_conflicts :: resolve_result where
  "lock_conflicts = \<lparr>rr_resolved = [], rr_conflicts =
     [conflict_record [''Cargo.lock''] [sample_entry ''alice'' Modified ''y'', sample_entry ''bob'' Modified ''z'']
        (Some ''q'') Diff3Conflict []]\<rparr>"

theorem optional_regenerate_loses_conflict_witness:
  "\<exists>resolved conflicts s'. apply_merge_drivers sample_glob sample_regen sample_repo sample_epoch_5 [] lock_partition bm_empty
       lock_conflicts [] sample_objects = Some (Inr (resolved, conflicts), s')
     \<and> [''Cargo.lock''] \<notin> change_path ` set resolved \<and> [''Cargo.lock''] \<notin> cr_path ` set conflicts"
proof -
  let ?run = "apply_merge_drivers sample_glob sample_regen sample_repo sample_epoch_5 [] lock_partition bm_empty
       lock_conflicts [] sample_objects"
  let ?lock = "hd default_merge_drivers"
  have "case ?run of Some (Inr _, _) \<Rightarrow> True | _ \<Rightarrow> False" by code_simp
  then obtain resolved conflicts s' where run: "?run = Some (Inr (resolved, conflicts), s')"
    by (auto split: option.splits sum.splits prod.splits)
  obtain compiled where compiled: "compile_drivers sample_glob 0 (effective_drivers []) = Inr compiled"
    by (simp add: effective_drivers_def default_merge_drivers_def sample_glob_def)
  have "select_driver sample_glob [''Cargo.lock''] compiled = Some \<lparr>cd_index = 0, cd_pattern = ''Cargo.lock'', cd_driver = ?lock\<rparr>"
  proof -
    have "case compile_drivers sample_glob 0 (effective_drivers []) of Inr c \<Rightarrow>
        select_driver sample_glob [''Cargo.lock''] c = Some \<lparr>cd_index = 0, cd_pattern = ''Cargo.lock'', cd_driver = ?lock\<rparr>
      | Inl _ \<Rightarrow> False"
      by code_simp
    then show ?thesis using compiled by simp
  qed
  moreover have "md_kind ?lock = Regenerate" "regen_command ?lock = Some ''cargo generate-lockfile''" by code_simp+
  ultimately show ?thesis
    using optional_regenerate_loses_conflict [OF run _ _ compiled, of "[''Cargo.lock'']"] run
    by (simp add: lock_partition_def lock_conflicts_def partition_rows_def sample_regen_def conflict_record_def)
qed

definition sample_pipeline_run :: "((build_phase_error + build_phase_output) \<times> object_list) option" where
  "sample_pipeline_run = run_pipeline sample_pipeline (sample_state_8 Build) ours_on_a moved_objects"



text \<open>A codec for the three states of this run.\<close>

definition sample_phase :: phase_env where
  "sample_phase =
     (let build = (sample_state_8 Build)\<lparr>ms_updated_at := 200\<rparr>;
          finished = build\<lparr>ms_epoch_candidate := (case sample_pipeline_run of Some (Inr out, _) \<Rightarrow> Some (bo_candidate out) | _ \<Rightarrow> None),
                           ms_updated_at := 300\<rparr>
      in \<lparr>ph_codec = \<lparr>mk_print = (\<lambda>st. if st = sample_state_8 Prepare then Inr ''p'' else if st = build then Inr ''b''
                         else if st = finished then Inr ''f'' else Inl ''other''),
                     mk_parse = (\<lambda>j. if j = ''p'' then Inr (sample_state_8 Prepare) else if j = ''b'' then Inr build
                         else if j = ''f'' then Inr finished else Inl ''EOF'')\<rparr>,
           ph_io = (\<lambda>_. io_healthy), ph_manifold_dir = [''.manifold''], ph_load_config = (\<lambda>_ _. Inr ours_on_a),
           ph_now = (\<lambda>i. if i = 0 then 200 else 300), ph_failpoint = (\<lambda>_. None)\<rparr>)"

lemma sample_phase_runs:
  "case run_build_phase sample_pipeline sample_phase (moved_objects, sample_disk ''p'') of Some (Inr out, _) \<Rightarrow> True | _ \<Rightarrow> False"
  by code_simp

theorem build_phase_state_file_witness:
  "\<exists>out s' d' st. run_build_phase sample_pipeline sample_phase (moved_objects, sample_disk ''p'') = Some (Inr out, s', d')
    \<and> state_on_disk sample_phase d' = Inr st \<and> ms_phase st = Build \<and> ms_epoch_candidate st = Some (bo_candidate out)"
proof -
  obtain out s' d' where run: "run_build_phase sample_pipeline sample_phase (moved_objects, sample_disk ''p'') = Some (Inr out, s', d')"
    using sample_phase_runs by (auto split: option.splits prod.splits sum.splits)
  have codec: "\<forall>st json. mk_print (ph_codec sample_phase) st = Inr json \<longrightarrow> mk_parse (ph_codec sample_phase) json = Inr st"
    by (auto simp: sample_phase_def Let_def split: if_splits)
  show ?thesis
    using build_phase_state_file [OF codec run] run by (auto simp: in_build_def)
qed

end
