(* ===== verification/Stale_Add.thy ===== *)
theory Stale_Add
  imports Pipeline_Result
begin

text \<open>
  A file that the epoch gained after a stale workspace forked, and that the workspace adds as well: what the base
  of the path is, and what the resolution makes of the two additions.
\<close>

section \<open>Shared paths and bases\<close>

lemma push_outcome_grows:
  "set (rr_resolved r) \<subseteq> set (rr_resolved (push_outcome out r))"
  "set (rr_conflicts r) \<subseteq> set (rr_conflicts (push_outcome out r))"
  by (cases out; auto)+

lemma shared_outcome_kept:
  assumes "resolve_partition_by rs pt bases = Inr rr" "(p, es) \<in> set (pt_shared pt)" "p \<notin> df_clash_paths pt"
    and "rs p es (bm_get bases p) = Inr (Resolved c)"
  shows "c \<in> set (rr_resolved rr)"
proof -
  let ?step = "\<lambda>x r. if fst x \<in> df_clash_paths pt then Inr r
              else res_bind (rs (fst x) (snd x) (bm_get bases (fst x))) (\<lambda>outcome. Inr (push_outcome outcome r))"
  have grows: "set (rr_resolved r) \<subseteq> set (rr_resolved r')" if "res_fold ?step xs r = Inr r'" for xs r r'
    using that
  proof (induction xs arbitrary: r)
    case (Cons x xs)
    obtain r1 where r1: "?step x r = Inr r1" "res_fold ?step xs r1 = Inr r'"
      using Cons.prems by (auto simp: result_simps)
    then have "set (rr_resolved r) \<subseteq> set (rr_resolved r1)"
      using push_outcome_grows by (auto simp: result_simps split: if_splits)
    then show ?case using Cons.IH [OF r1(2)] by blast
  qed simp
  have found: "c \<in> set (rr_resolved r')" if "res_fold ?step xs r = Inr r'" "(p, es) \<in> set xs" for xs r r'
    using that
  proof (induction xs arbitrary: r)
    case (Cons x xs)
    obtain r1 where r1: "?step x r = Inr r1" "res_fold ?step xs r1 = Inr r'"
      using Cons.prems(1) by (auto simp: result_simps)
    show ?case
    proof (cases "x = (p, es)")
      case True
      then have "r1 = push_outcome (Resolved c) r" using r1(1) assms(3,4) by simp
      then show ?thesis using grows [OF r1(2)] by auto
    qed (use Cons r1 in auto)
  qed simp
  obtain r0 r1 where "res_fold ?step (pt_shared pt) r0 = Inr r1" "rr = sort_result r1"
    using assms(1) by (auto simp: resolve_partition_by_def Let_def result_simps)
  then show ?thesis using found [OF _ assms(2)] by (simp add: sort_result_def)
qed

lemma read_bases_get:
  "read_bases pl epoch s ps bases = Inr bases' \<Longrightarrow>
   bm_get bases' p = (if p \<in> set ps then (case read_file_at_epoch pl epoch p s of Inr c \<Rightarrow> Some c | Inl _ \<Rightarrow> bm_get bases p)
                      else bm_get bases p)"
proof (induction ps arbitrary: bases)
  case (Cons q ps)
  then show ?case
    by (auto split: sum.splits read_base_error.splits)
qed simp

section \<open>Two contents, one of them the base\<close>

lemma two_texts_line:
  assumes "path_merge_strategy env p = Diff3" "pe_content x = Some a" "pe_content y = Some b" "a \<noteq> b"
    and "\<not> pe_is_deletion x" "\<not> pe_is_deletion y" "me_diff3 env base a b = Inr (DClean out)" "\<not> all_blobs_equal [x, y]"
  shows "resolve_shared_path env p [x, y] (Some base) = Inr (Resolved (RUpsert p out))"
  using assms
  by (simp add: resolve_shared_path_def resolve_after_driver_def resolve_by_algebra_def resolve_entries_def
      effective_contents_def contents_of_def List.map_filter_def classify_shared_path_def diff3_or_retry_def
      pe_is_deletion_def)

lemma two_texts_ast:
  assumes "path_merge_strategy env p = Diff3" "pe_content x = Some a" "pe_content y = Some b" "a \<noteq> b"
    and "\<not> pe_is_deletion x" "\<not> pe_is_deletion y" "me_diff3 env base a b = Inr (DClean out)" "\<not> all_blobs_equal [x, y]"
  shows "resolve_shared_path_with_ast env ast p [x, y] (Some base) = Inr (Resolved (RUpsert p out))"
  using assms
  by (simp add: resolve_shared_path_with_ast_def resolve_texts_with_ast_def List.map_filter_def all_equal_def ast_fallback_def)

lemma resolved_of_two:
  fixes pl :: "('s, 'w, 'g, 'l) pipeline_env"
  assumes run: "resolve_partition_for_build pl pt bases attrs = Inr rr"
    and row: "(p, [x, y]) \<in> set (pt_shared pt)" "p \<notin> df_clash_paths pt" "bm_get bases p = Some base"
    and two: "path_merge_strategy ((pl_merge pl)\<lparr>me_attrs := Some attrs\<rparr>) p = Diff3"
      "pe_content x = Some a" "pe_content y = Some b" "a \<noteq> b"
      "\<not> pe_is_deletion x" "\<not> pe_is_deletion y" "me_diff3 (pl_merge pl) base a b = Inr (DClean out)"
      "\<not> all_blobs_equal [x, y]"
  shows "RUpsert p out \<in> set (rr_resolved rr)"
proof -
  let ?env = "(pl_merge pl)\<lparr>me_attrs := Some attrs\<rparr>"
  have diff3: "me_diff3 ?env base a b = Inr (DClean out)" using two(7) by simp
  show ?thesis
  proof (cases "pl_ast pl")
    case None
    then have "resolve_partition_by (resolve_shared_path ?env) pt bases = Inr rr"
      using run by (auto simp: resolve_partition_for_build_def resolve_partition_with_attrs_def split: sum.splits)
    then show ?thesis
      by (rule shared_outcome_kept [OF _ row(1,2)]) (simp add: row(3) two_texts_line [OF two(1-6) diff3 two(8)])
  next
    case (Some ast)
    then have "resolve_partition_by (resolve_shared_path_with_ast ?env ast) pt bases = Inr rr"
      using run by (auto simp: resolve_partition_for_build_def resolve_partition_with_ast_and_attrs_def split: sum.splits)
    then show ?thesis
      by (rule shared_outcome_kept [OF _ row(1,2)]) (simp add: row(3) two_texts_ast [OF two(1-6) diff3 two(8)])
  qed
qed

section \<open>The addition of a stale workspace\<close>

lemma one_change_at:
  assumes "map fc_path cs = ps" "distinct ps" "p \<in> set ps"
  obtains c where "c \<in> set cs" "fc_path c = p" "changes_at [ws_patch_set_new w e cs] p = [entry_of_change (ws_patch_set_new w e cs) c]"
proof -
  let ?syn = "ws_patch_set_new w e cs"
  obtain c where c: "c \<in> set cs" "fc_path c = p" using assms(1,3) by auto
  have dist: "distinct (map fc_path (wp_changes ?syn))" "set (wp_changes ?syn) = set cs"
    using assms(1,2) by (simp_all add: ws_patch_set_new_def distinct_map_sort_by)
  have "filter (\<lambda>x. fc_path x = p) xs = [c]" if "distinct (map fc_path xs)" "c \<in> set xs" for xs
    using that c(2) by (induction xs) (auto simp: filter_empty_conv image_iff)
  then have "filter (\<lambda>x. fc_path x = p) (wp_changes ?syn) = [c]" using dist c(1) by simp
  then have "changes_at [?syn] p = [entry_of_change ?syn c]"
    by (simp add: changes_at_def all_changes_def filter_map comp_def)
  then show thesis using that c by blast
qed

lemma delta_entry:
  assumes inj: "inject_epoch_delta pl current pss s = Inr (pss', ov)"
    and stale: "stale_base_epochs pl current pss s = [epoch_str base]" "git_oid_ok (epoch_oid base)"
    and delta: "epoch_delta_paths pl base current s = Inr dp" "p \<in> set dp" "p \<in> touched_paths pss"
    and contents: "read_file_at_epoch pl base p s = Inl RbNotFound" "read_file_at_epoch pl current p s = Inr theirs"
  obtains d where "changes_at pss' p = changes_at pss p @ [d]" "pe_kind d = Modified" "pe_content d = Some theirs"
    "pe_blob d = None" "bm_get ov p = None"
proof -
  have u: "union_delta pl current s [epoch_str base] [] None = Inr (dp, Some base)"
    using epoch_from_str [OF stale(2)] delta(1) by simp
  let ?overlap = "sorted_list_of_set (set dp \<inter> touched_paths pss)"
  have p: "p \<in> set ?overlap" using delta(2,3) by simp
  then have ne: "?overlap \<noteq> []" by auto
  obtain cs where d: "delta_changes pl current base s ?overlap [] bm_empty = Inr (cs, ov)"
      and pss': "pss' = pss @ [ws_patch_set_new epoch_delta current cs]"
    using inj stale(1) u ne by (auto simp: inject_epoch_delta_def result_simps)
  note dc = delta_changes_ok [OF d]
  have ov: "bm_get ov p = None" using dc p contents(1) by simp
  have paths: "map fc_path cs = ?overlap" and each: "\<forall>c \<in> set cs. delta_change pl current (fc_path c) s = Inr c"
    using dc by auto
  obtain c where c: "c \<in> set cs" "fc_path c = p"
      "changes_at [ws_patch_set_new epoch_delta current cs] p = [entry_of_change (ws_patch_set_new epoch_delta current cs) c]"
    using one_change_at [OF paths _ p] by auto
  then have "c = file_change_new p Modified (Some theirs)"
    using each contents(2) by (auto simp: delta_change_def)
  then show thesis
    using that [of "entry_of_change (ws_patch_set_new epoch_delta current cs) c"] c(3) ov
    by (simp add: pss' changes_at_append entry_of_change_def path_entry_with_mode_def file_change_new_def)
qed

text \<open>C23. A file that the epoch gained since a workspace forked is overwritten without a conflict when the
  workspace adds the file too: the comment in the code expects an add/add conflict without a base, but the
  base that was read is the epoch's own new file, so with the line merge of git, which takes the side that
  left the base, the workspace's content wins in either pipeline.\<close>

theorem stale_add_overwrites_epoch:
  assumes "inject_epoch_delta pl current pss s = Inr (pss', ov)"
    and "stale_base_epochs pl current pss s = [epoch_str base]" "git_oid_ok (epoch_oid base)"
    and "epoch_delta_paths pl base current s = Inr dp" "p \<in> set dp"
    and added: "changes_at pss p = [x]" "pe_kind x = Added" "pe_content x = Some mine" "mine \<noteq> theirs"
    and "read_file_at_epoch pl base p s = Inl RbNotFound" "read_file_at_epoch pl current p s = Inr theirs"
    and bases: "read_base_contents pl current (partition_by_path sc pss') s = Inr bases"
    and run: "resolve_partition_for_build pl (partition_by_path sc pss')
        (fold (\<lambda>(p, content). bm_insert p content) (bm_entries ov) bases) attrs = Inr rr"
    and strategy: "path_merge_strategy ((pl_merge pl)\<lparr>me_attrs := Some attrs\<rparr>) p = Diff3"
    and clash: "p \<notin> df_clash_paths (partition_by_path sc pss')"
    and diff3: "\<And>b y. me_diff3 (pl_merge pl) b b y = Inr (DClean y) \<and> me_diff3 (pl_merge pl) b y b = Inr (DClean y)"
  shows "RUpsert p mine \<in> set (rr_resolved rr) \<and> p \<notin> cr_path ` set (rr_conflicts rr)"
proof -
  let ?pt = "partition_by_path sc pss'" and ?bases = "fold (\<lambda>(p, content). bm_insert p content) (bm_entries ov) bases"
  have touched: "p \<in> touched_paths pss"
  proof -
    have "(p, x) \<in> set (pt_unique (partition_by_path sc pss))" using added(1) by (simp add: unique_iff)
    then show ?thesis unfolding partition_paths_touched [of sc, symmetric] partition_paths_def by force
  qed
  obtain d where at: "changes_at pss' p = [x] @ [d]" and d: "pe_kind d = Modified" "pe_content d = Some theirs" "pe_blob d = None"
      and ov: "bm_get ov p = None"
    using delta_entry [OF assms(1-5) touched assms(10,11)] added(1) by metis
  define es where "es = sort_by ws_cmp [x, d]"
  have row: "(p, es) \<in> set (pt_shared ?pt)" using at by (simp add: shared_iff es_def)
  have "p \<in> set (partition_paths ?pt)" using row by (force simp: partition_paths_def)
  then have base: "bm_get ?bases p = Some theirs"
    using read_bases_get [OF bases [unfolded read_base_contents_def], of p] assms(11) ov by (simp add: fold_entries_get)
  have x: "\<not> pe_is_deletion x" "\<not> pe_is_deletion d" using added(2) d(1) by (simp_all add: pe_is_deletion_def)
  have blobs: "\<not> all_blobs_equal [x, d]" "\<not> all_blobs_equal [d, x]" using d(3) by (auto simp: all_blobs_equal_def split: option.split)
  have "es = [x, d] \<or> es = [d, x]" by (simp add: es_def)
  then have res: "RUpsert p mine \<in> set (rr_resolved rr)"
  proof
    assume "es = [x, d]"
    then show ?thesis
      using resolved_of_two [OF run _ clash base strategy added(3) d(2) added(4) x(1,2) _ blobs(1)] row diff3 by simp
  next
    assume "es = [d, x]"
    then show ?thesis
      using resolved_of_two [OF run _ clash base strategy d(2) added(3) added(4) [symmetric] x(2,1) _ blobs(2)] row diff3 by simp
  qed
  have "p \<in> set (map change_path (rr_resolved rr))" using res by force
  then show ?thesis using res accounted(1) [OF run partition_paths_distinct] by auto
qed

section \<open>Witness\<close>

text \<open>The epoch gained \<open>n\<close> after commit 5; alice, who forked there, adds it with another content.\<close>

definition stale_alice :: ws_patch_set where
  "stale_alice = ws_patch_set_new (sample_ws ''alice'') sample_epoch_5 [file_change_new [''n''] Added (Some ''mine'')]"

definition stale_pipeline :: "(object_list, unit, string, unit) pipeline_env" where
  "stale_pipeline = sample_pipeline
     \<lparr>pl_merge := sample_env\<lparr>me_diff3 := (\<lambda>b x y. Inr (if x = b then DClean y else if y = b then DClean x else DConflict []))\<rparr>,
      pl_diff_trees := (\<lambda>_ _ _. Inr [[''n'']]),
      pl_read_file := (\<lambda>hex p _. Inr (if p = [''n''] \<and> hex = epoch_str sample_epoch_8 then Some ''theirs'' else None))\<rparr>"

definition stale_sets :: "ws_patch_set list" where
  "stale_sets = [stale_alice, ws_patch_set_new epoch_delta sample_epoch_8 [file_change_new [''n''] Modified (Some ''theirs'')]]"

lemma stale_steps:
  "inject_epoch_delta stale_pipeline sample_epoch_8 [stale_alice] moved_objects = Inr (stale_sets, bm_empty)"
  "stale_base_epochs stale_pipeline sample_epoch_8 [stale_alice] moved_objects = [epoch_str sample_epoch_5]"
  "epoch_delta_paths stale_pipeline sample_epoch_5 sample_epoch_8 moved_objects = Inr [[''n'']]"
  "read_file_at_epoch stale_pipeline sample_epoch_5 [''n''] moved_objects = Inl RbNotFound"
  "read_file_at_epoch stale_pipeline sample_epoch_8 [''n''] moved_objects = Inr ''theirs''"
  "read_base_contents stale_pipeline sample_epoch_8 (partition_by_path stable_choice stale_sets) moved_objects =
     Inr (bm_insert [''n''] ''theirs'' bm_empty)"
  by code_simp+

theorem stale_add_overwrites_epoch_witness:
  "\<exists>rr. resolve_partition_for_build stale_pipeline (partition_by_path stable_choice stale_sets)
      (bm_insert [''n''] ''theirs'' bm_empty) (\<lambda>_. None) = Inr rr
    \<and> RUpsert [''n''] ''mine'' \<in> set (rr_resolved rr) \<and> [''n''] \<notin> cr_path ` set (rr_conflicts rr)"
proof -
  let ?bases = "bm_insert [''n''] ''theirs'' bm_empty"
  have "case resolve_partition_for_build stale_pipeline (partition_by_path stable_choice stale_sets) ?bases (\<lambda>_. None) of
      Inr _ \<Rightarrow> True | _ \<Rightarrow> False"
    by code_simp
  then obtain rr where run: "resolve_partition_for_build stale_pipeline (partition_by_path stable_choice stale_sets)
      ?bases (\<lambda>_. None) = Inr rr"
    by (auto split: sum.splits)
  then have run': "resolve_partition_for_build stale_pipeline (partition_by_path stable_choice stale_sets)
      (fold (\<lambda>(p, content). bm_insert p content) (bm_entries bm_empty) ?bases) (\<lambda>_. None) = Inr rr"
    by (simp add: bm.eqI fold_entries_get)
  have entry: "changes_at [stale_alice] [''n''] = [entry_of_change stale_alice (file_change_new [''n''] Added (Some ''mine''))]"
    by code_simp
  have fields: "pe_kind (entry_of_change stale_alice (file_change_new [''n''] Added (Some ''mine''))) = Added"
      "pe_content (entry_of_change stale_alice (file_change_new [''n''] Added (Some ''mine''))) = Some ''mine''"
    by (simp_all add: entry_of_change_def path_entry_with_mode_def file_change_new_def)
  have "[''n''] \<notin> df_clash_paths (partition_by_path stable_choice stale_sets)" by code_simp
  moreover have "path_merge_strategy ((pl_merge stale_pipeline)\<lparr>me_attrs := Some (\<lambda>_. None)\<rparr>) [''n''] = Diff3" by code_simp
  moreover have "me_diff3 (pl_merge stale_pipeline) b b y = Inr (DClean y) \<and> me_diff3 (pl_merge stale_pipeline) b y b = Inr (DClean y)"
    for b y
    by (simp add: stale_pipeline_def sample_pipeline_def sample_env_def)
  ultimately show ?thesis
    using stale_add_overwrites_epoch [OF stale_steps(1,2) sample_merge_base(3) stale_steps(3) _ entry fields _ stale_steps(4-6) run'] run
    by simp
qed

end
