(* ===== verification/Str_Ops.thy ===== *)
theory Str_Ops
  imports Text_Lines
begin

text \<open>
  More of \<open>str\<close>, as the command line parses with it: \<open>find\<close>, \<open>split_once\<close>, \<open>strip_prefix\<close>,
  \<open>trim_start_matches\<close> of one character, and \<open>PathBuf::from\<close> of a relative path.
\<close>

fun str_find :: "string \<Rightarrow> string \<Rightarrow> nat option" where
  "str_find pat [] = (if pat = [] then Some 0 else None)"
| "str_find pat (c # cs) = (if prefix pat (c # cs) then Some 0 else map_option Suc (str_find pat cs))"

definition split_once :: "string \<Rightarrow> string \<Rightarrow> (string \<times> string) option" where
  "split_once pat s = map_option (\<lambda>i. (take i s, drop (i + length pat) s)) (str_find pat s)"

definition strip_prefix :: "string \<Rightarrow> string \<Rightarrow> string option" where
  "strip_prefix p s = (if prefix p s then Some (drop (length p) s) else None)"

definition str_contains :: "string \<Rightarrow> string \<Rightarrow> bool" where
  "str_contains pat s \<longleftrightarrow> str_find pat s \<noteq> None"

definition trim_start_char :: "char \<Rightarrow> string \<Rightarrow> string" where
  "trim_start_char c s = dropWhile (\<lambda>x. x = c) s"

definition path_from :: "string \<Rightarrow> path" where
  "path_from s = (case filter (\<lambda>c. c \<noteq> []) (split_on CHR ''/'' s) of
     [] \<Rightarrow> [] | c # cs \<Rightarrow> c # filter (\<lambda>c. c \<noteq> ''.'') cs)"

lemma strip_prefix_append [simp]: "strip_prefix p (p @ s) = Some s"
  by (simp add: strip_prefix_def)

lemma str_find_first:
  assumes "pat \<noteq> []" "hd pat \<notin> set a"
  shows "str_find pat (a @ pat @ b) = Some (length a)"
  using assms(2)
proof (induction a)
  case Nil
  then show ?case using assms(1) by (cases pat) auto
next
  case (Cons c a)
  then show ?case using assms(1) by (cases pat) auto
qed

lemma split_once_first:
  "pat \<noteq> [] \<Longrightarrow> hd pat \<notin> set a \<Longrightarrow> split_once pat (a @ pat @ b) = Some (a, b)"
  using str_find_first [of pat a b] by (simp add: split_once_def)

lemma str_contains_sublist: "str_contains pat s \<longleftrightarrow> sublist pat s"
  unfolding str_contains_def
  by (induction s) (auto simp: sublist_Cons_right)

section \<open>Trimming\<close>

definition solid :: "string \<Rightarrow> bool" where
  "solid s \<longleftrightarrow> list_all (\<lambda>c. \<not> space_ascii c \<and> (of_char c :: nat) < 0x80) s"

lemma solid_append [simp]: "solid (a @ b) \<longleftrightarrow> solid a \<and> solid b"
  by (simp add: solid_def)

lemma space_end_solid:
  assumes "\<not> space_ascii c" "(of_char c :: nat) < 0x80"
  shows "space_end (c # r) = 0"
  using assms by (simp add: space_end_def byte_at_def Let_def)

lemma trim_end_solid: "s = [] \<or> \<not> space_ascii (last s) \<and> (of_char (last s) :: nat) < 0x80 \<Longrightarrow> trim_end s = s"
  by (cases s rule: rev_cases) (simp_all add: trim_end_def trim_rev.simps [of "[]"] trim_rev.simps [of "_ # _"] space_end_solid)

lemma space_start_solid:
  assumes "\<not> space_ascii c" "(of_char c :: nat) < 0x80"
  shows "space_start (c # r) = 0"
proof -
  have "space_end (rev (take 2 (c # r))) \<noteq> 2"
    by (cases r) (use assms in \<open>auto simp: space_end_def byte_at_def Let_def\<close>)
  moreover have "space_end (rev (take 3 (c # r))) \<noteq> 3"
  proof -
    consider "r = []" | x where "r = [x]" | x y zs where "r = x # y # zs" by (metis neq_Nil_conv)
    then show ?thesis by cases (use assms in \<open>auto simp: space_end_def byte_at_def Let_def numeral_3_eq_3\<close>)
  qed
  ultimately show ?thesis using assms by (simp add: space_start_def)
qed

lemma trim_start_solid: "s = [] \<or> \<not> space_ascii (hd s) \<and> (of_char (hd s) :: nat) < 0x80 \<Longrightarrow> trim_start s = s"
  by (cases s) (simp_all add: trim_start.simps [of "[]"] trim_start.simps [of "_ # _"] space_start_solid)

lemma str_trim_solid: "solid s \<Longrightarrow> str_trim s = s"
  by (cases "s = []") (simp_all add: str_trim_def trim_end_solid trim_start_solid solid_def list_all_iff)

lemma str_trim_ends:
  assumes "s \<noteq> []" "\<not> space_ascii (hd s)" "(of_char (hd s) :: nat) < 0x80" "\<not> space_ascii (last s)" "(of_char (last s) :: nat) < 0x80"
  shows "str_trim s = s"
  using assms by (simp add: str_trim_def trim_end_solid trim_start_solid)

lemma trim_start_space: "trim_start (CHR '' '' # s) = trim_start s"
  by (subst trim_start.simps) (simp add: space_start_def space_ascii_def)

lemma trim_end_space: "trim_end (s @ '' '') = trim_end s"
  unfolding trim_end_def by (subst trim_rev.simps) (simp add: space_end_def space_ascii_def)

end
