(* ===== verification/Marker_Files.thy ===== *)
theory Marker_Files
  imports Str_Ops Ordered_Map
begin

text \<open>
  Files with conflict markers, \<open>crates/maw-cli/src/workspace/resolve.rs\<close>: a file is parsed into context and conflict
  blocks, and the blocks are replaced by the side that \<open>--keep\<close> names. The error of a command is its message.
\<close>

section \<open>Sides to keep\<close>

datatype keep_spec = KeepAll string | KeepFile path string | KeepBlock string string

fun parse_keep_specs :: "string list \<Rightarrow> string + keep_spec list" where
  "parse_keep_specs [] = Inr []"
| "parse_keep_specs (s # rest) =
     res_bind
       (case split_once ''='' s of
          Some (l, r) \<Rightarrow>
            (let left = str_trim l; right = str_trim r
             in if right = [] then Inl (''Invalid --keep '' @ [CHR 0x27] @ s @ [CHR 0x27] @ '': empty side name after '' @ [CHR 0x27] @ ''='' @ [CHR 0x27])
                else if prefix ''cf-'' left then Inr (KeepBlock left right)
                else Inr (KeepFile (path_from left) right))
        | None \<Rightarrow> Inr (KeepAll s))
       (\<lambda>k. res_bind (parse_keep_specs rest) (\<lambda>ks. Inr (k # ks)))"

section \<open>Labels\<close>

definition extract_name_from_marker :: "string \<Rightarrow> string" where
  "extract_name_from_marker line =
     (let trimmed = str_trim (trim_start_char CHR ''|'' (trim_start_char CHR ''>'' (trim_start_char CHR ''<'' line)))
      in case str_find ''('' trimmed of None \<Rightarrow> trimmed | Some i \<Rightarrow> str_trim (take i trimmed))"

definition name_matches :: "string \<Rightarrow> string \<Rightarrow> bool" where
  "name_matches keep_name label \<longleftrightarrow>
     keep_name = label \<or> list_ex (\<lambda>part. str_trim part = keep_name) (split_on CHR '','' label)"

fun side_names_from :: "string option \<Rightarrow> string option \<Rightarrow> string list \<Rightarrow> string option \<times> string option" where
  "side_names_from l r [] = (l, r)"
| "side_names_from l r (line # rest) =
     (let l' = (if prefix ''<<<<<<<'' line \<and> l = None then Some (extract_name_from_marker line) else l);
          r' = (if prefix ''>>>>>>>'' line \<and> r = None then Some (extract_name_from_marker line) else r)
      in if l' \<noteq> None \<and> r' \<noteq> None then (l', r') else side_names_from l' r' rest)"

definition extract_side_names :: "string \<Rightarrow> (string \<times> string) option" where
  "extract_side_names content =
     (case side_names_from None None (str_lines content) of (Some l, Some r) \<Rightarrow> Some (l, r) | _ \<Rightarrow> None)"

section \<open>Parsing\<close>

record conflict_block =
  cb_left_name :: string
  cb_left_content :: string
  cb_base_content :: string
  cb_right_name :: string
  cb_right_content :: string

datatype file_chunk = Context string | Conflict conflict_block

text \<open>The three buffers of a block with the two flags of the section the parser is in.\<close>

record block_state =
  bl_in_right :: bool
  bl_in_base :: bool
  bl_right :: string
  bl_base :: string
  bl_left :: string

definition append_line :: "string \<Rightarrow> string \<Rightarrow> string" where
  "append_line target line = (if target = [] then line else target @ [newline] @ line)"

definition push_content_line :: "string \<Rightarrow> block_state \<Rightarrow> block_state" where
  "push_content_line line st =
     (if bl_in_right st then st\<lparr>bl_right := append_line (bl_right st) line\<rparr>
      else if bl_in_base st then st\<lparr>bl_base := append_line (bl_base st) line\<rparr>
      else st\<lparr>bl_left := append_line (bl_left st) line\<rparr>)"

text \<open>The lines of one block: the buffers, the name on the closing marker, and the lines after it.\<close>

fun block_lines :: "nat \<Rightarrow> block_state \<Rightarrow> string list \<Rightarrow> block_state \<times> string \<times> string list" where
  "block_lines depth st [] = (st, [], [])"
| "block_lines depth st (line # rest) =
     (if prefix ''<<<<<<<'' line then block_lines (Suc depth) (push_content_line line st) rest
      else if prefix ''>>>>>>>'' line then
        (if depth = 0 then (st, extract_name_from_marker line, rest)
         else block_lines (depth - 1) (push_content_line line st) rest)
      else if depth = 0 \<and> prefix ''|||||||'' line then block_lines depth (st\<lparr>bl_in_base := True\<rparr>) rest
      else if depth = 0 \<and> prefix ''======='' line then
        block_lines depth (st\<lparr>bl_in_base := False, bl_in_right := True\<rparr>) rest
      else block_lines depth (push_content_line line st) rest)"

lemma block_lines_shorter: "length (snd (snd (block_lines depth st ls))) \<le> length ls"
  by (induction depth st ls rule: block_lines.induct) auto

lemma block_lines_rest:
  "(st', name, rest) = block_lines depth st ls \<Longrightarrow> length rest \<le> length ls"
  using block_lines_shorter [of depth st ls] by (metis snd_conv)

definition block_start :: block_state where
  "block_start = \<lparr>bl_in_right = False, bl_in_base = False, bl_right = [], bl_base = [], bl_left = []\<rparr>"

definition parsed_block :: "string \<Rightarrow> block_state \<Rightarrow> string \<Rightarrow> conflict_block" where
  "parsed_block left_name st right_name = \<lparr>cb_left_name = left_name, cb_left_content = bl_left st,
     cb_base_content = bl_base st, cb_right_name = right_name, cb_right_content = bl_right st\<rparr>"

definition flush_context :: "string \<Rightarrow> file_chunk list" where
  "flush_context text = (if text = [] then [] else [Context text])"

function parse_lines :: "string \<Rightarrow> string list \<Rightarrow> file_chunk list" where
  "parse_lines text [] = flush_context text"
| "parse_lines text (line # rest) =
     (if prefix ''<<<<<<<'' line then
        (case block_lines 0 block_start rest of
           (st, right_name, rest') \<Rightarrow>
             flush_context text @ Conflict (parsed_block (extract_name_from_marker line) st right_name) # parse_lines [] rest')
      else parse_lines (append_line text line) rest)"
  by pat_completeness auto
termination
  by (relation "measure (\<lambda>(_, ls). length ls)") (auto dest!: block_lines_rest)

definition parse_file_conflicts :: "string \<Rightarrow> file_chunk list" where
  "parse_file_conflicts content = parse_lines [] (str_lines content)"

section \<open>Resolving\<close>

definition block_id :: "nat \<Rightarrow> string" where
  "block_id i = ''cf-'' @ show_nat i"

definition quoted :: "string \<Rightarrow> string" where
  "quoted s = CHR 0x27 # s @ [CHR 0x27]"

definition side_not_found :: "string \<Rightarrow> string \<Rightarrow> conflict_block \<Rightarrow> string" where
  "side_not_found side i b =
     ''Side '' @ quoted side @ '' not found in conflict block '' @ i @ ''.'' @ newline # ''  Available sides: ''
     @ quoted (cb_left_name b) @ '', '' @ quoted (cb_right_name b) @ '', '' @ quoted ''both'' @ newline
     # ''  To fix: use one of the side names shown above.''"

definition chosen_side :: "string \<Rightarrow> string \<Rightarrow> conflict_block \<Rightarrow> string + string" where
  "chosen_side side i b =
     (if side = ''both'' then Inr (cb_left_content b @ [newline] @ cb_right_content b @ [newline])
      else if name_matches side (cb_left_name b) then Inr (cb_left_content b)
      else if name_matches side (cb_right_name b) then Inr (cb_right_content b)
      else Inl (side_not_found side i b))"

definition emit_markers :: "conflict_block \<Rightarrow> string" where
  "emit_markers b =
     ''<<<<<<< '' @ cb_left_name b @ [newline] @ cb_left_content b @ [newline]
     @ (if cb_base_content b \<noteq> [] then ''||||||| base'' @ [newline] @ cb_base_content b @ [newline] else [])
     @ ''======='' @ [newline] @ cb_right_content b @ [newline]
     @ ''>>>>>>> '' @ cb_right_name b @ [newline]"

text \<open>The loop: the index of the next block, whether a block was resolved, and the text so far.\<close>

fun resolve_loop ::
  "file_chunk list \<Rightarrow> string option \<Rightarrow> (string, string) btree \<Rightarrow> nat \<Rightarrow> bool \<Rightarrow> string \<Rightarrow> string + bool \<times> string" where
  "resolve_loop [] file_side block_sides idx any out = Inr (any, out)"
| "resolve_loop (Context text # rest) file_side block_sides idx any out =
     resolve_loop rest file_side block_sides idx any (out @ text @ (if rest \<noteq> [] then [newline] else []))"
| "resolve_loop (Conflict b # rest) file_side block_sides idx any out =
     (case (case bm_get block_sides (block_id idx) of Some s \<Rightarrow> Some s | None \<Rightarrow> file_side) of
        Some side \<Rightarrow>
          res_bind (chosen_side side (block_id idx) b)
            (\<lambda>text. resolve_loop rest file_side block_sides (Suc idx) True (out @ text @ [newline]))
      | None \<Rightarrow> resolve_loop rest file_side block_sides (Suc idx) any (out @ emit_markers b))"

definition resolve_chunks :: "file_chunk list \<Rightarrow> string option \<Rightarrow> (string, string) btree \<Rightarrow> string + string" where
  "resolve_chunks chunks file_side block_sides =
     res_bind (resolve_loop chunks file_side block_sides 0 False [])
       (\<lambda>(any, out). if \<not> any then Inl ''No conflict blocks were resolved. Check --keep side names.''
          else Inr (if out \<noteq> [] \<and> last out = newline then out else out @ [newline]))"

section \<open>Listing\<close>

record block_info =
  bi_id :: string
  bi_left_name :: string
  bi_right_name :: string
  bi_preview :: string
  bi_left_preview :: string
  bi_right_preview :: string

fun block_infos :: "nat \<Rightarrow> file_chunk list \<Rightarrow> block_info list" where
  "block_infos idx [] = []"
| "block_infos idx (Context _ # rest) = block_infos idx rest"
| "block_infos idx (Conflict b # rest) =
     \<lparr>bi_id = block_id idx, bi_left_name = cb_left_name b, bi_right_name = cb_right_name b,
      bi_preview = cb_left_name b @ '' vs '' @ cb_right_name b,
      bi_left_preview = cb_left_content b, bi_right_preview = cb_right_content b\<rparr> # block_infos (Suc idx) rest"

definition collect_block_info :: "file_chunk list \<Rightarrow> block_info list" where
  "collect_block_info chunks = block_infos 0 chunks"

text \<open>Slicing a text at a byte that is not the start of a character panics; \<open>None\<close> here.\<close>

definition char_boundary :: "string \<Rightarrow> nat \<Rightarrow> bool" where
  "char_boundary s i \<longleftrightarrow> i = 0 \<or> i = length s \<or> (i < length s \<and> \<not> cont_byte (of_char (s ! i)))"

definition truncate_text :: "string \<Rightarrow> nat \<Rightarrow> string option" where
  "truncate_text s n =
     (if length s \<le> n then Some s
      else if char_boundary s (n - 3) then Some (take (n - 3) s @ ''...'') else None)"

end
