(* ===== verification/Marker_Facts.thy ===== *)
theory Marker_Facts
  imports Marker_Files
begin

text \<open>
  What resolving a file with conflict markers makes of its lines: which lines of the context and of the chosen side
  survive, and which blank lines do not.
\<close>

section \<open>Files with blocks\<close>

record marked_block =
  mb_open :: string
  mb_left :: "string list"
  mb_base :: "string list option"
  mb_right :: "string list"
  mb_close :: string

definition block_source :: "marked_block \<Rightarrow> string list" where
  "block_source b = (''<<<<<<<'' @ mb_open b) # mb_left b
     @ (case mb_base b of None \<Rightarrow> [] | Some ls \<Rightarrow> ''||||||| base'' # ls)
     @ ''======='' # mb_right b @ [''>>>>>>>'' @ mb_close b]"

type_synonym marked_file = "string list \<times> (marked_block \<times> string list) list"

definition marked_lines :: "marked_file \<Rightarrow> string list" where
  "marked_lines f = fst f @ concat (map (\<lambda>(b, ctx). block_source b @ ctx) (snd f))"

definition plain_line :: "string \<Rightarrow> bool" where
  "plain_line l \<longleftrightarrow> line_ok l \<and> \<not> prefix ''<<<<<<<'' l \<and> \<not> prefix ''|||||||'' l \<and> \<not> prefix ''======='' l
     \<and> \<not> prefix ''>>>>>>>'' l"

definition context_line :: "string \<Rightarrow> bool" where
  "context_line l \<longleftrightarrow> line_ok l \<and> \<not> prefix ''<<<<<<<'' l"

definition block_ok :: "marked_block \<Rightarrow> bool" where
  "block_ok b \<longleftrightarrow> line_ok (''<<<<<<<'' @ mb_open b) \<and> line_ok (''>>>>>>>'' @ mb_close b) \<and> list_all plain_line (mb_left b)
     \<and> list_all plain_line (mb_right b) \<and> (case mb_base b of None \<Rightarrow> True | Some ls \<Rightarrow> list_all plain_line ls)"

definition marked_file_ok :: "marked_file \<Rightarrow> bool" where
  "marked_file_ok f \<longleftrightarrow> list_all context_line (fst f) \<and> list_all (\<lambda>(b, ctx). block_ok b \<and> list_all context_line ctx) (snd f)"

section \<open>The buffers\<close>

definition kept :: "string list \<Rightarrow> string list" where
  "kept ls = dropWhile (\<lambda>l. l = []) ls"

lemma append_line_simps [simp]: "append_line [] l = l" "t \<noteq> [] \<Longrightarrow> append_line t l = t @ [newline] @ l"
  by (simp_all add: append_line_def)

lemma append_lines_more: "t \<noteq> [] \<Longrightarrow> foldl append_line t ls = join_with [newline] (t # ls)"
proof (induction ls arbitrary: t)
  case (Cons l ls)
  have "foldl append_line t (l # ls) = join_with [newline] ((t @ [newline] @ l) # ls)"
    using Cons.prems Cons.IH [of "t @ [newline] @ l"] by simp
  also have "\<dots> = join_with [newline] (t # l # ls)" by (cases ls) auto
  finally show ?case .
qed simp

lemma append_lines: "foldl append_line [] ls = join_with [newline] (kept ls)"
  by (induction ls) (auto simp: kept_def append_lines_more)

lemma kept_hd: "kept ls = l # ls' \<Longrightarrow> l \<noteq> []"
  unfolding kept_def by (metis (mono_tags, lifting) dropWhile_eq_Cons_conv)

lemma join_kept_Nil: "join_with [newline] (kept ls) = [] \<longleftrightarrow> kept ls = []"
proof (cases "kept ls")
  case (Cons l ls')
  then show ?thesis using kept_hd [OF Cons] by (cases ls') auto
qed simp

lemma join_unlines: "ls \<noteq> [] \<Longrightarrow> join_with [newline] ls @ [newline] = unlines ls"
  by (induction "[newline]" ls rule: join_with.induct) (simp_all add: unlines_def)

section \<open>Parsing a block\<close>

lemma plain_lines:
  assumes "list_all plain_line ls"
  shows "block_lines 0 st (ls @ rest) = block_lines 0 (foldl (\<lambda>st l. push_content_line l st) st ls) rest"
  using assms by (induction ls arbitrary: st) (auto simp: plain_line_def)

lemma push_left:
  "foldl (\<lambda>st l. push_content_line l st) \<lparr>bl_in_right = False, bl_in_base = False, bl_right = r, bl_base = b, bl_left = l\<rparr> ls
   = \<lparr>bl_in_right = False, bl_in_base = False, bl_right = r, bl_base = b, bl_left = foldl append_line l ls\<rparr>"
  by (induction ls arbitrary: l) (simp_all add: push_content_line_def)

lemma push_base:
  "foldl (\<lambda>st l. push_content_line l st) \<lparr>bl_in_right = False, bl_in_base = True, bl_right = r, bl_base = b, bl_left = l\<rparr> ls
   = \<lparr>bl_in_right = False, bl_in_base = True, bl_right = r, bl_base = foldl append_line b ls, bl_left = l\<rparr>"
  by (induction ls arbitrary: b) (simp_all add: push_content_line_def)

lemma push_right:
  "foldl (\<lambda>st l. push_content_line l st) \<lparr>bl_in_right = True, bl_in_base = i, bl_right = r, bl_base = b, bl_left = l\<rparr> ls
   = \<lparr>bl_in_right = True, bl_in_base = i, bl_right = foldl append_line r ls, bl_base = b, bl_left = l\<rparr>"
  by (induction ls arbitrary: r) (simp_all add: push_content_line_def)

definition block_of :: "marked_block \<Rightarrow> conflict_block" where
  "block_of b = \<lparr>cb_left_name = extract_name_from_marker (''<<<<<<<'' @ mb_open b),
     cb_left_content = join_with [newline] (kept (mb_left b)),
     cb_base_content = (case mb_base b of None \<Rightarrow> [] | Some ls \<Rightarrow> join_with [newline] (kept ls)),
     cb_right_name = extract_name_from_marker (''>>>>>>>'' @ mb_close b),
     cb_right_content = join_with [newline] (kept (mb_right b))\<rparr>"

lemma parse_block:
  assumes "block_ok b"
  shows "parse_lines t (block_source b @ rest) = flush_context t @ Conflict (block_of b) # parse_lines [] rest"
proof -
  have right: "block_lines 0 \<lparr>bl_in_right = False, bl_in_base = i, bl_right = [], bl_base = bs, bl_left = l\<rparr>
      (''======='' # mb_right b @ (''>>>>>>>'' @ mb_close b) # rest)
      = (\<lparr>bl_in_right = True, bl_in_base = False, bl_right = join_with [newline] (kept (mb_right b)), bl_base = bs, bl_left = l\<rparr>,
         extract_name_from_marker (''>>>>>>>'' @ mb_close b), rest)" for i bs l
    using assms by (simp add: block_ok_def plain_lines push_right append_lines)
  have "parse_lines t (block_source b @ rest) =
    (case block_lines 0 block_start (mb_left b @ (case mb_base b of None \<Rightarrow> [] | Some ls \<Rightarrow> ''||||||| base'' # ls)
        @ ''======='' # mb_right b @ (''>>>>>>>'' @ mb_close b) # rest) of
           (st, right_name, rest') \<Rightarrow>
             flush_context t @ Conflict (parsed_block (extract_name_from_marker (''<<<<<<<'' @ mb_open b)) st right_name)
               # parse_lines [] rest')"
    by (simp add: block_source_def)
  also have "\<dots> = flush_context t @ Conflict (block_of b) # parse_lines [] rest"
  proof (cases "mb_base b")
    case None
    then show ?thesis using assms right
      by (simp add: block_ok_def plain_lines block_start_def push_left append_lines parsed_block_def block_of_def)
  next
    case (Some ls)
    then show ?thesis using assms right
      by (simp add: block_ok_def plain_lines block_start_def push_left push_base append_lines parsed_block_def block_of_def)
  qed
  finally show ?thesis .
qed

lemma parse_context:
  "list_all context_line ls \<Longrightarrow> parse_lines t (ls @ rest) = parse_lines (foldl append_line t ls) rest"
  by (induction ls arbitrary: t) (auto simp: context_line_def)

definition chunks_of :: "marked_file \<Rightarrow> file_chunk list" where
  "chunks_of f = flush_context (join_with [newline] (kept (fst f)))
     @ concat (map (\<lambda>(b, ctx). Conflict (block_of b) # flush_context (join_with [newline] (kept ctx))) (snd f))"

lemma parse_marked_lines: "marked_file_ok f \<Longrightarrow> parse_lines [] (marked_lines f) = chunks_of f"
proof -
  have blocks: "list_all (\<lambda>(b, ctx). block_ok b \<and> list_all context_line ctx) bs \<Longrightarrow>
     parse_lines t (concat (map (\<lambda>(b, ctx). block_source b @ ctx) bs)) =
     flush_context t @ concat (map (\<lambda>(b, ctx). Conflict (block_of b) # flush_context (join_with [newline] (kept ctx))) bs)" for bs t
  proof (induction bs arbitrary: t)
    case (Cons x bs)
    obtain b ctx where x: "x = (b, ctx)" by (cases x)
    then show ?case using Cons by (simp add: parse_block parse_context append_lines)
  qed simp
  assume "marked_file_ok f"
  then show ?thesis
    by (simp add: marked_file_ok_def marked_lines_def parse_context append_lines blocks chunks_of_def)
qed

lemma marked_line_ok: "marked_file_ok f \<Longrightarrow> list_all line_ok (marked_lines f)"
proof -
  have plain: "list_all plain_line ls \<Longrightarrow> list_all line_ok ls" for ls by (simp add: list_all_iff plain_line_def)
  have ctx: "list_all context_line ls \<Longrightarrow> list_all line_ok ls" for ls by (simp add: list_all_iff context_line_def)
  have block: "block_ok b \<Longrightarrow> list_all line_ok (block_source b)" for b
    by (auto simp: block_ok_def block_source_def plain line_ok_def split: option.splits)
  have blocks: "list_all (\<lambda>(b, ctx). block_ok b \<and> list_all context_line ctx) bs \<Longrightarrow>
     list_all line_ok (concat (map (\<lambda>(b, ctx). block_source b @ ctx) bs))" for bs
    by (induction bs) (auto simp: block ctx)
  assume "marked_file_ok f"
  then show ?thesis by (simp add: marked_file_ok_def marked_lines_def ctx blocks)
qed

lemma parse_marked_file: "marked_file_ok f \<Longrightarrow> parse_file_conflicts (unlines (marked_lines f)) = chunks_of f"
  by (simp add: parse_file_conflicts_def str_lines_unlines marked_line_ok parse_marked_lines)

section \<open>Resolving to one side\<close>

definition lines_or_blank :: "string list \<Rightarrow> string list" where
  "lines_or_blank ls = (if kept ls = [] then [[]] else kept ls)"

definition side_of :: "string \<Rightarrow> marked_block \<Rightarrow> string list option" where
  "side_of side b =
     (if side = ''both'' then Some (lines_or_blank (mb_left b) @ lines_or_blank (mb_right b) @ [[]])
      else if name_matches side (extract_name_from_marker (''<<<<<<<'' @ mb_open b)) then Some (lines_or_blank (mb_left b))
      else if name_matches side (extract_name_from_marker (''>>>>>>>'' @ mb_close b)) then Some (lines_or_blank (mb_right b))
      else None)"

definition last_context :: "string list \<Rightarrow> string list" where
  "last_context ls = (if kept ls \<noteq> [] \<and> last (kept ls) = [] then butlast (kept ls) else kept ls)"

fun resolved_blocks :: "string \<Rightarrow> (marked_block \<times> string list) list \<Rightarrow> string list" where
  "resolved_blocks side [] = []"
| "resolved_blocks side [(b, ctx)] = the (side_of side b) @ last_context ctx"
| "resolved_blocks side ((b, ctx) # x # bs) = the (side_of side b) @ kept ctx @ resolved_blocks side (x # bs)"

definition resolved_lines :: "string \<Rightarrow> marked_file \<Rightarrow> string list" where
  "resolved_lines side f = kept (fst f) @ resolved_blocks side (snd f)"

lemma lines_or_blank_text: "join_with [newline] (kept ls) @ [newline] = unlines (lines_or_blank ls)"
  by (simp add: lines_or_blank_def join_unlines unlines_def)

lemma unlines_append [simp]: "unlines (a @ b) = unlines a @ unlines b"
  by (simp add: unlines_def)

lemma chosen_text:
  "chosen_side side i (block_of b) = Inr t \<Longrightarrow> \<exists>ls. side_of side b = Some ls \<and> t @ [newline] = unlines ls"
  by (auto simp: chosen_side_def side_of_def block_of_def lines_or_blank_text [symmetric] split: if_splits)
    (simp add: unlines_def)

lemma chosen_iff: "(\<exists>t. chosen_side side i (block_of b) = Inr t) \<longleftrightarrow> side_of side b \<noteq> None"
  by (simp add: chosen_side_def side_of_def block_of_def)

definition end_line :: "string \<Rightarrow> string" where
  "end_line out = (if out \<noteq> [] \<and> last out = newline then out else out @ [newline])"

lemma join_last_blank:
  "ls \<noteq> [] \<Longrightarrow> last ls = [] \<Longrightarrow> join_with [newline] ls = unlines (butlast ls)"
  by (induction "[newline]" ls rule: join_with.induct) (simp_all add: unlines_def)

lemma join_last:
  "ls \<noteq> [] \<Longrightarrow> last ls \<noteq> [] \<Longrightarrow> join_with [newline] ls \<noteq> [] \<and> last (join_with [newline] ls) = last (last ls)"
  by (induction "[newline]" ls rule: join_with.induct) auto

lemma set_kept: "set (kept ls) \<subseteq> set ls"
  by (auto simp: kept_def dest: set_dropWhileD)

lemma end_line_context:
  assumes "list_all line_ok ctx" "kept ctx \<noteq> []"
  shows "end_line (out @ join_with [newline] (kept ctx)) = out @ unlines (last_context ctx)"
proof (cases "last (kept ctx) = []")
  case True
  have "kept ctx \<noteq> [[]]" using kept_hd [of ctx "[]" "[]"] by auto
  then have "butlast (kept ctx) \<noteq> []"
    using True assms(2) by (cases "kept ctx") (auto split: if_splits)
  moreover have "join_with [newline] (kept ctx) = unlines (butlast (kept ctx))"
    by (rule join_last_blank [OF assms(2) True])
  moreover have "ls \<noteq> [] \<Longrightarrow> unlines ls \<noteq> [] \<and> last (unlines ls) = newline" for ls
    by (induction ls) (auto simp: unlines_def)
  ultimately show ?thesis using True assms(2) by (simp add: end_line_def last_context_def)
next
  case False
  have "line_ok (last (kept ctx))" using assms(1) set_kept [of ctx] last_in_set [OF assms(2)] by (simp add: list_all_iff subset_iff)
  then have "newline \<notin> set (last (kept ctx))" by (simp add: line_ok_def)
  then have "last (last (kept ctx)) \<noteq> newline" using False by (metis last_in_set)
  then have "end_line (out @ join_with [newline] (kept ctx)) = out @ join_with [newline] (kept ctx) @ [newline]"
    using join_last [OF assms(2) False] by (simp add: end_line_def)
  then show ?thesis using False assms(2) by (simp add: last_context_def join_unlines)
qed

lemma block_chunks_ne:
  "bs \<noteq> [] \<Longrightarrow> concat (map (\<lambda>(b, ctx). Conflict (block_of b) # flush_context (join_with [newline] (kept ctx))) bs) \<noteq> []"
  by (cases bs) auto

lemma resolve_blocks:
  assumes "\<forall>(b, ctx) \<in> set bs. side_of side b \<noteq> None \<and> list_all line_ok ctx" "bs \<noteq> []"
  shows "\<exists>out'. resolve_loop (concat (map (\<lambda>(b, ctx). Conflict (block_of b) # flush_context (join_with [newline] (kept ctx))) bs))
      (Some side) bm_empty idx res out = Inr (True, out') \<and> end_line out' = out @ unlines (resolved_blocks side bs)"
  using assms
proof (induction bs arbitrary: idx res out)
  case (Cons x bs)
  obtain b ctx where x: "x = (b, ctx)" by (cases x)
  obtain t where t: "chosen_side side (block_id idx) (block_of b) = Inr t"
    using Cons.prems x chosen_iff [of side "block_id idx" b] by fastforce
  obtain ls where ls: "side_of side b = Some ls" "t @ [newline] = unlines ls" using chosen_text [OF t] by blast
  have ctx: "list_all line_ok ctx" using Cons.prems x by simp
  let ?out = "out @ unlines ls"
  let ?rest = "concat (map (\<lambda>(b, ctx). Conflict (block_of b) # flush_context (join_with [newline] (kept ctx))) bs)"
  have step: "resolve_loop (Conflict (block_of b) # cs) (Some side) bm_empty idx res out
      = resolve_loop cs (Some side) bm_empty (Suc idx) True ?out" for cs
    using t ls(2) by simp
  show ?case
  proof (cases "bs = []")
    case True
    have ends: "end_line ?out = ?out" using ls(2) [symmetric] by (simp add: end_line_def)
    show ?thesis
    proof (cases "kept ctx = []")
      case blank: True
      then show ?thesis using ends ls(1) step [of "[]"] by (simp add: x True flush_context_def last_context_def)
    next
      case False
      then show ?thesis using ls(1) step [of "[Context (join_with [newline] (kept ctx))]"] end_line_context [OF ctx False, of ?out]
        by (simp add: x True flush_context_def join_kept_Nil)
    qed
  next
    case False
    then have rest: "?rest \<noteq> []" by (rule block_chunks_ne)
    obtain y ys where bs: "bs = y # ys" using False by (cases bs) auto
    have skip: "resolve_loop (flush_context (join_with [newline] (kept ctx)) @ ?rest) (Some side) bm_empty (Suc idx) True ?out
       = resolve_loop ?rest (Some side) bm_empty (Suc idx) True (?out @ unlines (kept ctx))"
    proof (cases "kept ctx = []")
      case True
      then show ?thesis by (simp add: flush_context_def unlines_def)
    next
      case False
      then show ?thesis using rest by (simp add: flush_context_def join_kept_Nil join_unlines [symmetric])
    qed
    from Cons.IH [of "Suc idx" True "?out @ unlines (kept ctx)"] Cons.prems(1) False
    obtain out' where "resolve_loop ?rest (Some side) bm_empty (Suc idx) True (?out @ unlines (kept ctx)) = Inr (True, out')"
        "end_line out' = (?out @ unlines (kept ctx)) @ unlines (resolved_blocks side bs)" by auto
    then show ?thesis using step skip ls(1) by (simp add: x bs)
  qed
qed simp

lemma resolve_blocks_error:
  assumes "(b, ctx) \<in> set bs" "side_of side b = None"
  shows "\<exists>i b'. resolve_loop (concat (map (\<lambda>(b, ctx). Conflict (block_of b) # flush_context (join_with [newline] (kept ctx))) bs))
      (Some side) bm_empty idx res out = Inl (side_not_found side (block_id i) (block_of b'))
      \<and> b' \<in> fst ` set bs \<and> side_of side b' = None"
  using assms
proof (induction bs arbitrary: idx res out)
  case (Cons x bs)
  obtain b1 ctx1 where x: "x = (b1, ctx1)" by (cases x)
  let ?rest = "concat (map (\<lambda>(b, ctx). Conflict (block_of b) # flush_context (join_with [newline] (kept ctx))) bs)"
  have skip: "\<exists>out'. resolve_loop (flush_context t @ ?rest) fs sides i r o1 = resolve_loop ?rest fs sides i r out'" for t fs sides i r o1
    by (auto simp: flush_context_def)
  show ?case
  proof (cases "chosen_side side (block_id idx) (block_of b1)")
    case (Inl e)
    then have "e = side_not_found side (block_id idx) (block_of b1)"
      by (auto simp: chosen_side_def split: if_splits)
    moreover have "side_of side b1 = None" using Inl chosen_iff [of side "block_id idx" b1] by auto
    ultimately show ?thesis using Inl by (force simp: x)
  next
    case (Inr t)
    then have "side_of side b1 \<noteq> None" using chosen_iff [of side "block_id idx" b1] by auto
    then have "(b, ctx) \<in> set bs" using Cons.prems x by auto
    note IH = Cons.IH [OF this Cons.prems(2)]
    obtain out' where "resolve_loop (flush_context (join_with [newline] (kept ctx1)) @ ?rest) (Some side) bm_empty (Suc idx) True
        (out @ t @ [newline]) = resolve_loop ?rest (Some side) bm_empty (Suc idx) True out'" using skip by blast
    moreover obtain i b' where "resolve_loop ?rest (Some side) bm_empty (Suc idx) True out'
        = Inl (side_not_found side (block_id i) (block_of b'))" "b' \<in> fst ` set bs" "side_of side b' = None"
      using IH by blast
    ultimately have "resolve_loop (concat (map (\<lambda>(b, ctx). Conflict (block_of b) # flush_context (join_with [newline] (kept ctx))) (x # bs)))
        (Some side) bm_empty idx res out = Inl (side_not_found side (block_id i) (block_of b'))"
        "b' \<in> fst ` set (x # bs)" "side_of side b' = None"
      using Inr by (simp_all add: x)
    then show ?thesis by blast
  qed
qed simp

section \<open>Properties\<close>

text \<open>C21. Resolving a file with conflict blocks to one side keeps, in order, the context and the lines of that side
  of every block (of both sides for \<open>both\<close>), with these losses and additions: blank lines at the start of a
  stretch of context or of a side are dropped, an empty side leaves one blank line, \<open>both\<close> leaves one more, and the
  last blank line of the file is dropped. A side that some block does not have is an error.\<close>

theorem resolve_marked_file:
  assumes "marked_file_ok f" "snd f \<noteq> []"
  shows "if \<forall>(b, _) \<in> set (snd f). side_of side b \<noteq> None
    then resolve_chunks (parse_file_conflicts (unlines (marked_lines f))) (Some side) bm_empty = Inr (unlines (resolved_lines side f))
    else \<exists>i. \<exists>b \<in> fst ` set (snd f). side_of side b = None \<and>
      resolve_chunks (parse_file_conflicts (unlines (marked_lines f))) (Some side) bm_empty
        = Inl (side_not_found side (block_id i) (block_of b))"
proof -
  let ?bs = "concat (map (\<lambda>(b, ctx). Conflict (block_of b) # flush_context (join_with [newline] (kept ctx))) (snd f))"
  have ok: "\<forall>(b, ctx) \<in> set (snd f). list_all line_ok ctx"
    using assms(1) by (auto simp: marked_file_ok_def list_all_iff context_line_def)
  have bs: "?bs \<noteq> []" using assms(2) by (rule block_chunks_ne)
  have front: "resolve_loop (chunks_of f) (Some side) bm_empty 0 False []
      = resolve_loop ?bs (Some side) bm_empty 0 False (unlines (kept (fst f)))"
  proof (cases "kept (fst f) = []")
    case True
    then show ?thesis by (simp add: chunks_of_def flush_context_def unlines_def)
  next
    case False
    then show ?thesis using bs by (simp add: chunks_of_def flush_context_def join_kept_Nil join_unlines [symmetric])
  qed
  show ?thesis
  proof (cases "\<forall>(b, _) \<in> set (snd f). side_of side b \<noteq> None")
    case True
    then have "\<forall>(b, ctx) \<in> set (snd f). side_of side b \<noteq> None \<and> list_all line_ok ctx" using ok by fastforce
    from resolve_blocks [OF this assms(2)] obtain out' where
      "resolve_loop ?bs (Some side) bm_empty 0 False (unlines (kept (fst f))) = Inr (True, out')"
      "end_line out' = unlines (kept (fst f)) @ unlines (resolved_blocks side (snd f))" by blast
    then show ?thesis using True front
      by (simp add: resolve_chunks_def parse_marked_file [OF assms(1)] resolved_lines_def end_line_def [symmetric])
  next
    case False
    then obtain b ctx where "(b, ctx) \<in> set (snd f)" "side_of side b = None" by auto
    from resolve_blocks_error [OF this] obtain i b' where
      "resolve_loop ?bs (Some side) bm_empty 0 False (unlines (kept (fst f))) = Inl (side_not_found side (block_id i) (block_of b'))"
      "b' \<in> fst ` set (snd f)" "side_of side b' = None" by blast
    then show ?thesis using False front
      by (auto simp: resolve_chunks_def parse_marked_file [OF assms(1)])
  qed
qed

section \<open>Witness\<close>

definition sample_block :: marked_block where
  "sample_block = \<lparr>mb_open = '' epoch (current)'', mb_left = [''left''], mb_base = Some [''base''], mb_right = [[], ''right''],
     mb_close = '' alice (workspace changes)''\<rparr>"

definition sample_file :: marked_file where
  "sample_file = ([[], ''top''], [(sample_block, [[], ''end'', []])])"

lemma resolve_marked_file_witness:
  "resolve_chunks (parse_file_conflicts (unlines (marked_lines sample_file))) (Some ''alice'') bm_empty
   = Inr (unlines [''top'', ''right'', ''end''])"
proof -
  have "marked_file_ok sample_file" by code_simp
  moreover have "snd sample_file \<noteq> []" by (simp add: sample_file_def)
  moreover have "side_of ''alice'' sample_block = Some [''right'']" by code_simp
  moreover have "resolved_lines ''alice'' sample_file = [''top'', ''right'', ''end'']" by code_simp
  ultimately show ?thesis using resolve_marked_file [of sample_file "''alice''"] by (simp add: sample_file_def)
qed

end
