(* ===== verification/Conflict_Apply.thy ===== *)
theory Conflict_Apply
  imports Conflict_Model Merge_Types "HOL-Library.Multiset"
begin

text \<open>
  The conflict tree of a rebase, \<open>crates/maw-core/src/merge/types.rs\<close>, and the fold of one workspace's changes
  into it, \<open>crates/maw-core/src/merge/apply.rs\<close>: clean paths have a mode and a blob, conflicted paths a structured
  conflict. What the code logs about unexpected changes is left out.
\<close>

section \<open>The tree\<close>

record materialized_entry =
  mt_mode :: entry_mode
  mt_oid :: git_oid

definition materialized_entry :: "entry_mode \<Rightarrow> git_oid \<Rightarrow> materialized_entry" where
  "materialized_entry m b = \<lparr>mt_mode = m, mt_oid = b\<rparr>"

record conflict_tree =
  ct_clean :: "(path, materialized_entry) btree"
  ct_conflicts :: "(path, conflict) btree"
  ct_base_epoch :: epoch_id

definition conflict_tree_new :: "epoch_id \<Rightarrow> conflict_tree" where
  "conflict_tree_new e = \<lparr>ct_clean = bm_empty, ct_conflicts = bm_empty, ct_base_epoch = e\<rparr>"

definition ct_is_empty :: "conflict_tree \<Rightarrow> bool" where
  "ct_is_empty t \<longleftrightarrow> bm_is_empty (ct_clean t) \<and> bm_is_empty (ct_conflicts t)"

definition has_conflicts :: "conflict_tree \<Rightarrow> bool" where
  "has_conflicts t \<longleftrightarrow> \<not> bm_is_empty (ct_conflicts t)"

definition side_mode :: "entry_mode \<Rightarrow> conflict_side_mode option" where
  "side_mode m = (case m of MBlob \<Rightarrow> Some SBlob | MBlobExecutable \<Rightarrow> Some SBlobExecutable | MLink \<Rightarrow> Some SLink
     | MTree \<Rightarrow> None | MCommit \<Rightarrow> None)"

section \<open>Errors\<close>

datatype apply_error =
    EpochMismatch epoch_id epoch_id
  | MissingBlob path change_kind
  | UnexpectedAddOnConflict path string
  | UnexpectedModifyOnAddAdd path
  | UnhandledConflictShape path string

fun apply_error_str :: "apply_error \<Rightarrow> string" where
  "apply_error_str (EpochMismatch tree_base patch_epoch) =
     ''patch epoch '' @ epoch_str patch_epoch @ '' does not match tree base epoch '' @ epoch_str tree_base"
| "apply_error_str (MissingBlob p kind) =
     ''file change at '' @ path_str p @ '' (kind='' @ change_kind_str kind @ '') is missing its blob OID''"
| "apply_error_str (UnexpectedAddOnConflict p shape) =
     ''unexpected Added on conflicted path '' @ path_str p @ '' (existing shape: '' @ shape @ '')''"
| "apply_error_str (UnexpectedModifyOnAddAdd p) =
     ''unexpected Modified on path '' @ path_str p @ '' which is in an AddAdd conflict (no base to modify)''"
| "apply_error_str (UnhandledConflictShape p shape) =
     ''conflict shape '' @ shape @ '' at '' @ path_str p @ '' is not yet handled by apply_unilateral_patchset''"

section \<open>Clean paths\<close>

definition infer_mode_for_new_file :: "file_change \<Rightarrow> entry_mode" where
  "infer_mode_for_new_file c = (case fc_mode c of None \<Rightarrow> MBlob | Some m \<Rightarrow> m)"

definition blob_of :: "file_change \<Rightarrow> apply_error + git_oid" where
  "blob_of c = (case fc_blob c of None \<Rightarrow> Inl (MissingBlob (fc_path c) (fc_kind c)) | Some b \<Rightarrow> Inr b)"

definition set_clean :: "path \<Rightarrow> entry_mode \<Rightarrow> git_oid \<Rightarrow> conflict_tree \<Rightarrow> conflict_tree" where
  "set_clean p m b t = t\<lparr>ct_clean := bm_insert p (materialized_entry m b) (ct_clean t)\<rparr>"

definition set_conflict :: "path \<Rightarrow> conflict \<Rightarrow> conflict_tree \<Rightarrow> conflict_tree" where
  "set_conflict p c t = t\<lparr>ct_conflicts := bm_insert p c (ct_conflicts t)\<rparr>"

definition apply_added :: "conflict_tree \<Rightarrow> file_change \<Rightarrow> apply_error + conflict_tree" where
  "apply_added t c = res_bind (blob_of c) (\<lambda>b. Inr (set_clean (fc_path c) (infer_mode_for_new_file c) b t))"

definition apply_modified :: "conflict_tree \<Rightarrow> file_change \<Rightarrow> apply_error + conflict_tree" where
  "apply_modified t c =
     res_bind (blob_of c) (\<lambda>b. Inr
       (case bm_get (ct_clean t) (fc_path c) of
          Some entry \<Rightarrow> set_clean (fc_path c) (case fc_mode c of Some m \<Rightarrow> m | None \<Rightarrow> mt_mode entry) b t
        | None \<Rightarrow> set_clean (fc_path c) (infer_mode_for_new_file c) b t))"

definition apply_deleted :: "conflict_tree \<Rightarrow> file_change \<Rightarrow> conflict_tree" where
  "apply_deleted t c = t\<lparr>ct_clean := bm_remove (fc_path c) (ct_clean t)\<rparr>"

definition apply_clean :: "conflict_tree \<Rightarrow> file_change \<Rightarrow> apply_error + conflict_tree" where
  "apply_clean t c = (case fc_kind c of
     Added \<Rightarrow> apply_added t c | Modified \<Rightarrow> apply_modified t c | Deleted \<Rightarrow> Inr (apply_deleted t c))"

section \<open>Conflicted paths\<close>

definition sides_converged :: "conflict_side list \<Rightarrow> bool" where
  "sides_converged sides = (case sides of [] \<Rightarrow> False
     | s # _ \<Rightarrow> list_all (\<lambda>x. cs_content x = cs_content s) sides)"

definition replace_contents :: "git_oid \<Rightarrow> conflict_side list \<Rightarrow> conflict_side list" where
  "replace_contents b sides = map (\<lambda>s. s\<lparr>cs_content := b\<rparr>) sides"

definition handle_content ::
  "conflict_tree \<Rightarrow> path \<Rightarrow> file_id \<Rightarrow> git_oid option \<Rightarrow> conflict_side list \<Rightarrow> conflict_atom list \<Rightarrow> file_change \<Rightarrow>
   apply_error + conflict_tree" where
  "handle_content t p fid base sides atoms c =
     (if fc_kind c = Deleted then Inr t
      else res_bind (blob_of c) (\<lambda>b.
        (let sides' = replace_contents b sides
         in if sides_converged sides' then Inr (set_clean p MBlob b t)
            else Inr (set_conflict p (CContent p fid base sides' atoms) t))))"

definition handle_add_add ::
  "conflict_tree \<Rightarrow> path \<Rightarrow> conflict_side list \<Rightarrow> file_change \<Rightarrow> apply_error + conflict_tree" where
  "handle_add_add t p sides c =
     (case fc_kind c of
        Added \<Rightarrow> res_bind (blob_of c) (\<lambda>b.
          (let sides' = replace_contents b sides
           in if sides_converged sides' then Inr (set_clean p MBlob b t)
              else Inr (set_conflict p (CAddAdd p sides') t)))
      | Modified \<Rightarrow> Inl (UnexpectedModifyOnAddAdd p)
      | Deleted \<Rightarrow> Inr t)"

definition handle_modify_delete ::
  "conflict_tree \<Rightarrow> path \<Rightarrow> file_id \<Rightarrow> conflict_side \<Rightarrow> conflict_side \<Rightarrow> path option \<Rightarrow> path option \<Rightarrow> file_change \<Rightarrow>
   apply_error + conflict_tree" where
  "handle_modify_delete t p fid modifier deleter rename_hint df_hint c =
     (if fc_kind c = Deleted then Inr t
      else res_bind (blob_of c) (\<lambda>b.
        Inr (set_conflict p (CModifyDelete p fid (modifier\<lparr>cs_content := b\<rparr>) deleter b rename_hint df_hint) t)))"

definition apply_one_to_conflict :: "conflict_tree \<Rightarrow> file_change \<Rightarrow> apply_error + conflict_tree" where
  "apply_one_to_conflict t c =
     (case bm_get (ct_conflicts t) (fc_path c) of
        None \<Rightarrow> apply_clean t c
      | Some existing \<Rightarrow>
          (let t' = t\<lparr>ct_conflicts := bm_remove (fc_path c) (ct_conflicts t)\<rparr>
           in case existing of
                CContent p fid base sides atoms \<Rightarrow> handle_content t' p fid base sides atoms c
              | CAddAdd p sides \<Rightarrow> handle_add_add t' p sides c
              | CModifyDelete p fid modifier deleter _ rename_hint df_hint \<Rightarrow>
                  handle_modify_delete t' p fid modifier deleter rename_hint df_hint c
              | CDivergentRename _ original _ \<Rightarrow> Inl (UnhandledConflictShape original ''divergent_rename'')))"

definition apply_one :: "conflict_tree \<Rightarrow> file_change \<Rightarrow> apply_error + conflict_tree" where
  "apply_one t c =
     (if bm_contains (ct_conflicts t) (fc_path c) then apply_one_to_conflict t c else apply_clean t c)"

fun apply_changes_to_tree :: "conflict_tree \<Rightarrow> file_change list \<Rightarrow> apply_error + conflict_tree" where
  "apply_changes_to_tree t [] = Inr t"
| "apply_changes_to_tree t (c # cs) = res_bind (apply_one t c) (\<lambda>t'. apply_changes_to_tree t' cs)"

definition apply_unilateral_patchset :: "conflict_tree \<Rightarrow> ws_patch_set \<Rightarrow> apply_error + conflict_tree" where
  "apply_unilateral_patchset t patch =
     (if wp_epoch patch \<noteq> ct_base_epoch t then Inl (EpochMismatch (ct_base_epoch t) (wp_epoch patch))
      else apply_changes_to_tree t (wp_changes patch))"

section \<open>What a change does\<close>

text \<open>Conflicts are recorded under their own path, with at least one side, and no path is both clean and conflicted.\<close>

fun conflict_ok :: "path \<Rightarrow> conflict \<Rightarrow> bool" where
  "conflict_ok p (CContent q _ _ sides _) \<longleftrightarrow> q = p \<and> sides \<noteq> []"
| "conflict_ok p (CAddAdd q sides) \<longleftrightarrow> q = p \<and> sides \<noteq> []"
| "conflict_ok p (CModifyDelete q _ modifier _ content _ _) \<longleftrightarrow> q = p \<and> cs_content modifier = content"
| "conflict_ok p (CDivergentRename _ q _) \<longleftrightarrow> q = p"

definition tree_ok :: "conflict_tree \<Rightarrow> bool" where
  "tree_ok t \<longleftrightarrow> (\<forall>p. bm_get (ct_conflicts t) p = None \<or> bm_get (ct_clean t) p = None)
     \<and> (\<forall>p c. bm_get (ct_conflicts t) p = Some c \<longrightarrow> conflict_ok p c)"

lemma tree_ok_disjoint: "tree_ok t \<Longrightarrow> bm_get (ct_conflicts t) p = None \<or> bm_get (ct_clean t) p = None"
  unfolding tree_ok_def by (erule conjE) (rule spec)

text \<open>The state of one path: absent, clean, or in conflict.\<close>

datatype path_state = Absent | CleanAt entry_mode git_oid | ConflictAt conflict

definition state_at :: "conflict_tree \<Rightarrow> path \<Rightarrow> path_state" where
  "state_at t p = (case bm_get (ct_conflicts t) p of
     Some c \<Rightarrow> ConflictAt c
   | None \<Rightarrow> (case bm_get (ct_clean t) p of None \<Rightarrow> Absent | Some e \<Rightarrow> CleanAt (mt_mode e) (mt_oid e)))"

text \<open>The table of the module: what a change makes of the state of its path.\<close>

definition changed_state :: "file_change \<Rightarrow> path_state \<Rightarrow> apply_error + path_state" where
  "changed_state c st =
     (case (st, fc_kind c) of
        (ConflictAt (CDivergentRename _ _ _), _) \<Rightarrow> Inl (UnhandledConflictShape (fc_path c) ''divergent_rename'')
      | (ConflictAt (CAddAdd _ _), Modified) \<Rightarrow> Inl (UnexpectedModifyOnAddAdd (fc_path c))
      | (_, Deleted) \<Rightarrow> Inr Absent
      | (ConflictAt (CModifyDelete p fid m d _ rh dh), _) \<Rightarrow>
          res_bind (blob_of c) (\<lambda>b. Inr (ConflictAt (CModifyDelete p fid (m\<lparr>cs_content := b\<rparr>) d b rh dh)))
      | (ConflictAt _, _) \<Rightarrow> res_bind (blob_of c) (\<lambda>b. Inr (CleanAt MBlob b))
      | (CleanAt m _, Modified) \<Rightarrow>
          res_bind (blob_of c) (\<lambda>b. Inr (CleanAt (case fc_mode c of Some m' \<Rightarrow> m' | None \<Rightarrow> m) b))
      | (_, _) \<Rightarrow> res_bind (blob_of c) (\<lambda>b. Inr (CleanAt (infer_mode_for_new_file c) b)))"

lemma converged_replaced: "sides \<noteq> [] \<Longrightarrow> sides_converged (replace_contents b sides)"
  by (cases sides) (auto simp: sides_converged_def replace_contents_def list_all_iff)

lemmas apply_defs = apply_one_def apply_one_to_conflict_def apply_clean_def apply_added_def apply_modified_def
  apply_deleted_def handle_content_def handle_add_add_def handle_modify_delete_def set_clean_def set_conflict_def
  materialized_entry_def blob_of_def

lemma apply_one_changes:
  assumes "tree_ok t"
  shows "case changed_state c (state_at t (fc_path c)) of
      Inl e \<Rightarrow> apply_one t c = Inl e
    | Inr st \<Rightarrow> \<exists>t'. apply_one t c = Inr t' \<and> tree_ok t' \<and> ct_base_epoch t' = ct_base_epoch t
        \<and> (\<forall>p. state_at t' p = (if p = fc_path c then st else state_at t p))"
proof (cases "bm_get (ct_conflicts t) (fc_path c)")
  case None
  then show ?thesis using assms
    by (cases "fc_kind c"; cases "fc_blob c"; cases "bm_get (ct_clean t) (fc_path c)"; cases "fc_mode c")
      (auto simp: apply_defs bm_contains_def state_at_def changed_state_def tree_ok_def infer_mode_for_new_file_def
          split: option.split)
next
  case (Some x)
  have ok: "conflict_ok (fc_path c) x" "bm_get (ct_clean t) (fc_path c) = None"
    using assms Some tree_ok_disjoint [OF assms, of "fc_path c"] by (simp_all add: tree_ok_def)
  show ?thesis using assms Some ok converged_replaced
    by (cases x; cases "fc_kind c"; cases "fc_blob c")
      (auto simp: apply_defs bm_contains_def state_at_def changed_state_def tree_ok_def Let_def split: option.split)
qed

section \<open>A whole patch set\<close>

lemma apply_changes_effect:
  assumes "tree_ok t" "distinct (map fc_path cs)"
  shows "case apply_changes_to_tree t cs of
      Inl e \<Rightarrow> \<exists>c \<in> set cs. changed_state c (state_at t (fc_path c)) = Inl e
    | Inr t' \<Rightarrow> tree_ok t' \<and> ct_base_epoch t' = ct_base_epoch t
        \<and> (\<forall>c \<in> set cs. changed_state c (state_at t (fc_path c)) = Inr (state_at t' (fc_path c)))
        \<and> (\<forall>p. p \<notin> fc_path ` set cs \<longrightarrow> state_at t' p = state_at t p)"
  using assms
proof (induction cs arbitrary: t)
  case (Cons c cs)
  note one = apply_one_changes [OF Cons.prems(1), of c]
  have c: "fc_path c \<notin> fc_path ` set cs" "distinct (map fc_path cs)" using Cons.prems(2) by auto
  show ?case
  proof (cases "changed_state c (state_at t (fc_path c))")
    case (Inl e)
    then show ?thesis using one by auto
  next
    case (Inr st)
    then obtain t1 where t1: "apply_one t c = Inr t1" "tree_ok t1" "ct_base_epoch t1 = ct_base_epoch t"
        and at: "\<And>p. state_at t1 p = (if p = fc_path c then st else state_at t p)"
      using one by auto
    have same: "state_at t1 (fc_path x) = state_at t (fc_path x)" if "x \<in> set cs" for x
    proof -
      have "fc_path x \<noteq> fc_path c" using c(1) that by (metis imageI)
      then show ?thesis using at by simp
    qed
    have IH: "case apply_changes_to_tree t1 cs of
        Inl e \<Rightarrow> \<exists>x \<in> set cs. changed_state x (state_at t1 (fc_path x)) = Inl e
      | Inr t' \<Rightarrow> tree_ok t' \<and> ct_base_epoch t' = ct_base_epoch t1
        \<and> (\<forall>x \<in> set cs. changed_state x (state_at t1 (fc_path x)) = Inr (state_at t' (fc_path x)))
        \<and> (\<forall>p. p \<notin> fc_path ` set cs \<longrightarrow> state_at t' p = state_at t1 p)"
      by (rule Cons.IH [OF t1(2) c(2)])
    show ?thesis
    proof (cases "apply_changes_to_tree t1 cs")
      case (Inl e)
      then show ?thesis using IH same t1(1) by auto
    next
      case t': (Inr t')
      have "state_at t' (fc_path c) = st" using IH t' at [of "fc_path c"] c(1) by simp
      moreover have "state_at t' p = state_at t p" if "p \<notin> fc_path ` set (c # cs)" for p
        using IH t' at [of p] that by simp
      ultimately show ?thesis using IH t' same t1 Inr by simp
    qed
  qed
qed simp

lemma tree_eqI:
  assumes "tree_ok t" "tree_ok t'" "ct_base_epoch t = ct_base_epoch t'" "\<And>p. state_at t p = state_at t' p"
  shows "t = t'"
proof -
  have get: "bm_get (ct_conflicts t) p = bm_get (ct_conflicts t') p \<and> bm_get (ct_clean t) p = bm_get (ct_clean t') p" for p
  proof -
    show ?thesis using tree_ok_disjoint [OF assms(1), of p] tree_ok_disjoint [OF assms(2), of p] assms(4) [of p]
      by (auto simp: state_at_def split: option.splits intro: materialized_entry.equality)
  qed
  then have "ct_conflicts t = ct_conflicts t'" "ct_clean t = ct_clean t'" by (auto intro: bm.eqI)
  then show ?thesis using assms(3) by simp
qed

section \<open>Properties\<close>

text \<open>C11. Folding a workspace's patch set into a well-formed conflict tree does to every path what the module's
  table says, or fails: on another epoch, or because the table refuses one of the changes. A path that is
  absent or clean becomes clean with the new blob, keeping its mode unless the change brings one; a deletion
  makes any path absent; a change to a content or add/add conflict always ends the conflict, as a regular
  file, whatever the sides were; a modify/delete conflict keeps its deleter and takes the new blob; paths
  without a change stay, and the tree stays well formed.\<close>

theorem apply_patchset_table:
  assumes "tree_ok t" "distinct (wp_paths patch)"
  shows "case apply_unilateral_patchset t patch of
      Inl e \<Rightarrow> e = EpochMismatch (ct_base_epoch t) (wp_epoch patch) \<and> wp_epoch patch \<noteq> ct_base_epoch t
        \<or> (\<exists>c \<in> set (wp_changes patch). changed_state c (state_at t (fc_path c)) = Inl e)
    | Inr t' \<Rightarrow> wp_epoch patch = ct_base_epoch t \<and> tree_ok t' \<and> ct_base_epoch t' = ct_base_epoch t
        \<and> (\<forall>c \<in> set (wp_changes patch). changed_state c (state_at t (fc_path c)) = Inr (state_at t' (fc_path c)))
        \<and> (\<forall>p. p \<notin> set (wp_paths patch) \<longrightarrow> state_at t' p = state_at t p)"
proof (cases "wp_epoch patch = ct_base_epoch t")
  case True
  then show ?thesis
    using apply_changes_effect [OF assms(1), of "wp_changes patch"] assms(2)
    by (simp add: apply_unilateral_patchset_def wp_paths_def split: sum.splits)
qed (simp add: apply_unilateral_patchset_def)

text \<open>C35. The order in which a patch set lists its changes does not matter: two patch sets of one epoch with the
  same changes, one per path, lead from a well-formed tree to the same tree, or both fail.\<close>

theorem apply_order_irrelevant:
  assumes "tree_ok t" "distinct (wp_paths a)" "mset (wp_changes a) = mset (wp_changes b)" "wp_epoch a = wp_epoch b"
  shows "case apply_unilateral_patchset t a of
      Inr t' \<Rightarrow> apply_unilateral_patchset t b = Inr t'
    | Inl e \<Rightarrow> isl (apply_unilateral_patchset t b)"
proof (cases "wp_epoch a = ct_base_epoch t")
  case True
  have sets: "set (wp_changes b) = set (wp_changes a)" using assms(3) by (metis set_mset_mset)
  have "mset (map fc_path (wp_changes a)) = mset (map fc_path (wp_changes b))" using assms(3) by simp
  then have dist: "distinct (map fc_path (wp_changes a))" "distinct (map fc_path (wp_changes b))"
    using assms(2) mset_eq_imp_distinct_iff unfolding wp_paths_def by blast+
  note a = apply_changes_effect [OF assms(1) dist(1)] and b = apply_changes_effect [OF assms(1) dist(2)]
  have run: "apply_unilateral_patchset t a = apply_changes_to_tree t (wp_changes a)"
    "apply_unilateral_patchset t b = apply_changes_to_tree t (wp_changes b)"
    using True assms(4) by (simp_all add: apply_unilateral_patchset_def)
  show ?thesis
  proof (cases "apply_changes_to_tree t (wp_changes a)")
    case (Inl e)
    then obtain c where "c \<in> set (wp_changes b)" "changed_state c (state_at t (fc_path c)) = Inl e"
      using a sets by auto
    then have "isl (apply_changes_to_tree t (wp_changes b))"
      using b by (cases "apply_changes_to_tree t (wp_changes b)") auto
    then show ?thesis using Inl run by simp
  next
    case (Inr t1)
    obtain t2 where t2: "apply_changes_to_tree t (wp_changes b) = Inr t2"
      using a b Inr sets by (cases "apply_changes_to_tree t (wp_changes b)") auto
    have "state_at t1 p = state_at t2 p" for p
    proof (cases "p \<in> fc_path ` set (wp_changes a)")
      case True
      then obtain c where c: "c \<in> set (wp_changes a)" "p = fc_path c" by blast
      have "changed_state c (state_at t (fc_path c)) = Inr (state_at t1 (fc_path c))"
        "changed_state c (state_at t (fc_path c)) = Inr (state_at t2 (fc_path c))"
        using a b Inr t2 c(1) sets by simp_all
      then show ?thesis using c(2) by simp
    next
      case False
      then have "state_at t1 p = state_at t p" "state_at t2 p = state_at t p"
        using a b Inr t2 sets by simp_all
      then show ?thesis by simp
    qed
    then have "t1 = t2" using a b Inr t2 tree_eqI [of t1 t2] by simp
    then show ?thesis using Inr t2 run by simp
  qed
next
  case False
  then show ?thesis using assms(4) by (simp add: apply_unilateral_patchset_def)
qed

section \<open>Witnesses\<close>

definition sample_side :: "string \<Rightarrow> char \<Rightarrow> conflict_side" where
  "sample_side w c = conflict_side_new w (sample_oid c)
     \<lparr>ok_epoch_id = sample_epoch CHR ''a'', ok_workspace_id = sample_ws ''alice'', ok_seq = 1, ok_wall_clock_ms = 7\<rparr>"

text \<open>A tree with one clean file and two conflicts, and changes of all three and a new one.\<close>

definition sample_tree :: conflict_tree where
  "sample_tree = \<lparr>ct_clean = bm_of_list [([''a''], materialized_entry MBlobExecutable (sample_oid CHR ''1''))],
     ct_conflicts = bm_of_list
       [([''b''], CContent [''b''] (FileId 7) (Some (sample_oid CHR ''2'')) [sample_side ''epoch'' CHR ''3'', sample_side ''alice'' CHR ''4''] []),
        ([''c''], CAddAdd [''c''] [sample_side ''epoch'' CHR ''5'', sample_side ''alice'' CHR ''6''])],
     ct_base_epoch = sample_epoch CHR ''a''\<rparr>"

definition sample_change :: "path \<Rightarrow> file_change" where
  "sample_change p = \<lparr>fc_path = p, fc_kind = (if p = [''c''] then Deleted else Modified), fc_content = None,
     fc_file_id = None, fc_blob = Some (sample_oid CHR ''9''), fc_mode = (if p = [''a''] then None else Some MBlobExecutable)\<rparr>"

definition sample_patch :: "path list \<Rightarrow> ws_patch_set" where
  "sample_patch ps = \<lparr>wp_workspace_id = sample_ws ''alice'', wp_epoch = sample_epoch CHR ''a'',
     wp_changes = map sample_change ps\<rparr>"

lemma sample_tree_ok: "tree_ok sample_tree"
  by (auto simp: tree_ok_def sample_tree_def bm_of_list_def split: if_splits)

theorem apply_patchset_table_witness:
  "\<exists>t'. apply_unilateral_patchset sample_tree (sample_patch [[''a''], [''b''], [''c''], [''d'']]) = Inr t'
    \<and> state_at t' [''a''] = CleanAt MBlobExecutable (sample_oid CHR ''9'')
    \<and> state_at t' [''b''] = CleanAt MBlob (sample_oid CHR ''9'') \<and> state_at t' [''c''] = Absent
    \<and> state_at t' [''d''] = CleanAt MBlobExecutable (sample_oid CHR ''9'')"
proof -
  let ?patch = "sample_patch [[''a''], [''b''], [''c''], [''d'']]"
  have "\<not> isl (apply_unilateral_patchset sample_tree ?patch)" by code_simp
  then obtain t' where run: "apply_unilateral_patchset sample_tree ?patch = Inr t'"
    by (cases "apply_unilateral_patchset sample_tree ?patch") auto
  have "distinct (wp_paths ?patch)" by code_simp
  from apply_patchset_table [OF sample_tree_ok this] run
  have table: "\<forall>c \<in> set (wp_changes ?patch). changed_state c (state_at sample_tree (fc_path c)) = Inr (state_at t' (fc_path c))"
    by simp
  then have each: "changed_state (sample_change p) (state_at sample_tree p) = Inr (state_at t' p)"
    if "p \<in> set [[''a''], [''b''], [''c''], [''d'']]" for p
    using that by (force simp: sample_patch_def sample_change_def)
  have "changed_state (sample_change [''a'']) (state_at sample_tree [''a'']) = Inr (CleanAt MBlobExecutable (sample_oid CHR ''9''))"
    "changed_state (sample_change [''b'']) (state_at sample_tree [''b'']) = Inr (CleanAt MBlob (sample_oid CHR ''9''))"
    "changed_state (sample_change [''c'']) (state_at sample_tree [''c'']) = Inr Absent"
    "changed_state (sample_change [''d'']) (state_at sample_tree [''d'']) = Inr (CleanAt MBlobExecutable (sample_oid CHR ''9''))"
    by code_simp+
  then show ?thesis
    using run each [of "[''a'']"] each [of "[''b'']"] each [of "[''c'']"] each [of "[''d'']"] by simp
qed

theorem apply_order_irrelevant_witness:
  "apply_unilateral_patchset sample_tree (sample_patch [[''a''], [''b'']]) =
   apply_unilateral_patchset sample_tree (sample_patch [[''b''], [''a'']])"
proof -
  have "distinct (wp_paths (sample_patch [[''a''], [''b'']]))" by code_simp
  moreover have "mset (wp_changes (sample_patch [[''a''], [''b'']])) = mset (wp_changes (sample_patch [[''b''], [''a'']]))"
    "wp_epoch (sample_patch [[''a''], [''b'']]) = wp_epoch (sample_patch [[''b''], [''a'']])"
    by (simp_all add: sample_patch_def)
  moreover have "\<not> isl (apply_unilateral_patchset sample_tree (sample_patch [[''a''], [''b'']]))" by code_simp
  ultimately show ?thesis
    using apply_order_irrelevant [OF sample_tree_ok, of "sample_patch [[''a''], [''b'']]" "sample_patch [[''b''], [''a'']]"]
    by (auto split: sum.splits)
qed

end
