(* ===== verification/Materialize.thy ===== *)
theory Materialize
  imports Conflict_Apply Git_Refs Text_Lines
begin

text \<open>
  From a conflict tree to what a commit can hold, \<open>crates/maw-core/src/merge/materialize.rs\<close>: clean paths keep
  their blob, conflicts are rendered to a file with conflict markers, and the tests that later tell such a file
  from a real one. Reading a blob and the text merge are the fields of \<open>render_env\<close>. Indexing the first side
  of a conflict without sides panics; that is \<open>MzPanicked\<close>.
\<close>

datatype text_merge = TmClean blob | TmConflict blob

record render_env =
  rv_read_blob :: "raw_oid \<Rightarrow> git_error + blob"
  rv_merge_text :: "blob \<Rightarrow> blob \<Rightarrow> blob \<Rightarrow> string \<Rightarrow> string \<Rightarrow> string \<Rightarrow> git_error + text_merge"

section \<open>Output and errors\<close>

datatype final_entry = FeClean entry_mode git_oid | FeRendered entry_mode blob

type_synonym materialized_output = "(path, final_entry) btree"

definition mo_len :: "materialized_output \<Rightarrow> nat" where
  "mo_len out = bm_len out"

definition mo_is_empty :: "materialized_output \<Rightarrow> bool" where
  "mo_is_empty out \<longleftrightarrow> bm_is_empty out"

definition rendered_entries :: "materialized_output \<Rightarrow> (path \<times> blob \<times> entry_mode) list" where
  "rendered_entries out = List.map_filter (\<lambda>(p, e). case e of
     FeRendered m c \<Rightarrow> Some (p, c, m) | FeClean _ _ \<Rightarrow> None) (bm_entries out)"

datatype materialize_error = UnsupportedDivergentRename path | MzReadBlob path git_oid string

datatype materialize_failure = MzFailed materialize_error | MzPanicked

definition display_path :: "path \<Rightarrow> string" where
  "display_path p = from_utf8_lossy (path_str p)"

fun materialize_error_str :: "materialize_error \<Rightarrow> string" where
  "materialize_error_str (UnsupportedDivergentRename p) = ''materialize: divergent-rename conflict at '' @ display_path p
     @ '' cannot be projected to a single path in V1''"
| "materialize_error_str (MzReadBlob p oid reason) = ''materialize: failed to read blob '' @ oid_str oid
     @ '' for conflict at '' @ display_path p @ '': '' @ reason"

section \<open>Markers\<close>

definition open_label :: "string \<Rightarrow> string" where
  "open_label ws = (if ws = ''epoch'' then ''epoch (current)'' else ws)"

definition close_label :: "string \<Rightarrow> string" where
  "close_label ws = (if ws = ''epoch'' then ''epoch'' else ws @ '' (workspace changes)'')"

definition marker_open :: "string \<Rightarrow> string" where
  "marker_open ws = ''<<<<<<< '' @ open_label ws"

definition marker_close :: "string \<Rightarrow> string" where
  "marker_close ws = ''>>>>>>> '' @ close_label ws"

definition MARKER_BASE :: string where "MARKER_BASE = ''||||||| base''"

definition MARKER_SEP :: string where "MARKER_SEP = ''=======''"

definition text_line :: "string \<Rightarrow> string" where
  "text_line s = s @ [newline]"

definition with_trailing_newline :: "blob \<Rightarrow> blob" where
  "with_trailing_newline b = (if b \<noteq> [] \<and> last b = newline then b else b @ [newline])"

section \<open>Placeholder headers\<close>

definition HEADER_PREFIXES :: "string list" where
  "HEADER_PREFIXES = [''#'', ''//'', ''--'']"

text \<open>\<open>Path::extension\<close>, where it is UTF-8.\<close>

definition path_extension :: "path \<Rightarrow> string option" where
  "path_extension p =
     (if p = [] then None
      else let parts = split_on CHR ''.'' (last p)
           in if length parts \<le> 1 \<or> (length parts = 2 \<and> hd parts = []) then None
              else if utf8_valid (last parts) then Some (last parts) else None)"

definition header_prefix_for :: "path \<Rightarrow> string" where
  "header_prefix_for p =
     (case path_extension p of
        None \<Rightarrow> ''#''
      | Some e \<Rightarrow>
          if e \<in> {''rs'', ''js'', ''ts'', ''c'', ''h'', ''cpp'', ''go'', ''java''} then ''//''
          else if e \<in> {''sql'', ''lua''} then ''--''
          else ''#'')"

definition header_prefix_of_blob :: "blob \<Rightarrow> string option" where
  "header_prefix_of_blob content = find (\<lambda>p. prefix (p @ '' '') content) HEADER_PREFIXES"

definition TOOL_PLACEHOLDER_PREFIXES :: "string list" where
  "TOOL_PLACEHOLDER_PREFIXES =
     [''# structured conflict at '', ''// structured conflict at '', ''-- structured conflict at '',
      ''# BINARY CONFLICT at '', ''// BINARY CONFLICT at '', ''-- BINARY CONFLICT at '']"

definition is_tool_placeholder_blob :: "blob \<Rightarrow> bool" where
  "is_tool_placeholder_blob content \<longleftrightarrow> list_ex (\<lambda>p. prefix p content) TOOL_PLACEHOLDER_PREFIXES"

definition placeholder_blob_has_markers :: "blob \<Rightarrow> bool" where
  "placeholder_blob_has_markers content \<longleftrightarrow> list_ex (prefix ''<<<<<<<'') (split_on newline content)"

definition looks_text :: "blob \<Rightarrow> bool" where
  "looks_text b \<longleftrightarrow> CHR 0x00 \<notin> set b \<and> utf8_valid b"

section \<open>Sides\<close>

definition read_side_blob :: "render_env \<Rightarrow> path \<Rightarrow> git_oid \<Rightarrow> materialize_failure + blob" where
  "read_side_blob rv p oid =
     (case raw_oid_from_str (oid_str oid) of
        Inl e \<Rightarrow> Inl (MzFailed (MzReadBlob p oid (oid_parse_error_str e)))
      | Inr raw \<Rightarrow>
          (case rv_read_blob rv raw of
             Inl e \<Rightarrow> Inl (MzFailed (MzReadBlob p oid (git_error_str e)))
           | Inr b \<Rightarrow> Inr b))"

fun read_sides :: "render_env \<Rightarrow> path \<Rightarrow> conflict_side list \<Rightarrow> materialize_failure + blob list" where
  "read_sides rv p [] = Inr []"
| "read_sides rv p (s # ss) =
     res_bind (read_side_blob rv p (cs_content s))
       (\<lambda>b. res_bind (read_sides rv p ss) (\<lambda>bs. Inr (b # bs)))"

section \<open>Whole files between markers\<close>

definition first_block :: "string \<Rightarrow> blob \<Rightarrow> blob option \<Rightarrow> blob" where
  "first_block ws b base = text_line (marker_open ws) @ with_trailing_newline b @ text_line MARKER_BASE
     @ (case base of None \<Rightarrow> [] | Some c \<Rightarrow> with_trailing_newline c)"

definition last_block :: "string \<Rightarrow> blob \<Rightarrow> blob" where
  "last_block ws b = text_line MARKER_SEP @ with_trailing_newline b @ text_line (marker_close ws)"

text \<open>One block per workspace after the first; each but the last reopens with the first side.\<close>

fun marker_blocks :: "string \<Rightarrow> blob \<Rightarrow> blob option \<Rightarrow> (string \<times> blob) list \<Rightarrow> blob" where
  "marker_blocks w0 b0 base [] = first_block w0 b0 base @ last_block w0 b0"
| "marker_blocks w0 b0 base [(w, b)] = first_block w0 b0 base @ last_block w b"
| "marker_blocks w0 b0 base ((w, b) # x # xs) = first_block w0 b0 base @ last_block w b @ marker_blocks w0 b0 base (x # xs)"

definition render_whole_file_marker_blocks ::
  "blob option \<Rightarrow> conflict_side list \<Rightarrow> blob list \<Rightarrow> materialize_failure + blob" where
  "render_whole_file_marker_blocks base sides contents =
     (case zip (map cs_workspace sides) contents of
        [] \<Rightarrow> Inl MzPanicked
      | (w0, b0) # rest \<Rightarrow> Inr (marker_blocks w0 b0 base rest))"

definition binary_header :: "path \<Rightarrow> conflict_side list \<Rightarrow> blob" where
  "binary_header p sides =
     (let pre = header_prefix_for p
      in text_line (pre @ '' BINARY CONFLICT at '' @ display_path p @ [CHR '' '', CHR 0xE2, CHR 0x80, CHR 0x94, CHR '' '']
           @ ''inlined markers would corrupt the file.'')
       @ text_line (pre @ '' Pick a side with: maw ws resolve <workspace> --keep <side-name>'')
       @ concat (map (\<lambda>s. text_line (pre @ '' side: '' @ cs_workspace s @ ''  @  '' @ oid_str (cs_content s))) sides)
       @ [newline])"

definition binary_payload :: "path \<Rightarrow> string \<Rightarrow> blob list \<Rightarrow> blob" where
  "binary_payload p first_ws contents =
     newline # text_line (header_prefix_for p @ '' ----- verbatim bytes of side `'' @ first_ws
                @ ''` below (chosen arbitrarily) -----'')
     @ (case contents of [] \<Rightarrow> [] | b # _ \<Rightarrow> b)"

definition render_binary_content_conflict ::
  "path \<Rightarrow> conflict_side list \<Rightarrow> blob list \<Rightarrow> materialize_failure + blob" where
  "render_binary_content_conflict p sides contents =
     (case sides of
        [] \<Rightarrow> Inl MzPanicked
      | first # _ \<Rightarrow>
          Inr (binary_header p sides
            @ text_line (marker_open (cs_workspace first))
            @ text_line ''(binary content -- bytes not inlined)''
            @ text_line MARKER_BASE @ text_line MARKER_SEP
            @ text_line ''(binary content -- bytes not inlined)''
            @ text_line (marker_close (cs_workspace (last sides)))
            @ binary_payload p (cs_workspace first) contents))"

section \<open>Kinds of conflict\<close>

definition hunk_level_merge :: "render_env \<Rightarrow> blob option \<Rightarrow> blob \<Rightarrow> string \<Rightarrow> blob \<Rightarrow> string \<Rightarrow> blob option" where
  "hunk_level_merge rv base ours ours_ws theirs theirs_ws =
     (case rv_merge_text rv (case base of None \<Rightarrow> [] | Some b \<Rightarrow> b) ours theirs (open_label ours_ws) ''base''
             (close_label theirs_ws) of
        Inr (TmConflict bytes) \<Rightarrow> Some bytes
      | _ \<Rightarrow> None)"

definition atom_summary :: "conflict_atom \<Rightarrow> string" where
  "atom_summary a = region_summary (ca_base_region a) @ [CHR '' '', CHR 0xE2, CHR 0x80, CHR 0x94, CHR '' '']
     @ reason_description (ca_reason a) @ '' ['' @ join_with '', '' (map ae_workspace (ca_edits a)) @ '']''"

definition content_header ::
  "path \<Rightarrow> git_oid option \<Rightarrow> conflict_side list \<Rightarrow> conflict_atom list \<Rightarrow> blob" where
  "content_header p base sides atoms =
     (let pre = header_prefix_for p
      in text_line (pre @ '' structured conflict at '' @ display_path p)
       @ (if atoms = [] then []
          else text_line (pre @ '' atoms:'') @ concat (map (\<lambda>a. text_line (pre @ ''   - '' @ atom_summary a)) atoms))
       @ (case base of None \<Rightarrow> [] | Some b \<Rightarrow> text_line (pre @ '' base blob: '' @ oid_str b))
       @ concat (map (\<lambda>s. text_line (pre @ '' side '' @ cs_workspace s @ '' blob: '' @ oid_str (cs_content s))) sides)
       @ [newline])"

definition read_base :: "render_env \<Rightarrow> path \<Rightarrow> git_oid option \<Rightarrow> materialize_failure + blob option" where
  "read_base rv p base = (case base of None \<Rightarrow> Inr None
     | Some b \<Rightarrow> res_bind (read_side_blob rv p b) (\<lambda>c. Inr (Some c)))"

definition render_content_conflict ::
  "render_env \<Rightarrow> path \<Rightarrow> git_oid option \<Rightarrow> conflict_side list \<Rightarrow> conflict_atom list \<Rightarrow> materialize_failure + blob" where
  "render_content_conflict rv p base sides atoms =
     res_bind (read_base rv p base) (\<lambda>base_bytes.
     res_bind (read_sides rv p sides) (\<lambda>contents.
       if (case base_bytes of None \<Rightarrow> False | Some b \<Rightarrow> \<not> looks_text b) \<or> list_ex (\<lambda>b. \<not> looks_text b) contents then
         render_binary_content_conflict p sides contents
       else
         (let header = content_header p base sides atoms;
              hunks = (case (sides, contents) of
                 ([ours, theirs], [o', t']) \<Rightarrow> hunk_level_merge rv base_bytes o' (cs_workspace ours) t' (cs_workspace theirs)
               | _ \<Rightarrow> None)
          in case hunks of
               Some merged \<Rightarrow> Inr (header @ merged)
             | None \<Rightarrow> res_bind (render_whole_file_marker_blocks base_bytes sides contents)
                         (\<lambda>blocks. Inr (header @ blocks)))))"

definition add_add_header :: "path \<Rightarrow> blob" where
  "add_add_header p = text_line (''# add/add conflict at '' @ display_path p) @ [newline]"

definition render_add_add_conflict ::
  "render_env \<Rightarrow> path \<Rightarrow> conflict_side list \<Rightarrow> materialize_failure + blob" where
  "render_add_add_conflict rv p sides =
     res_bind (read_sides rv p sides) (\<lambda>contents.
       if list_ex (\<lambda>b. \<not> looks_text b) contents then render_binary_content_conflict p sides contents
       else res_bind (render_whole_file_marker_blocks None sides contents)
              (\<lambda>blocks. Inr (add_add_header p @ blocks)))"

definition modify_delete_notes :: "string \<Rightarrow> path option \<Rightarrow> path option \<Rightarrow> blob" where
  "modify_delete_notes modifier_ws rename_hint df_hint =
     (case rename_hint of None \<Rightarrow> []
      | Some new_path \<Rightarrow>
          text_line (''# note: deleted by rename'' @ [CHR '' '', CHR 0xE2, CHR 0x80, CHR 0x94, CHR '' '']
            @ ''content now lives at '' @ display_path new_path)
          @ text_line (''# to carry your edit: apply your changes at '' @ display_path new_path @ '' instead''))
     @ (case df_hint of None \<Rightarrow> []
        | Some region \<Rightarrow>
          text_line (''# note: D/F path clash'' @ [CHR '' '', CHR 0xE2, CHR 0x80, CHR 0x94, CHR '' '', CHR 0x27] @ display_path region
            @ CHR 0x27 # '' is a FILE on one side and a directory on the other'')
          @ text_line (''# to resolve: --keep '' @ modifier_ws @ ''  keeps this workspace content'')
          @ text_line (''#             --keep epoch  removes it and restores the epoch'' @ CHR 0x27 # ''s version of ''
              @ CHR 0x27 # display_path region @ [CHR 0x27]))"

definition modify_delete_header ::
  "path \<Rightarrow> conflict_side \<Rightarrow> conflict_side \<Rightarrow> path option \<Rightarrow> path option \<Rightarrow> blob" where
  "modify_delete_header p modifier deleter rename_hint df_hint =
     text_line (''# modify/delete conflict at '' @ display_path p)
     @ text_line (''# modifier: '' @ cs_workspace modifier @ '' @ '' @ oid_str (cs_content modifier))
     @ text_line (''# deleter:  '' @ cs_workspace deleter @ '' @ '' @ oid_str (cs_content deleter))
     @ modify_delete_notes (cs_workspace modifier) rename_hint df_hint
     @ [newline]"

definition render_modify_delete_conflict ::
  "render_env \<Rightarrow> path \<Rightarrow> conflict_side \<Rightarrow> conflict_side \<Rightarrow> git_oid \<Rightarrow> path option \<Rightarrow> path option \<Rightarrow>
   materialize_failure + blob" where
  "render_modify_delete_conflict rv p modifier deleter modified_content rename_hint df_hint =
     res_bind (read_side_blob rv p modified_content) (\<lambda>bytes.
       Inr (modify_delete_header p modifier deleter rename_hint df_hint
         @ text_line (marker_open (cs_workspace modifier))
         @ (if looks_text bytes then with_trailing_newline bytes
            else text_line ''(binary modifier content -- bytes not inlined)'')
         @ text_line MARKER_BASE @ text_line MARKER_SEP
         @ text_line (''(deleted by '' @ cs_workspace deleter @ '')'')
         @ text_line (marker_close (cs_workspace deleter))
         @ (if looks_text bytes then []
            else newline # text_line (''# ----- verbatim bytes of modifier `'' @ cs_workspace modifier @ ''` below -----'')
                 @ bytes)))"

section \<open>The tree\<close>

definition render_conflict :: "render_env \<Rightarrow> path \<Rightarrow> conflict \<Rightarrow> materialize_failure + blob" where
  "render_conflict rv p c =
     (case c of
        CContent _ _ base sides atoms \<Rightarrow> render_content_conflict rv p base sides atoms
      | CAddAdd _ sides \<Rightarrow> render_add_add_conflict rv p sides
      | CModifyDelete _ _ modifier deleter content rename_hint df_hint \<Rightarrow>
          render_modify_delete_conflict rv p modifier deleter content rename_hint df_hint
      | CDivergentRename _ _ _ \<Rightarrow> Inl (MzFailed (UnsupportedDivergentRename p)))"

fun render_conflicts ::
  "render_env \<Rightarrow> (path \<times> conflict) list \<Rightarrow> materialized_output \<Rightarrow> materialize_failure + materialized_output" where
  "render_conflicts rv [] out = Inr out"
| "render_conflicts rv ((p, c) # rest) out =
     res_bind (render_conflict rv p c)
       (\<lambda>content. render_conflicts rv rest (bm_insert p (FeRendered MBlob content) out))"

definition materialize :: "render_env \<Rightarrow> conflict_tree \<Rightarrow> materialize_failure + materialized_output" where
  "materialize rv t =
     render_conflicts rv (bm_entries (ct_conflicts t))
       (fold (\<lambda>(p, e). bm_insert p (FeClean (mt_mode e) (mt_oid e))) (bm_entries (ct_clean t)) bm_empty)"

end
