(* ===== verification/Materialize_Facts.thy ===== *)
theory Materialize_Facts
  imports Materialize
begin

text \<open>
  What a materialised conflict tree holds for every path, and how a rendered conflict can be recognised later: by
  its conflict markers always, by the header of the tool only for two of the four renderings.
\<close>

section \<open>Every path\<close>

lemma clean_entries_get:
  "bm_get (fold (\<lambda>(p, e). bm_insert p (FeClean (mt_mode e) (mt_oid e))) (bm_entries m) out) p =
   (case bm_get m p of None \<Rightarrow> bm_get out p | Some e \<Rightarrow> Some (FeClean (mt_mode e) (mt_oid e)))"
  by (rule bm_get_fold_entries)

lemma render_conflicts_ok:
  assumes "distinct (map fst cs)"
  shows "case render_conflicts rv cs out of
      Inl e \<Rightarrow> \<exists>(p, c) \<in> set cs. render_conflict rv p c = Inl e
    | Inr out' \<Rightarrow> (\<forall>(p, c) \<in> set cs. \<exists>b. render_conflict rv p c = Inr b \<and> bm_get out' p = Some (FeRendered MBlob b))
        \<and> (\<forall>p. p \<notin> fst ` set cs \<longrightarrow> bm_get out' p = bm_get out p)"
  using assms
proof (induction cs arbitrary: out)
  case (Cons x cs)
  obtain p c where x: "x = (p, c)" by (cases x)
  have p: "p \<notin> fst ` set cs" "distinct (map fst cs)" using Cons.prems x by auto
  show ?case
  proof (cases "render_conflict rv p c")
    case (Inr b)
    note IH = Cons.IH [OF p(2), of "bm_insert p (FeRendered MBlob b) out"]
    show ?thesis
    proof (cases "render_conflicts rv cs (bm_insert p (FeRendered MBlob b) out)")
      case (Inr out')
      then have "bm_get out' p = Some (FeRendered MBlob b)" using IH p(1) by simp
      then show ?thesis using IH Inr \<open>render_conflict rv p c = Inr b\<close> x by auto
    qed (use IH Inr x in auto)
  qed (use x in auto)
qed simp

lemma read_sides_length: "read_sides rv p sides = Inr bs \<Longrightarrow> length bs = length sides"
  by (induction sides arbitrary: bs) (auto simp: result_simps)

lemma read_sides_no_panic: "read_sides rv p sides \<noteq> Inl MzPanicked"
  by (induction sides) (auto simp: result_simps read_side_blob_def split: sum.splits)

lemma whole_file_blocks:
  assumes "sides \<noteq> []" "length contents = length sides"
  obtains w0 b0 rest where "zip (map cs_workspace sides) contents = (w0, b0) # rest"
    "render_whole_file_marker_blocks base sides contents = Inr (marker_blocks w0 b0 base rest)"
  using assms by (cases sides; cases contents) (auto simp: render_whole_file_marker_blocks_def)

lemma no_panic:
  assumes "conflict_ok p c"
  shows "render_conflict rv p c \<noteq> Inl MzPanicked"
proof -
  have blob: "read_side_blob rv p b \<noteq> Inl MzPanicked" for b by (simp add: read_side_blob_def split: sum.splits)
  have base: "read_base rv p b \<noteq> Inl MzPanicked" for b
    using blob by (auto simp: read_base_def result_simps split: option.splits)
  have binary: "sides \<noteq> [] \<Longrightarrow> render_binary_content_conflict p sides contents \<noteq> Inl MzPanicked" for sides contents
    by (cases sides) (simp_all add: render_binary_content_conflict_def Let_def)
  have whole: "render_whole_file_marker_blocks b sides contents \<noteq> Inl MzPanicked"
    if "sides \<noteq> []" "read_sides rv p sides = Inr contents" for b sides contents
    using whole_file_blocks [OF that(1) read_sides_length [OF that(2)]] by (metis sum.distinct(1))
  show ?thesis
  proof (cases c)
    case (CContent q fid b sides atoms)
    then have "sides \<noteq> []" using assms by simp
    with CContent base whole binary read_sides_no_panic show ?thesis
      by (auto simp: render_conflict_def render_content_conflict_def result_simps Let_def
          split: option.splits if_splits)
  next
    case (CAddAdd q sides)
    then have "sides \<noteq> []" using assms by simp
    with CAddAdd whole binary read_sides_no_panic show ?thesis
      by (auto simp: render_conflict_def render_add_add_conflict_def result_simps split: if_splits)
  next
    case CModifyDelete
    with blob show ?thesis by (auto simp: render_conflict_def render_modify_delete_conflict_def result_simps)
  qed (simp add: render_conflict_def)
qed

lemma conflict_entries: "(p, c) \<in> set (bm_entries (ct_conflicts t)) \<longleftrightarrow> state_at t p = ConflictAt c"
  by (auto simp: bm.in_entries state_at_def split: option.splits)

section \<open>Markers\<close>

lemma split_on_append: "split_on c (xs @ c # ys) = split_on c xs @ split_on c ys"
  by (induction xs) auto

lemma has_markers_front: "placeholder_blob_has_markers (''<<<<<<<'' @ s)"
  by (simp add: placeholder_blob_has_markers_def)

lemma has_markers_after:
  assumes "placeholder_blob_has_markers b" "a = [] \<or> last a = newline"
  shows "placeholder_blob_has_markers (a @ b)"
proof (cases "a = []")
  case False
  then obtain a' where "a = a' @ [newline]" using assms(2) by (metis append_butlast_last_id)
  then have "split_on newline (a @ b) = split_on newline a' @ split_on newline b" by (simp add: split_on_append)
  then show ?thesis using assms(1) by (simp add: placeholder_blob_has_markers_def)
qed (use assms in simp)

lemma has_markers_open: "placeholder_blob_has_markers (text_line (marker_open w) @ s)"
  using has_markers_front [of "CHR '' '' # open_label w @ newline # s"] by (simp add: text_line_def marker_open_def)

lemma has_markers_blocks: "placeholder_blob_has_markers (marker_blocks w b base rest)"
  by (cases "(w, b, base, rest)" rule: marker_blocks.cases) (simp_all add: first_block_def has_markers_open)

lemma last_text_line [simp]: "text_line s \<noteq> []" "last (text_line s) = newline"
  by (simp_all add: text_line_def)

lemma header_last:
  "content_header p base sides atoms \<noteq> []" "last (content_header p base sides atoms) = newline"
  "binary_header p sides \<noteq> []" "last (binary_header p sides) = newline"
  "modify_delete_header p modifier deleter rh dh \<noteq> []" "last (modify_delete_header p modifier deleter rh dh) = newline"
  "add_add_header p \<noteq> []" "last (add_add_header p) = newline"
  by (simp_all add: content_header_def binary_header_def modify_delete_header_def add_add_header_def Let_def)

lemmas has_markers_under = has_markers_after [OF _ disjI2 [OF header_last(2)]]
  has_markers_after [OF _ disjI2 [OF header_last(4)]] has_markers_after [OF _ disjI2 [OF header_last(6)]]
  has_markers_after [OF _ disjI2 [OF header_last(8)]]

lemma has_markers_binary: "render_binary_content_conflict p sides contents = Inr b \<Longrightarrow> placeholder_blob_has_markers b"
  by (auto simp: render_binary_content_conflict_def has_markers_under has_markers_open split: list.splits)

lemma has_markers_whole:
  "render_whole_file_marker_blocks base sides contents = Inr b \<Longrightarrow> placeholder_blob_has_markers b"
  by (auto simp: render_whole_file_marker_blocks_def has_markers_blocks split: list.splits)

definition merge_shows_markers :: "render_env \<Rightarrow> bool" where
  "merge_shows_markers rv \<longleftrightarrow> (\<forall>base ours theirs l1 l2 l3 out.
     rv_merge_text rv base ours theirs l1 l2 l3 = Inr (TmConflict out) \<longrightarrow> placeholder_blob_has_markers out)"

lemma content_shapes:
  assumes "render_content_conflict rv p base sides atoms = Inr b"
  obtains contents where "render_binary_content_conflict p sides contents = Inr b"
  | m bb o' w1 t' w2 where "b = content_header p base sides atoms @ m" "hunk_level_merge rv bb o' w1 t' w2 = Some m"
  | m bb contents where "b = content_header p base sides atoms @ m" "render_whole_file_marker_blocks bb sides contents = Inr m"
proof -
  obtain bb contents where "read_base rv p base = Inr bb" "read_sides rv p sides = Inr contents"
    using assms by (auto simp: render_content_conflict_def result_simps)
  note run = assms [unfolded render_content_conflict_def this res_bind.simps Let_def]
  show thesis
  proof (cases "(case bb of None \<Rightarrow> False | Some b \<Rightarrow> \<not> looks_text b) \<or> list_ex (\<lambda>b. \<not> looks_text b) contents")
    case True
    then show thesis using that(1) run by simp
  next
    case False
    let ?hunks = "case (sides, contents) of
                 ([ours, theirs], [o', t']) \<Rightarrow> hunk_level_merge rv bb o' (cs_workspace ours) t' (cs_workspace theirs)
               | _ \<Rightarrow> None"
    show thesis
    proof (cases ?hunks)
      case None
      then obtain m where "render_whole_file_marker_blocks bb sides contents = Inr m" "b = content_header p base sides atoms @ m"
        using run False by (auto simp: result_simps)
      then show thesis using that(3) by blast
    next
      case (Some m)
      then have "b = content_header p base sides atoms @ m" using run False by simp
      moreover obtain o' w1 t' w2 where "hunk_level_merge rv bb o' w1 t' w2 = Some m"
        using Some by (auto split: list.splits)
      ultimately show thesis using that(2) by blast
    qed
  qed
qed

lemma rendered_markers:
  assumes "render_conflict rv p c = Inr b" "merge_shows_markers rv"
  shows "placeholder_blob_has_markers b"
proof (cases c)
  case (CContent q fid base sides atoms)
  have hunk: "hunk_level_merge rv bb o' w1 t' w2 = Some m \<Longrightarrow> placeholder_blob_has_markers m" for bb o' w1 t' w2 m
    using assms(2) by (auto simp: hunk_level_merge_def merge_shows_markers_def split: sum.splits text_merge.splits)
  have "render_content_conflict rv p base sides atoms = Inr b" using assms(1) CContent by (simp add: render_conflict_def)
  then show ?thesis
    by (rule content_shapes) (auto intro: has_markers_binary has_markers_under has_markers_whole hunk)
next
  case (CAddAdd q sides)
  then show ?thesis using assms(1)
    by (auto simp: render_conflict_def render_add_add_conflict_def result_simps split: if_splits
        intro: has_markers_binary has_markers_under has_markers_whole)
next
  case (CModifyDelete q fid modifier deleter content rh dh)
  then show ?thesis using assms(1)
    by (auto simp: render_conflict_def render_modify_delete_conflict_def result_simps has_markers_under has_markers_open)
next
  case CDivergentRename
  then show ?thesis using assms(1) by (simp add: render_conflict_def)
qed

section \<open>The header of the tool\<close>

lemma header_prefix_cases: "header_prefix_for p = ''#'' \<or> header_prefix_for p = ''//'' \<or> header_prefix_for p = ''--''"
  by (simp add: header_prefix_for_def split: option.split)

lemma structured_header:
  "is_tool_placeholder_blob (content_header p base sides atoms @ s)"
  "header_prefix_of_blob (content_header p base sides atoms @ s) = Some (header_prefix_for p)"
  using header_prefix_cases [of p]
  by (auto simp: content_header_def Let_def text_line_def is_tool_placeholder_blob_def TOOL_PLACEHOLDER_PREFIXES_def
      header_prefix_of_blob_def HEADER_PREFIXES_def)

lemma binary_blob_header:
  "is_tool_placeholder_blob (binary_header p sides @ s)"
  "header_prefix_of_blob (binary_header p sides @ s) = Some (header_prefix_for p)"
  using header_prefix_cases [of p]
  by (auto simp: binary_header_def Let_def text_line_def is_tool_placeholder_blob_def TOOL_PLACEHOLDER_PREFIXES_def
      header_prefix_of_blob_def HEADER_PREFIXES_def)

lemma unlisted_headers:
  "\<not> is_tool_placeholder_blob (add_add_header p @ s)"
  "\<not> is_tool_placeholder_blob (modify_delete_header p modifier deleter rh dh @ s)"
  by (simp_all add: add_add_header_def modify_delete_header_def text_line_def is_tool_placeholder_blob_def
      TOOL_PLACEHOLDER_PREFIXES_def)

lemma binary_shape:
  assumes "render_binary_content_conflict p sides contents = Inr b"
  obtains s where "b = binary_header p sides @ s"
  using assms by (auto simp: render_binary_content_conflict_def split: list.splits)

lemma content_placeholder:
  assumes "render_content_conflict rv p base sides atoms = Inr b"
  shows "is_tool_placeholder_blob b \<and> header_prefix_of_blob b = Some (header_prefix_for p)"
  using assms
proof (rule content_shapes)
  fix contents assume "render_binary_content_conflict p sides contents = Inr b"
  then show ?thesis by (rule binary_shape) (simp add: binary_blob_header)
qed (simp_all add: structured_header)

text \<open>Which conflicts carry the header: a content conflict always, an add/add conflict with a side that is not text.\<close>

definition header_listed :: "render_env \<Rightarrow> path \<Rightarrow> conflict \<Rightarrow> bool" where
  "header_listed rv p c \<longleftrightarrow> (case c of
     CContent _ _ _ _ _ \<Rightarrow> True
   | CAddAdd _ sides \<Rightarrow> (case read_sides rv p sides of Inr contents \<Rightarrow> list_ex (\<lambda>b. \<not> looks_text b) contents | Inl _ \<Rightarrow> False)
   | _ \<Rightarrow> False)"

lemma placeholder_iff_listed:
  assumes "render_conflict rv p c = Inr b"
  shows "is_tool_placeholder_blob b \<longleftrightarrow> header_listed rv p c"
proof (cases c)
  case (CContent q fid base sides atoms)
  then have "render_content_conflict rv p base sides atoms = Inr b" using assms by (simp add: render_conflict_def)
  from content_placeholder [OF this] show ?thesis using CContent by (simp add: header_listed_def)
next
  case (CAddAdd q sides)
  then obtain contents where read: "read_sides rv p sides = Inr contents"
      and out: "if list_ex (\<lambda>b. \<not> looks_text b) contents then render_binary_content_conflict p sides contents = Inr b
        else \<exists>m. b = add_add_header p @ m"
    using assms by (auto simp: render_conflict_def render_add_add_conflict_def result_simps split: if_splits)
  show ?thesis
  proof (cases "list_ex (\<lambda>b. \<not> looks_text b) contents")
    case True
    then have "render_binary_content_conflict p sides contents = Inr b" using out by simp
    then obtain s where "b = binary_header p sides @ s" by (rule binary_shape)
    then show ?thesis using True CAddAdd read by (simp add: header_listed_def binary_blob_header)
  next
    case False
    then show ?thesis using out CAddAdd read by (auto simp: header_listed_def unlisted_headers)
  qed
next
  case (CModifyDelete q fid modifier deleter content rh dh)
  then show ?thesis using assms
    by (auto simp: render_conflict_def render_modify_delete_conflict_def result_simps header_listed_def unlisted_headers)
next
  case CDivergentRename
  then show ?thesis using assms by (simp add: render_conflict_def)
qed

lemma materialize_conflict:
  assumes "materialize rv t = Inr out" "state_at t p = ConflictAt c"
  obtains b where "render_conflict rv p c = Inr b" "bm_get out p = Some (FeRendered MBlob b)"
proof -
  have dist: "distinct (map fst (bm_entries (ct_conflicts t)))"
    using bm_keys_increasing [of "ct_conflicts t"] by (simp add: bm_keys_def strict_sorted_iff)
  let ?start = "fold (\<lambda>(p, e). bm_insert p (FeClean (mt_mode e) (mt_oid e))) (bm_entries (ct_clean t)) bm_empty"
  have "(p, c) \<in> set (bm_entries (ct_conflicts t))" using assms(2) by (simp add: conflict_entries)
  then show thesis using render_conflicts_ok [OF dist, of rv ?start] assms(1) that
    by (fastforce simp: materialize_def)
qed

section \<open>Properties\<close>

text \<open>C12. Materialising a well-formed tree never panics: it fails with the error of a conflict that cannot be
  rendered, a divergent rename or an unreadable blob, or the output has exactly the paths of the tree, clean
  paths with their mode and blob, conflicted paths with their rendering as a regular file.\<close>

theorem materialize_projects_tree:
  assumes "tree_ok t"
  shows "case materialize rv t of
      Inl e \<Rightarrow> e \<noteq> MzPanicked \<and> (\<exists>p c. state_at t p = ConflictAt c \<and> render_conflict rv p c = Inl e)
    | Inr out \<Rightarrow> \<forall>p. case state_at t p of
          Absent \<Rightarrow> bm_get out p = None
        | CleanAt m b \<Rightarrow> bm_get out p = Some (FeClean m b)
        | ConflictAt c \<Rightarrow> \<exists>content. render_conflict rv p c = Inr content \<and> bm_get out p = Some (FeRendered MBlob content)"
proof -
  have dist: "distinct (map fst (bm_entries (ct_conflicts t)))"
    using bm_keys_increasing [of "ct_conflicts t"] by (simp add: bm_keys_def strict_sorted_iff)
  let ?start = "fold (\<lambda>(p, e). bm_insert p (FeClean (mt_mode e) (mt_oid e))) (bm_entries (ct_clean t)) bm_empty"
  note rc = render_conflicts_ok [OF dist, of rv ?start]
  show ?thesis
  proof (cases "materialize rv t")
    case (Inl e)
    then obtain p c where pc: "(p, c) \<in> set (bm_entries (ct_conflicts t))" "render_conflict rv p c = Inl e"
      using rc by (auto simp: materialize_def)
    have "conflict_ok p c" using assms pc(1) by (simp add: tree_ok_def bm.in_entries)
    then have "e \<noteq> MzPanicked" using no_panic [of p c rv] pc(2) by auto
    then show ?thesis using Inl pc by (auto simp: conflict_entries)
  next
    case (Inr out)
    have rendered: "\<exists>b. render_conflict rv p c = Inr b \<and> bm_get out p = Some (FeRendered MBlob b)"
      if "state_at t p = ConflictAt c" for p c
      using materialize_conflict [OF Inr that] by metis
    have others: "bm_get out p = bm_get ?start p" if "bm_get (ct_conflicts t) p = None" for p
    proof -
      have "p \<notin> fst ` set (bm_entries (ct_conflicts t))" using that by (auto simp: bm.in_entries)
      then show ?thesis using rc Inr by (simp add: materialize_def)
    qed
    have "case state_at t p of
          Absent \<Rightarrow> bm_get out p = None
        | CleanAt m b \<Rightarrow> bm_get out p = Some (FeClean m b)
        | ConflictAt c \<Rightarrow> \<exists>content. render_conflict rv p c = Inr content \<and> bm_get out p = Some (FeRendered MBlob content)" for p
    proof (cases "bm_get (ct_conflicts t) p")
      case None
      then show ?thesis using others [OF None]
        by (auto simp: state_at_def clean_entries_get split: option.split)
    next
      case (Some c)
      then show ?thesis using rendered [of p c] by (simp add: state_at_def)
    qed
    then show ?thesis using Inr by simp
  qed
qed

text \<open>C19. Every rendered conflict shows itself: provided that the text merge marks the conflicts it reports, the
  blob of a conflict of any kind, text or binary, has a line that starts with the opening conflict marker.\<close>

theorem rendered_conflicts_show_markers:
  assumes "materialize rv t = Inr out" "tree_ok t" "merge_shows_markers rv" "state_at t p = ConflictAt c"
  shows "\<exists>content. bm_get out p = Some (FeRendered MBlob content) \<and> placeholder_blob_has_markers content"
  using materialize_conflict [OF assms(1,4)] rendered_markers [OF _ assms(3)] by metis

section \<open>Witnesses\<close>

definition sample_env :: render_env where
  "sample_env = \<lparr>rv_read_blob = (\<lambda>_. Inr ''text''),
     rv_merge_text = (\<lambda>_ _ _ _ _ _. Inr (TmConflict ''<<<<<<< a''))\<rparr>"

lemma sample_out: "\<exists>out. materialize sample_env sample_tree = Inr out"
proof -
  have "\<not> isl (materialize sample_env sample_tree)" by code_simp
  then show ?thesis by (cases "materialize sample_env sample_tree") auto
qed

lemma sample_state:
  "state_at sample_tree [''a''] = CleanAt MBlobExecutable (sample_oid CHR ''1'')"
  "state_at sample_tree [''c''] = ConflictAt (CAddAdd [''c''] [sample_side ''epoch'' CHR ''5'', sample_side ''alice'' CHR ''6''])"
  by code_simp+

lemma materialize_projects_tree_witness:
  "\<exists>out. materialize sample_env sample_tree = Inr out
    \<and> bm_get out [''a''] = Some (FeClean MBlobExecutable (sample_oid CHR ''1''))"
proof -
  obtain out where out: "materialize sample_env sample_tree = Inr out" using sample_out by blast
  have "\<forall>p. case state_at sample_tree p of
          Absent \<Rightarrow> bm_get out p = None
        | CleanAt m b \<Rightarrow> bm_get out p = Some (FeClean m b)
        | ConflictAt c \<Rightarrow> \<exists>content. render_conflict sample_env p c = Inr content \<and> bm_get out p = Some (FeRendered MBlob content)"
    using materialize_projects_tree [OF sample_tree_ok, of sample_env] by (simp add: out)
  from spec [OF this, of "[''a'']"] show ?thesis by (simp add: out sample_state)
qed

lemma rendered_conflicts_show_markers_witness:
  "\<exists>out content. materialize sample_env sample_tree = Inr out
    \<and> bm_get out [''c''] = Some (FeRendered MBlob content) \<and> placeholder_blob_has_markers content"
proof -
  obtain out where out: "materialize sample_env sample_tree = Inr out" using sample_out by blast
  have "merge_shows_markers sample_env"
    by (simp add: merge_shows_markers_def sample_env_def has_markers_front [of "'' a''", simplified])
  from rendered_conflicts_show_markers [OF out sample_tree_ok this sample_state(2)] out show ?thesis by blast
qed

end
