(* ===== verification/Marker_Labels.thy ===== *)
theory Marker_Labels
  imports Marker_Facts Materialize_Facts
begin

text \<open>
  The labels that a rendered conflict carries, read back by the resolution of marked files: materialising and
  resolving agree on the names of the sides.
\<close>

definition label_name :: "string \<Rightarrow> bool" where
  "label_name w \<longleftrightarrow> w \<noteq> [] \<and> solid w \<and> list_all (\<lambda>c. c \<notin> set ''<>|('') w"

lemma label_name_trim: "label_name w \<Longrightarrow> str_trim w = w"
  by (simp add: label_name_def str_trim_solid)

lemma no_paren: "list_all (\<lambda>c. c \<noteq> CHR ''('') s \<Longrightarrow> str_find ''('' s = None"
  by (induction s) auto

lemma dropWhile_first: "s = [] \<or> \<not> P (hd s) \<Longrightarrow> dropWhile P s = s"
  by (cases s) auto

lemma epoch_labels:
  "extract_name_from_marker (marker_open ''epoch'') = ''epoch''"
  "extract_name_from_marker (marker_close ''epoch'') = ''epoch''"
  by code_simp+

lemma extract_open: "label_name w \<Longrightarrow> extract_name_from_marker (marker_open w) = w"
proof (cases "w = ''epoch''")
  case True
  then show ?thesis by (simp add: epoch_labels)
next
  case False
  assume w: "label_name w"
  then obtain c cs where cs: "w = c # cs" "c \<notin> set ''<>|(''" by (cases w) (auto simp: label_name_def)
  have "trim_start_char CHR ''|'' (trim_start_char CHR ''>'' (trim_start_char CHR ''<'' (marker_open w))) = CHR '' '' # w"
    using False by (simp add: trim_start_char_def marker_open_def open_label_def)
  moreover have "str_trim (CHR '' '' # w) = w"
    using w label_name_trim [OF w] trim_end_solid [of "CHR '' '' # w"] trim_end_solid [of w]
    by (auto simp: str_trim_def trim_start_space label_name_def solid_def list_all_iff)
  moreover have "str_find ''('' w = None" using w by (intro no_paren) (auto simp: label_name_def list_all_iff)
  ultimately show ?thesis by (simp add: extract_name_from_marker_def Let_def)
qed

lemma trim_front:
  assumes "w \<noteq> []" "solid w" "s \<noteq> []" "\<not> space_ascii (last s)" "(of_char (last s) :: nat) < 0x80"
  shows "str_trim (CHR '' '' # w @ s) = w @ s"
proof -
  have "trim_end (CHR '' '' # w @ s) = CHR '' '' # w @ s" using assms by (intro trim_end_solid) simp
  moreover have "trim_start (w @ s) = w @ s"
    using assms(1,2) by (intro trim_start_solid) (cases w; simp add: solid_def)
  ultimately show ?thesis by (simp add: str_trim_def trim_start_space)
qed

lemma extract_close: "label_name w \<Longrightarrow> extract_name_from_marker (marker_close w) = w"
proof (cases "w = ''epoch''")
  case True
  then show ?thesis by (simp add: epoch_labels)
next
  case False
  assume w: "label_name w"
  have "trim_start_char CHR ''|'' (trim_start_char CHR ''>'' (trim_start_char CHR ''<'' (marker_close w)))
      = CHR '' '' # w @ '' (workspace changes)''"
    using False by (simp add: trim_start_char_def marker_close_def close_label_def)
  moreover have "str_trim (CHR '' '' # w @ '' (workspace changes)'') = w @ '' (workspace changes)''"
    using w by (intro trim_front) (auto simp: label_name_def space_ascii_def)
  moreover have "str_find ''('' (w @ '' (workspace changes)'') = Some (Suc (length w))"
  proof -
    have "CHR ''('' \<notin> set (w @ '' '')" using w by (auto simp: label_name_def list_all_iff)
    then show ?thesis using str_find_first [of "''(''" "w @ '' ''" "''workspace changes)''"] by simp
  qed
  moreover have "str_trim (w @ '' '') = w"
    using w label_name_trim [OF w] by (simp add: str_trim_def trim_end_space)
  ultimately show ?thesis by (simp add: extract_name_from_marker_def Let_def)
qed

text \<open>The name that resolving reads off a marker is the workspace that materialising wrote into it, on the opening
  and on the closing marker, for the epoch side as well; so \<open>--keep\<close> with the name of a side matches it.\<close>

theorem marker_labels_roundtrip:
  assumes "label_name w"
  shows "extract_name_from_marker (marker_open w) = w \<and> extract_name_from_marker (marker_close w) = w
    \<and> name_matches w (extract_name_from_marker (marker_open w))"
  using assms by (simp add: extract_open extract_close name_matches_def)

lemma marker_labels_roundtrip_witness:
  "extract_name_from_marker (marker_close ''alice'') = ''alice'' \<and> name_matches ''epoch'' (extract_name_from_marker (marker_open ''epoch''))"
  using marker_labels_roundtrip [of "''alice''"] marker_labels_roundtrip [of "''epoch''"]
  by (simp add: label_name_def solid_def space_ascii_def epoch_labels)

end
