(* ===== verification/Merge_Gate.thy ===== *)
theory Merge_Gate
  imports Marker_Files Materialize Build_Tree
begin

text \<open>
  When a workspace counts as conflicted and when a merge refuses it: the scan for conflict markers
  (\<open>workspace/resolve.rs\<close>), the effective conflict state (\<open>workspace/conflict_state.rs\<close>), the scan of HEAD for
  placeholder blobs and the gate itself (\<open>workspace/merge.rs\<close>). What git, the sidecars and the work tree show is the
  record \<open>ws_view\<close>, the shared repository is \<open>gate_repo\<close>. Errors are their messages; a tree walk that never ends is \<open>None\<close>.
\<close>

record gate_repo =
  gr_open :: "git_error option"
  gr_read_commit :: "raw_oid \<Rightarrow> git_error + commit_info"
  gr_read_tree :: "raw_oid \<Rightarrow> git_error + tree_entry list"
  gr_read_blob :: "raw_oid \<Rightarrow> git_error + blob"
  gr_read_blob_at_path :: "raw_oid \<Rightarrow> string \<Rightarrow> git_error + blob option"

record legacy_conflict =
  lc_path :: string

datatype sidecar_file = TreeSidecar | LegacySidecar

fun sidecar_name :: "sidecar_file \<Rightarrow> string" where
  "sidecar_name TreeSidecar = ''conflict-tree.json''"
| "sidecar_name LegacySidecar = ''rebase-conflicts.json''"

text \<open>\<open>wv_remove\<close> is the error that deleting a sidecar meets, \<open>None\<close> if the file is deleted or was not there.\<close>

record ws_view =
  wv_name :: string
  wv_exists :: bool
  wv_head :: "string option"
  wv_tree_sidecar :: "conflict_tree option"
  wv_legacy_sidecar :: "legacy_conflict list option"
  wv_sidecar_dir :: string
  wv_remove :: "sidecar_file \<Rightarrow> string option"
  wv_rev_parse :: "(string \<Rightarrow> git_error + raw_oid option) option"
  wv_git_diff :: "string list \<Rightarrow> blob option"
  wv_untracked :: "string list option"
  wv_file :: "string \<Rightarrow> blob option"
  wv_walk :: "string + path list"
  wv_dirty :: "string list option"

section \<open>Conflict markers\<close>

definition file_has_conflict_markers :: "blob \<Rightarrow> bool" where
  "file_has_conflict_markers content \<longleftrightarrow>
     length content \<le> 256 * 1024 * 1024 \<and> list_ex (prefix ''<<<<<<<'') (split_inclusive content)"

text \<open>One line of a unified diff: the file it belongs to and the files found so far.\<close>

definition diff_line :: "string \<Rightarrow> path option \<times> path list \<Rightarrow> path option \<times> path list" where
  "diff_line line acc =
     (case acc of (current, out) \<Rightarrow>
       (case strip_prefix ''diff --git a/'' line of
          Some rest \<Rightarrow> (map_option (\<lambda>sep. path_from (take sep rest)) (str_find '' b/'' rest), out)
        | None \<Rightarrow>
            if prefix ''+++'' line \<or> prefix ''---'' line then (current, out)
            else if prefix ''+<<<<<<<'' line then
              (current, case current of Some p \<Rightarrow> List.insert p out | None \<Rightarrow> out)
            else (current, out)))"

definition run_diff_and_collect_marker_files :: "ws_view \<Rightarrow> string list \<Rightarrow> path list \<Rightarrow> path list" where
  "run_diff_and_collect_marker_files v args out =
     (case wv_git_diff v args of
        None \<Rightarrow> out
      | Some stdout \<Rightarrow> snd (fold diff_line (str_lines (from_utf8_lossy stdout)) (None, out)))"

definition untracked_marker_files :: "ws_view \<Rightarrow> path list" where
  "untracked_marker_files v =
     (case wv_untracked v of
        None \<Rightarrow> []
      | Some ps \<Rightarrow> map path_from (filter (\<lambda>p. p \<noteq> [] \<and>
          (case wv_file v p of Some c \<Rightarrow> file_has_conflict_markers c | None \<Rightarrow> False)) ps))"

definition find_files_with_new_conflict_markers :: "ws_view \<Rightarrow> string \<Rightarrow> path list" where
  "find_files_with_new_conflict_markers v base =
     (let out1 = run_diff_and_collect_marker_files v [''diff'', ''-U0'', ''--no-color'', base @ ''..HEAD''] [];
          out2 = run_diff_and_collect_marker_files v [''diff'', ''-U0'', ''--no-color'', ''HEAD''] out1
      in sorted_list_of_set (set (out2 @ untracked_marker_files v)))"

definition resolve_workspace_base_ref :: "ws_view \<Rightarrow> string option" where
  "resolve_workspace_base_ref v =
     (case wv_rev_parse v of
        None \<Rightarrow> None
      | Some rev_parse_opt \<Rightarrow>
          (case rev_parse_opt (''refs/manifold/epoch/ws/'' @ wv_name v) of
             Inr (Some oid) \<Rightarrow> Some (raw_oid_str oid)
           | _ \<Rightarrow> (case rev_parse_opt ''refs/manifold/epoch/current'' of
                     Inr (Some oid) \<Rightarrow> Some (raw_oid_str oid)
                   | _ \<Rightarrow> None)))"

definition find_conflicted_files_filtered :: "ws_view \<Rightarrow> path list option \<Rightarrow> string + path list" where
  "find_conflicted_files_filtered v allowed =
     res_bind (case resolve_workspace_base_ref v of
         Some base \<Rightarrow> Inr (find_files_with_new_conflict_markers v base)
       | None \<Rightarrow> res_bind (wv_walk v) (\<lambda>ps. Inr (dedup_by (=) (sort ps))))
       (\<lambda>results. Inr (case allowed of None \<Rightarrow> results | Some ps \<Rightarrow> filter (\<lambda>p. p \<in> set ps) results))"

definition find_conflicted_files :: "ws_view \<Rightarrow> string + path list" where
  "find_conflicted_files v = find_conflicted_files_filtered v None"

definition dirty_paths_vs_head :: "ws_view \<Rightarrow> path list option" where
  "dirty_paths_vs_head v = map_option (\<lambda>ds. map path_from (ds
     @ (case wv_untracked v of None \<Rightarrow> [] | Some us \<Rightarrow> filter (\<lambda>p. p \<noteq> []) us))) (wv_dirty v)"

definition find_genuine_working_copy_conflicts :: "ws_view \<Rightarrow> string + path list" where
  "find_genuine_working_copy_conflicts v =
     res_bind (find_conflicted_files v) (\<lambda>candidates.
       if candidates = [] then Inr candidates
       else case dirty_paths_vs_head v of
              None \<Rightarrow> Inr candidates
            | Some dirty \<Rightarrow> Inr (filter (\<lambda>p. p \<in> set dirty) candidates))"

section \<open>Placeholder blobs in HEAD\<close>

definition SNIFF :: nat where "SNIFF = 64"

partial_function (option) walk_blobs ::
  "(raw_oid \<Rightarrow> git_error + tree_entry list) \<Rightarrow> (raw_oid \<Rightarrow> git_error + blob) \<Rightarrow> path \<Rightarrow> tree_entry list \<Rightarrow> path list \<Rightarrow>
   (string + path list) option" where
  "walk_blobs read_tree read_blob pre entries out =
     (case entries of
        [] \<Rightarrow> Some (Inr out)
      | e # rest \<Rightarrow>
          (case te_mode e of
             GTree \<Rightarrow>
               (case read_tree (te_oid e) of
                  Inl er \<Rightarrow> Some (Inl (''read_tree('' @ raw_oid_str (te_oid e) @ '') failed: '' @ git_error_str er))
                | Inr es \<Rightarrow>
                    Option.bind (walk_blobs read_tree read_blob (join_name pre (te_name e)) es out)
                      (\<lambda>r. case r of Inl er \<Rightarrow> Some (Inl er) | Inr out' \<Rightarrow> walk_blobs read_tree read_blob pre rest out'))
           | GLink \<Rightarrow> walk_blobs read_tree read_blob pre rest out
           | GCommit \<Rightarrow> walk_blobs read_tree read_blob pre rest out
           | _ \<Rightarrow>
               (case read_blob (te_oid e) of
                  Inl er \<Rightarrow> Some (Inl (''read_blob('' @ raw_oid_str (te_oid e) @ '') failed: '' @ git_error_str er))
                | Inr content \<Rightarrow>
                    walk_blobs read_tree read_blob pre rest
                      (if is_tool_placeholder_blob (take SNIFF content) then out @ [join_name pre (te_name e)] else out))))"

definition find_tool_placeholder_blobs :: "gate_repo \<Rightarrow> raw_oid \<Rightarrow> (string + path list) option" where
  "find_tool_placeholder_blobs R tree =
     (case gr_read_tree R tree of
        Inl er \<Rightarrow> Some (Inl (''read_tree('' @ raw_oid_str tree @ '') failed: '' @ git_error_str er))
      | Inr es \<Rightarrow> map_option (\<lambda>r. res_bind r (\<lambda>ps. Inr (sort ps)))
          (walk_blobs (gr_read_tree R) (gr_read_blob R) [] es []))"

definition head_placeholder_paths :: "gate_repo \<Rightarrow> ws_view \<Rightarrow> (string + path list option) option" where
  "head_placeholder_paths R v =
     (case wv_head v of
        None \<Rightarrow> Some (Inr None)
      | Some s \<Rightarrow>
          (case raw_oid_from_str s of
             Inl e \<Rightarrow> Some (Inl (''invalid workspace HEAD OID '' @ quoted s @ '': '' @ oid_parse_error_str e))
           | Inr head \<Rightarrow>
               (case gr_open R of
                  Some e \<Rightarrow> Some (Inl (''failed to open repo at root: '' @ git_error_str e))
                | None \<Rightarrow>
                    (case gr_read_commit R head of
                       Inl e \<Rightarrow> Some (Inl (''read_commit('' @ raw_oid_str head @ '') failed: '' @ git_error_str e))
                     | Inr c \<Rightarrow> map_option (\<lambda>r. res_bind r (\<lambda>ps. Inr (Some ps)))
                         (find_tool_placeholder_blobs R (ci_tree_oid c))))))"

section \<open>The effective state\<close>

record conflict_state =
  es_recorded_paths :: "path list"
  es_placeholder_paths :: "path list"
  es_cleared_stale_sidecar :: bool

definition is_conflicted :: "conflict_state \<Rightarrow> bool" where
  "is_conflicted s \<longleftrightarrow> es_recorded_paths s \<noteq> [] \<or> es_placeholder_paths s \<noteq> []"

definition conflict_count :: "conflict_state \<Rightarrow> nat" where
  "conflict_count s = (if es_recorded_paths s = [] then length (es_placeholder_paths s) else length (es_recorded_paths s))"

definition unresolved_paths :: "conflict_state \<Rightarrow> path list" where
  "unresolved_paths s = sorted_list_of_set (set (es_recorded_paths s @ es_placeholder_paths s))"

definition recorded_sidecar_paths :: "ws_view \<Rightarrow> path list" where
  "recorded_sidecar_paths v =
     (case wv_tree_sidecar v of
        Some t \<Rightarrow> bm_keys (ct_conflicts t)
      | None \<Rightarrow>
          (case wv_legacy_sidecar v of
             Some cs \<Rightarrow> sorted_list_of_set (set (map (\<lambda>c. path_from (lc_path c)) cs))
           | None \<Rightarrow> []))"

definition u32_or_max :: "nat \<Rightarrow> nat" where
  "u32_or_max n = min n (2 ^ 32 - 1)"

definition recorded_conflict_count :: "ws_view \<Rightarrow> nat" where
  "recorded_conflict_count v =
     (case wv_tree_sidecar v of
        Some t \<Rightarrow> u32_or_max (bm_len (ct_conflicts t))
      | None \<Rightarrow> (case wv_legacy_sidecar v of Some cs \<Rightarrow> u32_or_max (length cs) | None \<Rightarrow> 0))"

definition remove_sidecar_error :: "ws_view \<Rightarrow> sidecar_file \<Rightarrow> string \<Rightarrow> string" where
  "remove_sidecar_error v f e = ''failed to delete '' @ wv_sidecar_dir v @ ''/'' @ sidecar_name f @ '': '' @ e"

definition clear_conflict_sidecars :: "ws_view \<Rightarrow> (string + unit) \<times> ws_view" where
  "clear_conflict_sidecars v =
     (case wv_remove v TreeSidecar of
        Some e \<Rightarrow> (Inl (remove_sidecar_error v TreeSidecar e), v)
      | None \<Rightarrow>
          (let v1 = v\<lparr>wv_tree_sidecar := None\<rparr>
           in case wv_remove v LegacySidecar of
                Some e \<Rightarrow> (Inl (remove_sidecar_error v LegacySidecar e), v1)
              | None \<Rightarrow> (Inr (), v1\<lparr>wv_legacy_sidecar := None\<rparr>)))"

text \<open>The state, and the workspace after the attempt to clear a stale sidecar: the error of the attempt is dropped, and
  the state counts the sidecar as cleared either way.\<close>

definition verified_state :: "ws_view \<Rightarrow> path list \<Rightarrow> path list option \<Rightarrow> string + conflict_state \<times> ws_view" where
  "verified_state v recorded head_scan =
     (let state = \<lparr>es_recorded_paths = recorded, es_placeholder_paths = (case head_scan of None \<Rightarrow> [] | Some ps \<Rightarrow> ps),
                   es_cleared_stale_sidecar = False\<rparr>
      in if recorded = [] then Inr (state, v)
         else res_bind (find_conflicted_files_filtered v (Some recorded)) (\<lambda>evidence.
           if evidence = [] \<and> head_scan = Some [] then
             Inr (state\<lparr>es_recorded_paths := [], es_cleared_stale_sidecar := True\<rparr>, snd (clear_conflict_sidecars v))
           else Inr (state, v)))"

definition compute_conflict_state :: "gate_repo \<Rightarrow> bool \<Rightarrow> ws_view \<Rightarrow> (string + conflict_state \<times> ws_view) option" where
  "compute_conflict_state R scan_head_without_sidecar v =
     (let recorded = recorded_sidecar_paths v
      in if \<not> wv_exists v then
           Some (Inr (\<lparr>es_recorded_paths = recorded, es_placeholder_paths = [], es_cleared_stale_sidecar = False\<rparr>, v))
         else map_option (\<lambda>r. res_bind r (verified_state v recorded))
                (if recorded \<noteq> [] \<or> scan_head_without_sidecar then head_placeholder_paths R v else Some (Inr (Some []))))"

definition effective_conflict_state :: "gate_repo \<Rightarrow> ws_view \<Rightarrow> (string + conflict_state \<times> ws_view) option" where
  "effective_conflict_state R v = compute_conflict_state R True v"

definition effective_recorded_conflict_count :: "gate_repo \<Rightarrow> ws_view \<Rightarrow> nat option" where
  "effective_recorded_conflict_count R v = map_option (\<lambda>r. case r of
     Inl _ \<Rightarrow> recorded_conflict_count v | Inr (s, _) \<Rightarrow> u32_or_max (conflict_count s)) (compute_conflict_state R False v)"

section \<open>The gate\<close>

definition classify_placeholder_paths ::
  "gate_repo \<Rightarrow> ws_view \<Rightarrow> path list \<Rightarrow> path list \<times> (path \<times> string) list" where
  "classify_placeholder_paths R v ps =
     (case wv_head v of
        None \<Rightarrow> (ps, [])
      | Some s \<Rightarrow>
          (case raw_oid_from_str s of
             Inl _ \<Rightarrow> (ps, [])
           | Inr head \<Rightarrow>
               if gr_open R \<noteq> None then (ps, [])
               else
                 (let classified = map (\<lambda>p. case gr_read_blob_at_path R head (display_path p) of
                        Inr (Some content) \<Rightarrow> (p, placeholder_blob_has_markers content,
                          case header_prefix_of_blob content of Some h \<Rightarrow> h | None \<Rightarrow> ''#'')
                      | _ \<Rightarrow> (p, True, ''#'')) ps
                  in (map fst (filter (\<lambda>(_, m, _). m) classified),
                      map (\<lambda>(p, _, h). (p, h)) (filter (\<lambda>(_, m, _). \<not> m) classified)))))"

datatype gate_error =
    GateState string
  | UnresolvedConflicts string "path list"
  | PlaceholderBlobs string "path list"
  | LeftoverHeaders string "(path \<times> string) list"

definition check_source :: "gate_repo \<Rightarrow> bool \<Rightarrow> ws_view \<Rightarrow> (gate_error + ws_view) option" where
  "check_source R force v =
     map_option (\<lambda>r. case r of
       Inl e \<Rightarrow> Inl (GateState e)
     | Inr (state, v') \<Rightarrow>
         if \<not> force \<and> es_recorded_paths state \<noteq> [] then Inl (UnresolvedConflicts (wv_name v) (es_recorded_paths state))
         else if es_placeholder_paths state \<noteq> [] then
           (let (markers, headers) = classify_placeholder_paths R v (es_placeholder_paths state)
            in if markers \<noteq> [] then Inl (PlaceholderBlobs (wv_name v) markers)
               else if headers \<noteq> [] then Inl (LeftoverHeaders (wv_name v) headers)
               else Inr v')
         else Inr v') (effective_conflict_state R v)"

text \<open>The sources in the order of their names; the first that is refused ends the check.\<close>

fun assert_sources_clean_for_merge :: "gate_repo \<Rightarrow> bool \<Rightarrow> ws_view list \<Rightarrow> (gate_error + ws_view list) option" where
  "assert_sources_clean_for_merge R force [] = Some (Inr [])"
| "assert_sources_clean_for_merge R force (v # vs) =
     Option.bind (check_source R force v) (\<lambda>r. case r of
       Inl e \<Rightarrow> Some (Inl e)
     | Inr v' \<Rightarrow> map_option (\<lambda>r. res_bind r (\<lambda>vs'. Inr (v' # vs'))) (assert_sources_clean_for_merge R force vs))"

section \<open>Messages\<close>

definition path_list :: "path list \<Rightarrow> string" where
  "path_list ps = join_with [newline] (map (\<lambda>p. ''  - '' @ display_path p) ps)"

definition fix_hint :: "string list \<Rightarrow> string" where
  "fix_hint hs =
     (if length hs > 1 then
        ''Delete the leading header-comment lines shown above for each file '' @ [CHR 0xE2, CHR 0x80, CHR 0x94]
        @ '' each uses its own comment syntax ('' @ [CHR 0x22] @ ''<prefix> structured conflict at ...'' @ [CHR 0x22]
        @ '', '' @ [CHR 0x22] @ ''<prefix> base blob: ...'' @ [CHR 0x22] @ '', '' @ [CHR 0x22] @ ''<prefix> side ... blob: ...''
        @ [CHR 0x22] @ '', or '' @ [CHR 0x22] @ ''<prefix> BINARY CONFLICT at ...'' @ [CHR 0x22]
        @ '', where <prefix> is that file'' @ [CHR 0x27] @ ''s own header prefix)''
      else
        (let h = (case hs of [] \<Rightarrow> ''#'' | p # _ \<Rightarrow> p)
         in ''Delete the leading '' @ quoted h @ '' header lines ('' @ [CHR 0x22] @ h @ '' structured conflict at ...'' @ [CHR 0x22]
            @ '', '' @ [CHR 0x22] @ h @ '' base blob: ...'' @ [CHR 0x22] @ '', '' @ [CHR 0x22] @ h @ '' side ... blob: ...''
            @ [CHR 0x22] @ '', or '' @ [CHR 0x22] @ h @ '' BINARY CONFLICT at ...'' @ [CHR 0x22] @ '')''))"

definition gate_error_str :: "string \<Rightarrow> gate_error \<Rightarrow> string" where
  "gate_error_str into_target err = (case err of
     GateState e \<Rightarrow> e
   | UnresolvedConflicts ws ps \<Rightarrow>
     ''Workspace '' @ quoted ws @ '' has '' @ show_nat (length ps) @ '' unresolved conflict(s):'' @ newline # path_list ps
     @ newline # ''  Resolve them: maw ws resolve '' @ ws @ '' --list, then --keep <side>''
     @ newline # ''  To force merge anyway: maw ws merge '' @ ws @ '' --into '' @ into_target @ '' --force''
   | PlaceholderBlobs ws ps \<Rightarrow>
     ''Workspace '' @ quoted ws @ '' has '' @ show_nat (length ps) @ '' path(s) whose HEAD blob contains tool-authored conflict placeholders:''
     @ newline # path_list ps @ newline # ''  Resolve them: maw ws resolve '' @ ws @ '' --list, then --keep <side>''
     @ newline # ''  Possible cause: the conflict sidecar was deleted or corrupted. This check cannot be bypassed by --force because merging placeholder blobs would corrupt the target branch.''
   | LeftoverHeaders ws phs \<Rightarrow>
     (let hs = sorted_list_of_set (set (map snd phs))
      in ''Workspace '' @ quoted ws @ '' has '' @ show_nat (length phs)
         @ '' path(s) that appear manually resolved but still begin with the maw conflict header:'' @ newline
         # join_with [newline] (map (\<lambda>(p, h). ''  - '' @ display_path p
             @ (if length hs > 1 then '' (header prefix: '' @ quoted h @ '')'' else [])) phs)
         @ newline # ''  '' @ fix_hint hs @ '', commit, and re-run the merge.''
         @ newline # ''  This check cannot be bypassed by --force because merging a blob that still carries the maw conflict header would corrupt the target branch.''))"

end
