(* ===== verification/Gate_Facts.thy ===== *)
theory Gate_Facts
  imports Merge_Gate Materialize_Facts
begin

text \<open>
  What the merge gate lets through: the scan of HEAD finds exactly the blobs with a listed header, a merge that passes
  has none of them, and a conflict whose rendering has no listed header passes once its sidecar is lost.
\<close>

section \<open>The blobs of a tree\<close>

inductive blob_at :: "(raw_oid \<Rightarrow> git_error + tree_entry list) \<Rightarrow> path \<Rightarrow> tree_entry list \<Rightarrow> path \<Rightarrow> raw_oid \<Rightarrow> bool"
  for read_tree where
  here: "e \<in> set es \<Longrightarrow> te_mode e = GBlob \<or> te_mode e = GBlobExecutable \<Longrightarrow>
    blob_at read_tree pre es (join_name pre (te_name e)) (te_oid e)"
| below: "e \<in> set es \<Longrightarrow> te_mode e = GTree \<Longrightarrow> read_tree (te_oid e) = Inr es' \<Longrightarrow>
    blob_at read_tree (join_name pre (te_name e)) es' p oid \<Longrightarrow> blob_at read_tree pre es p oid"

definition entry_holds ::
  "(raw_oid \<Rightarrow> git_error + tree_entry list) \<Rightarrow> path \<Rightarrow> tree_entry \<Rightarrow> path \<Rightarrow> raw_oid \<Rightarrow> bool" where
  "entry_holds rt pre e p oid \<longleftrightarrow>
     (te_mode e \<in> {GBlob, GBlobExecutable} \<and> p = join_name pre (te_name e) \<and> oid = te_oid e)
   \<or> (te_mode e = GTree \<and> (\<exists>es'. rt (te_oid e) = Inr es' \<and> blob_at rt (join_name pre (te_name e)) es' p oid))"

lemma blob_at_ex: "blob_at rt pre es p oid \<longleftrightarrow> (\<exists>e \<in> set es. entry_holds rt pre e p oid)"
proof
  assume "blob_at rt pre es p oid"
  then show "\<exists>e \<in> set es. entry_holds rt pre e p oid"
    by (cases rule: blob_at.cases) (auto simp: entry_holds_def)
next
  assume "\<exists>e \<in> set es. entry_holds rt pre e p oid"
  then show "blob_at rt pre es p oid"
    unfolding entry_holds_def by (elim bexE disjE conjE exE) (simp_all add: blob_at.here blob_at.below)
qed

lemma blob_at_Cons: "blob_at rt pre (e # es) p oid \<longleftrightarrow> entry_holds rt pre e p oid \<or> blob_at rt pre es p oid"
  using blob_at_ex [of rt pre "e # es" p oid] blob_at_ex [of rt pre es p oid] by simp

lemma blob_at_Nil: "\<not> blob_at rt pre [] p oid"
  by (simp add: blob_at_ex)

section \<open>The scan\<close>

lemma short_prefix: "length p \<le> n \<Longrightarrow> prefix p (take n s) \<longleftrightarrow> prefix p s"
  by (metis append_eq_conv_conj prefix_def prefix_order.trans take_is_prefix prefix_length_prefix length_take min.absorb_iff2
      min_def nle_le take_all)

lemma sniff_enough: "is_tool_placeholder_blob (take SNIFF b) \<longleftrightarrow> is_tool_placeholder_blob b"
  by (simp add: is_tool_placeholder_blob_def TOOL_PLACEHOLDER_PREFIXES_def SNIFF_def short_prefix)

definition placeholder_at ::
  "(raw_oid \<Rightarrow> git_error + tree_entry list) \<Rightarrow> (raw_oid \<Rightarrow> git_error + blob) \<Rightarrow> path \<Rightarrow> tree_entry list \<Rightarrow> path \<Rightarrow> bool" where
  "placeholder_at rt rb pre es p \<longleftrightarrow> (\<exists>oid b. blob_at rt pre es p oid \<and> rb oid = Inr b \<and> is_tool_placeholder_blob b)"

definition all_read :: "(raw_oid \<Rightarrow> git_error + tree_entry list) \<Rightarrow> (raw_oid \<Rightarrow> git_error + blob) \<Rightarrow> path \<Rightarrow> tree_entry list \<Rightarrow> bool" where
  "all_read rt rb pre es \<longleftrightarrow> (\<forall>p oid. blob_at rt pre es p oid \<longrightarrow> (\<exists>b. rb oid = Inr b))"

lemma placeholder_at_simps:
  "\<not> placeholder_at rt rb pre [] p"
  "te_mode e \<in> {GLink, GCommit} \<Longrightarrow> placeholder_at rt rb pre (e # es) p \<longleftrightarrow> placeholder_at rt rb pre es p"
  "te_mode e \<in> {GBlob, GBlobExecutable} \<Longrightarrow> rb (te_oid e) = Inr b \<Longrightarrow> placeholder_at rt rb pre (e # es) p \<longleftrightarrow>
     (p = join_name pre (te_name e) \<and> is_tool_placeholder_blob b) \<or> placeholder_at rt rb pre es p"
  "te_mode e = GTree \<Longrightarrow> rt (te_oid e) = Inr es' \<Longrightarrow> placeholder_at rt rb pre (e # es) p \<longleftrightarrow>
     placeholder_at rt rb (join_name pre (te_name e)) es' p \<or> placeholder_at rt rb pre es p"
  by (auto simp: placeholder_at_def blob_at_Nil blob_at_Cons entry_holds_def)

lemma all_read_simps:
  "all_read rt rb pre []"
  "te_mode e \<in> {GLink, GCommit} \<Longrightarrow> all_read rt rb pre (e # es) \<longleftrightarrow> all_read rt rb pre es"
  "te_mode e \<in> {GBlob, GBlobExecutable} \<Longrightarrow> rb (te_oid e) = Inr b \<Longrightarrow> all_read rt rb pre (e # es) \<longleftrightarrow> all_read rt rb pre es"
  "te_mode e = GTree \<Longrightarrow> rt (te_oid e) = Inr es' \<Longrightarrow> all_read rt rb pre (e # es) \<longleftrightarrow>
     all_read rt rb (join_name pre (te_name e)) es' \<and> all_read rt rb pre es"
  by (auto simp: all_read_def blob_at_Nil blob_at_Cons entry_holds_def)

lemma walk_blobs_exact:
  assumes "walk_blobs rt rb pre es out = Some r"
  shows "\<forall>ps. r = Inr ps \<longrightarrow> all_read rt rb pre es \<and> set ps = set out \<union> {p. placeholder_at rt rb pre es p}"
proof (rule walk_blobs.raw_induct [where P = "\<lambda>rt rb pre es out r.
     \<forall>ps. r = Inr ps \<longrightarrow> all_read rt rb pre es \<and> set ps = set out \<union> {p. placeholder_at rt rb pre es p}", OF _ assms], goal_cases)
  case (1 walk rt rb pre es out r)
  show ?case
  proof (cases es)
    case Nil
    then show ?thesis using 1(2) by (auto simp: placeholder_at_simps all_read_simps)
  next
    case (Cons e es')
    show ?thesis
    proof (intro allI impI)
      fix ps assume r: "r = Inr ps"
      consider (tree) "te_mode e = GTree" | (blob) "te_mode e \<in> {GBlob, GBlobExecutable}" | (skip) "te_mode e \<in> {GLink, GCommit}"
        by (cases "te_mode e") auto
      then show "all_read rt rb pre es \<and> set ps = set out \<union> {p. placeholder_at rt rb pre es p}"
      proof cases
        case tree
        obtain es1 out1 where sub: "rt (te_oid e) = Inr es1" "walk rt rb (join_name pre (te_name e)) es1 out = Some (Inr out1)"
            "walk rt rb pre es' out1 = Some (Inr ps)"
          using 1(2) r by (auto simp: Cons tree Option.bind_eq_Some_conv split: sum.splits) (metis sum.exhaust)
        show ?thesis using 1(1) [OF sub(2)] 1(1) [OF sub(3)] tree sub(1)
          by (auto simp: Cons placeholder_at_simps all_read_simps)
      next
        case blob
        then obtain b where b: "rb (te_oid e) = Inr b"
            "walk rt rb pre es' (if is_tool_placeholder_blob (take SNIFF b) then out @ [join_name pre (te_name e)] else out) = Some (Inr ps)"
          using 1(2) r by (auto simp: Cons split: sum.splits)
        show ?thesis using 1(1) [OF b(2)] blob b(1)
          by (auto simp: Cons placeholder_at_simps all_read_simps sniff_enough split: if_splits)
      next
        case skip
        then have "walk rt rb pre es' out = Some (Inr ps)" using 1(2) r by (auto simp: Cons)
        from 1(1) [OF this] skip show ?thesis by (auto simp: Cons placeholder_at_simps all_read_simps)
      qed
    qed
  qed
qed

lemma scan_exact:
  assumes "find_tool_placeholder_blobs R tree = Some (Inr ps)"
  obtains es where "gr_read_tree R tree = Inr es" "all_read (gr_read_tree R) (gr_read_blob R) [] es"
    "set ps = {p. placeholder_at (gr_read_tree R) (gr_read_blob R) [] es p}" "sorted ps"
proof -
  obtain es out where "gr_read_tree R tree = Inr es" "walk_blobs (gr_read_tree R) (gr_read_blob R) [] es [] = Some (Inr out)"
      "ps = sort out"
    using assms by (auto simp: find_tool_placeholder_blobs_def result_simps split: sum.splits)
  then show thesis using walk_blobs_exact [of "gr_read_tree R" "gr_read_blob R" "[]" es "[]" "Inr out"] that by simp
qed

lemma walk_blobs_returns:
  fixes h :: "raw_oid \<Rightarrow> nat"
  assumes "\<And>oid es e. rt oid = Inr es \<Longrightarrow> e \<in> set es \<Longrightarrow> te_mode e = GTree \<Longrightarrow> h (te_oid e) < h oid"
    and "\<forall>e \<in> set es. te_mode e = GTree \<longrightarrow> h (te_oid e) < n"
  shows "\<exists>r. walk_blobs rt rb pre es out = Some r"
  using assms(2)
proof (induction n arbitrary: pre es out)
  case 0
  then have "\<forall>e \<in> set es. te_mode e \<noteq> GTree" by auto
  then show ?case
  proof (induction es arbitrary: out)
    case (Cons e es)
    have rest: "\<exists>r. walk_blobs rt rb pre es out = Some r" for out using Cons by simp
    from Cons.prems have "te_mode e \<noteq> GTree" by simp
    then show ?case using rest
      by (subst walk_blobs.simps) (auto split: git_entry_mode.split sum.split)
  qed (simp add: walk_blobs.simps)
next
  case (Suc n)
  from Suc.prems show ?case
  proof (induction es arbitrary: out)
    case (Cons e es)
    have rest: "\<exists>r. walk_blobs rt rb pre es out = Some r" for out using Cons by simp
    show ?case
    proof (cases "te_mode e = GTree")
      case False
      then show ?thesis using rest by (subst walk_blobs.simps) (auto split: git_entry_mode.split sum.split)
    next
      case True
      have sub: "\<exists>r. walk_blobs rt rb (join_name pre (te_name e)) es' out = Some r" if "rt (te_oid e) = Inr es'" for es'
      proof (rule Suc.IH, intro ballI impI)
        fix e' assume "e' \<in> set es'" "te_mode e' = GTree"
        then have "h (te_oid e') < h (te_oid e)" using assms(1) that by blast
        then show "h (te_oid e') < n" using Cons.prems True by fastforce
      qed
      show ?thesis
      proof (cases "rt (te_oid e)")
        case (Inl er)
        then show ?thesis using True by (subst walk_blobs.simps) simp
      next
        case (Inr es')
        then obtain r where r: "walk_blobs rt rb (join_name pre (te_name e)) es' out = Some r" using sub by blast
        then show ?thesis using True Inr rest by (subst walk_blobs.simps) (simp split: sum.split)
      qed
    qed
  qed (simp add: walk_blobs.simps)
qed

section \<open>A check that passes\<close>

lemma head_scan:
  assumes "head_placeholder_paths R v = Some (Inr hs)" "wv_head v = Some s"
  obtains head c ps where "raw_oid_from_str s = Inr head" "gr_open R = None" "gr_read_commit R head = Inr c"
    "find_tool_placeholder_blobs R (ci_tree_oid c) = Some (Inr ps)" "hs = Some ps"
  using assms by (auto simp: head_placeholder_paths_def result_simps split: sum.splits option.splits)

lemma classify_nonempty:
  "ps \<noteq> [] \<Longrightarrow> classify_placeholder_paths R v ps = (markers, headers) \<Longrightarrow> markers \<noteq> [] \<or> headers \<noteq> []"
proof -
  assume ps: "ps \<noteq> []" and run: "classify_placeholder_paths R v ps = (markers, headers)"
  have part: "map f (filter (\<lambda>(_, m, _). m) xs) \<noteq> [] \<or> map g (filter (\<lambda>(_, m, _). \<not> m) xs) \<noteq> []"
    if "xs \<noteq> []" for xs :: "(path \<times> bool \<times> string) list" and f :: "path \<times> bool \<times> string \<Rightarrow> path" and g :: "path \<times> bool \<times> string \<Rightarrow> path \<times> string"
    using that by (cases xs) auto
  show ?thesis
  proof (cases "case wv_head v of None \<Rightarrow> True | Some s \<Rightarrow> (\<exists>e. raw_oid_from_str s = Inl e) \<or> gr_open R \<noteq> None")
    case True
    then have "markers = ps" using run
      by (auto simp: classify_placeholder_paths_def split: option.splits sum.splits)
    then show ?thesis using ps by simp
  next
    case False
    then obtain s head where head: "wv_head v = Some s" "raw_oid_from_str s = Inr head" "gr_open R = None"
      by (auto split: option.splits) (metis sum.exhaust)
    let ?xs = "map (\<lambda>p. case gr_read_blob_at_path R head (display_path p) of
                        Inr (Some content) \<Rightarrow> (p, placeholder_blob_has_markers content,
                          case header_prefix_of_blob content of Some h \<Rightarrow> h | None \<Rightarrow> ''#'')
                      | _ \<Rightarrow> (p, True, ''#'')) ps"
    have "markers = map fst (filter (\<lambda>(_, m, _). m) ?xs)" "headers = map (\<lambda>(p, _, h). (p, h)) (filter (\<lambda>(_, m, _). \<not> m) ?xs)"
      using run head by (simp_all add: classify_placeholder_paths_def Let_def)
    moreover have "?xs \<noteq> []" using ps by simp
    ultimately show ?thesis using part [of ?xs fst "\<lambda>(p, _, h). (p, h)"] by simp
  qed
qed

lemma check_source_passes:
  assumes "check_source R force v = Some (Inr v')"
  obtains state where "effective_conflict_state R v = Some (Inr (state, v'))" "es_placeholder_paths state = []"
    "force \<or> es_recorded_paths state = []"
proof -
  obtain state v1 where eff: "effective_conflict_state R v = Some (Inr (state, v1))"
    using assms by (auto simp: check_source_def not_Inl_iff split: sum.splits)
  have "v1 = v' \<and> es_placeholder_paths state = [] \<and> (force \<or> es_recorded_paths state = [])"
  proof (cases "es_placeholder_paths state = []")
    case True
    then show ?thesis using assms eff by (auto simp: check_source_def split: if_splits)
  next
    case False
    obtain markers headers where cl: "classify_placeholder_paths R v (es_placeholder_paths state) = (markers, headers)"
      by (cases "classify_placeholder_paths R v (es_placeholder_paths state)")
    then have "markers \<noteq> [] \<or> headers \<noteq> []" using classify_nonempty False by blast
    then show ?thesis using assms eff cl False by (auto simp: check_source_def split: if_splits)
  qed
  then show thesis using that eff by blast
qed

lemma gate_passes_each:
  "assert_sources_clean_for_merge R force vs = Some (Inr vs') \<Longrightarrow> v \<in> set vs \<Longrightarrow> \<exists>v'. check_source R force v = Some (Inr v')"
  by (induction vs arbitrary: vs')
    (auto simp: Option.bind_eq_Some_conv result_simps not_Inl_iff split: sum.splits)

lemma effective_parts:
  assumes "effective_conflict_state R v = Some (Inr (state, v'))" "wv_exists v"
  obtains hs where "head_placeholder_paths R v = Some (Inr hs)"
    "verified_state v (recorded_sidecar_paths v) hs = Inr (state, v')"
    "es_placeholder_paths state = (case hs of None \<Rightarrow> [] | Some ps \<Rightarrow> ps)"
proof -
  obtain hs where hs: "head_placeholder_paths R v = Some (Inr hs)" "verified_state v (recorded_sidecar_paths v) hs = Inr (state, v')"
    using assms by (auto simp: effective_conflict_state_def compute_conflict_state_def Let_def result_simps)
  moreover have "es_placeholder_paths state = (case hs of None \<Rightarrow> [] | Some ps \<Rightarrow> ps)"
    using hs(2) by (auto simp: verified_state_def Let_def result_simps split: if_splits)
  ultimately show thesis using that by blast
qed

text \<open>C13. A merge that passes the gate has, in every source whose HEAD resolves, no blob with a listed placeholder header
  anywhere in HEAD, \<open>--force\<close> or not; without \<open>--force\<close> no source has a recorded conflict whose path still shows
  conflict markers.\<close>

theorem gate_keeps_placeholders_out:
  assumes "assert_sources_clean_for_merge R force vs = Some (Inr vs')" "v \<in> set vs" "wv_exists v" "wv_head v = Some s"
  shows "(\<exists>head c es. raw_oid_from_str s = Inr head \<and> gr_read_commit R head = Inr c \<and> gr_read_tree R (ci_tree_oid c) = Inr es
      \<and> (\<forall>p oid. blob_at (gr_read_tree R) [] es p oid \<longrightarrow> (\<exists>b. gr_read_blob R oid = Inr b \<and> \<not> is_tool_placeholder_blob b)))
    \<and> (force \<or> recorded_sidecar_paths v = [] \<or> find_conflicted_files_filtered v (Some (recorded_sidecar_paths v)) = Inr [])"
proof -
  obtain v' where "check_source R force v = Some (Inr v')" using gate_passes_each [OF assms(1,2)] by blast
  then obtain state where eff: "effective_conflict_state R v = Some (Inr (state, v'))" and none: "es_placeholder_paths state = []"
      and rec: "force \<or> es_recorded_paths state = []"
    by (rule check_source_passes)
  obtain hs where hs: "head_placeholder_paths R v = Some (Inr hs)"
      "verified_state v (recorded_sidecar_paths v) hs = Inr (state, v')"
      "es_placeholder_paths state = (case hs of None \<Rightarrow> [] | Some ps \<Rightarrow> ps)"
    using effective_parts [OF eff assms(3)] .
  obtain head c ps where h: "raw_oid_from_str s = Inr head" "gr_open R = None" "gr_read_commit R head = Inr c"
      "find_tool_placeholder_blobs R (ci_tree_oid c) = Some (Inr ps)" "hs = Some ps"
    using head_scan [OF hs(1) assms(4)] .
  obtain es where es: "gr_read_tree R (ci_tree_oid c) = Inr es" "all_read (gr_read_tree R) (gr_read_blob R) [] es"
      "set ps = {p. placeholder_at (gr_read_tree R) (gr_read_blob R) [] es p}"
    using scan_exact [OF h(4)] .
  have "ps = []" using none hs(3) h(5) by simp
  then have "\<forall>p oid. blob_at (gr_read_tree R) [] es p oid \<longrightarrow> (\<exists>b. gr_read_blob R oid = Inr b \<and> \<not> is_tool_placeholder_blob b)"
    using es(2,3) by (fastforce simp: placeholder_at_def all_read_def)
  moreover have "force \<or> recorded_sidecar_paths v = [] \<or> find_conflicted_files_filtered v (Some (recorded_sidecar_paths v)) = Inr []"
    using rec hs(2) by (auto simp: verified_state_def Let_def result_simps split: if_splits)
  ultimately show ?thesis using h es(1) by blast
qed

text \<open>C20. On an object store whose trees are acyclic the scan of a tree returns, with an error or with the sorted list
  of exactly those paths, at any depth, whose regular or executable blob begins with a listed placeholder header;
  looking at the first 64 bytes is enough.\<close>

theorem placeholder_scan_exact:
  fixes h :: "raw_oid \<Rightarrow> nat"
  assumes "\<And>oid es e. gr_read_tree R oid = Inr es \<Longrightarrow> e \<in> set es \<Longrightarrow> te_mode e = GTree \<Longrightarrow> h (te_oid e) < h oid"
  shows "\<exists>r. find_tool_placeholder_blobs R tree = Some r
    \<and> (case r of Inl _ \<Rightarrow> True | Inr ps \<Rightarrow> sorted ps \<and> (\<exists>es. gr_read_tree R tree = Inr es
        \<and> set ps = {p. placeholder_at (gr_read_tree R) (gr_read_blob R) [] es p}))"
proof (cases "gr_read_tree R tree")
  case (Inl er)
  then show ?thesis by (simp add: find_tool_placeholder_blobs_def)
next
  case (Inr es)
  have "\<forall>e \<in> set es. te_mode e = GTree \<longrightarrow> h (te_oid e) < h tree" using assms Inr by blast
  then obtain w where "walk_blobs (gr_read_tree R) (gr_read_blob R) [] es [] = Some w"
    using walk_blobs_returns [of "gr_read_tree R" h] assms by blast
  then obtain r where r: "find_tool_placeholder_blobs R tree = Some r" by (simp add: find_tool_placeholder_blobs_def Inr)
  show ?thesis
  proof (cases r)
    case (Inr ps)
    then have "find_tool_placeholder_blobs R tree = Some (Inr ps)" using r by simp
    then show ?thesis using r Inr by (auto elim: scan_exact)
  qed (use r in simp)
qed

section \<open>A lost sidecar\<close>

text \<open>HEAD holds what materialising a conflict tree made of its conflicts, and elsewhere no placeholder.\<close>

definition committed_at :: "gate_repo \<Rightarrow> render_env \<Rightarrow> conflict_tree \<Rightarrow> string \<Rightarrow> bool" where
  "committed_at R rv t s \<longleftrightarrow> (\<exists>head c es ps. raw_oid_from_str s = Inr head \<and> gr_open R = None \<and> gr_read_commit R head = Inr c
     \<and> gr_read_tree R (ci_tree_oid c) = Inr es \<and> find_tool_placeholder_blobs R (ci_tree_oid c) = Some (Inr ps)
     \<and> (\<forall>p oid b. blob_at (gr_read_tree R) [] es p oid \<longrightarrow> gr_read_blob R oid = Inr b \<longrightarrow>
          (case state_at t p of ConflictAt k \<Rightarrow> render_conflict rv p k = Inr b | _ \<Rightarrow> \<not> is_tool_placeholder_blob b))
     \<and> (\<forall>p k. state_at t p = ConflictAt k \<longrightarrow> (\<exists>oid. blob_at (gr_read_tree R) [] es p oid)))"

lemma lost_sidecar_placeholders:
  assumes "committed_at R rv t s" "wv_head v = Some s"
  obtains ps where "head_placeholder_paths R v = Some (Inr (Some ps))"
    "set ps = {p. \<exists>k. state_at t p = ConflictAt k \<and> header_listed rv p k}"
proof -
  obtain head c es ps where h: "raw_oid_from_str s = Inr head" "gr_open R = None" "gr_read_commit R head = Inr c"
      "gr_read_tree R (ci_tree_oid c) = Inr es" "find_tool_placeholder_blobs R (ci_tree_oid c) = Some (Inr ps)"
      and holds: "\<And>p oid b. blob_at (gr_read_tree R) [] es p oid \<Longrightarrow> gr_read_blob R oid = Inr b \<Longrightarrow>
          (case state_at t p of ConflictAt k \<Rightarrow> render_conflict rv p k = Inr b | _ \<Rightarrow> \<not> is_tool_placeholder_blob b)"
      and present: "\<And>p k. state_at t p = ConflictAt k \<Longrightarrow> \<exists>oid. blob_at (gr_read_tree R) [] es p oid"
    using assms(1) unfolding committed_at_def by blast
  have "head_placeholder_paths R v = Some (Inr (Some ps))" using assms(2) h by (simp add: head_placeholder_paths_def)
  moreover have "set ps = {p. \<exists>k. state_at t p = ConflictAt k \<and> header_listed rv p k}"
  proof -
    obtain es' where "gr_read_tree R (ci_tree_oid c) = Inr es'" and all: "all_read (gr_read_tree R) (gr_read_blob R) [] es'"
        and ps: "set ps = {p. placeholder_at (gr_read_tree R) (gr_read_blob R) [] es' p}"
      using scan_exact [OF h(5)] .
    then have es': "es' = es" using h(4) by simp
    have "placeholder_at (gr_read_tree R) (gr_read_blob R) [] es p \<longleftrightarrow> (\<exists>k. state_at t p = ConflictAt k \<and> header_listed rv p k)" for p
    proof
      assume "placeholder_at (gr_read_tree R) (gr_read_blob R) [] es p"
      then obtain oid b where b: "blob_at (gr_read_tree R) [] es p oid" "gr_read_blob R oid = Inr b" "is_tool_placeholder_blob b"
        by (auto simp: placeholder_at_def)
      show "\<exists>k. state_at t p = ConflictAt k \<and> header_listed rv p k"
        using holds [OF b(1,2)] b(3) placeholder_iff_listed by (auto split: path_state.splits)
    next
      assume "\<exists>k. state_at t p = ConflictAt k \<and> header_listed rv p k"
      then obtain k where k: "state_at t p = ConflictAt k" "header_listed rv p k" by blast
      obtain oid where oid: "blob_at (gr_read_tree R) [] es p oid" using present [OF k(1)] by blast
      obtain b where b: "gr_read_blob R oid = Inr b" using all oid by (auto simp: all_read_def es')
      have "render_conflict rv p k = Inr b" using holds [OF oid b] k(1) by simp
      then have "is_tool_placeholder_blob b" using placeholder_iff_listed k(2) by blast
      then show "placeholder_at (gr_read_tree R) (gr_read_blob R) [] es p" using oid b by (auto simp: placeholder_at_def)
    qed
    then show ?thesis using ps es' by simp
  qed
  ultimately show thesis using that by blast
qed

lemma check_source_lost:
  assumes "wv_exists v" "recorded_sidecar_paths v = []" "head_placeholder_paths R v = Some (Inr (Some ps))"
  shows "(\<exists>v'. check_source R force v = Some (Inr v')) \<longleftrightarrow> ps = []"
proof -
  have eff: "effective_conflict_state R v = Some (Inr (\<lparr>es_recorded_paths = [], es_placeholder_paths = ps,
      es_cleared_stale_sidecar = False\<rparr>, v))"
    using assms by (simp add: effective_conflict_state_def compute_conflict_state_def verified_state_def)
  show ?thesis
  proof (cases "ps = []")
    case True
    then show ?thesis using eff by (simp add: check_source_def)
  next
    case False
    have "check_source R force v \<noteq> Some (Inr v')" for v'
    proof
      assume "check_source R force v = Some (Inr v')"
      then obtain state where "effective_conflict_state R v = Some (Inr (state, v'))" "es_placeholder_paths state = []"
        by (rule check_source_passes)
      then show False using eff False by auto
    qed
    then show ?thesis using False by simp
  qed
qed

text \<open>C34. When the rendered conflicts of a tree are committed and the sidecars are gone, the gate, with or without
  \<open>--force\<close>, refuses the workspace exactly if some conflict was rendered with a listed header. A workspace whose
  conflicts are all text add/add or modify/delete conflicts is merged with the conflict markers in it.\<close>

theorem lost_sidecar_gate:
  assumes "wv_exists v" "wv_tree_sidecar v = None" "wv_legacy_sidecar v = None" "wv_head v = Some s" "committed_at R rv t s"
  shows "(\<exists>vs'. assert_sources_clean_for_merge R force [v] = Some (Inr vs')) \<longleftrightarrow>
    \<not> (\<exists>p k. state_at t p = ConflictAt k \<and> header_listed rv p k)"
proof -
  obtain ps where ps: "head_placeholder_paths R v = Some (Inr (Some ps))"
      "set ps = {p. \<exists>k. state_at t p = ConflictAt k \<and> header_listed rv p k}"
    using lost_sidecar_placeholders [OF assms(5,4)] .
  have "recorded_sidecar_paths v = []" using assms(2,3) by (simp add: recorded_sidecar_paths_def)
  from check_source_lost [OF assms(1) this ps(1)]
  have "(\<exists>v'. check_source R force v = Some (Inr v')) \<longleftrightarrow> ps = []" .
  moreover have "(\<exists>vs'. assert_sources_clean_for_merge R force [v] = Some (Inr vs')) \<longleftrightarrow> (\<exists>v'. check_source R force v = Some (Inr v'))"
    by (cases "check_source R force v") (simp_all split: sum.split)
  moreover have "ps = [] \<longleftrightarrow> \<not> (\<exists>p k. state_at t p = ConflictAt k \<and> header_listed rv p k)"
    using ps(2) by (auto simp flip: set_empty)
  ultimately show ?thesis by simp
qed

section \<open>Stale sidecars\<close>

lemma effective_unstuck:
  "map_option (map_sum (\<lambda>e. e) fst) (effective_conflict_state R (v\<lparr>wv_remove := g\<rparr>)) = map_option (map_sum (\<lambda>e. e) fst) (effective_conflict_state R v)"
proof -
  have parts: "recorded_sidecar_paths (v\<lparr>wv_remove := g\<rparr>) = recorded_sidecar_paths v"
      "head_placeholder_paths R (v\<lparr>wv_remove := g\<rparr>) = head_placeholder_paths R v"
      "find_conflicted_files_filtered (v\<lparr>wv_remove := g\<rparr>) only = find_conflicted_files_filtered v only" for only
    by (simp_all add: recorded_sidecar_paths_def head_placeholder_paths_def find_conflicted_files_filtered_def
        resolve_workspace_base_ref_def find_files_with_new_conflict_markers_def run_diff_and_collect_marker_files_def
        untracked_marker_files_def cong: if_cong option.case_cong)
  have verified: "map_sum (\<lambda>e. e) fst (verified_state (v\<lparr>wv_remove := g\<rparr>) rs hs) = map_sum (\<lambda>e. e) fst (verified_state v rs hs)" for rs hs
    by (cases "find_conflicted_files_filtered v (Some rs)") (simp_all add: verified_state_def parts Let_def)
  then have "map_sum (\<lambda>e. e) fst (res_bind x (verified_state (v\<lparr>wv_remove := g\<rparr>) rs)) = map_sum (\<lambda>e. e) fst (res_bind x (verified_state v rs))" for x rs
    by (cases x) simp_all
  then show ?thesis
    by (simp add: effective_conflict_state_def compute_conflict_state_def parts Let_def option.map_comp comp_def)
qed

lemma map_sum_Inr: "map_sum f g a = Inr y \<Longrightarrow> \<exists>x. a = Inr x \<and> y = g x"
  by (cases a) auto

lemma effective_unstuck_state:
  assumes "effective_conflict_state R v = Some (Inr (s, w))"
  shows "\<exists>w'. effective_conflict_state R (v\<lparr>wv_remove := g\<rparr>) = Some (Inr (s, w'))"
  using effective_unstuck [where R = R and v = v and g = g] assms
  by (cases "effective_conflict_state R (v\<lparr>wv_remove := g\<rparr>)") (auto dest!: map_sum_Inr)

text \<open>What is left of the sidecars after the attempt to clear them.\<close>

lemma clear_cases:
  obtains (stuck) e where "wv_remove v TreeSidecar = Some e" "snd (clear_conflict_sidecars v) = v"
  | (half) e where "wv_remove v TreeSidecar = None" "wv_remove v LegacySidecar = Some e"
      "snd (clear_conflict_sidecars v) = v\<lparr>wv_tree_sidecar := None\<rparr>"
  | (full) "wv_remove v TreeSidecar = None" "wv_remove v LegacySidecar = None"
      "snd (clear_conflict_sidecars v) = v\<lparr>wv_tree_sidecar := None, wv_legacy_sidecar := None\<rparr>"
  by (cases "wv_remove v TreeSidecar"; cases "wv_remove v LegacySidecar") (simp_all add: clear_conflict_sidecars_def)

lemma clear_keeps:
  "wv_exists (snd (clear_conflict_sidecars v)) = wv_exists v"
  "head_placeholder_paths R (snd (clear_conflict_sidecars v)) = head_placeholder_paths R v"
  "find_conflicted_files_filtered (snd (clear_conflict_sidecars v)) only = find_conflicted_files_filtered v only"
  by (cases v rule: clear_cases; simp add: head_placeholder_paths_def find_conflicted_files_filtered_def
        resolve_workspace_base_ref_def find_files_with_new_conflict_markers_def run_diff_and_collect_marker_files_def
        untracked_marker_files_def cong: if_cong option.case_cong)+

lemma no_evidence_subset:
  "find_conflicted_files_filtered v (Some ps) = Inr [] \<Longrightarrow> set qs \<subseteq> set ps \<Longrightarrow> find_conflicted_files_filtered v (Some qs) = Inr []"
  by (auto simp: find_conflicted_files_filtered_def result_simps filter_empty_conv split: option.splits)

lemma evidence_other:
  "find_conflicted_files_filtered v (Some ps) = Inr xs \<Longrightarrow> \<exists>ys. find_conflicted_files_filtered v (Some qs) = Inr ys"
  by (auto simp: find_conflicted_files_filtered_def result_simps split: option.splits)

text \<open>C22. Reading the effective state of a workspace again, with whatever sidecars can be deleted by then, gives the
  same state unless the first reading cleared a stale sidecar. It clears one only when the recorded paths show no
  markers and HEAD was scanned and has no placeholder, and the state is then not conflicted, even if the deletion
  fails. The second reading has no placeholder either; it tries to clear again what the first could not delete, and it
  is conflicted only if the first deleted the structured sidecar and not the legacy one, and that one names paths the
  structured one did not. If every file can be deleted, nothing is left to clear.\<close>

theorem effective_state_stable:
  assumes "effective_conflict_state R v = Some (Inr (s, v'))"
  shows "(\<not> es_cleared_stale_sidecar s \<longrightarrow> v' = v \<and> es_recorded_paths s = recorded_sidecar_paths v
        \<and> (\<exists>w. effective_conflict_state R (v'\<lparr>wv_remove := g\<rparr>) = Some (Inr (s, w))))
    \<and> (es_cleared_stale_sidecar s \<longrightarrow> \<not> is_conflicted s \<and> v' = snd (clear_conflict_sidecars v) \<and> wv_exists v
        \<and> find_conflicted_files_filtered v (Some (recorded_sidecar_paths v)) = Inr [] \<and> head_placeholder_paths R v = Some (Inr (Some []))
        \<and> (\<exists>s' w. effective_conflict_state R (v'\<lparr>wv_remove := g\<rparr>) = Some (Inr (s', w)) \<and> es_placeholder_paths s' = []
            \<and> (es_cleared_stale_sidecar s' \<longleftrightarrow> recorded_sidecar_paths v' \<noteq> [] \<and> \<not> is_conflicted s')
            \<and> (is_conflicted s' \<longrightarrow> fst (clear_conflict_sidecars v) \<noteq> Inr () \<and> v' = v\<lparr>wv_tree_sidecar := None\<rparr>
                \<and> es_recorded_paths s' = recorded_sidecar_paths v'
                \<and> \<not> set (recorded_sidecar_paths v') \<subseteq> set (recorded_sidecar_paths v)))
        \<and> (fst (clear_conflict_sidecars v) = Inr () \<longrightarrow> recorded_sidecar_paths v' = []))"
proof (cases "es_cleared_stale_sidecar s")
  case False
  have "v' = v \<and> es_recorded_paths s = recorded_sidecar_paths v"
  proof (cases "wv_exists v")
    case exists: True
    obtain hs where "verified_state v (recorded_sidecar_paths v) hs = Inr (s, v')"
      using effective_parts [OF assms exists] by blast
    then show ?thesis using False by (auto simp: verified_state_def Let_def result_simps split: if_splits)
  qed (use assms in \<open>auto simp: effective_conflict_state_def compute_conflict_state_def Let_def\<close>)
  then show ?thesis using False effective_unstuck_state [OF assms, of g] by simp
next
  case cleared: True
  have exists: "wv_exists v"
    using assms cleared by (auto simp: effective_conflict_state_def compute_conflict_state_def Let_def split: if_splits)
  obtain hs where hs: "head_placeholder_paths R v = Some (Inr hs)" "verified_state v (recorded_sidecar_paths v) hs = Inr (s, v')"
    using effective_parts [OF assms exists] by blast
  then have c: "hs = Some []" "find_conflicted_files_filtered v (Some (recorded_sidecar_paths v)) = Inr []"
      "es_recorded_paths s = []" "es_placeholder_paths s = []" "v' = snd (clear_conflict_sidecars v)"
    using cleared by (auto simp: verified_state_def Let_def result_simps split: if_splits)
  have kept: "wv_exists v'" "head_placeholder_paths R v' = Some (Inr (Some []))"
      "find_conflicted_files_filtered v' only = find_conflicted_files_filtered v only" for only
    using exists hs(1) c(1) by (simp_all add: c(5) clear_keeps)
  obtain ys where ys: "find_conflicted_files_filtered v (Some (recorded_sidecar_paths v')) = Inr ys"
    using evidence_other [OF c(2)] by blast
  define s' where "s' = \<lparr>es_recorded_paths = (if ys = [] then [] else recorded_sidecar_paths v'), es_placeholder_paths = [],
    es_cleared_stale_sidecar = (recorded_sidecar_paths v' \<noteq> [] \<and> ys = [])\<rparr>"
  have none: "ys = []" if "set (recorded_sidecar_paths v') \<subseteq> set (recorded_sidecar_paths v)"
    using no_evidence_subset [OF c(2) that] ys by simp
  have "\<exists>w. effective_conflict_state R v' = Some (Inr (s', w))"
    using kept ys none by (auto simp: effective_conflict_state_def compute_conflict_state_def verified_state_def s'_def Let_def)
  then obtain w where again: "effective_conflict_state R (v'\<lparr>wv_remove := g\<rparr>) = Some (Inr (s', w))"
    using effective_unstuck_state by blast
  have left: "fst (clear_conflict_sidecars v) \<noteq> Inr () \<and> v' = v\<lparr>wv_tree_sidecar := None\<rparr>
      \<and> \<not> set (recorded_sidecar_paths v') \<subseteq> set (recorded_sidecar_paths v)" if "ys \<noteq> []"
    using none that c(5) by (cases v rule: clear_cases) (auto simp: clear_conflict_sidecars_def recorded_sidecar_paths_def)
  have full: "recorded_sidecar_paths v' = []" if "fst (clear_conflict_sidecars v) = Inr ()"
    using that c(5) by (cases v rule: clear_cases) (simp_all add: clear_conflict_sidecars_def recorded_sidecar_paths_def)
  have conf: "is_conflicted s' \<longleftrightarrow> recorded_sidecar_paths v' \<noteq> [] \<and> ys \<noteq> []" by (simp add: is_conflicted_def s'_def)
  have "es_placeholder_paths s' = []" by (simp add: s'_def)
  moreover have "es_cleared_stale_sidecar s' \<longleftrightarrow> recorded_sidecar_paths v' \<noteq> [] \<and> \<not> is_conflicted s'"
    unfolding conf by (auto simp: s'_def)
  moreover have "es_recorded_paths s' = recorded_sidecar_paths v'" "ys \<noteq> []" if "is_conflicted s'"
    using that unfolding conf by (simp_all add: s'_def)
  ultimately have second: "\<exists>s' w. effective_conflict_state R (v'\<lparr>wv_remove := g\<rparr>) = Some (Inr (s', w)) \<and> es_placeholder_paths s' = []
            \<and> (es_cleared_stale_sidecar s' \<longleftrightarrow> recorded_sidecar_paths v' \<noteq> [] \<and> \<not> is_conflicted s')
            \<and> (is_conflicted s' \<longrightarrow> fst (clear_conflict_sidecars v) \<noteq> Inr () \<and> v' = v\<lparr>wv_tree_sidecar := None\<rparr>
                \<and> es_recorded_paths s' = recorded_sidecar_paths v'
                \<and> \<not> set (recorded_sidecar_paths v') \<subseteq> set (recorded_sidecar_paths v))"
    using again left by metis
  have "\<not> is_conflicted s" "head_placeholder_paths R v = Some (Inr (Some []))"
    using c hs(1) by (simp_all add: is_conflicted_def)
  with second full c(2,5) exists cleared show ?thesis by metis
qed

section \<open>Witnesses\<close>

definition sample_raw :: "u8 \<Rightarrow> raw_oid" where
  "sample_raw n = RawOid (replicate 19 0 @ [n])"

definition sample_store :: "blob \<Rightarrow> gate_repo" where
  "sample_store b = \<lparr>gr_open = None,
     gr_read_commit = (\<lambda>_. Inr \<lparr>ci_tree_oid = sample_raw 1, ci_parents = [], ci_message = []\<rparr>),
     gr_read_tree = (\<lambda>oid. Inr (if oid = sample_raw 1 then [\<lparr>te_name = ''d'', te_mode = GTree, te_oid = sample_raw 2\<rparr>]
        else if oid = sample_raw 2 then [\<lparr>te_name = ''f'', te_mode = GBlob, te_oid = sample_raw 3\<rparr>] else [])),
     gr_read_blob = (\<lambda>_. Inr b), gr_read_blob_at_path = (\<lambda>_ _. Inr (Some b))\<rparr>"

definition sample_head :: string where
  "sample_head = replicate 40 CHR ''a''"

definition sample_view :: "conflict_tree option \<Rightarrow> ws_view" where
  "sample_view t = \<lparr>wv_name = ''alice'', wv_exists = True, wv_head = Some sample_head, wv_tree_sidecar = t, wv_legacy_sidecar = None,
     wv_sidecar_dir = ''/repo/sidecars'', wv_remove = (\<lambda>_. None), wv_rev_parse = None, wv_git_diff = (\<lambda>_. None), wv_untracked = None, wv_file = (\<lambda>_. None), wv_walk = Inr [], wv_dirty = None\<rparr>"

declare walk_blobs.simps [code]

lemma sample_raw_distinct: "sample_raw 2 \<noteq> sample_raw 1" "sample_raw 3 \<noteq> sample_raw 1" "sample_raw 3 \<noteq> sample_raw 2"
  by code_simp+

lemma sample_blob_at:
  "blob_at (gr_read_tree (sample_store b)) [] [\<lparr>te_name = ''d'', te_mode = GTree, te_oid = sample_raw 2\<rparr>] p oid
   \<longleftrightarrow> p = [''d'', ''f''] \<and> oid = sample_raw 3"
  by (simp add: blob_at_Cons blob_at_Nil entry_holds_def sample_store_def sample_raw_distinct join_name_def)

lemma placeholder_scan_exact_witness:
  "\<exists>ps. find_tool_placeholder_blobs (sample_store ''# structured conflict at d/f'') (sample_raw 1) = Some (Inr ps)
    \<and> set ps = {[''d'', ''f'']}"
proof -
  let ?R = "sample_store ''# structured conflict at d/f''" and ?h = "\<lambda>oid. if oid = sample_raw 1 then 1 else (0::nat)"
  have acyclic: "?h (te_oid e) < ?h oid" if "gr_read_tree ?R oid = Inr es" "e \<in> set es" "te_mode e = GTree" for oid es e
    using that by (auto simp: sample_store_def sample_raw_distinct split: if_splits)
  obtain r where r: "find_tool_placeholder_blobs ?R (sample_raw 1) = Some r"
      "case r of Inl _ \<Rightarrow> True | Inr ps \<Rightarrow> sorted ps \<and> (\<exists>es. gr_read_tree ?R (sample_raw 1) = Inr es
        \<and> set ps = {p. placeholder_at (gr_read_tree ?R) (gr_read_blob ?R) [] es p})"
    using placeholder_scan_exact [of ?R ?h "sample_raw 1"] acyclic by blast
  have "\<not> (case find_tool_placeholder_blobs ?R (sample_raw 1) of Some (Inl _) \<Rightarrow> True | _ \<Rightarrow> False)" by code_simp
  then obtain ps where ps: "r = Inr ps" using r(1) by (cases r) auto
  have es: "gr_read_tree ?R (sample_raw 1) = Inr [\<lparr>te_name = ''d'', te_mode = GTree, te_oid = sample_raw 2\<rparr>]"
    by (simp add: sample_store_def)
  have "is_tool_placeholder_blob ''# structured conflict at d/f''" by code_simp
  then have "set ps = {[''d'', ''f'']}"
    using r(2) unfolding ps by (simp add: es placeholder_at_def [abs_def] sample_blob_at) (simp add: sample_store_def)
  then show ?thesis using r(1) ps by blast
qed

lemma gate_keeps_placeholders_out_witness:
  "\<exists>head c es. raw_oid_from_str sample_head = Inr head \<and> gr_read_commit (sample_store ''text'') head = Inr c
    \<and> gr_read_tree (sample_store ''text'') (ci_tree_oid c) = Inr es"
proof -
  have "case assert_sources_clean_for_merge (sample_store ''text'') False [sample_view None] of Some (Inr _) \<Rightarrow> True | _ \<Rightarrow> False"
    by code_simp
  then obtain vs' where run: "assert_sources_clean_for_merge (sample_store ''text'') False [sample_view None] = Some (Inr vs')"
    by (auto split: option.splits sum.splits)
  have "sample_view None \<in> set [sample_view None]" "wv_exists (sample_view None)" "wv_head (sample_view None) = Some sample_head"
    by (simp_all add: sample_view_def)
  from gate_keeps_placeholders_out [OF run this] show ?thesis by blast
qed

definition added_twice :: conflict_tree where
  "added_twice = \<lparr>ct_clean = bm_empty, ct_conflicts = bm_of_list
     [([''d'', ''f''], CAddAdd [''d'', ''f''] [sample_side ''epoch'' CHR ''5'', sample_side ''alice'' CHR ''6''])],
     ct_base_epoch = sample_epoch CHR ''a''\<rparr>"

definition added_twice_blob :: blob where
  "added_twice_blob = (case render_conflict sample_env [''d'', ''f'']
      (CAddAdd [''d'', ''f''] [sample_side ''epoch'' CHR ''5'', sample_side ''alice'' CHR ''6'']) of Inr b \<Rightarrow> b | Inl _ \<Rightarrow> [])"

lemma added_twice_state:
  "state_at added_twice p = (if p = [''d'', ''f''] then
     ConflictAt (CAddAdd [''d'', ''f''] [sample_side ''epoch'' CHR ''5'', sample_side ''alice'' CHR ''6'']) else Absent)"
  by (simp add: state_at_def added_twice_def bm_of_list_def)

lemma added_twice_committed: "committed_at (sample_store added_twice_blob) sample_env added_twice sample_head"
proof -
  let ?R = "sample_store added_twice_blob"
  have "\<not> isl (render_conflict sample_env [''d'', ''f''] (CAddAdd [''d'', ''f'']
      [sample_side ''epoch'' CHR ''5'', sample_side ''alice'' CHR ''6'']))" by code_simp
  then have blob: "render_conflict sample_env [''d'', ''f''] (CAddAdd [''d'', ''f'']
      [sample_side ''epoch'' CHR ''5'', sample_side ''alice'' CHR ''6'']) = Inr added_twice_blob"
    by (auto simp: added_twice_blob_def split: sum.splits)
  have "\<not> isl (raw_oid_from_str sample_head)" by code_simp
  then obtain head where head: "raw_oid_from_str sample_head = Inr head" by (cases "raw_oid_from_str sample_head") auto
  have "case find_tool_placeholder_blobs ?R (sample_raw 1) of Some (Inr _) \<Rightarrow> True | _ \<Rightarrow> False" by code_simp
  then obtain ps where ps: "find_tool_placeholder_blobs ?R (sample_raw 1) = Some (Inr ps)"
    by (auto split: option.splits sum.splits)
  have R: "gr_open ?R = None" "gr_read_commit ?R head = Inr \<lparr>ci_tree_oid = sample_raw 1, ci_parents = [], ci_message = []\<rparr>"
      "gr_read_tree ?R (sample_raw 1) = Inr [\<lparr>te_name = ''d'', te_mode = GTree, te_oid = sample_raw 2\<rparr>]"
      "gr_read_blob ?R oid = Inr added_twice_blob" for oid
    by (simp_all add: sample_store_def)
  show ?thesis unfolding committed_at_def
    using head R ps blob by (auto simp: sample_blob_at added_twice_state split: if_splits)
qed

lemma lost_sidecar_gate_witness:
  "state_at added_twice [''d'', ''f''] = ConflictAt (CAddAdd [''d'', ''f''] [sample_side ''epoch'' CHR ''5'', sample_side ''alice'' CHR ''6''])
   \<and> (\<exists>vs'. assert_sources_clean_for_merge (sample_store added_twice_blob) False [sample_view None] = Some (Inr vs'))"
proof -
  have "\<not> header_listed sample_env [''d'', ''f''] (CAddAdd [''d'', ''f''] [sample_side ''epoch'' CHR ''5'', sample_side ''alice'' CHR ''6''])"
    by code_simp
  then have "\<not> (\<exists>p k. state_at added_twice p = ConflictAt k \<and> header_listed sample_env p k)"
    by (auto simp: added_twice_state split: if_splits)
  moreover have "wv_exists (sample_view None)" "wv_tree_sidecar (sample_view None) = None" "wv_legacy_sidecar (sample_view None) = None"
      "wv_head (sample_view None) = Some sample_head" by (simp_all add: sample_view_def)
  ultimately show ?thesis
    using lost_sidecar_gate [OF _ _ _ _ added_twice_committed, of "sample_view None" False] by (simp add: added_twice_state)
qed

text \<open>The structured sidecar cannot be deleted at the first reading and can at the second.\<close>

lemma effective_state_stable_witness:
  "\<exists>s s' v' w. effective_conflict_state (sample_store ''text'') (sample_view (Some added_twice)\<lparr>wv_remove := (\<lambda>_. Some ''read-only'')\<rparr>)
      = Some (Inr (s, v')) \<and> es_cleared_stale_sidecar s \<and> recorded_sidecar_paths v' \<noteq> []
    \<and> effective_conflict_state (sample_store ''text'') (v'\<lparr>wv_remove := (\<lambda>_. None)\<rparr>) = Some (Inr (s', w)) \<and> es_placeholder_paths s' = []"
proof -
  let ?v = "sample_view (Some added_twice)\<lparr>wv_remove := (\<lambda>_. Some ''read-only'')\<rparr>"
  have "case effective_conflict_state (sample_store ''text'') ?v of Some (Inr (s, v')) \<Rightarrow>
      es_cleared_stale_sidecar s \<and> recorded_sidecar_paths v' \<noteq> [] | _ \<Rightarrow> False"
    by code_simp
  then obtain s v' where run: "effective_conflict_state (sample_store ''text'') ?v = Some (Inr (s, v'))"
      and rest: "es_cleared_stale_sidecar s" "recorded_sidecar_paths v' \<noteq> []"
    by (auto split: option.splits sum.splits)
  from effective_state_stable [OF run, of "\<lambda>_. None"] rest run show ?thesis by blast
qed

end
