(* ===== verification/Header_Reconstruct.thy ===== *)
theory Header_Reconstruct
  imports Merge_Gate
begin

text \<open>
  Rebuilding a lost sidecar, \<open>try_reconstruct_sidecar_from_placeholders\<close> of
  \<open>crates/maw-cli/src/workspace/resolve.rs\<close>: the header lines of a rendered conflict are parsed back into the
  conflict. The repository, the files of the workspace and the writing of the sidecar are the record
  \<open>header_env\<close>. A text read with \<open>read_to_string\<close> must be UTF-8.
\<close>

record header_env =
  he_open :: "git_error option"
  he_read_blob :: "raw_oid \<Rightarrow> git_error + blob"
  he_file :: "path \<Rightarrow> string + blob"
  he_write_sidecar :: "conflict_tree \<Rightarrow> string option"

definition placeholder_at_msg :: "path \<Rightarrow> string" where
  "placeholder_at_msg p = ''placeholder at '' @ display_path p"

definition verify_oid_exists :: "header_env \<Rightarrow> string \<Rightarrow> path \<Rightarrow> string + git_oid" where
  "verify_oid_exists E s p =
     (case git_oid_new s of
        Inl _ \<Rightarrow> Inl (placeholder_at_msg p @ '' contains an invalid OID: '' @ debug_str s)
      | Inr oid \<Rightarrow>
          (case raw_oid_from_str s of
             Inl _ \<Rightarrow> Inl (placeholder_at_msg p @ '' contains an unparseable OID: '' @ debug_str s)
           | Inr raw \<Rightarrow>
               (case he_read_blob E raw of
                  Inl e \<Rightarrow> Inl (placeholder_at_msg p @ '' references OID '' @ s @ '' that is not in the object store: ''
                    @ git_error_str e @ newline # ''  The blob may have been garbage-collected or the OID line may be corrupted.'')
                | Inr _ \<Rightarrow> Inr oid)))"

text \<open>The lines up to the first blank one; the blank line itself matches no marker.\<close>

definition header_lines :: "string \<Rightarrow> string list" where
  "header_lines content = takeWhile (\<lambda>l. l \<noteq> []) (str_lines content)"

text \<open>A line \<open>ws sep oid\<close>: the trimmed name and the verified object.\<close>

definition named_oid :: "header_env \<Rightarrow> path \<Rightarrow> string \<Rightarrow> string \<Rightarrow> string + (string \<times> git_oid) option" where
  "named_oid E p sep rest =
     (case split_once sep rest of
        None \<Rightarrow> Inr None
      | Some (w, o') \<Rightarrow> res_bind (verify_oid_exists E (str_trim o') p) (\<lambda>oid. Inr (Some (str_trim w, oid))))"

definition text_line_step ::
  "header_env \<Rightarrow> ordering_key \<Rightarrow> path \<Rightarrow> string \<Rightarrow> string \<Rightarrow> git_oid option \<times> conflict_side list \<Rightarrow>
   string + git_oid option \<times> conflict_side list" where
  "text_line_step E key p pre line acc =
     (case acc of (base, sides) \<Rightarrow>
       (case strip_prefix (pre @ '' base blob: '') line of
          Some rest \<Rightarrow> res_bind (verify_oid_exists E (str_trim rest) p) (\<lambda>oid. Inr (Some oid, sides))
        | None \<Rightarrow>
            (case strip_prefix (pre @ '' side '') line of
               None \<Rightarrow> Inr acc
             | Some rest \<Rightarrow> res_bind (named_oid E p '' blob: '' rest) (\<lambda>n. Inr (case n of
                   None \<Rightarrow> acc
                 | Some (w, oid) \<Rightarrow> (base, sides @ [conflict_side_with_base w oid key base]))))))"

definition binary_line_step ::
  "header_env \<Rightarrow> ordering_key \<Rightarrow> path \<Rightarrow> string \<Rightarrow> string \<Rightarrow> conflict_side list \<Rightarrow> string + conflict_side list" where
  "binary_line_step E key p pre line sides =
     (case strip_prefix (pre @ '' side: '') line of
        None \<Rightarrow> Inr sides
      | Some rest \<Rightarrow> res_bind (named_oid E p ''  @  '' rest) (\<lambda>n. Inr (case n of
            None \<Rightarrow> sides | Some (w, oid) \<Rightarrow> sides @ [conflict_side_new w oid key])))"

definition modify_delete_line_step ::
  "header_env \<Rightarrow> ordering_key \<Rightarrow> path \<Rightarrow> string \<Rightarrow> conflict_side option \<times> conflict_side option \<Rightarrow>
   string + conflict_side option \<times> conflict_side option" where
  "modify_delete_line_step E key p line acc =
     (case acc of (modifier, deleter) \<Rightarrow>
       (case strip_prefix ''# modifier: '' line of
          Some rest \<Rightarrow> res_bind (named_oid E p '' @ '' rest) (\<lambda>n. Inr (case n of
              None \<Rightarrow> acc | Some (w, oid) \<Rightarrow> (Some (conflict_side_new w oid key), deleter)))
        | None \<Rightarrow>
            (case strip_prefix ''# deleter:  '' line of
               None \<Rightarrow> Inr acc
             | Some rest \<Rightarrow> res_bind (named_oid E p '' @ '' rest) (\<lambda>n. Inr (case n of
                 None \<Rightarrow> acc | Some (w, oid) \<Rightarrow> (modifier, Some (conflict_side_new w oid key)))))))"

definition too_few_sides :: "path \<Rightarrow> nat \<Rightarrow> string" where
  "too_few_sides p n = placeholder_at_msg p @ '' has fewer than 2 parseable side OIDs (found '' @ show_nat n
     @ ''). The header may have been truncated or corrupted.''"

definition unrecognized_header :: "path \<Rightarrow> string \<Rightarrow> string" where
  "unrecognized_header p first_line = placeholder_at_msg p @ '' has an unrecognized header: '' @ debug_str first_line
     @ newline # ''  (expected '<#|//|--> structured conflict at', '<#|//|--> BINARY CONFLICT at', '# add/add conflict at', or '# modify/delete conflict at')''"

definition structured_prefix :: "string \<Rightarrow> string option" where
  "structured_prefix first_line = find (\<lambda>h. prefix (h @ '' structured conflict at '') first_line) HEADER_PREFIXES"

definition binary_prefix :: "string \<Rightarrow> string option" where
  "binary_prefix first_line = find (\<lambda>h. prefix (h @ '' BINARY CONFLICT at '') first_line) HEADER_PREFIXES"

definition is_add_add_line :: "string \<Rightarrow> bool" where
  "is_add_add_line l \<longleftrightarrow> prefix ''# add/add conflict at '' l"

definition is_modify_delete_line :: "string \<Rightarrow> bool" where
  "is_modify_delete_line l \<longleftrightarrow> prefix ''# modify/delete conflict at '' l"

definition parse_text_header ::
  "header_env \<Rightarrow> ordering_key \<Rightarrow> path \<Rightarrow> file_id \<Rightarrow> string \<Rightarrow> bool \<Rightarrow> string list \<Rightarrow> string + conflict" where
  "parse_text_header E key p fid pre is_add_add ls =
     res_bind (res_fold (text_line_step E key p pre) ls (None, []))
       (\<lambda>(base, sides).
         if length sides < 2 then Inl (too_few_sides p (length sides))
         else if is_add_add then Inr (CAddAdd p sides)
         else Inr (CContent p fid base sides []))"

definition parse_binary_header ::
  "header_env \<Rightarrow> ordering_key \<Rightarrow> path \<Rightarrow> file_id \<Rightarrow> string \<Rightarrow> string list \<Rightarrow> string + conflict" where
  "parse_binary_header E key p fid pre ls =
     res_bind (res_fold (binary_line_step E key p pre) ls [])
       (\<lambda>sides. if length sides < 2 then Inl (''binary '' @ too_few_sides p (length sides))
                else Inr (CContent p fid None sides []))"

definition parse_modify_delete_header ::
  "header_env \<Rightarrow> ordering_key \<Rightarrow> path \<Rightarrow> file_id \<Rightarrow> string list \<Rightarrow> string + conflict" where
  "parse_modify_delete_header E key p fid ls =
     res_bind (res_fold (modify_delete_line_step E key p) ls (None, None))
       (\<lambda>acc. case acc of
          (Some modifier, Some deleter) \<Rightarrow> Inr (CModifyDelete p fid modifier deleter (cs_content modifier) None None)
        | _ \<Rightarrow> Inl (''modify/delete '' @ placeholder_at_msg p
                 @ '' is missing modifier and/or deleter OID lines. The header may have been corrupted.''))"

definition parse_placeholder :: "header_env \<Rightarrow> ordering_key \<Rightarrow> path \<Rightarrow> file_id \<Rightarrow> string \<Rightarrow> string + conflict" where
  "parse_placeholder E key p fid content =
     (let ls = header_lines content;
          first_line = (case str_lines content of [] \<Rightarrow> [] | l # _ \<Rightarrow> l);
          add_add = is_add_add_line first_line
      in case (case structured_prefix first_line of Some h \<Rightarrow> Some h | None \<Rightarrow> if add_add then Some ''#'' else None) of
           Some pre \<Rightarrow> parse_text_header E key p fid pre add_add ls
         | None \<Rightarrow>
             (case binary_prefix first_line of
                Some pre \<Rightarrow> parse_binary_header E key p fid pre ls
              | None \<Rightarrow>
                  if is_modify_delete_line first_line then parse_modify_delete_header E key p fid ls
                  else Inl (unrecognized_header p first_line)))"

definition read_to_string :: "header_env \<Rightarrow> path \<Rightarrow> string + string" where
  "read_to_string E p = res_bind (he_file E p) (\<lambda>b. if utf8_valid b then Inr b else Inl ''stream did not contain valid UTF-8'')"

fun parse_placeholders ::
  "header_env \<Rightarrow> ordering_key \<Rightarrow> path list \<Rightarrow> 128 word \<Rightarrow> conflict_tree \<Rightarrow> string + conflict_tree" where
  "parse_placeholders E key [] n t = Inr t"
| "parse_placeholders E key (p # ps) n t =
     res_bind (case read_to_string E p of
         Inl e \<Rightarrow> Inl (''could not read '' @ placeholder_at_msg p @ '': '' @ e)
       | Inr content \<Rightarrow> parse_placeholder E key p (FileId n) content)
       (\<lambda>c. parse_placeholders E key ps (n + 1) (t\<lparr>ct_conflicts := bm_insert p c (ct_conflicts t)\<rparr>))"

definition dummy_key :: "epoch_id \<Rightarrow> workspace_id \<Rightarrow> ordering_key" where
  "dummy_key e w = \<lparr>ok_epoch_id = e, ok_workspace_id = w, ok_seq = 0, ok_wall_clock_ms = 0\<rparr>"

text \<open>The number of conflicts and the sidecar written, or the reason of the refusal.\<close>

definition try_reconstruct_sidecar_from_placeholders ::
  "header_env \<Rightarrow> string \<Rightarrow> path list \<Rightarrow> string + nat \<times> conflict_tree" where
  "try_reconstruct_sidecar_from_placeholders E workspace ps =
     (case he_open E of
        Some e \<Rightarrow> Inl (''could not open workspace git repo for OID verification: '' @ git_error_str e)
      | None \<Rightarrow>
          (case epoch_id_new (replicate 40 CHR ''0'') of
             Inl e \<Rightarrow> Inl (''internal: could not construct dummy epoch ID: '' @ validation_error_str e)
           | Inr dummy_epoch \<Rightarrow>
               (case workspace_id_new workspace of
                  Inl e \<Rightarrow> Inl (''internal: could not construct workspace ID from '' @ quoted workspace @ '': '' @ validation_error_str e)
                | Inr dummy_ws \<Rightarrow>
                    res_bind (parse_placeholders E (dummy_key dummy_epoch dummy_ws) ps 1 (conflict_tree_new dummy_epoch))
                      (\<lambda>t. case he_write_sidecar E t of
                         Some e \<Rightarrow> Inl e
                       | None \<Rightarrow> Inr (bm_len (ct_conflicts t), t)))))"

end
