(* ===== verification/Reconstruct_Facts.thy ===== *)
theory Reconstruct_Facts
  imports Header_Reconstruct Materialize_Facts
begin

text \<open>
  Rendering a conflict and reconstructing it from its header: what comes back for each of the four renderings, and
  what is lost.
\<close>

section \<open>Lines\<close>

lemma str_lines_front: "list_all line_ok ls \<Longrightarrow> str_lines (unlines ls @ s) = ls @ str_lines s"
  by (induction ls)
    (auto simp: str_lines_def unlines_def split_inclusive_line line_ok_def strip_line_end_def Let_def)

lemma header_lines_front:
  assumes "list_all line_ok ls" "[] \<notin> set ls"
  shows "header_lines (unlines ls @ newline # s) = ls"
proof -
  have "str_lines (unlines ls @ newline # s) = ls @ [] # str_lines s"
    using str_lines_front [OF assms(1), of "newline # s"] by (simp add: str_lines_def strip_line_end_def)
  moreover have "takeWhile (\<lambda>l. l \<noteq> []) (ls @ [] # rest) = ls" for rest using assms(2) by (induction ls) auto
  ultimately show ?thesis by (simp add: header_lines_def)
qed

lemma strip_prefix_same [simp]: "strip_prefix (h @ a) (h @ b) = strip_prefix a b"
  by (simp add: strip_prefix_def)

lemma solid_line: "solid s \<Longrightarrow> newline \<notin> set s \<and> carriage_return \<notin> set s \<and> CHR '' '' \<notin> set s"
  by (auto simp: solid_def list_all_iff space_ascii_def)

lemma line_ok_text: "newline \<notin> set l \<Longrightarrow> carriage_return \<notin> set l \<Longrightarrow> line_ok l"
  by (auto simp: line_ok_def dest: last_in_set)

section \<open>Objects\<close>

definition oid_known :: "header_env \<Rightarrow> git_oid \<Rightarrow> bool" where
  "oid_known E oid \<longleftrightarrow> git_oid_ok oid \<and> (\<exists>raw b. raw_oid_from_str (oid_str oid) = Inr raw \<and> he_read_blob E raw = Inr b)"

lemma verify_known: "oid_known E oid \<Longrightarrow> verify_oid_exists E (oid_str oid) p = Inr oid"
  by (auto simp: oid_known_def verify_oid_exists_def git_oid_new_def git_oid_validate_def git_oid_ok_def)

lemma hex_solid: "list_all lower_hex s \<Longrightarrow> solid s"
proof -
  have "\<forall>c \<in> set ''0123456789abcdef''. \<not> space_ascii c \<and> (of_char c :: nat) < 0x80" by code_simp
  then show "list_all lower_hex s \<Longrightarrow> solid s" unfolding solid_def lower_hex_def list_all_iff by blast
qed

lemma oid_solid: "oid_known E oid \<Longrightarrow> solid (oid_str oid)"
  by (simp add: oid_known_def git_oid_ok_def hex_solid)

definition side_known :: "header_env \<Rightarrow> conflict_side \<Rightarrow> bool" where
  "side_known E s \<longleftrightarrow> solid (cs_workspace s) \<and> oid_known E (cs_content s)"

lemma named_known:
  assumes "side_known E s" "sep = CHR '' '' # sep'"
  shows "named_oid E p sep (cs_workspace s @ sep @ oid_str (cs_content s)) = Inr (Some (cs_workspace s, cs_content s))"
proof -
  have w: "solid (cs_workspace s)" and o': "oid_known E (cs_content s)" using assms(1) by (simp_all add: side_known_def)
  have "split_once sep (cs_workspace s @ sep @ oid_str (cs_content s)) = Some (cs_workspace s, oid_str (cs_content s))"
    using solid_line [OF w] assms(2) by (intro split_once_first) simp_all
  then show ?thesis using str_trim_solid [OF w] str_trim_solid [OF oid_solid [OF o']] verify_known [OF o']
    by (simp add: named_oid_def)
qed

section \<open>Text conflicts\<close>

definition structured_line :: "string \<Rightarrow> string \<Rightarrow> string" where
  "structured_line pre x = pre @ '' structured conflict at '' @ x"

definition atoms_line :: "string \<Rightarrow> string" where
  "atoms_line pre = pre @ '' atoms:''"

definition atom_line :: "string \<Rightarrow> conflict_atom \<Rightarrow> string" where
  "atom_line pre a = pre @ ''   - '' @ atom_summary a"

definition base_line :: "string \<Rightarrow> git_oid \<Rightarrow> string" where
  "base_line pre b = pre @ '' base blob: '' @ oid_str b"

definition side_line :: "string \<Rightarrow> conflict_side \<Rightarrow> string" where
  "side_line pre s = pre @ '' side '' @ cs_workspace s @ '' blob: '' @ oid_str (cs_content s)"

lemmas text_lines = structured_line_def atoms_line_def atom_line_def base_line_def side_line_def

definition content_lines :: "path \<Rightarrow> git_oid option \<Rightarrow> conflict_side list \<Rightarrow> conflict_atom list \<Rightarrow> string list" where
  "content_lines p base sides atoms =
     (let pre = header_prefix_for p
      in structured_line pre (display_path p)
       # (if atoms = [] then [] else atoms_line pre # map (atom_line pre) atoms)
       @ (case base of None \<Rightarrow> [] | Some b \<Rightarrow> [base_line pre b])
       @ map (side_line pre) sides)"

lemma unlines_map: "unlines (map f xs) = concat (map (\<lambda>x. text_line (f x)) xs)"
  by (simp add: unlines_def text_line_def comp_def)

lemma unlines_simps: "unlines [] = []" "unlines (l # ls) = text_line l @ unlines ls" "unlines (xs @ ys) = unlines xs @ unlines ys"
  by (simp_all add: unlines_def text_line_def)

lemma content_header_lines: "content_header p base sides atoms = unlines (content_lines p base sides atoms) @ [newline]"
  by (simp add: content_header_def content_lines_def Let_def unlines_simps unlines_map text_lines split: option.split)

lemma step_front:
  "text_line_step E key p pre (structured_line pre x) acc = Inr acc"
  "text_line_step E key p pre (atoms_line pre) acc = Inr acc"
  "text_line_step E key p pre (atom_line pre a) acc = Inr acc"
  by (simp_all add: text_line_step_def strip_prefix_def text_lines split: prod.split)

lemma step_base:
  "oid_known E b \<Longrightarrow> text_line_step E key p pre (base_line pre b) (base, sides) = Inr (Some b, sides)"
  by (simp add: text_line_step_def strip_prefix_def base_line_def verify_known str_trim_solid oid_solid)

lemma step_side:
  assumes "side_known E s"
  shows "text_line_step E key p pre (side_line pre s) (base, sides)
    = Inr (base, sides @ [conflict_side_with_base (cs_workspace s) (cs_content s) key base])"
proof -
  have "strip_prefix (pre @ '' base blob: '') (side_line pre s) = None" by (simp add: side_line_def strip_prefix_def)
  moreover have "strip_prefix (pre @ '' side '') (side_line pre s) = Some (cs_workspace s @ '' blob: '' @ oid_str (cs_content s))"
    by (simp add: side_line_def strip_prefix_def)
  ultimately show ?thesis using named_known [OF assms refl, of p "''blob: ''"] by (simp add: text_line_step_def)
qed

lemma fold_sides:
  "\<forall>s \<in> set sides. side_known E s \<Longrightarrow> res_fold (text_line_step E key p pre) (map (side_line pre) sides) (base, acc)
    = Inr (base, acc @ map (\<lambda>s. conflict_side_with_base (cs_workspace s) (cs_content s) key base) sides)"
  by (induction sides arbitrary: acc) (simp_all add: step_side)

lemma fold_atoms: "res_fold (text_line_step E key p pre) (map (atom_line pre) atoms) acc = Inr acc"
  by (induction atoms) (simp_all add: step_front)

lemma fold_content:
  assumes "\<forall>s \<in> set sides. side_known E s" "\<forall>b. base = Some b \<longrightarrow> oid_known E b"
  shows "res_fold (text_line_step E key p (header_prefix_for p)) (content_lines p base sides atoms) (None, [])
    = Inr (base, map (\<lambda>s. conflict_side_with_base (cs_workspace s) (cs_content s) key base) sides)"
  using assms by (cases base) (simp_all add: content_lines_def Let_def step_front fold_atoms fold_sides step_base res_fold_append)

definition one_line :: "string \<Rightarrow> bool" where
  "one_line s \<longleftrightarrow> newline \<notin> set s \<and> carriage_return \<notin> set s"

lemma content_lines_ok:
  assumes "\<forall>s \<in> set sides. side_known E s" "\<forall>b. base = Some b \<longrightarrow> oid_known E b" "one_line (display_path p)"
    "\<forall>a \<in> set atoms. one_line (atom_summary a)"
  shows "list_all line_ok (content_lines p base sides atoms) \<and> [] \<notin> set (content_lines p base sides atoms)"
proof -
  have "\<forall>l \<in> set (content_lines p base sides atoms). newline \<notin> set l \<and> carriage_return \<notin> set l \<and> l \<noteq> []"
    using assms header_prefix_cases [of p]
    by (auto simp: content_lines_def Let_def text_lines one_line_def side_known_def dest!: solid_line oid_solid split: option.splits)
  then show ?thesis by (auto simp: list_all_iff intro: line_ok_text)
qed

lemma structured_first:
  "structured_prefix (structured_line (header_prefix_for p) x) = Some (header_prefix_for p)"
  "\<not> is_add_add_line (structured_line (header_prefix_for p) x)"
  using header_prefix_cases [of p] by (auto simp: structured_prefix_def HEADER_PREFIXES_def is_add_add_line_def structured_line_def)

lemma parse_front:
  assumes "list_all line_ok (l # ls)" "[] \<notin> set (l # ls)"
  shows "parse_placeholder E key p fid (unlines (l # ls) @ newline # m) =
     (case (case structured_prefix l of Some h \<Rightarrow> Some h | None \<Rightarrow> if is_add_add_line l then Some ''#'' else None) of
           Some pre \<Rightarrow> parse_text_header E key p fid pre (is_add_add_line l) (l # ls)
         | None \<Rightarrow>
             (case binary_prefix l of
                Some pre \<Rightarrow> parse_binary_header E key p fid pre (l # ls)
              | None \<Rightarrow>
                  if is_modify_delete_line l then parse_modify_delete_header E key p fid (l # ls)
                  else Inl (unrecognized_header p l)))"
  unfolding parse_placeholder_def Let_def header_lines_front [OF assms] str_lines_front [OF assms(1)] append_Cons list.case ..

lemma reconstruct_text:
  assumes "\<forall>s \<in> set sides. side_known E s" "\<forall>b. base = Some b \<longrightarrow> oid_known E b" "one_line (display_path p)"
    "\<forall>a \<in> set atoms. one_line (atom_summary a)" "2 \<le> length sides"
  shows "parse_placeholder E key p fid (content_header p base sides atoms @ m)
    = Inr (CContent p fid base (map (\<lambda>s. conflict_side_with_base (cs_workspace s) (cs_content s) key base) sides) [])"
proof -
  let ?ls = "content_lines p base sides atoms" and ?h = "header_prefix_for p"
  have blob: "content_header p base sides atoms @ m = unlines ?ls @ newline # m" by (simp add: content_header_lines)
  obtain rest where ls: "?ls = structured_line ?h (display_path p) # rest" by (simp add: content_lines_def Let_def)
  have ok: "list_all line_ok ?ls" "[] \<notin> set ?ls" using content_lines_ok [OF assms(1-4)] by simp_all
  show ?thesis unfolding blob ls parse_front [OF ok [unfolded ls]]
    using fold_content [OF assms(1,2), of key p atoms, unfolded ls] assms(5)
    by (simp add: parse_text_header_def structured_first)
qed

section \<open>Binary conflicts\<close>

definition binary_first_line :: "string \<Rightarrow> path \<Rightarrow> string" where
  "binary_first_line pre p = pre @ '' BINARY CONFLICT at '' @ display_path p @ [CHR '' '', CHR 0xE2, CHR 0x80, CHR 0x94, CHR '' '']
     @ ''inlined markers would corrupt the file.''"

definition pick_line :: "string \<Rightarrow> string" where
  "pick_line pre = pre @ '' Pick a side with: maw ws resolve <workspace> --keep <side-name>''"

definition binary_side_line :: "string \<Rightarrow> conflict_side \<Rightarrow> string" where
  "binary_side_line pre s = pre @ '' side: '' @ cs_workspace s @ ''  @  '' @ oid_str (cs_content s)"

lemmas binary_texts = binary_first_line_def pick_line_def binary_side_line_def

definition binary_lines :: "path \<Rightarrow> conflict_side list \<Rightarrow> string list" where
  "binary_lines p sides =
     (let pre = header_prefix_for p in binary_first_line pre p # pick_line pre # map (binary_side_line pre) sides)"

lemma binary_header_lines: "binary_header p sides = unlines (binary_lines p sides) @ [newline]"
  by (simp add: binary_header_def binary_lines_def Let_def unlines_simps unlines_map binary_texts)

lemma binary_step_side:
  assumes "side_known E s"
  shows "binary_line_step E key p pre (binary_side_line pre s) sides
    = Inr (sides @ [conflict_side_new (cs_workspace s) (cs_content s) key])"
proof -
  have "strip_prefix (pre @ '' side: '') (binary_side_line pre s) = Some (cs_workspace s @ ''  @  '' @ oid_str (cs_content s))"
    by (simp add: binary_side_line_def strip_prefix_def)
  then show ?thesis using named_known [OF assms refl, of p "'' @  ''"] by (simp add: binary_line_step_def)
qed

lemma binary_fold_sides:
  "\<forall>s \<in> set sides. side_known E s \<Longrightarrow> res_fold (binary_line_step E key p pre) (map (binary_side_line pre) sides) acc
    = Inr (acc @ map (\<lambda>s. conflict_side_new (cs_workspace s) (cs_content s) key) sides)"
  by (induction sides arbitrary: acc) (simp_all add: binary_step_side)

lemma binary_first:
  "structured_prefix (binary_first_line (header_prefix_for p) q) = None"
  "binary_prefix (binary_first_line (header_prefix_for p) q) = Some (header_prefix_for p)"
  "\<not> is_add_add_line (binary_first_line (header_prefix_for p) q)"
  using header_prefix_cases [of p]
  by (auto simp: structured_prefix_def binary_prefix_def HEADER_PREFIXES_def is_add_add_line_def binary_first_line_def)

lemma binary_front:
  "binary_line_step E key p pre (binary_first_line pre q) acc = Inr acc"
  "binary_line_step E key p pre (pick_line pre) acc = Inr acc"
  by (simp_all add: binary_line_step_def strip_prefix_def binary_texts)

lemma reconstruct_binary:
  assumes "\<forall>s \<in> set sides. side_known E s" "one_line (display_path p)" "2 \<le> length sides"
  shows "parse_placeholder E key p fid (binary_header p sides @ m)
    = Inr (CContent p fid None (map (\<lambda>s. conflict_side_new (cs_workspace s) (cs_content s) key) sides) [])"
proof -
  let ?ls = "binary_lines p sides" and ?h = "header_prefix_for p"
  have "\<forall>l \<in> set ?ls. newline \<notin> set l \<and> carriage_return \<notin> set l \<and> l \<noteq> []"
    using assms header_prefix_cases [of p]
    by (auto simp: binary_lines_def Let_def binary_texts one_line_def side_known_def dest!: solid_line oid_solid)
  then have ok: "list_all line_ok ?ls" "[] \<notin> set ?ls" by (auto simp: list_all_iff intro: line_ok_text)
  have blob: "binary_header p sides @ m = unlines ?ls @ newline # m" by (simp add: binary_header_lines)
  obtain rest where ls: "?ls = binary_first_line ?h p # rest" by (simp add: binary_lines_def Let_def)
  have fold: "res_fold (binary_line_step E key p ?h) ?ls [] = Inr (map (\<lambda>s. conflict_side_new (cs_workspace s) (cs_content s) key) sides)"
    using binary_fold_sides [OF assms(1), of key p ?h "[]"] by (simp add: binary_lines_def Let_def binary_front)
  show ?thesis unfolding blob ls parse_front [OF ok [unfolded ls]]
    using fold [unfolded ls] assms(3) by (simp add: binary_first parse_binary_header_def)
qed

section \<open>Modify/delete conflicts\<close>

definition md_first_line :: "path \<Rightarrow> string" where
  "md_first_line p = ''# modify/delete conflict at '' @ display_path p"

definition modifier_line :: "conflict_side \<Rightarrow> string" where
  "modifier_line s = ''# modifier: '' @ cs_workspace s @ '' @ '' @ oid_str (cs_content s)"

definition deleter_line :: "conflict_side \<Rightarrow> string" where
  "deleter_line s = ''# deleter:  '' @ cs_workspace s @ '' @ '' @ oid_str (cs_content s)"

definition md_note_lines :: "string \<Rightarrow> path option \<Rightarrow> path option \<Rightarrow> string list" where
  "md_note_lines w rename_hint df_hint =
     (case rename_hint of None \<Rightarrow> []
      | Some q \<Rightarrow> [''# note: deleted by rename'' @ [CHR '' '', CHR 0xE2, CHR 0x80, CHR 0x94, CHR '' ''] @ ''content now lives at '' @ display_path q,
                   ''# to carry your edit: apply your changes at '' @ display_path q @ '' instead''])
     @ (case df_hint of None \<Rightarrow> []
      | Some q \<Rightarrow> [''# note: D/F path clash'' @ [CHR '' '', CHR 0xE2, CHR 0x80, CHR 0x94, CHR '' '', CHR 0x27] @ display_path q
                     @ CHR 0x27 # '' is a FILE on one side and a directory on the other'',
                   ''# to resolve: --keep '' @ w @ ''  keeps this workspace content'',
                   ''#             --keep epoch  removes it and restores the epoch'' @ CHR 0x27 # ''s version of ''
                     @ CHR 0x27 # display_path q @ [CHR 0x27]])"

lemmas md_texts = md_first_line_def modifier_line_def deleter_line_def md_note_lines_def

definition md_lines :: "path \<Rightarrow> conflict_side \<Rightarrow> conflict_side \<Rightarrow> path option \<Rightarrow> path option \<Rightarrow> string list" where
  "md_lines p modifier deleter rename_hint df_hint =
     md_first_line p # modifier_line modifier # deleter_line deleter # md_note_lines (cs_workspace modifier) rename_hint df_hint"

lemma modify_delete_header_lines:
  "modify_delete_header p modifier deleter rh dh = unlines (md_lines p modifier deleter rh dh) @ [newline]"
  by (simp add: modify_delete_header_def modify_delete_notes_def md_lines_def md_texts unlines_simps split: option.split)

lemma md_steps:
  assumes "side_known E s"
  shows "modify_delete_line_step E key p (md_first_line q) acc = Inr acc"
    "modify_delete_line_step E key p (modifier_line s) (x, y) = Inr (Some (conflict_side_new (cs_workspace s) (cs_content s) key), y)"
    "modify_delete_line_step E key p (deleter_line s) (x, y) = Inr (x, Some (conflict_side_new (cs_workspace s) (cs_content s) key))"
  using named_known [OF assms refl, of p "''@ ''"]
  by (simp_all add: modify_delete_line_step_def md_texts strip_prefix_def split: prod.split)

lemma md_notes: "res_fold (modify_delete_line_step E key p) (md_note_lines w rh dh) acc = Inr acc"
  by (simp add: md_note_lines_def modify_delete_line_step_def strip_prefix_def split: option.split prod.split)

lemma md_first:
  "structured_prefix (md_first_line p) = None" "binary_prefix (md_first_line p) = None"
  "\<not> is_add_add_line (md_first_line p)" "is_modify_delete_line (md_first_line p)"
  by (simp_all add: structured_prefix_def binary_prefix_def HEADER_PREFIXES_def is_add_add_line_def is_modify_delete_line_def md_first_line_def)

definition path_line_ok :: "path option \<Rightarrow> bool" where
  "path_line_ok q \<longleftrightarrow> (case q of None \<Rightarrow> True | Some x \<Rightarrow> one_line (display_path x))"

lemma reconstruct_modify_delete:
  assumes "side_known E modifier" "side_known E deleter" "one_line (display_path p)" "path_line_ok rh" "path_line_ok dh"
  shows "parse_placeholder E key p fid (modify_delete_header p modifier deleter rh dh @ m)
    = Inr (CModifyDelete p fid (conflict_side_new (cs_workspace modifier) (cs_content modifier) key)
        (conflict_side_new (cs_workspace deleter) (cs_content deleter) key) (cs_content modifier) None None)"
proof -
  let ?ls = "md_lines p modifier deleter rh dh"
  have hints: "\<forall>l \<in> set (md_note_lines (cs_workspace modifier) rh dh). newline \<notin> set l \<and> carriage_return \<notin> set l \<and> l \<noteq> []"
    using assms solid_line [of "cs_workspace modifier"]
    by (auto simp: md_note_lines_def one_line_def path_line_ok_def side_known_def split: option.splits)
  have "\<forall>l \<in> set ?ls. newline \<notin> set l \<and> carriage_return \<notin> set l \<and> l \<noteq> []"
    using assms(1-3) hints
    by (auto simp: md_lines_def md_first_line_def modifier_line_def deleter_line_def one_line_def side_known_def dest!: solid_line oid_solid)
  then have ok: "list_all line_ok ?ls" "[] \<notin> set ?ls" by (auto simp: list_all_iff intro: line_ok_text)
  have blob: "modify_delete_header p modifier deleter rh dh @ m = unlines ?ls @ newline # m" by (simp add: modify_delete_header_lines)
  obtain rest where ls: "?ls = md_first_line p # rest" by (simp add: md_lines_def)
  have fold: "res_fold (modify_delete_line_step E key p) ?ls (None, None)
      = Inr (Some (conflict_side_new (cs_workspace modifier) (cs_content modifier) key),
             Some (conflict_side_new (cs_workspace deleter) (cs_content deleter) key))"
    using md_steps [OF assms(1)] md_steps [OF assms(2)] by (simp add: md_lines_def md_notes)
  show ?thesis unfolding blob ls parse_front [OF ok [unfolded ls]]
    using fold [unfolded ls] by (simp add: md_first parse_modify_delete_header_def conflict_side_new_def)
qed

section \<open>Text add/add conflicts\<close>

lemma reconstruct_add_add:
  assumes "one_line (display_path p)"
  shows "parse_placeholder E key p fid (add_add_header p @ m) = Inl (too_few_sides p 0)"
proof -
  let ?l = "''# add/add conflict at '' @ display_path p"
  have ok: "list_all line_ok [?l]" "[] \<notin> set [?l]" using assms by (auto simp: one_line_def intro: line_ok_text)
  have blob: "add_add_header p @ m = unlines [?l] @ newline # m" by (simp add: add_add_header_def text_line_def unlines_def)
  have "structured_prefix ?l = None" "is_add_add_line ?l" by (simp_all add: structured_prefix_def HEADER_PREFIXES_def is_add_add_line_def)
  moreover have "text_line_step E key p ''#'' ?l (None, []) = Inr (None, [])" by (simp add: text_line_step_def strip_prefix_def)
  ultimately show ?thesis unfolding blob parse_front [OF ok] by (simp add: parse_text_header_def)
qed

section \<open>Every rendering\<close>

definition text_sides :: "render_env \<Rightarrow> path \<Rightarrow> git_oid option \<Rightarrow> conflict_side list \<Rightarrow> bool" where
  "text_sides rv p base sides \<longleftrightarrow>
     (case (read_base rv p base, read_sides rv p sides) of
        (Inr bb, Inr cs) \<Rightarrow> (case bb of None \<Rightarrow> True | Some b \<Rightarrow> looks_text b) \<and> list_all looks_text cs
      | _ \<Rightarrow> False)"

fun conflict_known :: "header_env \<Rightarrow> conflict \<Rightarrow> bool" where
  "conflict_known E (CContent _ _ base sides atoms) \<longleftrightarrow> list_all (side_known E) sides \<and> 2 \<le> length sides
     \<and> (case base of None \<Rightarrow> True | Some b \<Rightarrow> oid_known E b) \<and> list_all (\<lambda>a. one_line (atom_summary a)) atoms"
| "conflict_known E (CAddAdd _ sides) \<longleftrightarrow> list_all (side_known E) sides \<and> 2 \<le> length sides"
| "conflict_known E (CModifyDelete _ _ modifier deleter _ rh dh) \<longleftrightarrow>
     side_known E modifier \<and> side_known E deleter \<and> path_line_ok rh \<and> path_line_ok dh"
| "conflict_known E (CDivergentRename _ _ _) \<longleftrightarrow> True"

text \<open>What the reconstruction gives for a conflict: the sides with their objects but new ordering keys and no modes.\<close>

definition reconstructed :: "render_env \<Rightarrow> ordering_key \<Rightarrow> path \<Rightarrow> file_id \<Rightarrow> conflict \<Rightarrow> string + conflict" where
  "reconstructed rv key p fid c =
     (let plain = (\<lambda>s. conflict_side_new (cs_workspace s) (cs_content s) key)
      in case c of
        CContent _ _ base sides _ \<Rightarrow>
          if text_sides rv p base sides
          then Inr (CContent p fid base (map (\<lambda>s. conflict_side_with_base (cs_workspace s) (cs_content s) key base) sides) [])
          else Inr (CContent p fid None (map plain sides) [])
      | CAddAdd _ sides \<Rightarrow>
          if text_sides rv p None sides then Inl (too_few_sides p 0) else Inr (CContent p fid None (map plain sides) [])
      | CModifyDelete _ _ modifier deleter _ _ _ \<Rightarrow>
          Inr (CModifyDelete p fid (plain modifier) (plain deleter) (cs_content modifier) None None)
      | CDivergentRename _ _ _ \<Rightarrow> Inl [])"

lemma content_render_shape:
  assumes "render_content_conflict rv p base sides atoms = Inr b"
  obtains (plain_text) m where "text_sides rv p base sides" "b = content_header p base sides atoms @ m"
  | (binary) m where "\<not> text_sides rv p base sides" "b = binary_header p sides @ m"
proof -
  obtain bb contents where reads: "read_base rv p base = Inr bb" "read_sides rv p sides = Inr contents"
    using assms by (auto simp: render_content_conflict_def result_simps)
  note run = assms [unfolded render_content_conflict_def reads res_bind.simps Let_def]
  show thesis
  proof (cases "(case bb of None \<Rightarrow> False | Some b \<Rightarrow> \<not> looks_text b) \<or> list_ex (\<lambda>b. \<not> looks_text b) contents")
    case True
    have "\<not> text_sides rv p base sides" using True reads by (auto simp: text_sides_def list_all_iff list_ex_iff split: option.splits)
    moreover have "render_binary_content_conflict p sides contents = Inr b" using run True by simp
    ultimately show thesis using binary binary_shape by metis
  next
    case False
    then have "text_sides rv p base sides" using reads by (auto simp: text_sides_def list_all_iff list_ex_iff split: option.splits)
    moreover have "\<exists>m. b = content_header p base sides atoms @ m"
      using run False by (auto simp: result_simps split: option.splits)
    ultimately show thesis using plain_text by blast
  qed
qed

lemma add_add_render_shape:
  assumes "render_add_add_conflict rv p sides = Inr b"
  obtains (plain_text) m where "text_sides rv p None sides" "b = add_add_header p @ m"
  | (binary) m where "\<not> text_sides rv p None sides" "b = binary_header p sides @ m"
proof -
  obtain contents where reads: "read_sides rv p sides = Inr contents"
      and run: "(if list_ex (\<lambda>b. \<not> looks_text b) contents then render_binary_content_conflict p sides contents
       else res_bind (render_whole_file_marker_blocks None sides contents) (\<lambda>blocks. Inr (add_add_header p @ blocks))) = Inr b"
    using assms by (auto simp: render_add_add_conflict_def result_simps)
  have base: "read_base rv p None = Inr None" by (simp add: read_base_def)
  show thesis
  proof (cases "list_ex (\<lambda>b. \<not> looks_text b) contents")
    case True
    have "\<not> text_sides rv p None sides" using True reads base by (auto simp: text_sides_def list_all_iff list_ex_iff)
    moreover have "render_binary_content_conflict p sides contents = Inr b" using run True by simp
    ultimately show thesis using binary binary_shape by metis
  next
    case False
    then have "text_sides rv p None sides" using reads base by (auto simp: text_sides_def list_all_iff list_ex_iff)
    moreover have "\<exists>m. b = add_add_header p @ m" using run False by (auto simp: result_simps)
    ultimately show thesis using plain_text by blast
  qed
qed

lemma parse_rendered:
  assumes "render_conflict rv p c = Inr b" "conflict_known E c" "one_line (display_path p)"
  shows "parse_placeholder E key p fid b = reconstructed rv key p fid c"
proof (cases c)
  case (CContent q f base sides atoms)
  have known: "\<forall>s \<in> set sides. side_known E s" "\<forall>b. base = Some b \<longrightarrow> oid_known E b" "\<forall>a \<in> set atoms. one_line (atom_summary a)"
      "2 \<le> length sides"
    using assms(2) CContent by (auto simp: list_all_iff)
  have "render_content_conflict rv p base sides atoms = Inr b" using assms(1) CContent by (simp add: render_conflict_def)
  then show ?thesis
  proof (cases rule: content_render_shape)
    case (plain_text m)
    then show ?thesis using reconstruct_text [OF known(1,2) assms(3) known(3,4)] CContent by (simp add: reconstructed_def)
  next
    case (binary m)
    then show ?thesis using reconstruct_binary [OF known(1) assms(3) known(4)] CContent by (simp add: reconstructed_def)
  qed
next
  case (CAddAdd q sides)
  have known: "\<forall>s \<in> set sides. side_known E s" "2 \<le> length sides" using assms(2) CAddAdd by (auto simp: list_all_iff)
  have "render_add_add_conflict rv p sides = Inr b" using assms(1) CAddAdd by (simp add: render_conflict_def)
  then show ?thesis
  proof (cases rule: add_add_render_shape)
    case (plain_text m)
    then show ?thesis using reconstruct_add_add [OF assms(3)] CAddAdd by (simp add: reconstructed_def)
  next
    case (binary m)
    then show ?thesis using reconstruct_binary [OF known(1) assms(3) known(2)] CAddAdd by (simp add: reconstructed_def)
  qed
next
  case (CModifyDelete q f modifier deleter content rh dh)
  then have "\<exists>m. b = modify_delete_header p modifier deleter rh dh @ m"
    using assms(1) by (auto simp: render_conflict_def render_modify_delete_conflict_def result_simps)
  then show ?thesis using assms(2,3) CModifyDelete by (auto simp: reconstruct_modify_delete reconstructed_def)
next
  case CDivergentRename
  then show ?thesis using assms(1) by (simp add: render_conflict_def)
qed

section \<open>Reading the file\<close>

lemma utf8_next_rest: "utf8_next s = (True, n) \<Longrightarrow> 0 < i \<Longrightarrow> i < n \<Longrightarrow> 0x80 \<le> byte_at s i"
proof -
  assume run: "utf8_next s = (True, n)" and i: "0 < i" "i < n"
  have ok: "second_byte_ok a b \<Longrightarrow> 0x80 \<le> b" "cont_byte b \<Longrightarrow> 0x80 \<le> b" for a b
    by (auto simp: second_byte_ok_def cont_byte_def split: if_splits)
  have "n \<in> {1, 2, 3, 4} \<and> (2 \<le> n \<longrightarrow> 0x80 \<le> byte_at s 1) \<and> (3 \<le> n \<longrightarrow> 0x80 \<le> byte_at s 2) \<and> (4 \<le> n \<longrightarrow> 0x80 \<le> byte_at s 3)"
    using run ok by (auto simp: utf8_next_def Let_def split: if_splits)
  moreover have "i = 1 \<or> i = 2 \<or> i = 3" using i calculation by auto
  ultimately show ?thesis using i by auto
qed

lemma byte_at_newline: "byte_at (x @ newline # y) (length x) = 10"
  by (simp add: byte_at_def)

lemma utf8_valid_after_newline: "utf8_valid (x @ newline # y) \<Longrightarrow> utf8_valid y"
proof (induction x rule: length_induct)
  case (1 x)
  obtain v n where step: "utf8_next (x @ newline # y) = (v, n)" by force
  then have v: "v" "utf8_valid (drop n (x @ newline # y))"
    using 1(2) utf8_valid.simps [of "x @ newline # y"] by simp_all
  show ?case
  proof (cases "x = []")
    case True
    then have "utf8_next (x @ newline # y) = (True, 1)" by (simp add: utf8_next_def byte_at_def)
    then show ?thesis using step v True by auto
  next
    case False
    have "n \<le> length x"
    proof (rule ccontr)
      assume "\<not> n \<le> length x"
      then have "0x80 \<le> byte_at (x @ newline # y) (length x)" using utf8_next_rest step v(1) False by simp
      then show False by (simp add: byte_at_newline)
    qed
    moreover have "0 < n" using utf8_next_pos [OF step] .
    ultimately have "length (drop n x) < length x" "utf8_valid (drop n x @ newline # y)" using v(2) False by auto
    then show ?thesis using 1(1) by blast
  qed
qed

text \<open>The bytes that a binary placeholder carries verbatim after its header.\<close>

definition raw_content :: "render_env \<Rightarrow> path \<Rightarrow> conflict \<Rightarrow> blob option" where
  "raw_content rv p c =
     (let first = (\<lambda>sides. case read_sides rv p sides of Inr (b # _) \<Rightarrow> Some b | _ \<Rightarrow> None)
      in case c of
        CContent _ _ base sides _ \<Rightarrow> if text_sides rv p base sides then None else first sides
      | CAddAdd _ sides \<Rightarrow> if text_sides rv p None sides then None else first sides
      | CModifyDelete _ _ _ _ content _ _ \<Rightarrow>
          (case read_side_blob rv p content of Inr b \<Rightarrow> if looks_text b then None else Some b | Inl _ \<Rightarrow> None)
      | CDivergentRename _ _ _ \<Rightarrow> None)"

text \<open>A placeholder whose reconstruction is refused.\<close>

definition refused :: "render_env \<Rightarrow> path \<Rightarrow> conflict \<Rightarrow> bool" where
  "refused rv p c \<longleftrightarrow>
     (case render_conflict rv p c of Inr b \<Rightarrow> \<not> utf8_valid b | Inl _ \<Rightarrow> True)
   \<or> (case c of CAddAdd _ sides \<Rightarrow> text_sides rv p None sides | _ \<Rightarrow> False)"

lemma binary_raw:
  assumes "render_binary_content_conflict p sides contents = Inr b" "contents = r # rest"
  shows "\<exists>x. b = x @ newline # r"
proof (cases sides)
  case (Cons s ss)
  let ?x = "binary_header p sides @ text_line (marker_open (cs_workspace s)) @ text_line ''(binary content -- bytes not inlined)''
    @ text_line MARKER_BASE @ text_line MARKER_SEP @ text_line ''(binary content -- bytes not inlined)''
    @ text_line (marker_close (cs_workspace (last sides)))
    @ newline # header_prefix_for p @ '' ----- verbatim bytes of side `'' @ cs_workspace s @ ''` below (chosen arbitrarily) -----''"
  have "b = ?x @ newline # r"
    using assms by (simp only: render_binary_content_conflict_def Cons list.case sum.inject binary_payload_def text_line_def append_assoc append.simps)
  then show ?thesis by blast
qed (use assms in \<open>simp add: render_binary_content_conflict_def\<close>)

lemma raw_at_end:
  assumes "render_conflict rv p c = Inr b" "raw_content rv p c = Some r"
  shows "\<exists>x. b = x @ newline # r"
proof (cases c)
  case (CContent q f base sides atoms)
  obtain bb contents where reads: "read_base rv p base = Inr bb" "read_sides rv p sides = Inr contents"
    using assms(1) by (auto simp: CContent render_conflict_def render_content_conflict_def result_simps)
  then obtain rest where r: "\<not> text_sides rv p base sides" "contents = r # rest"
    using assms(2) by (auto simp: CContent raw_content_def split: if_splits list.splits)
  have "(case bb of None \<Rightarrow> False | Some b \<Rightarrow> \<not> looks_text b) \<or> list_ex (\<lambda>b. \<not> looks_text b) contents"
    using r(1) reads by (auto simp: text_sides_def list_all_iff list_ex_iff split: option.splits)
  then have "render_binary_content_conflict p sides contents = Inr b"
    using assms(1) reads by (auto simp: CContent render_conflict_def render_content_conflict_def)
  then show ?thesis using binary_raw r(2) by blast
next
  case (CAddAdd q sides)
  obtain contents where reads: "read_sides rv p sides = Inr contents"
    using assms(1) by (auto simp: CAddAdd render_conflict_def render_add_add_conflict_def result_simps)
  then obtain rest where r: "\<not> text_sides rv p None sides" "contents = r # rest"
    using assms(2) by (auto simp: CAddAdd raw_content_def split: if_splits list.splits)
  have "list_ex (\<lambda>b. \<not> looks_text b) contents"
    using r(1) reads by (auto simp: text_sides_def read_base_def list_all_iff list_ex_iff)
  then have "render_binary_content_conflict p sides contents = Inr b"
    using assms(1) reads by (auto simp: CAddAdd render_conflict_def render_add_add_conflict_def)
  then show ?thesis using binary_raw r(2) by blast
next
  case (CModifyDelete q f modifier deleter content rh dh)
  then have bytes: "read_side_blob rv p content = Inr r" "\<not> looks_text r"
    using assms(2) by (auto simp: raw_content_def split: sum.splits if_splits)
  have "\<exists>x. b = x @ text_line (''# ----- verbatim bytes of modifier `'' @ cs_workspace modifier @ ''` below -----'') @ r"
    using assms(1) bytes by (auto simp: CModifyDelete render_conflict_def render_modify_delete_conflict_def intro: exI [of _ "_ @ _"])
  then show ?thesis by (auto simp: text_line_def)
qed (use assms in \<open>simp add: render_conflict_def\<close>)

lemma refused_raw: "raw_content rv p c = Some r \<Longrightarrow> \<not> utf8_valid r \<Longrightarrow> refused rv p c"
  using raw_at_end [of rv p c] utf8_valid_after_newline by (auto simp: refused_def split: sum.split)

text \<open>The placeholders of a workspace: their conflicts are known and the files are as rendered.\<close>

definition rendered_files :: "header_env \<Rightarrow> render_env \<Rightarrow> (path \<Rightarrow> conflict) \<Rightarrow> path list \<Rightarrow> bool" where
  "rendered_files E rv conflict_at ps \<longleftrightarrow>
     (\<forall>p \<in> set ps. \<exists>b. render_conflict rv p (conflict_at p) = Inr b \<and> he_file E p = Inr b
        \<and> conflict_known E (conflict_at p) \<and> one_line (display_path p))"

lemma parse_file:
  assumes "rendered_files E rv cf ps" "p \<in> set ps"
  shows "(case read_to_string E p of
         Inl e \<Rightarrow> Inl (''could not read '' @ placeholder_at_msg p @ '': '' @ e)
       | Inr content \<Rightarrow> parse_placeholder E key p fid content) =
     (case render_conflict rv p (cf p) of
        Inr b \<Rightarrow> if utf8_valid b then reconstructed rv key p fid (cf p)
                 else Inl (''could not read '' @ placeholder_at_msg p @ '': stream did not contain valid UTF-8'')
      | Inl _ \<Rightarrow> Inl [])"
proof -
  obtain b where b: "render_conflict rv p (cf p) = Inr b" "he_file E p = Inr b" "conflict_known E (cf p)" "one_line (display_path p)"
    using assms unfolding rendered_files_def by blast
  show ?thesis using parse_rendered [OF b(1,3,4)] b(1,2) by (simp add: read_to_string_def)
qed

lemma not_refused:
  assumes "rendered_files E rv cf ps" "p \<in> set ps"
  shows "refused rv p (cf p) \<longleftrightarrow> isl (case render_conflict rv p (cf p) of
        Inr b \<Rightarrow> if utf8_valid b then reconstructed rv key p fid (cf p)
                 else Inl (''could not read '' @ placeholder_at_msg p @ '': stream did not contain valid UTF-8'')
      | Inl _ \<Rightarrow> Inl [])"
proof -
  obtain b where b: "render_conflict rv p (cf p) = Inr b" using assms unfolding rendered_files_def by blast
  then show ?thesis
    by (cases "cf p") (auto simp: refused_def reconstructed_def Let_def render_conflict_def)
qed

lemma parse_all:
  assumes "rendered_files E rv cf ps" "distinct ps"
  shows "if \<exists>p \<in> set ps. refused rv p (cf p) then isl (parse_placeholders E key ps n t)
    else \<exists>t'. parse_placeholders E key ps n t = Inr t'
      \<and> (\<forall>k < length ps. \<exists>c. reconstructed rv key (ps ! k) (FileId (n + of_nat k)) (cf (ps ! k)) = Inr c
           \<and> bm_get (ct_conflicts t') (ps ! k) = Some c)
      \<and> (\<forall>q. q \<notin> set ps \<longrightarrow> bm_get (ct_conflicts t') q = bm_get (ct_conflicts t) q)"
  using assms
proof (induction ps arbitrary: n t)
  case (Cons p ps)
  let ?read = "case render_conflict rv p (cf p) of
        Inr b \<Rightarrow> if utf8_valid b then reconstructed rv key p (FileId n) (cf p)
                 else Inl (''could not read '' @ placeholder_at_msg p @ '': stream did not contain valid UTF-8'')
      | Inl _ \<Rightarrow> Inl []"
  have files: "rendered_files E rv cf ps" and fresh: "p \<notin> set ps" "distinct ps"
    using Cons.prems by (auto simp: rendered_files_def)
  have run: "parse_placeholders E key (p # ps) n t =
      res_bind ?read (\<lambda>c. parse_placeholders E key ps (n + 1) (t\<lparr>ct_conflicts := bm_insert p c (ct_conflicts t)\<rparr>))"
    using parse_file [OF Cons.prems(1), of p] by simp
  show ?case
  proof (cases ?read)
    case (Inl e)
    then show ?thesis using not_refused [OF Cons.prems(1), of p key "FileId n"] run by simp
  next
    case (Inr c)
    then have ok: "\<not> refused rv p (cf p)" using not_refused [OF Cons.prems(1), of p key "FileId n"] by simp
    have rec: "reconstructed rv key p (FileId n) (cf p) = Inr c"
      using Inr by (auto split: sum.splits if_splits)
    let ?t = "t\<lparr>ct_conflicts := bm_insert p c (ct_conflicts t)\<rparr>"
    have tail: "parse_placeholders E key (p # ps) n t = parse_placeholders E key ps (n + 1) ?t" using run Inr by simp
    note IH = Cons.IH [OF files fresh(2), of "n + 1" ?t]
    show ?thesis
    proof (cases "\<exists>p \<in> set ps. refused rv p (cf p)")
      case True
      then show ?thesis using IH tail ok by auto
    next
      case False
      then obtain t' where t': "parse_placeholders E key ps (n + 1) ?t = Inr t'"
          "\<forall>k < length ps. \<exists>c. reconstructed rv key (ps ! k) (FileId (n + 1 + of_nat k)) (cf (ps ! k)) = Inr c
             \<and> bm_get (ct_conflicts t') (ps ! k) = Some c"
          "\<forall>q. q \<notin> set ps \<longrightarrow> bm_get (ct_conflicts t') q = bm_get (ct_conflicts ?t) q"
        using IH by auto
      have head: "bm_get (ct_conflicts t') p = Some c" using t'(3) fresh(1) by simp
      have "\<exists>c. reconstructed rv key ((p # ps) ! k) (FileId (n + of_nat k)) (cf ((p # ps) ! k)) = Inr c
           \<and> bm_get (ct_conflicts t') ((p # ps) ! k) = Some c" if "k < length (p # ps)" for k
        using that t'(2) rec head by (cases k) (auto simp: add.assoc)
      moreover have "bm_get (ct_conflicts t') q = bm_get (ct_conflicts t) q" if "q \<notin> set (p # ps)" for q
        using t'(3) that by simp
      ultimately show ?thesis using t'(1) tail ok False by auto
    qed
  qed
qed simp

lemma bm_len_card: "bm_len m = card (dom (bm_get m))"
proof -
  have "distinct (bm_keys m)" using bm_keys_increasing [of m] by (simp add: strict_sorted_iff)
  then have "card (dom (bm_get m)) = length (bm_keys m)" by (simp add: distinct_card flip: set_bm_keys)
  then show ?thesis by (simp add: bm_len_def bm_keys_def)
qed

text \<open>C17. Reconstructing a lost sidecar from placeholder files that are as they were rendered. If none is refused, the
  sidecar written has exactly these paths: a text content conflict comes back with its base and the workspace and
  object of every side, a binary one without its base, a modify/delete conflict without its hints, and a binary add/add
  conflict as a content conflict. One refused placeholder refuses them all, and that is every text add/add conflict,
  whose header names no side, and every file that is not UTF-8, so every binary conflict whose first side, or whose
  modified content, is not: the placeholder carries its bytes.\<close>

theorem reconstruct_rendered:
  assumes "rendered_files E rv conflict_at ps" "distinct ps" "he_open E = None" "workspace_id_new workspace = Inr w"
  shows "(if \<exists>p \<in> set ps. refused rv p (conflict_at p) then isl (try_reconstruct_sidecar_from_placeholders E workspace ps)
      else \<exists>t e. epoch_id_new (replicate 40 CHR ''0'') = Inr e
        \<and> try_reconstruct_sidecar_from_placeholders E workspace ps =
            (case he_write_sidecar E t of Some e \<Rightarrow> Inl e | None \<Rightarrow> Inr (length ps, t))
        \<and> (\<forall>k < length ps. \<exists>c. reconstructed rv (dummy_key e w) (ps ! k) (FileId (1 + of_nat k)) (conflict_at (ps ! k)) = Inr c
             \<and> bm_get (ct_conflicts t) (ps ! k) = Some c)
        \<and> (\<forall>q. q \<notin> set ps \<longrightarrow> bm_get (ct_conflicts t) q = None))
    \<and> (\<forall>p \<in> set ps. \<forall>r. raw_content rv p (conflict_at p) = Some r \<and> \<not> utf8_valid r \<longrightarrow> refused rv p (conflict_at p))"
proof -
  have "\<not> isl (epoch_id_new (replicate 40 CHR ''0''))" by code_simp
  then obtain e where e: "epoch_id_new (replicate 40 CHR ''0'') = Inr e" by (cases "epoch_id_new (replicate 40 CHR ''0'')") auto
  have run: "try_reconstruct_sidecar_from_placeholders E workspace ps =
      res_bind (parse_placeholders E (dummy_key e w) ps 1 (conflict_tree_new e))
        (\<lambda>t. case he_write_sidecar E t of Some e \<Rightarrow> Inl e | None \<Rightarrow> Inr (bm_len (ct_conflicts t), t))"
    using assms(3,4) e by (simp add: try_reconstruct_sidecar_from_placeholders_def)
  note all = parse_all [OF assms(1,2), of "dummy_key e w" 1 "conflict_tree_new e"]
  have main: "if \<exists>p \<in> set ps. refused rv p (conflict_at p) then isl (try_reconstruct_sidecar_from_placeholders E workspace ps)
      else \<exists>t. try_reconstruct_sidecar_from_placeholders E workspace ps =
            (case he_write_sidecar E t of Some e \<Rightarrow> Inl e | None \<Rightarrow> Inr (length ps, t))
        \<and> (\<forall>k < length ps. \<exists>c. reconstructed rv (dummy_key e w) (ps ! k) (FileId (1 + of_nat k)) (conflict_at (ps ! k)) = Inr c
             \<and> bm_get (ct_conflicts t) (ps ! k) = Some c)
        \<and> (\<forall>q. q \<notin> set ps \<longrightarrow> bm_get (ct_conflicts t) q = None)"
  proof (cases "\<exists>p \<in> set ps. refused rv p (conflict_at p)")
    case True
    then have "isl (parse_placeholders E (dummy_key e w) ps 1 (conflict_tree_new e))" using all by simp
    then show ?thesis using True run by (auto simp: isl_def)
  next
    case False
    then obtain t where t: "parse_placeholders E (dummy_key e w) ps 1 (conflict_tree_new e) = Inr t"
        "\<forall>k < length ps. \<exists>c. reconstructed rv (dummy_key e w) (ps ! k) (FileId (1 + of_nat k)) (conflict_at (ps ! k)) = Inr c
             \<and> bm_get (ct_conflicts t) (ps ! k) = Some c"
        "\<forall>q. q \<notin> set ps \<longrightarrow> bm_get (ct_conflicts t) q = bm_get (ct_conflicts (conflict_tree_new e)) q"
      using all by auto
    have none: "\<forall>q. q \<notin> set ps \<longrightarrow> bm_get (ct_conflicts t) q = None" using t(3) by (simp add: conflict_tree_new_def)
    moreover have "bm_get (ct_conflicts t) q \<noteq> None" if "q \<in> set ps" for q
      using that t(2) by (auto simp: in_set_conv_nth)
    ultimately have "bm_get (ct_conflicts t) q \<noteq> None \<longleftrightarrow> q \<in> set ps" for q by metis
    then have "dom (bm_get (ct_conflicts t)) = set ps" by (simp only: dom_def Collect_mem_eq)
    then have "bm_len (ct_conflicts t) = length ps" using assms(2) by (simp add: bm_len_card distinct_card)
    then have "try_reconstruct_sidecar_from_placeholders E workspace ps =
        (case he_write_sidecar E t of Some e \<Rightarrow> Inl e | None \<Rightarrow> Inr (length ps, t))"
      by (simp add: run t(1) split: option.split)
    then show ?thesis unfolding if_not_P [OF False] using t(2) none by blast
  qed
  show ?thesis
  proof (rule conjI)
    show "if \<exists>p \<in> set ps. refused rv p (conflict_at p) then isl (try_reconstruct_sidecar_from_placeholders E workspace ps)
      else \<exists>t e. epoch_id_new (replicate 40 CHR ''0'') = Inr e
        \<and> try_reconstruct_sidecar_from_placeholders E workspace ps =
            (case he_write_sidecar E t of Some e \<Rightarrow> Inl e | None \<Rightarrow> Inr (length ps, t))
        \<and> (\<forall>k < length ps. \<exists>c. reconstructed rv (dummy_key e w) (ps ! k) (FileId (1 + of_nat k)) (conflict_at (ps ! k)) = Inr c
             \<and> bm_get (ct_conflicts t) (ps ! k) = Some c)
        \<and> (\<forall>q. q \<notin> set ps \<longrightarrow> bm_get (ct_conflicts t) q = None)"
    proof (cases "\<exists>p \<in> set ps. refused rv p (conflict_at p)")
      case True
      then show ?thesis using main by simp
    next
      case False
      then show ?thesis using main e unfolding if_not_P [OF False] by blast
    qed
  qed (use refused_raw in blast)
qed

definition sample_headers :: header_env where
  "sample_headers = \<lparr>he_open = None, he_read_blob = (\<lambda>_. Inr ''text''), he_file = (\<lambda>_. Inl ''none''), he_write_sidecar = (\<lambda>_. None)\<rparr>"

definition sample_conflict :: conflict where
  "sample_conflict = CContent [''b.rs''] (FileId 7) (Some (sample_oid CHR ''2'')) [sample_side ''epoch'' CHR ''3'', sample_side ''alice'' CHR ''4''] []"

definition sample_files :: header_env where
  "sample_files = sample_headers\<lparr>he_file := (\<lambda>p. case render_conflict sample_env p sample_conflict of Inr b \<Rightarrow> Inr b | Inl _ \<Rightarrow> Inl ''none'')\<rparr>"

lemma reconstruct_rendered_witness:
  "\<exists>t c key. try_reconstruct_sidecar_from_placeholders sample_files ''alice'' [[''b.rs'']] = Inr (1, t)
     \<and> reconstructed sample_env key [''b.rs''] (FileId 1) sample_conflict = Inr c \<and> bm_get (ct_conflicts t) [''b.rs''] = Some c"
proof -
  have "\<not> isl (render_conflict sample_env [''b.rs''] sample_conflict)" by code_simp
  then obtain b where b: "render_conflict sample_env [''b.rs''] sample_conflict = Inr b"
    by (cases "render_conflict sample_env [''b.rs''] sample_conflict") auto
  have oid: "oid_known sample_files (sample_oid c)" if "c \<in> set ''234''" for c
  proof -
    have "list_all (\<lambda>c. git_oid_ok (sample_oid c) \<and> \<not> isl (raw_oid_from_str (oid_str (sample_oid c)))) ''234''" by code_simp
    then have "git_oid_ok (sample_oid c) \<and> \<not> isl (raw_oid_from_str (oid_str (sample_oid c)))" using that unfolding list_all_iff by blast
    then show ?thesis unfolding oid_known_def
      by (cases "raw_oid_from_str (oid_str (sample_oid c))") (auto simp: sample_headers_def sample_files_def)
  qed
  have names: "solid ''epoch''" "solid ''alice''" by code_simp+
  have "conflict_known sample_files sample_conflict"
    using oid [of "CHR ''2''"] oid [of "CHR ''3''"] oid [of "CHR ''4''"] names
    by (simp add: sample_conflict_def side_known_def sample_side_def conflict_side_new_def)
  moreover have "one_line (display_path [''b.rs''])" unfolding one_line_def by code_simp
  ultimately have files: "rendered_files sample_files sample_env (\<lambda>_. sample_conflict) [[''b.rs'']]"
    using b by (simp add: rendered_files_def sample_files_def)
  have ok: "\<not> refused sample_env [''b.rs''] sample_conflict" by code_simp
  have env: "he_open sample_files = None" "he_write_sidecar sample_files t = None" for t
    by (simp_all add: sample_files_def sample_headers_def)
  have "\<not> isl (workspace_id_new ''alice'')" by code_simp
  then obtain w where w: "workspace_id_new ''alice'' = Inr w" by (cases "workspace_id_new ''alice''") auto
  have one: "distinct [[''b.rs'']]" by simp
  from reconstruct_rendered [OF files one env(1) w] ok env(2) show ?thesis by auto
qed

end
