(* ===== verification/Inline_Resolve.thy ===== *)
theory Inline_Resolve
  imports Str_Ops Diff3_Atoms Resolve_Partition Build_Tree
begin

text \<open>
  Resolving conflicts on the command line of a merge, \<open>--resolve ID=STRATEGY\<close>, and reporting them:
  \<open>crates/maw-cli/src/workspace/merge.rs\<close>. The library that makes conflict ids is the pair of functions of
  \<open>id_env\<close>, files are read through \<open>file_env\<close> with paths as texts. A slice whose bounds are out of order or of range panics.
\<close>

record id_env =
  id_hash :: "string \<Rightarrow> nat \<Rightarrow> string"
  id_child :: "string \<Rightarrow> nat \<Rightarrow> string"

record file_env =
  fe_exists :: "string \<Rightarrow> bool"
  fe_read :: "string \<Rightarrow> string + blob"

datatype inline_error = Bail string | InlinePanic

section \<open>Ids\<close>

record conflict_with_id =
  ci_id :: string
  ci_record :: conflict_record
  ci_atom_ids :: "string list"

definition conflict_file_id :: "id_env \<Rightarrow> path \<Rightarrow> string" where
  "conflict_file_id I p = ''cf-'' @ id_hash I (from_utf8_lossy (path_str p)) 4"

definition assign_conflict_ids :: "id_env \<Rightarrow> conflict_record list \<Rightarrow> conflict_with_id list" where
  "assign_conflict_ids I rs = map (\<lambda>r.
     let file_id = conflict_file_id I (cr_path r)
     in \<lparr>ci_id = file_id, ci_record = r,
         ci_atom_ids = map (\<lambda>i. id_child I file_id (min i (2 ^ 32 - 1))) [0 ..< length (cr_atoms r)]\<rparr>) rs"

section \<open>Parsing\<close>

datatype resolution = KeepWorkspace string | UseContent string

definition in_quotes :: "string \<Rightarrow> string" where
  "in_quotes s = CHR 0x27 # s @ [CHR 0x27]"

definition parse_resolution :: "string \<Rightarrow> inline_error + string \<times> resolution" where
  "parse_resolution entry =
     (case split_once ''='' entry of
        None \<Rightarrow> Inl (Bail (''Invalid --resolve format: '' @ in_quotes entry @ newline # ''  Expected: ID=WORKSPACE or ID=content:PATH''
           @ newline # ''  Examples: cf-k7mx=alice, cf-k7mx=content:/path/to/file''))
      | Some (i, st) \<Rightarrow>
          (let id' = str_trim i; strategy = str_trim st
           in if \<not> prefix ''cf-'' id' then
                Inl (Bail (''Invalid conflict ID: '' @ in_quotes id' @ newline # ''  Conflict IDs start with 'cf-' (e.g., cf-k7mx)''))
              else if strategy = [] then
                Inl (Bail (''Empty resolution for '' @ in_quotes id' @ newline # ''  Expected: ID=WORKSPACE or ID=content:PATH''))
              else Inr (id', case strip_prefix ''content:'' strategy of None \<Rightarrow> KeepWorkspace strategy | Some f \<Rightarrow> UseContent f)))"

definition parse_resolutions :: "string list \<Rightarrow> inline_error + (string, resolution) btree" where
  "parse_resolutions raw = res_fold (\<lambda>entry m. res_bind (parse_resolution entry) (\<lambda>(i, r). Inr (bm_insert i r m))) raw bm_empty"

text \<open>\<open>--resolve-all\<close>: every conflict whose own id has no resolution yet.\<close>

definition expand_resolve_all ::
  "string option \<Rightarrow> conflict_with_id list \<Rightarrow> (string, resolution) btree \<Rightarrow> (string, resolution) btree" where
  "expand_resolve_all resolve_all cs parsed =
     (case resolve_all of
        None \<Rightarrow> parsed
      | Some ws \<Rightarrow> fold (\<lambda>c m. if bm_contains m (ci_id c) then m else bm_insert (ci_id c) (KeepWorkspace ws) m) cs parsed)"

section \<open>Whole files\<close>

definition absolute :: "string \<Rightarrow> bool" where
  "absolute f \<longleftrightarrow> prefix ''/'' f"

definition locate_content :: "file_env \<Rightarrow> string list \<Rightarrow> string \<Rightarrow> string" where
  "locate_content F dirs f =
     (if absolute f then f
      else case find (fe_exists F) (map (\<lambda>d. d @ ''/'' @ f) dirs) of Some c \<Rightarrow> c | None \<Rightarrow> f)"

definition resolve_file_content ::
  "file_env \<Rightarrow> string list \<Rightarrow> resolution \<Rightarrow> conflict_record \<Rightarrow> inline_error + blob" where
  "resolve_file_content F dirs res r =
     (case res of
        KeepWorkspace name \<Rightarrow>
          (case workspace_id_new name of
             Inl e \<Rightarrow> Inl (Bail (''Invalid workspace name '' @ in_quotes name @ '': '' @ validation_error_str e))
           | Inr ws \<Rightarrow>
               (case find (\<lambda>s. rs_workspace_id s = ws) (cr_sides r) of
                  None \<Rightarrow> Inl (Bail (''Workspace '' @ in_quotes name @ '' is not a side in this conflict.'' @ newline # ''  Available: ''
                     @ join_with '', '' (map (\<lambda>s. ws_str (rs_workspace_id s)) (cr_sides r))))
                | Some s \<Rightarrow>
                    (case rs_content s of
                       Some c \<Rightarrow> Inr c
                     | None \<Rightarrow> Inl (Bail (''Workspace '' @ in_quotes name @ '' has no content (deleted) for '' @ from_utf8_lossy (path_str (cr_path r))
                          @ ''.'' @ newline # ''  Try: '' @ join_with '', '' (map (\<lambda>s. ws_str (rs_workspace_id s))
                               (filter (\<lambda>s. rs_workspace_id s \<noteq> ws) (cr_sides r))) @ '' or content:PATH'')))))
      | UseContent f \<Rightarrow>
          (case fe_read F (locate_content F dirs f) of
             Inr b \<Rightarrow> Inr b
           | Inl e \<Rightarrow> Inl (Bail (''Could not read resolution file: '' @ locate_content F dirs f @ newline
                # ''  For content: strategy, provide an absolute path or a path relative to a workspace.''))))"

section \<open>Atoms\<close>

definition line_starts :: "string \<Rightarrow> nat list" where
  "line_starts t = 0 # map Suc (filter (\<lambda>i. t ! i = newline) [0 ..< length t])"

definition nth_or :: "'a \<Rightarrow> 'a list \<Rightarrow> nat \<Rightarrow> 'a" where
  "nth_or d xs i = (if i < length xs then xs ! i else d)"

definition region_byte_range :: "region \<Rightarrow> blob \<Rightarrow> u32 \<times> u32" where
  "region_byte_range rg content =
     (case rg of
        AstNode _ _ s e \<Rightarrow> (s, e)
      | Lines s e \<Rightarrow>
          (let starts = line_starts (if utf8_valid content then content else []);
               b = (if 0 < s then nth_or (length content) starts (unat (s - 1)) else 0);
               f = nth_or (length content) starts (unat (e - 1))
           in (usize_to_u32 b, usize_to_u32 f))
      | WholeFile \<Rightarrow> (0, usize_to_u32 (length content)))"

definition slice :: "nat \<Rightarrow> nat \<Rightarrow> blob \<Rightarrow> inline_error + blob" where
  "slice s e b = (if s \<le> e \<and> e \<le> length b then Inr (take (e - s) (drop s b)) else Inl InlinePanic)"

definition atom_part :: "blob \<Rightarrow> conflict_atom \<Rightarrow> string \<Rightarrow> u32 \<Rightarrow> u32 \<Rightarrow> inline_error + blob" where
  "atom_part base atom ws s e =
     (case find (\<lambda>ed. ae_workspace ed = ws) (ca_edits atom) of
        Some ed \<Rightarrow> Inr (ae_content ed)
      | None \<Rightarrow> slice (min (unat s) (length base)) (min (unat e) (length base)) base)"

fun splice_atoms :: "blob \<Rightarrow> (u32 \<times> u32 \<times> conflict_atom \<times> string) list \<Rightarrow> u32 \<Rightarrow> blob \<Rightarrow> inline_error + blob" where
  "splice_atoms base [] pos out = Inr (out @ (if unat pos < length base then drop (unat pos) base else []))"
| "splice_atoms base ((s, e, atom, ws) # rest) pos out =
     res_bind (slice (unat (min pos s)) (min (unat s) (length base)) base) (\<lambda>before.
     res_bind (atom_part base atom ws s e) (\<lambda>part.
       splice_atoms base rest e (out @ before @ part)))"

fun sorted_atoms ::
  "conflict_record \<Rightarrow> blob \<Rightarrow> nat \<Rightarrow> (conflict_atom \<times> resolution option) list \<Rightarrow>
   inline_error + (u32 \<times> u32 \<times> conflict_atom \<times> string) list" where
  "sorted_atoms r base i [] = Inr []"
| "sorted_atoms r base i ((atom, res) # rest) =
     (case res of
        None \<Rightarrow> Inl (Bail (''Missing resolution for atom '' @ show_nat i @ '' of '' @ from_utf8_lossy (path_str (cr_path r))))
      | Some (UseContent _) \<Rightarrow> Inl (Bail (''Atom-level resolution only supports workspace names, not content:PATH.''
           @ newline # ''  For content: strategy, use the file-level ID.''))
      | Some (KeepWorkspace ws) \<Rightarrow>
          (let (s, e) = region_byte_range (ca_base_region atom) base
           in res_bind (sorted_atoms r base (Suc i) rest) (\<lambda>xs. Inr ((s, e, atom, ws) # xs))))"

definition resolve_atoms :: "conflict_record \<Rightarrow> resolution option list \<Rightarrow> inline_error + blob" where
  "resolve_atoms r atom_resolutions =
     (case cr_base r of
        None \<Rightarrow> Inl (Bail (''Atom-level resolution requires base content for '' @ from_utf8_lossy (path_str (cr_path r))
             @ ''. Use file-level ID instead.''))
      | Some base \<Rightarrow>
          res_bind (sorted_atoms r base 0 (zip (cr_atoms r) atom_resolutions))
            (\<lambda>atoms. splice_atoms base (sort_key fst atoms) 0 []))"

section \<open>Applying\<close>

definition apply_resolution ::
  "file_env \<Rightarrow> string list \<Rightarrow> (string, resolution) btree \<Rightarrow> conflict_with_id \<Rightarrow> inline_error + blob option" where
  "apply_resolution F dirs rs c =
     (case bm_get rs (ci_id c) of
        Some res \<Rightarrow> res_bind (resolve_file_content F dirs res (ci_record c)) (\<lambda>b. Inr (Some b))
      | None \<Rightarrow>
          (let picks = map (bm_get rs) (ci_atom_ids c)
           in if ci_atom_ids c = [] then Inr None
              else if list_all (\<lambda>x. x \<noteq> None) picks then res_bind (resolve_atoms (ci_record c) picks) (\<lambda>b. Inr (Some b))
              else if list_ex (\<lambda>x. x \<noteq> None) picks then
                Inl (Bail (''Partial atom resolution for '' @ ci_id c @ '': all atoms must be resolved together.''
                  @ newline # ''  Atoms: '' @ join_with '', '' (ci_atom_ids c)))
              else Inr None))"

fun resolve_each ::
  "file_env \<Rightarrow> string list \<Rightarrow> (string, resolution) btree \<Rightarrow> conflict_with_id list \<Rightarrow> (path, blob) btree \<Rightarrow> conflict_with_id list \<Rightarrow>
   inline_error + (path, blob) btree \<times> conflict_with_id list" where
  "resolve_each F dirs rs [] contents remaining = Inr (contents, remaining)"
| "resolve_each F dirs rs (c # cs) contents remaining =
     res_bind (apply_resolution F dirs rs c) (\<lambda>r. case r of
        Some b \<Rightarrow> resolve_each F dirs rs cs (bm_insert (cr_path (ci_record c)) b contents) remaining
      | None \<Rightarrow> resolve_each F dirs rs cs contents (remaining @ [c]))"

definition known_id :: "conflict_with_id list \<Rightarrow> string \<Rightarrow> bool" where
  "known_id cs i \<longleftrightarrow> list_ex (\<lambda>c. ci_id c = i \<or> i \<in> set (ci_atom_ids c)) cs"

definition apply_resolutions ::
  "file_env \<Rightarrow> string list \<Rightarrow> conflict_with_id list \<Rightarrow> (string, resolution) btree \<Rightarrow>
   inline_error + (path, blob) btree \<times> conflict_with_id list" where
  "apply_resolutions F dirs cs rs =
     res_bind (resolve_each F dirs rs cs bm_empty []) (\<lambda>out.
       (case find (\<lambda>i. \<not> known_id cs i) (bm_keys rs) of
          Some i \<Rightarrow> Inl (Bail (''Unknown conflict ID in --resolve: '' @ in_quotes i @ newline # ''  Valid IDs for this merge: ''
             @ join_with '', '' (map ci_id cs)))
        | None \<Rightarrow> Inr out))"

section \<open>The patched candidate\<close>

record 's patch_repo =
  pr_objects :: "'s git_objects"
  pr_open :: "'s \<Rightarrow> git_error option"
  pr_find_entry :: "raw_oid \<Rightarrow> string \<Rightarrow> 's \<Rightarrow> git_error + (git_entry_mode \<times> raw_oid) option"
  pr_edit_tree :: "raw_oid \<Rightarrow> (string \<times> git_entry_mode \<times> raw_oid) list \<Rightarrow> 's \<Rightarrow> (git_error + raw_oid) \<times> 's"
  pr_rev_parse :: "string \<Rightarrow> 's \<Rightarrow> git_error + raw_oid"

fun candidate_edits ::
  "'s patch_repo \<Rightarrow> raw_oid \<Rightarrow> (path \<times> blob) list \<Rightarrow> 's \<Rightarrow> (string + (string \<times> git_entry_mode \<times> raw_oid) list) \<times> 's" where
  "candidate_edits R tree [] s = (Inr [], s)"
| "candidate_edits R tree ((p, content) # rest) s =
     (let path_text = from_utf8_lossy (path_str p)
      in case go_write_blob_with_path (pr_objects R) content path_text s of
           (Inl e, s1) \<Rightarrow> (Inl (''Failed to hash resolved content for '' @ path_text @ '': '' @ git_error_str e), s1)
         | (Inr oid, s1) \<Rightarrow>
             (let mode = (case pr_find_entry R tree path_text s1 of Inr (Some (m, _)) \<Rightarrow> m | _ \<Rightarrow> GBlob)
              in case candidate_edits R tree rest s1 of
                   (Inl e, s2) \<Rightarrow> (Inl e, s2)
                 | (Inr edits, s2) \<Rightarrow> (Inr ((path_text, mode, oid) # edits), s2)))"

definition patch_candidate_tree :: "'s patch_repo \<Rightarrow> git_oid \<Rightarrow> (path, blob) btree \<Rightarrow> 's \<Rightarrow> (string + git_oid) \<times> 's" where
  "patch_candidate_tree R candidate resolved s =
     (if bm_is_empty resolved then (Inr candidate, s)
      else case pr_open R s of
        Some e \<Rightarrow> (Inl (''failed to open repo: '' @ git_error_str e), s)
      | None \<Rightarrow>
        (case raw_oid_from_str (oid_str candidate) of
           Inl e \<Rightarrow> (Inl (''invalid candidate OID '' @ in_quotes (oid_str candidate) @ '': '' @ oid_parse_error_str e), s)
         | Inr raw \<Rightarrow>
           (case go_read_commit (pr_objects R) raw s of
              Inl e \<Rightarrow> (Inl (''failed to read candidate commit '' @ oid_str candidate @ '': '' @ git_error_str e), s)
            | Inr c \<Rightarrow>
              (case candidate_edits R (ci_tree_oid c) (bm_entries resolved) s of
                 (Inl e, s1) \<Rightarrow> (Inl e, s1)
               | (Inr edits, s1) \<Rightarrow>
                 (case pr_edit_tree R (ci_tree_oid c) edits s1 of
                    (Inl e, s2) \<Rightarrow> (Inl (''edit_tree failed: '' @ git_error_str e), s2)
                  | (Inr tree, s2) \<Rightarrow>
                    (case pr_rev_parse R (oid_str candidate @ ''^'') s2 of
                       Inl e \<Rightarrow> (Inl (''Failed to get candidate parent: '' @ git_error_str e), s2)
                     | Inr parent \<Rightarrow>
                       (case go_create_commit (pr_objects R) tree [parent] ''epoch: merge with conflict resolutions'' s2 of
                          (Inl e, s3) \<Rightarrow> (Inl (''commit-tree failed: '' @ git_error_str e), s3)
                        | (Inr oid, s3) \<Rightarrow>
                          (case git_oid_new (raw_oid_str oid) of
                             Inl e \<Rightarrow> (Inl (''Invalid patched commit OID '' @ in_quotes (raw_oid_str oid) @ '': '' @ validation_error_str e), s3)
                           | Inr g \<Rightarrow> (Inr g, s3)))))))))"

section \<open>Reports\<close>

definition workspace_display_name :: "workspace_id \<Rightarrow> string" where
  "workspace_display_name w = (if is_epoch_delta w then ''epoch (previous merge)'' else ws_str w)"

record conflict_side_json =
  csj_workspace :: string
  csj_change :: string
  csj_content :: "string option"
  csj_is_binary :: bool

record conflict_json =
  cj_id :: "string option"
  cj_type :: string
  cj_path :: string
  cj_reason :: string
  cj_reason_description :: string
  cj_workspaces :: "string list"
  cj_base_content :: "string option"
  cj_base_is_binary :: bool
  cj_sides :: "conflict_side_json list"
  cj_atoms :: "conflict_atom list"
  cj_atom_ids :: "string list"
  cj_strategies :: "string list"

text \<open>The type, the reason and the strategies; the advice in prose is left out.\<close>

definition conflict_reason_json_fields :: "resolve_reason \<Rightarrow> string \<times> string \<times> string list" where
  "conflict_reason_json_fields why =
     (case why of
        AddAddDifferent \<Rightarrow> (''add_add'', ''add_add'', [''keep_one_side'', ''merge_content_manually''])
      | ModifyDeleteConflict \<Rightarrow> (''modify_delete'', ''modify_delete'', [''keep_modified'', ''accept_deletion''])
      | Diff3Conflict \<Rightarrow> (''content'', ''content'', [''edit_file_manually'', ''keep_one_side'', ''combine_changes''])
      | MissingBase \<Rightarrow> (''content'', ''missing_base'', [''manual_resolution'', ''keep_one_side''])
      | MissingContent \<Rightarrow> (''content'', ''missing_content'', [''manual_resolution''])
      | FileDirectory _ _ \<Rightarrow> (''file_directory'', ''file_directory'', [''rename_file'', ''rename_directory'', ''keep_one_side'']))"

definition text_or_binary :: "blob option \<Rightarrow> string option \<times> bool" where
  "text_or_binary b = (case b of None \<Rightarrow> (None, False) | Some c \<Rightarrow> if utf8_valid c then (Some c, False) else (None, True))"

definition side_json :: "record_side \<Rightarrow> conflict_side_json" where
  "side_json s = \<lparr>csj_workspace = workspace_display_name (rs_workspace_id s), csj_change = change_kind_str (rs_kind s),
     csj_content = fst (text_or_binary (rs_content s)), csj_is_binary = snd (text_or_binary (rs_content s))\<rparr>"

definition conflict_record_to_json_with_id :: "conflict_record \<Rightarrow> string option \<Rightarrow> string list \<Rightarrow> conflict_json" where
  "conflict_record_to_json_with_id r i atom_ids =
     (case conflict_reason_json_fields (cr_reason r) of (ty, key, strategies) \<Rightarrow>
       \<lparr>cj_id = i, cj_type = ty, cj_path = from_utf8_lossy (path_str (cr_path r)), cj_reason = key,
        cj_reason_description = resolve_reason_str (cr_reason r),
        cj_workspaces = map (\<lambda>s. workspace_display_name (rs_workspace_id s)) (cr_sides r),
        cj_base_content = fst (text_or_binary (cr_base r)), cj_base_is_binary = snd (text_or_binary (cr_base r)),
        cj_sides = map side_json (cr_sides r), cj_atoms = cr_atoms r, cj_atom_ids = atom_ids, cj_strategies = strategies\<rparr>)"

record conflict_info =
  cx_path :: string
  cx_reason :: string
  cx_sides :: "string list"
  cx_line_start :: "u32 option"
  cx_line_end :: "u32 option"

definition conflict_record_to_info :: "conflict_record \<Rightarrow> conflict_info" where
  "conflict_record_to_info r =
     (let lines = (case cr_atoms r of
          atom # _ \<Rightarrow> (case ca_base_region atom of Lines s e \<Rightarrow> (Some s, Some e) | _ \<Rightarrow> (None, None))
        | [] \<Rightarrow> (None, None))
      in \<lparr>cx_path = from_utf8_lossy (path_str (cr_path r)), cx_reason = resolve_reason_str (cr_reason r),
          cx_sides = sort (map (\<lambda>s. workspace_display_name (rs_workspace_id s)) (cr_sides r)),
          cx_line_start = fst lines, cx_line_end = snd lines\<rparr>)"

end
