(* ===== verification/Inline_Facts.thy ===== *)
theory Inline_Facts
  imports Inline_Resolve
begin

text \<open>
  What the resolutions given on the command line make of the conflicts of a merge: which conflicts remain, and which
  bytes the resolution of single regions writes for a file that git merged.
\<close>

section \<open>Line offsets\<close>

lemma newline_positions_append:
  "filter (\<lambda>i. (s @ t) ! i = c) [0 ..< length (s @ t)] =
   filter (\<lambda>i. s ! i = c) [0 ..< length s] @ map ((+) (length s)) (filter (\<lambda>i. t ! i = c) [0 ..< length t])"
proof -
  have split: "[0 ..< length (s @ t)] = [0 ..< length s] @ map ((+) (length s)) [0 ..< length t]"
    using upt_add_eq_append [of 0 "length s" "length t"] map_add_upt [of "length s" "length t"]
    by (simp add: add.commute [of _ "length s"])
  have front: "filter (\<lambda>i. (s @ t) ! i = c) [0 ..< length s] = filter (\<lambda>i. s ! i = c) [0 ..< length s]"
    by (rule filter_cong) (auto simp: nth_append)
  have rear: "filter (\<lambda>i. (s @ t) ! i = c) (map ((+) (length s)) [0 ..< length t])
      = map ((+) (length s)) (filter (\<lambda>i. t ! i = c) [0 ..< length t])"
    by (simp add: filter_map comp_def nth_append)
  show ?thesis by (simp only: split filter_append front rear)
qed

lemma line_starts_Cons:
  assumes "newline \<notin> set l"
  shows "line_starts (l @ newline # t) = 0 # map ((+) (Suc (length l))) (line_starts t)"
proof -
  have "filter (\<lambda>i. l ! i = newline) [0 ..< length l] = []"
  proof (rule filter_False, rule ballI)
    fix i assume "i \<in> set [0 ..< length l]"
    then have "l ! i \<in> set l" by simp
    then show "l ! i \<noteq> newline" using assms by metis
  qed
  then have "filter (\<lambda>i. (l @ [newline]) ! i = newline) [0 ..< length (l @ [newline])] = [length l]"
    using newline_positions_append [of l "[newline]" newline] by simp
  then have "filter (\<lambda>i. ((l @ [newline]) @ t) ! i = newline) [0 ..< length ((l @ [newline]) @ t)]
      = length l # map ((+) (Suc (length l))) (filter (\<lambda>i. t ! i = newline) [0 ..< length t])"
    using newline_positions_append [of "l @ [newline]" t newline] by simp
  then show ?thesis by (simp add: line_starts_def comp_def)
qed

definition offset :: "string list \<Rightarrow> nat \<Rightarrow> nat" where
  "offset ls k = length (unlines (take k ls))"

lemma line_starts_unlines: "list_all (\<lambda>l. newline \<notin> set l) ls \<Longrightarrow> line_starts (unlines ls) = map (offset ls) [0 ..< Suc (length ls)]"
proof (induction ls)
  case Nil
  then show ?case by (simp add: line_starts_def unlines_def offset_def)
next
  case (Cons l ls)
  have "unlines (l # ls) = l @ newline # unlines ls" by (simp add: unlines_def)
  then have "line_starts (unlines (l # ls)) = 0 # map (\<lambda>k. Suc (length l) + offset ls k) [0 ..< Suc (length ls)]"
    using Cons line_starts_Cons [of l "unlines ls"] by (simp add: comp_def del: upt_Suc)
  also have "\<dots> = offset (l # ls) 0 # map (\<lambda>k. offset (l # ls) (Suc k)) [0 ..< Suc (length ls)]"
    by (simp add: offset_def unlines_def del: upt_Suc)
  also have "\<dots> = map (offset (l # ls)) (0 # map Suc [0 ..< Suc (length ls)])" by (simp add: comp_def del: upt_Suc)
  also have "0 # map Suc [0 ..< Suc (length ls)] = [0 ..< Suc (length (l # ls))]"
    by (simp add: map_Suc_upt upt_conv_Cons del: upt_Suc)
  finally show ?case .
qed

lemma offset_mono: "i \<le> j \<Longrightarrow> offset ls i \<le> offset ls j"
proof -
  assume "i \<le> j"
  then have "take j ls = take i ls @ take (j - i) (drop i ls)" by (metis le_add_diff_inverse take_add)
  then show ?thesis by (simp add: offset_def unlines_def)
qed

lemma offset_all: "length ls \<le> k \<Longrightarrow> offset ls k = length (unlines ls)"
  by (simp add: offset_def)

lemma lines_le: "length ls \<le> length (unlines ls)"
  by (induction ls) (auto simp: unlines_def)

lemma line_range:
  assumes "list_all (\<lambda>l. newline \<notin> set l) ls" "utf8_valid (unlines ls)" "length (unlines ls) < 2 ^ 32 - 1" "k + m \<le> length ls"
  shows "region_byte_range (Lines (of_nat (Suc k)) (of_nat (Suc (k + m)))) (unlines ls) = (of_nat (offset ls k), of_nat (offset ls (k + m)))"
proof -
  have small: "Suc (k + m) < 2 ^ 32" using assms(3,4) lines_le [of ls] by simp
  have n: "unat (of_nat j - 1 :: u32) = j - 1" if "0 < j" "j < 2 ^ 32" for j
  proof -
    have "(of_nat j :: u32) - 1 = of_nat (j - 1)" using that(1) by (simp add: of_nat_diff)
    then show ?thesis using that by (simp only: unat_of_nat) simp
  qed
  have "(0 :: u32) < of_nat (Suc k)" using small by (simp add: word_less_nat_alt unat_of_nat del: of_nat_Suc)
  moreover have "nth_or d (line_starts (unlines ls)) j = offset ls j" if "j \<le> length ls" for d j
    using that line_starts_unlines [OF assms(1)] by (simp add: nth_or_def nth_append del: upt_Suc)
  ultimately show ?thesis
    using assms(2-4) small n [of "Suc k"] n [of "Suc (k + m)"] offset_mono [of k "length ls" ls] offset_mono [of "k + m" "length ls" ls] offset_all [of ls "length ls"]
    by (simp add: region_byte_range_def Let_def usize_to_u32_def del: of_nat_Suc)
qed

section \<open>Splicing\<close>

text \<open>What the splice writes for each hunk: context as it is in the base, for a clash the chosen lines without a last
  newline.\<close>

fun spliced :: "string \<Rightarrow> string \<Rightarrow> hunk list \<Rightarrow> string list \<Rightarrow> string" where
  "spliced wo wt [] ws = []"
| "spliced wo wt (hunk.Context l # hs) ws = l @ newline # spliced wo wt hs ws"
| "spliced wo wt (Clash os bs ts # hs) [] = []"
| "spliced wo wt (Clash os bs ts # hs) (w # ws) =
     (if w = wo then join_with [newline] os else if w = wt then join_with [newline] ts else unlines bs) @ spliced wo wt hs ws"

definition spliced_atoms ::
  "string \<Rightarrow> string \<Rightarrow> string list \<Rightarrow> (nat \<times> string list \<times> string list \<times> string list) list \<Rightarrow> string list \<Rightarrow>
   (u32 \<times> u32 \<times> conflict_atom \<times> string) list" where
  "spliced_atoms wo wt ls cl ws = map (\<lambda>(x, w). case x of (n, os, bs, ts) \<Rightarrow>
     (of_nat (offset ls (n - 1)), of_nat (offset ls (n - 1 + length bs)), clash_atom wo wt x, w)) (zip cl ws)"

lemma clash_atom_parts:
  assumes "n + length bs < 2 ^ 32"
  shows "ca_base_region (clash_atom wo wt (n, os, bs, ts)) = Lines (of_nat n) (of_nat (n + length bs))"
    and "find (\<lambda>ed. ae_workspace ed = w) (ca_edits (clash_atom wo wt (n, os, bs, ts))) =
      (if w = wo then Some (atom_edit_new wo (Lines (of_nat n) (of_nat n + usize_to_u32 (length os))) (join_with [newline] os))
       else if w = wt then Some (atom_edit_new wt (Lines (of_nat n) (of_nat n + usize_to_u32 (length ts))) (join_with [newline] ts)) else None)"
  using assms by (simp_all add: clash_atom_def finish_block_def Let_def conflict_atom_new_def atom_edit_new_def usize_to_u32_def)

lemma clashes_length: "length (clashes n hs) = length (filter (\<lambda>h. case h of Clash _ _ _ \<Rightarrow> True | _ \<Rightarrow> False) hs)"
  by (induction n hs rule: clashes.induct) auto

lemma splice_hunks:
  assumes "ls = pre @ merged_base hs" "length ws = length (clashes (Suc (length pre)) hs)" "p \<le> length pre"
    and "length (unlines ls) < 2 ^ 32 - 1"
  shows "splice_atoms (unlines ls) (spliced_atoms wo wt ls (clashes (Suc (length pre)) hs) ws) (of_nat (offset ls p)) out
    = Inr (out @ drop (offset ls p) (unlines pre) @ spliced wo wt hs ws)"
  using assms
proof (induction hs arbitrary: pre p ws out)
  case Nil
  have "offset ls p < 2 ^ 32" using Nil.prems offset_mono [of p "length ls" ls] offset_all [of ls "length ls"] by simp
  then have "unat (of_nat (offset ls p) :: u32) = offset ls p" by (simp add: unat_of_nat)
  then show ?case using Nil by (simp add: spliced_atoms_def merged_base_def)
next
  case (Cons h hs)
  have off: "offset ls q = length (unlines (take q pre))" if "q \<le> length pre" for q
    using that by (simp add: Cons.prems(1) offset_def)
  have small: "offset ls q < 2 ^ 32" for q
  proof -
    have "offset ls q \<le> offset ls (max q (length ls))" by (rule offset_mono) simp
    then show ?thesis using Cons.prems(4) offset_all [of ls "max q (length ls)"] by simp
  qed
  have u: "unat (of_nat (offset ls q) :: u32) = offset ls q" for q using small [of q] by (simp add: unat_of_nat)
  have le: "offset ls p \<le> length (unlines pre)" using offset_mono [OF Cons.prems(3), of ls] off [of "length pre"] by simp
  show ?case
  proof (cases h)
    case (Context l)
    have "splice_atoms (unlines ls) (spliced_atoms wo wt ls (clashes (Suc (length (pre @ [l]))) hs) ws) (of_nat (offset ls p)) out
        = Inr (out @ drop (offset ls p) (unlines (pre @ [l])) @ spliced wo wt hs ws)"
      by (rule Cons.IH) (use Cons.prems Context in \<open>simp_all add: merged_base_def\<close>)
    then show ?thesis using le by (simp add: Context unlines_def)
  next
    case (Clash os bs ts)
    obtain w ws' where ws: "ws = w # ws'" using Cons.prems(2) Clash by (cases ws) auto
    let ?n = "Suc (length pre)" and ?s = "offset ls (length pre)" and ?e = "offset ls (length pre + length bs)"
    let ?atom = "clash_atom wo wt (?n, os, bs, ts)"
    have base: "ls = (pre @ bs) @ merged_base hs" using Cons.prems(1) by (simp add: Clash merged_base_def)
    have s: "?s = length (unlines pre)" by (rule off [THEN trans]) simp_all
    have e: "?e = length (unlines pre) + length (unlines bs)" by (simp add: base offset_def unlines_def)
    have whole: "unlines ls = unlines pre @ unlines bs @ unlines (merged_base hs)" by (simp add: base unlines_def)
    have count: "?n + length bs < 2 ^ 32"
      using lines_le [of ls] Cons.prems(4) base by simp
    have front: "slice (unat (min (of_nat (offset ls p)) (of_nat ?s :: u32))) (min (unat (of_nat ?s :: u32)) (length (unlines ls))) (unlines ls)
        = Inr (drop (offset ls p) (unlines pre))"
    proof -
      have "min (of_nat (offset ls p)) (of_nat ?s :: u32) = of_nat (offset ls p)"
        using le s u [of p] u [of "length pre"] by (simp add: min_def word_le_nat_alt)
      moreover have "min (unat (of_nat ?s :: u32)) (length (unlines ls)) = length (unlines pre)"
        using s u [of "length pre"] whole by simp
      ultimately show ?thesis using le u [of p] whole by (simp add: slice_def)
    qed
    have part: "atom_part (unlines ls) ?atom w (of_nat ?s) (of_nat ?e)
        = Inr (if w = wo then join_with [newline] os else if w = wt then join_with [newline] ts else unlines bs)"
    proof (cases "w = wo \<or> w = wt")
      case True
      then show ?thesis by (auto simp: atom_part_def clash_atom_parts(2) [OF count] atom_edit_new_def)
    next
      case False
      then have "atom_part (unlines ls) ?atom w (of_nat ?s) (of_nat ?e) = slice (length (unlines pre)) (length (unlines pre) + length (unlines bs)) (unlines ls)"
        using u [of "length pre"] u [of "length pre + length bs"] s e whole
        by (simp add: atom_part_def clash_atom_parts(2) [OF count])
      then show ?thesis using False whole by (simp add: slice_def)
    qed
    have rest: "splice_atoms (unlines ls) (spliced_atoms wo wt ls (clashes (Suc (length (pre @ bs))) hs) ws') (of_nat (offset ls (length (pre @ bs)))) out'
        = Inr (out' @ drop (offset ls (length (pre @ bs))) (unlines (pre @ bs)) @ spliced wo wt hs ws')" for out'
      by (rule Cons.IH) (use Cons.prems base ws Clash in \<open>simp_all\<close>)
    have "drop (offset ls (length (pre @ bs))) (unlines (pre @ bs)) = []" using e by (simp add: unlines_def)
    then show ?thesis using front part rest
      by (simp add: Clash ws spliced_atoms_def)
  qed
qed

lemma sorted_atoms_hunks:
  assumes "list_all (\<lambda>l. newline \<notin> set l) ls" "utf8_valid (unlines ls)" "length (unlines ls) < 2 ^ 32 - 1"
    and "\<forall>(n, os, bs, ts) \<in> set cl. 1 \<le> n \<and> n - 1 + length bs \<le> length ls" "length ws = length cl"
  shows "sorted_atoms r (unlines ls) i (zip (map (clash_atom wo wt) cl) (map (\<lambda>w. Some (KeepWorkspace w)) ws))
    = Inr (spliced_atoms wo wt ls cl ws)"
  using assms(4,5)
proof (induction cl arbitrary: ws i)
  case (Cons x cl)
  obtain n os bs ts where x: "x = (n, os, bs, ts)" by (cases x)
  obtain w ws' where ws: "ws = w # ws'" using Cons.prems(2) by (cases ws) auto
  have n: "1 \<le> n" "n - 1 + length bs \<le> length ls" using Cons.prems(1) x by auto
  have "n + length bs < 2 ^ 32" using n lines_le [of ls] assms(3) by simp
  then have "region_byte_range (ca_base_region (clash_atom wo wt x)) (unlines ls) = (of_nat (offset ls (n - 1)), of_nat (offset ls (n - 1 + length bs)))"
    using line_range [OF assms(1-3) n(2)] n(1) by (simp add: x clash_atom_parts(1) del: of_nat_Suc of_nat_add)
  moreover have "sorted_atoms r (unlines ls) (Suc i) (zip (map (clash_atom wo wt) cl) (map (\<lambda>w. Some (KeepWorkspace w)) ws'))
    = Inr (spliced_atoms wo wt ls cl ws')"
    using Cons ws by simp
  ultimately show ?case by (simp add: ws spliced_atoms_def) (simp add: x)
qed (simp add: spliced_atoms_def)

lemma clashes_sorted: "sorted_wrt (\<lambda>a b. fst a \<le> fst b) (clashes n hs)"
proof (induction n hs rule: clashes.induct)
  case (3 n os bs ts hs)
  then show ?case using clashes_merged_base by fastforce
qed simp_all

lemma spliced_atoms_sorted:
  assumes "length (unlines ls) < 2 ^ 32 - 1" "length ws = length cl" "sorted_wrt (\<lambda>a b. fst a \<le> fst b) cl"
  shows "sorted (map fst (spliced_atoms wo wt ls cl ws))"
proof -
  have small: "offset ls q < 2 ^ 32" for q
  proof -
    have "offset ls q \<le> offset ls (max q (length ls))" by (rule offset_mono) simp
    then show ?thesis using assms(1) offset_all [of ls "max q (length ls)"] by simp
  qed
  have le: "(of_nat (offset ls i) :: u32) \<le> of_nat (offset ls j)" if "i \<le> j" for i j
    using offset_mono [OF that, of ls] small [of i] small [of j] by (simp add: word_le_nat_alt unat_of_nat)
  have "map fst (spliced_atoms wo wt ls cl ws) = map (\<lambda>x. of_nat (offset ls (fst x - 1))) (take (length ws) cl)"
    unfolding spliced_atoms_def map_map comp_def
    by (rule nth_equalityI) (auto simp: assms(2) split: prod.split)
  then show ?thesis using assms(2,3) by (auto simp: sorted_wrt_iff_nth_less sorted_wrt_map intro!: le diff_le_mono)
qed

lemma parse_hunks:
  assumes "list_all hunk_ok hs" "list_all line_ok (hunks_lines lo lb lt hs)" "utf8_valid (unlines (hunks_lines lo lb lt hs))"
    "length (merged_base hs) < 2 ^ 32"
  shows "parse_diff3_atoms (unlines (hunks_lines lo lb lt hs)) wo wt = map (clash_atom wo wt) (clashes 1 hs)"
  using fold_hunks [OF assms(1,4), of diff3_start 1 wo wt lo lb lt] assms(2,3)
  by (simp add: parse_diff3_atoms_def from_utf8_lossy_valid str_lines_unlines diff3_start_def)

section \<open>Properties\<close>

text \<open>C33. Resolving every region of a conflict on the command line, for a file whose merge has conflict blocks and
  otherwise the lines of the base: the file written is the base with each region replaced by the lines of the chosen
  workspace, but without the newline after the last of them, so that this line and the next line of the base are
  glued together; a workspace that is not a side leaves the lines of the base.\<close>

theorem atom_resolution_splices:
  assumes "list_all hunk_ok hs" "list_all line_ok (hunks_lines lo lb lt hs)"
    and "utf8_valid (unlines (hunks_lines lo lb lt hs))"
    and "cr_base r = Some (unlines (merged_base hs))" "utf8_valid (unlines (merged_base hs))" "list_all (\<lambda>l. newline \<notin> set l) (merged_base hs)"
    and "length (unlines (merged_base hs)) < 2 ^ 32 - 1"
    and "cr_atoms r = parse_diff3_atoms (unlines (hunks_lines lo lb lt hs)) wo wt" "length ws = length (cr_atoms r)"
  shows "resolve_atoms r (map (\<lambda>w. Some (KeepWorkspace w)) ws) = Inr (spliced wo wt hs ws)"
proof -
  let ?cl = "clashes 1 hs" and ?ls = "merged_base hs"
  have lines: "length ?ls < 2 ^ 32" using assms(7) lines_le [of ?ls] by simp
  have atoms: "cr_atoms r = map (clash_atom wo wt) ?cl"
    using parse_hunks [OF assms(1-3) lines] assms(8) by simp
  have len: "length ws = length ?cl" using assms(9) atoms by simp
  have ranges: "\<forall>(n, os, bs, ts) \<in> set ?cl. 1 \<le> n \<and> n - 1 + length bs \<le> length ?ls"
    using clashes_merged_base by fastforce
  have "sorted_atoms r (unlines ?ls) 0 (zip (cr_atoms r) (map (\<lambda>w. Some (KeepWorkspace w)) ws)) = Inr (spliced_atoms wo wt ?ls ?cl ws)"
    using sorted_atoms_hunks [OF assms(6,5,7) ranges len] atoms by simp
  moreover have "sort_key fst (spliced_atoms wo wt ?ls ?cl ws) = spliced_atoms wo wt ?ls ?cl ws"
    by (rule sort_key_id_if_sorted [OF spliced_atoms_sorted [OF assms(7) len clashes_sorted]])
  moreover have "splice_atoms (unlines ?ls) (spliced_atoms wo wt ?ls ?cl ws) 0 [] = Inr (spliced wo wt hs ws)"
    using splice_hunks [of ?ls "[]" hs ws 0 wo wt "[]"] len assms(7) by (simp add: offset_def unlines_def)
  ultimately show ?thesis using assms(4) by (simp add: resolve_atoms_def)
qed

lemma resolve_each_accounts:
  assumes "resolve_each F dirs rs cs contents remaining = Inr (contents', remaining')" "distinct (map (\<lambda>c. cr_path (ci_record c)) cs)"
  shows "remaining' = remaining @ filter (\<lambda>c. apply_resolution F dirs rs c = Inr None) cs
    \<and> (\<forall>c \<in> set cs. apply_resolution F dirs rs c \<noteq> Inr None \<longrightarrow>
        (\<exists>b. apply_resolution F dirs rs c = Inr (Some b) \<and> bm_get contents' (cr_path (ci_record c)) = Some b))
    \<and> (\<forall>p. p \<notin> (\<lambda>c. cr_path (ci_record c)) ` set (filter (\<lambda>c. apply_resolution F dirs rs c \<noteq> Inr None) cs) \<longrightarrow>
        bm_get contents' p = bm_get contents p)"
  using assms
proof (induction cs arbitrary: contents remaining)
  case (Cons c cs)
  have d: "distinct (map (\<lambda>c. cr_path (ci_record c)) cs)" "cr_path (ci_record c) \<notin> (\<lambda>c. cr_path (ci_record c)) ` set cs"
    using Cons.prems(2) by auto
  from Cons.prems(1) obtain o' where o': "apply_resolution F dirs rs c = Inr o'"
    by (auto simp: result_simps)
  show ?case
  proof (cases o')
    case None
    then have "resolve_each F dirs rs cs contents (remaining @ [c]) = Inr (contents', remaining')" using Cons.prems(1) o' by simp
    from Cons.IH [OF this d(1)] show ?thesis using o' None by simp
  next
    case (Some b)
    then have "resolve_each F dirs rs cs (bm_insert (cr_path (ci_record c)) b contents) remaining = Inr (contents', remaining')"
      using Cons.prems(1) o' by simp
    note IH = Cons.IH [OF this d(1)]
    have "cr_path (ci_record c) \<notin> (\<lambda>c. cr_path (ci_record c)) ` set (filter (\<lambda>c. apply_resolution F dirs rs c \<noteq> Inr None) cs)"
      using d(2) by auto
    then have "bm_get contents' (cr_path (ci_record c)) = Some b" using IH by simp
    then show ?thesis using IH o' Some by simp
  qed
qed simp

definition given_atoms :: "(string, resolution) btree \<Rightarrow> conflict_with_id \<Rightarrow> string list" where
  "given_atoms rs c = filter (\<lambda>a. bm_contains rs a) (ci_atom_ids c)"

lemma given_atoms_empty: "given_atoms rs c = [] \<longleftrightarrow> (\<forall>a \<in> set (ci_atom_ids c). bm_get rs a = None)"
  by (auto simp: given_atoms_def filter_empty_conv bm_contains_def)

lemma given_atoms_all: "given_atoms rs c = ci_atom_ids c \<longleftrightarrow> (\<forall>a \<in> set (ci_atom_ids c). bm_get rs a \<noteq> None)"
  by (auto simp: given_atoms_def filter_id_conv bm_contains_def)

lemma open_iff: "apply_resolution F dirs rs c = Inr None \<longleftrightarrow> bm_get rs (ci_id c) = None \<and> given_atoms rs c = []"
  by (cases "ci_atom_ids c")
    (auto simp: apply_resolution_def Let_def result_simps list_all_iff list_ex_iff given_atoms_empty split: option.split)

lemma resolved_by_id:
  "apply_resolution F dirs rs c = Inr (Some b) \<Longrightarrow> bm_get rs (ci_id c) = Some res \<Longrightarrow> resolve_file_content F dirs res (ci_record c) = Inr b"
  by (auto simp: apply_resolution_def result_simps)

lemma resolved_by_atoms:
  "apply_resolution F dirs rs c = Inr (Some b) \<Longrightarrow> bm_get rs (ci_id c) = None \<Longrightarrow>
   given_atoms rs c = ci_atom_ids c \<and> resolve_atoms (ci_record c) (map (bm_get rs) (ci_atom_ids c)) = Inr b"
  by (auto simp: apply_resolution_def Let_def result_simps list_all_iff given_atoms_all split: if_splits)

lemma apply_resolutions_success:
  assumes "apply_resolutions F dirs cs rs = Inr (contents, remaining)" "distinct (map (\<lambda>c. cr_path (ci_record c)) cs)"
  shows "remaining = filter (\<lambda>c. bm_get rs (ci_id c) = None \<and> given_atoms rs c = []) cs"
    and "c \<in> set cs \<Longrightarrow> bm_get rs (ci_id c) = Some res \<Longrightarrow>
      \<exists>b. resolve_file_content F dirs res (ci_record c) = Inr b \<and> bm_get contents (cr_path (ci_record c)) = Some b"
    and "c \<in> set cs \<Longrightarrow> bm_get rs (ci_id c) = None \<Longrightarrow> given_atoms rs c \<noteq> [] \<Longrightarrow>
      given_atoms rs c = ci_atom_ids c \<and>
      (\<exists>b. resolve_atoms (ci_record c) (map (bm_get rs) (ci_atom_ids c)) = Inr b \<and> bm_get contents (cr_path (ci_record c)) = Some b)"
    and "bm_get contents p \<noteq> None \<Longrightarrow> p \<in> (\<lambda>c. cr_path (ci_record c)) ` (set cs - set remaining)"
    and "bm_get rs i \<noteq> None \<Longrightarrow> known_id cs i"
proof -
  have run: "resolve_each F dirs rs cs bm_empty [] = Inr (contents, remaining)"
      and ids: "find (\<lambda>i. \<not> known_id cs i) (bm_keys rs) = None"
    using assms(1) by (auto simp: apply_resolutions_def result_simps split: option.splits)
  note acc = resolve_each_accounts [OF run assms(2)]
  have rem: "remaining = filter (\<lambda>c. apply_resolution F dirs rs c = Inr None) cs" using acc by simp
  show "remaining = filter (\<lambda>c. bm_get rs (ci_id c) = None \<and> given_atoms rs c = []) cs"
    by (simp add: rem open_iff)
  have out: "\<exists>b. apply_resolution F dirs rs c = Inr (Some b) \<and> bm_get contents (cr_path (ci_record c)) = Some b"
    if "c \<in> set cs" "\<not> (bm_get rs (ci_id c) = None \<and> given_atoms rs c = [])" for c
  proof -
    have "apply_resolution F dirs rs c \<noteq> Inr None" using that(2) by (simp only: open_iff not_False_eq_True)
    then show ?thesis using acc that(1) by blast
  qed
  show "\<exists>b. resolve_file_content F dirs res (ci_record c) = Inr b \<and> bm_get contents (cr_path (ci_record c)) = Some b"
    if "c \<in> set cs" "bm_get rs (ci_id c) = Some res"
    using out [of c] that resolved_by_id by fastforce
  show "given_atoms rs c = ci_atom_ids c \<and>
      (\<exists>b. resolve_atoms (ci_record c) (map (bm_get rs) (ci_atom_ids c)) = Inr b \<and> bm_get contents (cr_path (ci_record c)) = Some b)"
    if "c \<in> set cs" "bm_get rs (ci_id c) = None" "given_atoms rs c \<noteq> []"
    using out [of c] that resolved_by_atoms by fastforce
  show "p \<in> (\<lambda>c. cr_path (ci_record c)) ` (set cs - set remaining)" if "bm_get contents p \<noteq> None"
  proof (rule ccontr)
    assume "p \<notin> (\<lambda>c. cr_path (ci_record c)) ` (set cs - set remaining)"
    then have "p \<notin> (\<lambda>c. cr_path (ci_record c)) ` set (filter (\<lambda>c. apply_resolution F dirs rs c \<noteq> Inr None) cs)"
      by (auto simp: rem)
    then have "bm_get contents p = bm_get bm_empty p" using acc by blast
    then show False using that by simp
  qed
  show "known_id cs i" if given: "bm_get rs i \<noteq> None"
  proof -
    from given have "\<exists>x. bm_get rs i = Some x" by blast
    then obtain x where "bm_get rs i = Some x" ..
    then have "(i, x) \<in> set (bm_entries rs)" by (simp add: bm.in_entries)
    then have "i \<in> set (bm_keys rs)" by (force simp: bm_keys_def)
    then show ?thesis using ids by (auto simp: find_None_iff)
  qed
qed

text \<open>C18. If the resolutions of the command line are applied, every conflict is accounted for. A conflict stays, in
  order, exactly if neither its id nor any of its regions is given; a conflict whose id is given has the content of the
  workspace or the file named; a conflict with regions given and no id has all of its regions given, and the content is
  what the splice of the regions makes. So a partial choice of regions is never applied: the command fails. No other
  path gets content, and every id given belongs to a conflict.\<close>

theorem apply_resolutions_accounts:
  assumes "apply_resolutions F dirs cs rs = Inr (contents, remaining)" "distinct (map (\<lambda>c. cr_path (ci_record c)) cs)"
  shows "remaining = filter (\<lambda>c. bm_get rs (ci_id c) = None \<and> given_atoms rs c = []) cs
    \<and> (\<forall>c \<in> set cs. \<forall>res. bm_get rs (ci_id c) = Some res \<longrightarrow>
        (\<exists>b. resolve_file_content F dirs res (ci_record c) = Inr b \<and> bm_get contents (cr_path (ci_record c)) = Some b))
    \<and> (\<forall>c \<in> set cs. bm_get rs (ci_id c) = None \<and> given_atoms rs c \<noteq> [] \<longrightarrow> given_atoms rs c = ci_atom_ids c \<and>
        (\<exists>b. resolve_atoms (ci_record c) (map (bm_get rs) (ci_atom_ids c)) = Inr b
           \<and> bm_get contents (cr_path (ci_record c)) = Some b))
    \<and> (\<forall>p. bm_get contents p \<noteq> None \<longrightarrow> p \<in> (\<lambda>c. cr_path (ci_record c)) ` (set cs - set remaining))
    \<and> (\<forall>i. bm_get rs i \<noteq> None \<longrightarrow> known_id cs i)"
  using apply_resolutions_success [OF assms] by (intro conjI ballI allI impI) (blast | simp)+

lemma expand_keeps:
  assumes "bm_get m i = Some r"
  shows "bm_get (fold (\<lambda>c m. if bm_contains m (ci_id c) then m else bm_insert (ci_id c) (KeepWorkspace ws) m) cs m) i = Some r"
  using assms
proof (induction cs arbitrary: m)
  case (Cons c cs)
  let ?m = "if bm_contains m (ci_id c) then m else bm_insert (ci_id c) (KeepWorkspace ws) m"
  have "bm_get ?m i = Some r" using Cons.prems by (auto simp: bm_contains_def)
  from Cons.IH [OF this] show ?case by simp
qed simp

lemma expand_gives:
  "c \<in> set cs \<Longrightarrow> bm_get rs (ci_id c) = None \<Longrightarrow> bm_get (expand_resolve_all (Some ws) cs rs) (ci_id c) = Some (KeepWorkspace ws)"
  unfolding expand_resolve_all_def option.case
proof (induction cs arbitrary: rs)
  case (Cons x cs)
  let ?m = "if bm_contains rs (ci_id x) then rs else bm_insert (ci_id x) (KeepWorkspace ws) rs"
  show ?case
  proof (cases "ci_id x = ci_id c")
    case True
    then have "bm_get ?m (ci_id c) = Some (KeepWorkspace ws)" using Cons.prems by (simp add: bm_contains_def)
    from expand_keeps [OF this, of ws cs] show ?thesis by (simp only: fold.simps comp_apply)
  next
    case False
    then have "c \<in> set cs" "bm_get ?m (ci_id c) = None" using Cons.prems by (auto simp: bm_contains_def)
    from Cons.IH [OF this] show ?thesis by simp
  qed
qed simp

lemma expand_own: "bm_get rs i = Some res \<Longrightarrow> bm_get (expand_resolve_all (Some ws) cs rs) i = Some res"
  by (simp add: expand_resolve_all_def expand_keeps)

text \<open>The content that the named workspace has for a conflict: there is none if the name is no workspace id, the
  workspace is not a side, or it deleted the file.\<close>

definition side_content :: "string \<Rightarrow> conflict_record \<Rightarrow> blob option" where
  "side_content ws r =
     (case workspace_id_new ws of
        Inl _ \<Rightarrow> None
      | Inr w \<Rightarrow> Option.bind (find (\<lambda>s. rs_workspace_id s = w) (cr_sides r)) rs_content)"

lemma keep_side: "resolve_file_content F dirs (KeepWorkspace ws) r = Inr b \<longleftrightarrow> side_content ws r = Some b"
  by (auto simp: resolve_file_content_def side_content_def split: sum.split option.split)

text \<open>With \<open>--resolve-all\<close>, if the resolutions are applied, no conflict remains: every conflict whose own id has
  no resolution gets the content of the named workspace as a whole, whatever is given for its regions, and every other
  conflict what its own resolution says. The command fails if the named workspace has no content for one of the
  conflicts without a resolution of their own.\<close>

theorem resolve_all_overrides_atoms:
  assumes "distinct (map (\<lambda>c. cr_path (ci_record c)) cs)"
  shows "(\<forall>contents remaining. apply_resolutions F dirs cs (expand_resolve_all (Some ws) cs rs) = Inr (contents, remaining) \<longrightarrow>
      remaining = []
      \<and> (\<forall>c \<in> set cs. bm_get rs (ci_id c) = None \<longrightarrow>
          side_content ws (ci_record c) \<noteq> None \<and> bm_get contents (cr_path (ci_record c)) = side_content ws (ci_record c))
      \<and> (\<forall>c \<in> set cs. \<forall>res. bm_get rs (ci_id c) = Some res \<longrightarrow>
          (\<exists>b. resolve_file_content F dirs res (ci_record c) = Inr b \<and> bm_get contents (cr_path (ci_record c)) = Some b)))
    \<and> ((\<exists>c \<in> set cs. bm_get rs (ci_id c) = None \<and> side_content ws (ci_record c) = None) \<longrightarrow>
      isl (apply_resolutions F dirs cs (expand_resolve_all (Some ws) cs rs)))"
proof -
  let ?rs = "expand_resolve_all (Some ws) cs rs"
  have main: "remaining = []
      \<and> (\<forall>c \<in> set cs. bm_get rs (ci_id c) = None \<longrightarrow>
          side_content ws (ci_record c) \<noteq> None \<and> bm_get contents (cr_path (ci_record c)) = side_content ws (ci_record c))
      \<and> (\<forall>c \<in> set cs. \<forall>res. bm_get rs (ci_id c) = Some res \<longrightarrow>
          (\<exists>b. resolve_file_content F dirs res (ci_record c) = Inr b \<and> bm_get contents (cr_path (ci_record c)) = Some b))"
    if run: "apply_resolutions F dirs cs ?rs = Inr (contents, remaining)" for contents remaining
  proof (intro conjI ballI impI allI)
    note acc = apply_resolutions_success [OF run assms]
    have "bm_get ?rs (ci_id c) \<noteq> None" if "c \<in> set cs" for c
      using expand_gives [OF that, of rs ws] expand_own [of rs "ci_id c" _ ws cs] by (cases "bm_get rs (ci_id c)") auto
    then show "remaining = []" by (simp add: acc(1) filter_empty_conv)
    fix c assume c: "c \<in> set cs"
    {
      assume "bm_get rs (ci_id c) = None"
      then have "\<exists>b. side_content ws (ci_record c) = Some b \<and> bm_get contents (cr_path (ci_record c)) = Some b"
        using acc(2) [OF c expand_gives [OF c]] by (simp add: keep_side)
      then show "side_content ws (ci_record c) \<noteq> None"
          and "bm_get contents (cr_path (ci_record c)) = side_content ws (ci_record c)"
        by auto
    }
    show "\<exists>b. resolve_file_content F dirs res (ci_record c) = Inr b \<and> bm_get contents (cr_path (ci_record c)) = Some b"
      if "bm_get rs (ci_id c) = Some res" for res
      by (rule acc(2) [OF c expand_own [OF that]])
  qed
  moreover have "isl (apply_resolutions F dirs cs ?rs)"
    if "\<exists>c \<in> set cs. bm_get rs (ci_id c) = None \<and> side_content ws (ci_record c) = None"
  proof (cases "apply_resolutions F dirs cs ?rs")
    case (Inr out)
    then have "apply_resolutions F dirs cs ?rs = Inr (fst out, snd out)" by simp
    from main [OF this] that show ?thesis by blast
  qed simp
  ultimately show ?thesis by simp
qed

section \<open>Witnesses\<close>

definition glue_hunks :: "hunk list" where
  "glue_hunks = [hunk.Context ''a'', Clash [''x''] [''b''] [''y''], hunk.Context ''c'']"

definition glue_record :: conflict_record where
  "glue_record = \<lparr>cr_path = [''f''], cr_base = Some (unlines (merged_base glue_hunks)), cr_sides = [], cr_reason = Diff3Conflict,
     cr_atoms = parse_diff3_atoms (unlines (hunks_lines '' o'' '' b'' '' t'' glue_hunks)) ''alice'' ''bob''\<rparr>"

lemma glue_parts:
  "list_all hunk_ok glue_hunks" "list_all line_ok (hunks_lines '' o'' '' b'' '' t'' glue_hunks)"
  "merged_base glue_hunks = [''a'', ''b'', ''c'']" "length (clashes 1 glue_hunks) = 1"
  "spliced ''alice'' ''bob'' glue_hunks [''bob''] = ''a'' @ [newline] @ ''yc'' @ [newline]"
  by (simp_all add: glue_hunks_def hunks_lines_def line_ok_def merged_base_def)

lemma atom_resolution_splices_witness:
  "resolve_atoms glue_record [Some (KeepWorkspace ''bob'')] = Inr (''a'' @ [newline] @ ''yc'' @ [newline])"
proof -
  have utf8: "utf8_valid (unlines (hunks_lines '' o'' '' b'' '' t'' glue_hunks))"
    by (rule utf8_valid_ascii) (simp add: unlines_def hunks_lines_def glue_hunks_def)
  have base: "utf8_valid (unlines (merged_base glue_hunks))"
    by (rule utf8_valid_ascii) (simp add: unlines_def glue_parts)
  have plain: "list_all (\<lambda>l. newline \<notin> set l) (merged_base glue_hunks)" "length (unlines (merged_base glue_hunks)) < 2 ^ 32 - 1"
    by (simp_all add: glue_parts unlines_def)
  have atoms: "length [''bob''] = length (cr_atoms glue_record)"
    using parse_hunks [OF glue_parts(1,2) utf8] glue_parts(3,4) by (simp add: glue_record_def)
  have "cr_base glue_record = Some (unlines (merged_base glue_hunks))"
      "cr_atoms glue_record = parse_diff3_atoms (unlines (hunks_lines '' o'' '' b'' '' t'' glue_hunks)) ''alice'' ''bob''"
    by (simp_all add: glue_record_def)
  from atom_resolution_splices [OF glue_parts(1,2) utf8 this(1) base plain this(2) atoms] show ?thesis by (simp add: glue_parts(5))
qed

definition no_files :: file_env where
  "no_files = \<lparr>fe_exists = (\<lambda>_. False), fe_read = (\<lambda>_. Inl ''no file'')\<rparr>"

definition picked_conflict :: conflict_with_id where
  "picked_conflict = \<lparr>ci_id = ''cf-1'', ci_record = \<lparr>cr_path = [''f''], cr_base = None,
     cr_sides = [\<lparr>rs_workspace_id = WorkspaceId ''bob'', rs_kind = Added, rs_content = Some ''text''\<rparr>], cr_reason = AddAddDifferent, cr_atoms = []\<rparr>,
     ci_atom_ids = []\<rparr>"

definition region_record :: "string \<Rightarrow> conflict_record" where
  "region_record f = \<lparr>cr_path = [f], cr_base = Some ''abc'', cr_sides = [], cr_reason = Diff3Conflict,
     cr_atoms = [conflict_atom_new (AstNode ''item'' None 1 2)
       [atom_edit_new ''alice'' (AstNode ''item'' None 1 2) ''x'', atom_edit_new ''bob'' (AstNode ''item'' None 1 2) ''yy'']
       (SameAstNodeModified ''both'')]\<rparr>"

definition region_conflict :: conflict_with_id where
  "region_conflict = \<lparr>ci_id = ''cf-2'', ci_record = region_record ''g'', ci_atom_ids = [''cf-2.0'']\<rparr>"

definition open_conflict :: conflict_with_id where
  "open_conflict = \<lparr>ci_id = ''cf-3'', ci_record = region_record ''h'', ci_atom_ids = [''cf-3.0'']\<rparr>"

definition sample_choices :: "(string, resolution) btree" where
  "sample_choices = bm_insert ''cf-2.0'' (KeepWorkspace ''bob'') (bm_insert ''cf-1'' (KeepWorkspace ''bob'') bm_empty)"

text \<open>One conflict given by its id, one by its region and one not at all.\<close>

lemma apply_resolutions_accounts_witness:
  "\<exists>contents. apply_resolutions no_files [] [picked_conflict, region_conflict, open_conflict] sample_choices = Inr (contents, [open_conflict])
    \<and> bm_get contents [''f''] = Some ''text'' \<and> bm_get contents [''g''] = Some ''ayyc''
    \<and> bm_get contents [''h''] = None"
proof -
  let ?cs = "[picked_conflict, region_conflict, open_conflict]"
  have "\<not> isl (apply_resolutions no_files [] ?cs sample_choices)" by code_simp
  then obtain contents remaining where run: "apply_resolutions no_files [] ?cs sample_choices = Inr (contents, remaining)"
    by (cases "apply_resolutions no_files [] ?cs sample_choices") auto
  have paths: "distinct (map (\<lambda>c. cr_path (ci_record c)) ?cs)" by code_simp
  note acc = apply_resolutions_accounts [OF run paths]
  have picks: "bm_get sample_choices (ci_id picked_conflict) = Some (KeepWorkspace ''bob'')" "bm_get sample_choices (ci_id region_conflict) = None"
      "given_atoms sample_choices region_conflict \<noteq> []" "bm_get sample_choices (ci_id open_conflict) = None" "given_atoms sample_choices open_conflict = []"
    by code_simp+
  have parts: "resolve_file_content no_files [] (KeepWorkspace ''bob'') (ci_record picked_conflict) = Inr ''text''"
      "resolve_atoms (ci_record region_conflict) (map (bm_get sample_choices) (ci_atom_ids region_conflict)) = Inr ''ayyc''"
      "cr_path (ci_record picked_conflict) = [''f'']" "cr_path (ci_record region_conflict) = [''g'']" "cr_path (ci_record open_conflict) = [''h'']"
    by code_simp+
  have "remaining = filter (\<lambda>c. bm_get sample_choices (ci_id c) = None \<and> given_atoms sample_choices c = []) ?cs" using acc by blast
  then have rem: "remaining = [open_conflict]" using picks by simp
  have f: "bm_get contents [''f''] = Some ''text''" using acc picks(1) parts(1,3) by auto
  have g: "bm_get contents [''g''] = Some ''ayyc''" using acc picks(2,3) parts(2,4) by auto
  have "[''h''] \<notin> (\<lambda>c. cr_path (ci_record c)) ` (set ?cs - set remaining)" using parts(3-5) by (auto simp: rem)
  then have "bm_get contents [''h''] = None" using acc by blast
  then show ?thesis using run rem f g by blast
qed

text \<open>The region of the first conflict is given, and it is the named workspace that counts.\<close>

lemma resolve_all_overrides_atoms_witness:
  "\<exists>contents. apply_resolutions no_files [] [picked_conflict] (expand_resolve_all (Some ''bob'') [picked_conflict] bm_empty) = Inr (contents, [])
     \<and> bm_get contents [''f''] = Some ''text''
   \<and> isl (apply_resolutions no_files [] [picked_conflict, region_conflict] (expand_resolve_all (Some ''bob'') [picked_conflict, region_conflict] sample_choices))"
proof -
  have one: "distinct (map (\<lambda>c. cr_path (ci_record c)) [picked_conflict])" by simp
  have two: "distinct (map (\<lambda>c. cr_path (ci_record c)) [picked_conflict, region_conflict])" by code_simp
  let ?out = "apply_resolutions no_files [] [picked_conflict] (expand_resolve_all (Some ''bob'') [picked_conflict] bm_empty)"
  have "\<not> isl ?out" by code_simp
  then obtain contents remaining where run: "?out = Inr (contents, remaining)" by (cases ?out) auto
  have side: "side_content ''bob'' (ci_record picked_conflict) = Some ''text''" "cr_path (ci_record picked_conflict) = [''f'']"
      "side_content ''bob'' (ci_record region_conflict) = None" "bm_get sample_choices (ci_id region_conflict) = None"
    by code_simp+
  have "remaining = []" "bm_get contents [''f''] = Some ''text''"
    using resolve_all_overrides_atoms [OF one, of no_files "[]" "''bob''" bm_empty] run side(1,2) by auto
  moreover have "isl (apply_resolutions no_files [] [picked_conflict, region_conflict] (expand_resolve_all (Some ''bob'') [picked_conflict, region_conflict] sample_choices))"
    using resolve_all_overrides_atoms [OF two, of no_files "[]" "''bob''" sample_choices] side(3,4) by simp
  ultimately show ?thesis using run by simp
qed

end
