(* ===== verification/Structured_Resolve.thy ===== *)
theory Structured_Resolve
  imports Complex_Main Marker_Files Materialize
begin

text \<open>
  \<open>maw ws resolve --keep\<close> over the structured sidecar: what a choice makes of one conflict,
  \<open>crates/maw-cli/src/workspace/resolve_structured.rs\<close>, with the checks of a merged text in
  \<open>crates/maw-cli/src/workspace/sync/sanity.rs\<close> and the merge styles of \<open>crates/maw-git/src/merge.rs\<close>. Reading
  a blob, the text merge of the git library, the parsers of the grammars and the quotient of two lengths in
  double precision are the fields of \<open>resolve_env\<close>. Warnings on the terminal are not modelled.
\<close>

section \<open>Merge styles\<close>

datatype merge_style = MsDiff3 | MsUnion | MsOurs | MsTheirs

definition resolution_for_driver :: "string option \<Rightarrow> merge_style option" where
  "resolution_for_driver driver =
     (case driver of
        None \<Rightarrow> Some MsDiff3
      | Some d \<Rightarrow>
          if d = ''text'' then Some MsDiff3
          else if d = ''union'' then Some MsUnion
          else if d = ''ours'' then Some MsOurs
          else if d = ''binary'' then None
          else Some MsDiff3)"

datatype parse_status = ParseClean | ParseErrors | ParseFailed

record resolve_env =
  re_read_blob :: "raw_oid \<Rightarrow> git_error + blob"
  re_merge :: "blob \<Rightarrow> blob \<Rightarrow> blob \<Rightarrow> string \<Rightarrow> string \<Rightarrow> string \<Rightarrow> merge_style \<Rightarrow> git_error + text_merge"
  re_parse_status :: "path \<Rightarrow> (blob \<Rightarrow> parse_status) option"
  re_ratio :: "nat \<Rightarrow> nat \<Rightarrow> rat"

definition merge_text ::
  "resolve_env \<Rightarrow> blob \<Rightarrow> blob \<Rightarrow> blob \<Rightarrow> string \<Rightarrow> string \<Rightarrow> string \<Rightarrow> git_error + text_merge" where
  "merge_text E base ours theirs ours_label base_label theirs_label =
     re_merge E base ours theirs ours_label base_label theirs_label MsDiff3"

fun merge_bytes :: "text_merge \<Rightarrow> blob" where
  "merge_bytes (TmClean b) = b"
| "merge_bytes (TmConflict b) = b"

section \<open>Sanity of a merged text\<close>

text \<open>\<open>None\<close> is an infinite ratio, as a bound and as a measurement.\<close>

datatype sanity_failure = SizeDelta nat nat nat "rat option" | AstParse string

definition check_size_delta ::
  "resolve_env \<Rightarrow> blob \<Rightarrow> blob \<Rightarrow> blob \<Rightarrow> blob \<Rightarrow> rat option \<Rightarrow> sanity_failure + unit" where
  "check_size_delta E base ours theirs merged ratio_max =
     (let max_input = max (max (length ours) (length theirs)) (length base);
          expected = max (length ours) (length theirs) + (length ours - length base) + (length theirs - length base)
      in if expected = 0 then
           (if merged = [] then Inr () else Inl (SizeDelta (length merged) max_input expected None))
         else
           (let ratio = re_ratio E (length merged) expected
            in case ratio_max of
                 None \<Rightarrow> Inr ()
               | Some m \<Rightarrow>
                   if ratio > m then Inl (SizeDelta (length merged) max_input expected (Some ratio)) else Inr ()))"

definition check_ast_parse :: "resolve_env \<Rightarrow> path \<Rightarrow> blob \<Rightarrow> blob \<Rightarrow> blob \<Rightarrow> sanity_failure + unit" where
  "check_ast_parse E p ours theirs merged =
     (case re_parse_status E p of
        None \<Rightarrow> Inr ()
      | Some status \<Rightarrow>
          if status ours \<noteq> ParseClean \<or> status theirs \<noteq> ParseClean then Inr ()
          else (case status merged of
                  ParseClean \<Rightarrow> Inr ()
                | ParseErrors \<Rightarrow> Inl (AstParse ''syntax errors'')
                | ParseFailed \<Rightarrow> Inl (AstParse ''an unrecoverable parse failure'')))"

definition run_post_merge_sanity ::
  "resolve_env \<Rightarrow> path \<Rightarrow> blob \<Rightarrow> blob \<Rightarrow> blob \<Rightarrow> blob \<Rightarrow> rat option \<Rightarrow> sanity_failure + unit" where
  "run_post_merge_sanity E p base ours theirs merged ratio_max =
     res_bind (check_size_delta E base ours theirs merged ratio_max) (\<lambda>_. check_ast_parse E p ours theirs merged)"

definition err_of :: "'e + 'a \<Rightarrow> 'e option" where
  "err_of r = (case r of Inl e \<Rightarrow> Some e | Inr _ \<Rightarrow> None)"

section \<open>Keep arguments\<close>

datatype decision = DecideAll string | DecideFile path string

definition parse_decision :: "string \<Rightarrow> string + decision" where
  "parse_decision s =
     (case split_once ''='' s of
        Some (l, r) \<Rightarrow>
          (let left = str_trim l; right = str_trim r
           in if right = [] then Inl (''Invalid --keep '' @ quoted s @ '': empty side name after '' @ quoted ''='')
              else if prefix ''cf-'' left then
                Inl ''Per-block `cf-N=NAME` keep-specs are not supported with the structured sidecar. Use `--keep <ws-name>` or `PATH=<ws-name>`. Per-atom resolution is tracked as a follow-up.''
              else Inr (DecideFile (path_from left) right))
      | None \<Rightarrow> Inr (DecideAll s))"

fun parse_decisions :: "string list \<Rightarrow> string + decision list" where
  "parse_decisions [] = Inr []"
| "parse_decisions (s # rest) =
     res_bind (parse_decision s) (\<lambda>d. res_bind (parse_decisions rest) (\<lambda>ds. Inr (d # ds)))"

section \<open>Sides\<close>

definition EPOCH_LABEL :: string where "EPOCH_LABEL = ''epoch''"

datatype side_match = OneSide conflict_side | NoSide | AmbiguousSides "conflict_side list"

definition match_sides :: "conflict_side list \<Rightarrow> string \<Rightarrow> side_match" where
  "match_sides sides target =
     (case find (\<lambda>s. name_matches target (cs_workspace s)) sides of
        Some s \<Rightarrow> OneSide s
      | None \<Rightarrow>
          (case filter (\<lambda>s. prefix (target @ ''#'') (cs_workspace s)) sides of
             [] \<Rightarrow> NoSide
           | [s] \<Rightarrow> OneSide s
           | hits \<Rightarrow> AmbiguousSides hits))"

definition pick_side :: "conflict_side list \<Rightarrow> string \<Rightarrow> conflict_side option" where
  "pick_side sides target = (case match_sides sides target of OneSide s \<Rightarrow> Some s | _ \<Rightarrow> None)"

fun all_sides :: "conflict \<Rightarrow> git_oid list" where
  "all_sides (CContent _ _ _ sides _) = map cs_content sides"
| "all_sides (CAddAdd _ sides) = map cs_content sides"
| "all_sides (CModifyDelete _ _ modifier deleter _ _ _) = [cs_content modifier, cs_content deleter]"
| "all_sides (CDivergentRename _ _ destinations) = map (\<lambda>d. cs_content (snd d)) destinations"

definition side_names :: "conflict_side list \<Rightarrow> string" where
  "side_names sides = join_with '', '' (map cs_workspace sides)"

definition pick_from_sides :: "conflict_side list \<Rightarrow> string \<Rightarrow> string + git_oid option" where
  "pick_from_sides sides target =
     (case match_sides sides target of
        OneSide s \<Rightarrow> Inr (Some (cs_content s))
      | AmbiguousSides hits \<Rightarrow>
          Inl (''`--keep '' @ target @ ''` is ambiguous '' @ [CHR 0xE2, CHR 0x80, CHR 0x94]
            @ '' the conflict has multiple sides whose workspace starts with `'' @ target @ ''#`: ['' @ side_names hits
            @ '']. Use the fully-qualified side name, e.g. `--keep '' @ debug_str (cs_workspace (hd hits)) @ ''`.'')
      | NoSide \<Rightarrow> Inl (''Side '' @ quoted target @ '' not found for path. Available: ['' @ side_names sides
            @ ''], plus '' @ quoted ''both'' @ ''.''))"

fun pick_single_side_oid :: "conflict \<Rightarrow> string \<Rightarrow> string + git_oid option" where
  "pick_single_side_oid (CContent _ _ _ sides _) target = pick_from_sides sides target"
| "pick_single_side_oid (CAddAdd _ sides) target = pick_from_sides sides target"
| "pick_single_side_oid (CModifyDelete _ _ modifier deleter _ _ _) target =
     (if name_matches target (cs_workspace modifier) then Inr (Some (cs_content modifier))
      else if name_matches target (cs_workspace deleter) then Inr None
      else Inl (''Side '' @ quoted target @ '' not found. Available: ['' @ cs_workspace modifier @ '', ''
        @ cs_workspace deleter @ ''] (modifier, deleter).''))"
| "pick_single_side_oid (CDivergentRename _ _ _) target =
     Inl ''DivergentRename conflicts cannot be resolved via --keep in V1. Resolve by manually renaming the file in the worktree and committing.''"

definition first_some :: "'a option list \<Rightarrow> 'a option" where
  "first_some xs = (case find (\<lambda>x. x \<noteq> None) xs of Some x \<Rightarrow> x | None \<Rightarrow> None)"

fun any_side_mode :: "conflict \<Rightarrow> conflict_side_mode option" where
  "any_side_mode (CContent _ _ _ sides _) = first_some (map cs_mode sides)"
| "any_side_mode (CAddAdd _ sides) = first_some (map cs_mode sides)"
| "any_side_mode (CModifyDelete _ _ modifier deleter _ _ _) = first_some [cs_mode modifier, cs_mode deleter]"
| "any_side_mode (CDivergentRename _ _ destinations) = first_some (map (\<lambda>d. cs_mode (snd d)) destinations)"

fun pick_single_side_mode :: "conflict \<Rightarrow> string \<Rightarrow> conflict_side_mode option" where
  "pick_single_side_mode (CContent _ _ _ sides _) target = Option.bind (pick_side sides target) cs_mode"
| "pick_single_side_mode (CAddAdd _ sides) target = Option.bind (pick_side sides target) cs_mode"
| "pick_single_side_mode (CModifyDelete _ _ modifier deleter _ _ _) target =
     (if name_matches target (cs_workspace modifier) then cs_mode modifier
      else if name_matches target (cs_workspace deleter) then cs_mode deleter
      else None)"
| "pick_single_side_mode (CDivergentRename _ _ destinations) target =
     Option.bind (find (\<lambda>d. cs_workspace (snd d) = target) destinations) (\<lambda>d. cs_mode (snd d))"

definition effective_base_oid :: "git_oid option \<Rightarrow> conflict_side \<Rightarrow> git_oid option" where
  "effective_base_oid conflict_base s = (case cs_base_content s of Some b \<Rightarrow> Some b | None \<Rightarrow> conflict_base)"

definition epoch_side :: "conflict_side list \<Rightarrow> conflict_side option" where
  "epoch_side sides = find (\<lambda>s. cs_workspace s = EPOCH_LABEL) sides"

definition other_side :: "conflict_side list \<Rightarrow> conflict_side option" where
  "other_side sides = find (\<lambda>s. cs_workspace s \<noteq> EPOCH_LABEL) sides"

section \<open>Outcomes\<close>

datatype resolve_kind =
    BlobReplace | ThreeWayClean | ThreeWayWsWins | ThreeWayEpochWins | ThreeWayUnion | ThreeWayUnionDedup
  | LegacyBlobReplaceWarned

datatype path_outcome =
    Wrote blob "conflict_side_mode option" resolve_kind "sanity_failure option"
  | DeletedPath
  | SkippedPath string

definition parse_side_oid :: "string \<Rightarrow> git_oid \<Rightarrow> string + raw_oid" where
  "parse_side_oid what oid = map_sum (\<lambda>e. ''invalid '' @ what @ '' oid '' @ oid_str oid @ '': '' @ oid_parse_error_str e) (\<lambda>x. x)
     (raw_oid_from_str (oid_str oid))"

definition read_parsed :: "resolve_env \<Rightarrow> git_oid \<Rightarrow> raw_oid \<Rightarrow> string + blob" where
  "read_parsed E oid raw = map_sum (\<lambda>e. ''read_blob('' @ oid_str oid @ '') failed: '' @ git_error_str e) (\<lambda>x. x)
     (re_read_blob E raw)"

definition read_oid :: "resolve_env \<Rightarrow> git_oid \<Rightarrow> string + blob" where
  "read_oid E oid = res_bind (parse_side_oid ''blob'' oid) (read_parsed E oid)"

text \<open>The blobs of base, epoch and workspace: all three ids are parsed before the first is read.\<close>

definition read_three :: "resolve_env \<Rightarrow> git_oid \<Rightarrow> git_oid \<Rightarrow> git_oid \<Rightarrow> string + blob \<times> blob \<times> blob" where
  "read_three E base epoch ws =
     res_bind (parse_side_oid ''base blob'' base) (\<lambda>b.
     res_bind (parse_side_oid ''epoch blob'' epoch) (\<lambda>e.
     res_bind (parse_side_oid ''ws blob'' ws) (\<lambda>w.
     res_bind (read_parsed E base b) (\<lambda>bb.
     res_bind (read_parsed E epoch e) (\<lambda>eb.
     res_bind (read_parsed E ws w) (\<lambda>wb. Inr (bb, eb, wb)))))))"

definition merge_failed :: "string \<Rightarrow> path \<Rightarrow> git_error + 'a \<Rightarrow> string + 'a" where
  "merge_failed what p r = map_sum (\<lambda>e. what @ '' failed for '' @ display_path p @ '': '' @ git_error_str e) (\<lambda>x. x) r"

section \<open>Union with the common lines once\<close>

definition after_line :: "string \<Rightarrow> string list \<Rightarrow> string list" where
  "after_line m ls = tl (dropWhile (\<lambda>l. l \<noteq> m) ls)"

lemma after_line_length: "length (after_line m ls) \<le> length ls"
  unfolding after_line_def using length_dropWhile_le [of "\<lambda>l. l \<noteq> m" ls] by simp

text \<open>Of a block the lines of our side and those of their side, and what follows the block.\<close>

definition union_block ::
  "string \<Rightarrow> string \<Rightarrow> string \<Rightarrow> string list \<Rightarrow> string list \<times> string list \<times> string list" where
  "union_block base_marker sep_marker theirs_marker ls =
     (let rest = after_line sep_marker (after_line base_marker ls)
      in (takeWhile (\<lambda>l. l \<noteq> base_marker) ls, takeWhile (\<lambda>l. l \<noteq> theirs_marker) rest, after_line theirs_marker rest))"

lemma union_block_rest: "(ours, theirs, rest) = union_block bm sm tm ls \<Longrightarrow> length rest \<le> length ls"
  using after_line_length [of tm "after_line sm (after_line bm ls)"] after_line_length [of sm "after_line bm ls"]
    after_line_length [of bm ls] by (simp add: union_block_def Let_def)

function dedup_lines :: "string \<Rightarrow> string \<Rightarrow> string \<Rightarrow> string \<Rightarrow> string list \<Rightarrow> string list" where
  "dedup_lines om bm sm tm [] = []"
| "dedup_lines om bm sm tm (l # ls) =
     (if l = om then
        (case union_block bm sm tm ls of
           (ours, theirs, rest) \<Rightarrow> ours @ filter (\<lambda>x. x \<notin> set ours) theirs @ dedup_lines om bm sm tm rest)
      else l # dedup_lines om bm sm tm ls)"
  by pat_completeness auto
termination
  by (relation "measure (\<lambda>(_, _, _, _, ls). length ls)") (auto dest: union_block_rest)

definition ends_with_newline :: "blob \<Rightarrow> bool" where
  "ends_with_newline b \<longleftrightarrow> b \<noteq> [] \<and> last b = newline"

definition dedup_conflict_markers :: "blob \<Rightarrow> string \<Rightarrow> string \<Rightarrow> string \<Rightarrow> blob" where
  "dedup_conflict_markers bytes ours_label base_label theirs_label =
     (let body = (if ends_with_newline bytes then butlast bytes else bytes);
          ls = (if body = [] then [] else split_on newline body);
          out = dedup_lines (''<<<<<<< '' @ ours_label) (''||||||| '' @ base_label) ''======='' (''>>>>>>> '' @ theirs_label) ls
      in join_with [newline] out @ (if ends_with_newline bytes then [newline] else []))"

definition union_dedup_merge ::
  "resolve_env \<Rightarrow> blob \<Rightarrow> blob \<Rightarrow> blob \<Rightarrow> string \<Rightarrow> string \<Rightarrow> string \<Rightarrow> git_error + blob" where
  "union_dedup_merge E base ours theirs ours_label base_label theirs_label =
     res_bind (re_merge E base ours theirs ours_label base_label theirs_label MsDiff3) (\<lambda>m. Inr (case m of
        TmClean b \<Rightarrow> b
      | TmConflict b \<Rightarrow> dedup_conflict_markers b ours_label base_label theirs_label))"

section \<open>The choices\<close>

fun concat_sides :: "resolve_env \<Rightarrow> git_oid list \<Rightarrow> blob option \<Rightarrow> string + blob" where
  "concat_sides E [] buf = Inr (case buf of None \<Rightarrow> [] | Some b \<Rightarrow> b)"
| "concat_sides E (oid # oids) buf =
     res_bind (read_oid E oid) (\<lambda>b. concat_sides E oids (Some (case buf of
        None \<Rightarrow> b
      | Some acc \<Rightarrow> acc @ (if ends_with_newline acc then [] else [newline]) @ b)))"

definition concat_outcome :: "resolve_env \<Rightarrow> conflict \<Rightarrow> string + path_outcome" where
  "concat_outcome E c =
     (case all_sides c of
        [] \<Rightarrow> Inr (SkippedPath ''no sides to concatenate'')
      | oids \<Rightarrow> res_bind (concat_sides E oids None) (\<lambda>b. Inr (Wrote b None BlobReplace None)))"

text \<open>Both sides of the conflicting hunks of three texts.\<close>

definition union_texts ::
  "resolve_env \<Rightarrow> bool \<Rightarrow> path \<Rightarrow> string \<Rightarrow> blob \<times> blob \<times> blob \<Rightarrow> string + path_outcome" where
  "union_texts E dedup p ws_name = (\<lambda>(base, epoch, ws).
     res_bind
       (if dedup then merge_failed ''--keep union merge'' p (union_dedup_merge E base epoch ws EPOCH_LABEL ''base'' ws_name)
        else map_sum (\<lambda>x. x) merge_bytes (merge_failed ''--keep both union merge'' p
               (re_merge E base epoch ws EPOCH_LABEL ''base'' ws_name MsUnion)))
       (\<lambda>b. Inr (Wrote b None (if dedup then ThreeWayUnionDedup else ThreeWayUnion)
              (err_of (run_post_merge_sanity E p base epoch ws b None)))))"

definition all_text :: "blob \<times> blob \<times> blob \<Rightarrow> bool" where
  "all_text t \<longleftrightarrow> looks_text (fst t) \<and> looks_text (fst (snd t)) \<and> looks_text (snd (snd t))"

text \<open>The two sides of a content conflict of the epoch and one workspace, with the base of the epoch side.\<close>

definition two_sides :: "conflict \<Rightarrow> (git_oid \<times> conflict_side \<times> conflict_side) option" where
  "two_sides c =
     (case c of
        CContent _ _ base sides _ \<Rightarrow>
          (case (length sides = 2, epoch_side sides, other_side sides) of
             (True, Some e, Some w) \<Rightarrow> map_option (\<lambda>b. (b, e, w)) (effective_base_oid base e)
           | _ \<Rightarrow> None)
      | _ \<Rightarrow> None)"

definition keep_both :: "resolve_env \<Rightarrow> bool \<Rightarrow> conflict \<Rightarrow> path \<Rightarrow> string + path_outcome" where
  "keep_both E dedup c p =
     (case c of
        CModifyDelete _ _ modifier _ _ _ _ \<Rightarrow>
          res_bind (read_oid E (cs_content modifier)) (\<lambda>b. Inr (Wrote b (cs_mode modifier) BlobReplace None))
      | _ \<Rightarrow>
          (case two_sides c of
             None \<Rightarrow> concat_outcome E c
           | Some (b, e, w) \<Rightarrow>
               res_bind (read_three E b (cs_content e) (cs_content w)) (\<lambda>t.
                 if all_text t then union_texts E dedup p (cs_workspace w) t else concat_outcome E c)))"

text \<open>The plain replacement by the blob of one side, or the deletion of the path.\<close>

definition keep_single :: "resolve_env \<Rightarrow> conflict \<Rightarrow> string \<Rightarrow> string + path_outcome" where
  "keep_single E c target =
     res_bind (pick_single_side_oid c target) (\<lambda>o'. case o' of
        Some oid \<Rightarrow> res_bind (read_oid E oid) (\<lambda>b. Inr (Wrote b (pick_single_side_mode c target) BlobReplace None))
      | None \<Rightarrow> Inr DeletedPath)"

definition epoch_wins ::
  "resolve_env \<Rightarrow> rat option \<Rightarrow> conflict \<Rightarrow> path \<Rightarrow> string \<Rightarrow> blob \<times> blob \<times> blob \<Rightarrow> string + path_outcome" where
  "epoch_wins E cfg c p ws_name = (\<lambda>(base, epoch, ws).
     res_bind (merge_failed ''--keep epoch 3-way merge'' p (re_merge E base epoch ws EPOCH_LABEL ''base'' ws_name MsOurs))
       (\<lambda>m. Inr (Wrote (merge_bytes m) (pick_single_side_mode c EPOCH_LABEL) ThreeWayEpochWins
              (err_of (run_post_merge_sanity E p base epoch ws (merge_bytes m) cfg)))))"

definition keep_epoch :: "resolve_env \<Rightarrow> rat option \<Rightarrow> conflict \<Rightarrow> path \<Rightarrow> string + path_outcome" where
  "keep_epoch E cfg c p =
     (case two_sides c of
        None \<Rightarrow> keep_single E c EPOCH_LABEL
      | Some (b, e, w) \<Rightarrow>
          res_bind (read_three E b (cs_content e) (cs_content w)) (\<lambda>t.
            if all_text t then epoch_wins E cfg c p (cs_workspace w) t else keep_single E c EPOCH_LABEL))"

definition ws_wins ::
  "resolve_env \<Rightarrow> rat option \<Rightarrow> conflict \<Rightarrow> path \<Rightarrow> string \<Rightarrow> blob \<times> blob \<times> blob \<Rightarrow> string + path_outcome" where
  "ws_wins E cfg c p target = (\<lambda>(base, epoch, ws).
     (let mode = pick_single_side_mode c target;
          sane = (\<lambda>b. err_of (run_post_merge_sanity E p base epoch ws b cfg))
      in if \<not> all_text (base, epoch, ws) then Inr (Wrote ws mode BlobReplace None)
         else res_bind (merge_failed ''3-way merge'' p (merge_text E base epoch ws EPOCH_LABEL ''base'' target)) (\<lambda>m. case m of
            TmClean b \<Rightarrow> Inr (Wrote b mode ThreeWayClean (sane b))
          | TmConflict _ \<Rightarrow>
              res_bind (merge_failed ''ws-wins 3-way merge'' p (re_merge E base epoch ws EPOCH_LABEL ''base'' target MsTheirs))
                (\<lambda>r. Inr (Wrote (merge_bytes r) mode ThreeWayWsWins (sane (merge_bytes r)))))))"

definition keep_workspace :: "resolve_env \<Rightarrow> rat option \<Rightarrow> conflict \<Rightarrow> string \<Rightarrow> path \<Rightarrow> string + path_outcome" where
  "keep_workspace E cfg c target p =
     (case c of
        CContent _ _ base sides _ \<Rightarrow>
          (case match_sides sides target of
             OneSide w \<Rightarrow>
               (case (effective_base_oid base w, epoch_side sides) of
                  (Some b, Some e) \<Rightarrow>
                    res_bind (read_three E b (cs_content e) (cs_content w)) (ws_wins E cfg c p target)
                | (None, _) \<Rightarrow>
                    res_bind (read_oid E (cs_content w))
                      (\<lambda>b. Inr (Wrote b (pick_single_side_mode c target) LegacyBlobReplaceWarned None))
                | (Some _, None) \<Rightarrow> keep_single E c target)
           | _ \<Rightarrow> keep_single E c target)
      | _ \<Rightarrow> keep_single E c target)"

definition apply_decision :: "resolve_env \<Rightarrow> rat option \<Rightarrow> conflict \<Rightarrow> string \<Rightarrow> path \<Rightarrow> string + path_outcome" where
  "apply_decision E cfg c target p =
     (if target = ''both'' \<or> target = ''union'' then keep_both E (target = ''union'') c p
      else if target = EPOCH_LABEL then keep_epoch E cfg c p
      else keep_workspace E cfg c target p)"

end
