(* ===== verification/Structured_Facts.thy ===== *)
theory Structured_Facts
  imports Structured_Resolve Marker_Facts
begin

text \<open>
  What the choices of \<open>--keep\<close> write, for a text merge that works hunk by hunk: the same clean lines whatever the
  choice, and in every conflicting hunk the lines of the chosen side, of both, or of both with the common lines once.
\<close>

section \<open>Merging by hunks\<close>

datatype segment = Same "string list" | Hunk "string list" "string list" "string list"

fun is_hunk :: "segment \<Rightarrow> bool" where
  "is_hunk (Same _) = False"
| "is_hunk (Hunk _ _ _) = True"

text \<open>A choice makes the lines of a hunk from our lines and their lines.\<close>

fun segment_lines :: "(string list \<Rightarrow> string list \<Rightarrow> string list) \<Rightarrow> segment \<Rightarrow> string list" where
  "segment_lines f (Same ls) = ls"
| "segment_lines f (Hunk ours base theirs) = f ours theirs"

definition merged :: "(string list \<Rightarrow> string list \<Rightarrow> string list) \<Rightarrow> segment list \<Rightarrow> string list" where
  "merged f segs = concat (map (segment_lines f) segs)"

definition union_once :: "string list \<Rightarrow> string list \<Rightarrow> string list" where
  "union_once ours theirs = ours @ filter (\<lambda>l. l \<notin> set ours) theirs"

fun marked :: "string \<Rightarrow> string \<Rightarrow> string \<Rightarrow> string \<Rightarrow> segment \<Rightarrow> string list" where
  "marked om bm sm tm (Same ls) = ls"
| "marked om bm sm tm (Hunk ours base theirs) = om # ours @ bm # base @ sm # theirs @ [tm]"

text \<open>The lines do not look like the marker that ends their section.\<close>

fun segment_plain :: "string \<Rightarrow> string \<Rightarrow> string \<Rightarrow> string \<Rightarrow> segment \<Rightarrow> bool" where
  "segment_plain om bm sm tm (Same ls) \<longleftrightarrow> om \<notin> set ls"
| "segment_plain om bm sm tm (Hunk ours base theirs) \<longleftrightarrow> bm \<notin> set ours \<and> sm \<notin> set base \<and> tm \<notin> set theirs"

lemma merged_simps [simp]:
  "merged f [] = []" "merged f (Same ls # segs) = ls @ merged f segs"
  "merged f (Hunk ours base theirs # segs) = f ours theirs @ merged f segs"
  by (simp_all add: merged_def)

lemma merged_clean: "\<not> list_ex is_hunk segs \<Longrightarrow> merged f segs = merged g segs"
proof (induction segs)
  case (Cons s segs)
  then show ?case by (cases s) auto
qed simp

section \<open>The union of the hunks\<close>

lemma after_line_at: "m \<notin> set xs \<Longrightarrow> after_line m (xs @ m # ys) = ys"
  unfolding after_line_def by (subst dropWhile_append2) auto

lemma takeWhile_at: "m \<notin> set xs \<Longrightarrow> takeWhile (\<lambda>l. l \<noteq> m) (xs @ m # ys) = xs"
  by (induction xs) auto

lemma union_block_at:
  assumes "bm \<notin> set ours" "sm \<notin> set base" "tm \<notin> set theirs"
  shows "union_block bm sm tm (ours @ bm # base @ sm # theirs @ tm # rest) = (ours, theirs, rest)"
  using assms by (simp add: union_block_def after_line_at takeWhile_at)

lemma dedup_same: "om \<notin> set ls \<Longrightarrow> dedup_lines om bm sm tm (ls @ rest) = ls @ dedup_lines om bm sm tm rest"
  by (induction ls) auto

lemma dedup_marked:
  "list_all (segment_plain om bm sm tm) segs \<Longrightarrow>
   dedup_lines om bm sm tm (concat (map (marked om bm sm tm) segs)) = merged union_once segs"
proof (induction segs)
  case (Cons s segs)
  show ?case
  proof (cases s)
    case (Same ls)
    then show ?thesis using Cons by (simp add: dedup_same)
  next
    case (Hunk ours base theirs)
    then have "union_block bm sm tm (ours @ bm # base @ sm # theirs @ tm # concat (map (marked om bm sm tm) segs))
        = (ours, theirs, concat (map (marked om bm sm tm) segs))"
      using Cons.prems by (intro union_block_at) simp_all
    then show ?thesis using Cons Hunk by (simp add: union_once_def)
  qed
qed simp

lemma join_unlines_Nil: "ls \<noteq> [] \<Longrightarrow> unlines ls \<noteq> []"
  by (cases ls) (auto simp: unlines_def)

lemma unlines_last: "ls \<noteq> [] \<Longrightarrow> ends_with_newline (unlines ls) \<and> butlast (unlines ls) = join_with [newline] ls"
proof -
  assume ls: "ls \<noteq> []"
  then have "unlines ls = join_with [newline] ls @ [newline]" by (simp add: join_unlines)
  then show ?thesis by (simp add: ends_with_newline_def)
qed

definition one_line :: "string \<Rightarrow> bool" where
  "one_line l \<longleftrightarrow> newline \<notin> set l"

text \<open>On a text of whole lines: the blocks are replaced by the union, everything else stays.\<close>

lemma dedup_conflict_markers_lines:
  assumes ls: "list_all one_line ls" "join_with [newline] ls \<noteq> []"
    and out: "dedup_lines (''<<<<<<< '' @ ol) (''||||||| '' @ bl) ''======='' (''>>>>>>> '' @ cl) ls = out" "out \<noteq> []"
  shows "dedup_conflict_markers (unlines ls) ol bl cl = unlines out"
proof -
  have ne: "ls \<noteq> []" using ls(2) by (cases ls) auto
  have "split_on newline (join_with [newline] ls) = ls"
    using ls(1) ne by (intro split_on_join) (auto simp: one_line_def list_all_iff)
  then show ?thesis
    using ls(2) out unlines_last [OF ne] join_unlines [OF out(2)] by (simp add: dedup_conflict_markers_def Let_def)
qed

section \<open>The text merge\<close>

definition merge_result :: "segment list \<Rightarrow> string \<Rightarrow> string \<Rightarrow> string \<Rightarrow> merge_style \<Rightarrow> text_merge" where
  "merge_result segs ol bl cl style =
     (case style of
        MsOurs \<Rightarrow> TmClean (unlines (merged (\<lambda>ours theirs. ours) segs))
      | MsTheirs \<Rightarrow> TmClean (unlines (merged (\<lambda>ours theirs. theirs) segs))
      | MsUnion \<Rightarrow> TmClean (unlines (merged (@) segs))
      | MsDiff3 \<Rightarrow>
          if list_ex is_hunk segs
          then TmConflict (unlines (concat (map (marked (''<<<<<<< '' @ ol) (''||||||| '' @ bl) ''======='' (''>>>>>>> '' @ cl)) segs)))
          else TmClean (unlines (merged (@) segs)))"

text \<open>The merge of three texts works by the hunks \<open>segs\<close>, as the merge driver of git documents its styles.\<close>

definition merges_by :: "resolve_env \<Rightarrow> blob \<times> blob \<times> blob \<Rightarrow> segment list \<Rightarrow> bool" where
  "merges_by E t segs \<longleftrightarrow> (\<forall>ol bl cl style.
     re_merge E (fst t) (fst (snd t)) (snd (snd t)) ol bl cl style = Inr (merge_result segs ol bl cl style))"

text \<open>The markers of a merge of epoch and workspace do not occur as lines of the texts, and there is a line left.\<close>

definition unmarked :: "string \<Rightarrow> segment list \<Rightarrow> bool" where
  "unmarked ws segs \<longleftrightarrow> list_all (segment_plain ''<<<<<<< epoch'' ''||||||| base'' ''======='' (''>>>>>>> '' @ ws)) segs
     \<and> list_all one_line (''>>>>>>> '' # ws # concat (map (marked [] [] [] []) segs)) \<and> merged union_once segs \<noteq> []"

lemma one_line_marked:
  "list_all one_line (concat (map (marked [] [] [] []) segs)) \<Longrightarrow> one_line om \<Longrightarrow> one_line bm \<Longrightarrow> one_line sm \<Longrightarrow> one_line tm \<Longrightarrow>
   list_all one_line (concat (map (marked om bm sm tm) segs))"
proof (induction segs)
  case (Cons s segs)
  then show ?case by (cases s) auto
qed simp

lemma marked_text_ne:
  "list_ex is_hunk segs \<Longrightarrow> om \<noteq> [] \<Longrightarrow> join_with [newline] (concat (map (marked om bm sm tm) segs)) \<noteq> []"
proof -
  assume h: "list_ex is_hunk segs" "om \<noteq> []"
  then have "om \<in> set (concat (map (marked om bm sm tm) segs))"
  proof (induction segs)
    case (Cons s segs)
    then show ?case by (cases s) auto
  qed simp
  moreover have "\<exists>l \<in> set ls. l \<noteq> [] \<Longrightarrow> join_with [newline] ls \<noteq> []" for ls
    by (induction "[newline]" ls rule: join_with.induct) auto
  ultimately show ?thesis using h(2) by blast
qed

definition epoch_marked :: "string \<Rightarrow> segment list \<Rightarrow> string list" where
  "epoch_marked ws segs = concat (map (marked (''<<<<<<< '' @ EPOCH_LABEL) (''||||||| '' @ ''base'') ''======='' (''>>>>>>> '' @ ws)) segs)"

lemma dedup_epoch_marked:
  assumes h: "list_ex is_hunk segs" and u: "unmarked ws segs"
  shows "dedup_conflict_markers (unlines (epoch_marked ws segs)) EPOCH_LABEL ''base'' ws = unlines (merged union_once segs)"
proof (rule dedup_conflict_markers_lines)
  have markers: "one_line (''<<<<<<< '' @ EPOCH_LABEL)" "one_line (''||||||| '' @ ''base'')" "one_line ''=======''"
    by (simp_all add: one_line_def EPOCH_LABEL_def)
  have ws: "one_line (''>>>>>>> '' @ ws)" "list_all one_line (concat (map (marked [] [] [] []) segs))"
    using u by (simp_all add: unmarked_def one_line_def)
  show "list_all one_line (epoch_marked ws segs)"
    unfolding epoch_marked_def by (rule one_line_marked [OF ws(2) markers ws(1)])
  show "join_with [newline] (epoch_marked ws segs) \<noteq> []"
    unfolding epoch_marked_def by (rule marked_text_ne [OF h]) simp
  have "list_all (segment_plain (''<<<<<<< '' @ EPOCH_LABEL) (''||||||| '' @ ''base'') ''======='' (''>>>>>>> '' @ ws)) segs"
    using u by (simp add: unmarked_def EPOCH_LABEL_def)
  then show "dedup_lines (''<<<<<<< '' @ EPOCH_LABEL) (''||||||| '' @ ''base'') ''======='' (''>>>>>>> '' @ ws) (epoch_marked ws segs)
      = merged union_once segs"
    unfolding epoch_marked_def by (rule dedup_marked)
  show "merged union_once segs \<noteq> []" using u by (simp add: unmarked_def)
qed

lemma union_dedup_by:
  assumes m: "merges_by E (base, ours, theirs) segs" and u: "unmarked ws segs"
  shows "union_dedup_merge E base ours theirs EPOCH_LABEL ''base'' ws = Inr (unlines (merged union_once segs))"
proof (cases "list_ex is_hunk segs")
  case True
  have "dedup_conflict_markers (unlines (epoch_marked ws segs)) EPOCH_LABEL ''base'' ws = unlines (merged union_once segs)"
    using u by (intro dedup_epoch_marked [OF True])
  then show ?thesis using m True by (simp add: union_dedup_merge_def merges_by_def merge_result_def epoch_marked_def)
next
  case False
  then show ?thesis using m merged_clean [OF False, of "(@)" union_once]
    by (simp add: union_dedup_merge_def merges_by_def merge_result_def)
qed

lemma keep_by_hunks:
  assumes c: "c = CContent q fid base0 sides atoms" "two_sides c = Some (b, e, w)"
    and base: "effective_base_oid base0 w = Some b"
    and read: "read_three E b (cs_content e) (cs_content w) = Inr t" "all_text t"
    and merge: "merges_by E t segs" "unmarked (cs_workspace w) segs"
  shows "\<exists>s. apply_decision E cfg c ''epoch'' p =
        Inr (Wrote (unlines (merged (\<lambda>ours theirs. ours) segs)) (pick_single_side_mode c ''epoch'') ThreeWayEpochWins s)"
    and "\<exists>s. apply_decision E cfg c ''both'' p = Inr (Wrote (unlines (merged (@) segs)) None ThreeWayUnion s)"
    and "\<exists>s. apply_decision E cfg c ''union'' p = Inr (Wrote (unlines (merged union_once segs)) None ThreeWayUnionDedup s)"
    and "\<forall>target. target \<notin> {''epoch'', ''both'', ''union''} \<and> match_sides sides target = OneSide w \<longrightarrow>
        (\<exists>s kind. apply_decision E cfg c target p =
           Inr (Wrote (unlines (merged (\<lambda>ours theirs. theirs) segs)) (pick_single_side_mode c target) kind s)
           \<and> kind = (if list_ex is_hunk segs then ThreeWayWsWins else ThreeWayClean))"
proof -
  obtain base ours theirs where t: "t = (base, ours, theirs)" by (cases t)
  have style: "re_merge E base ours theirs ol bl cl style = Inr (merge_result segs ol bl cl style)" for ol bl cl style
    using merge(1) t by (simp add: merges_by_def)
  note texts = read(2) [unfolded t]
  show "\<exists>s. apply_decision E cfg c ''epoch'' p =
        Inr (Wrote (unlines (merged (\<lambda>ours theirs. ours) segs)) (pick_single_side_mode c ''epoch'') ThreeWayEpochWins s)"
    using c(2) read t style
    by (simp add: apply_decision_def EPOCH_LABEL_def keep_epoch_def epoch_wins_def merge_failed_def merge_result_def)
  show "\<exists>s. apply_decision E cfg c ''both'' p = Inr (Wrote (unlines (merged (@) segs)) None ThreeWayUnion s)"
    using c read t style
    by (simp add: apply_decision_def EPOCH_LABEL_def keep_both_def union_texts_def merge_failed_def merge_result_def)
  show "\<exists>s. apply_decision E cfg c ''union'' p = Inr (Wrote (unlines (merged union_once segs)) None ThreeWayUnionDedup s)"
    using c read t union_dedup_by [OF merge(1) [unfolded t] merge(2)]
    by (simp add: apply_decision_def EPOCH_LABEL_def keep_both_def union_texts_def merge_failed_def)
  have ep: "epoch_side sides = Some e" using c by (simp add: two_sides_def split: bool.splits option.splits)
  show "\<forall>target. target \<notin> {''epoch'', ''both'', ''union''} \<and> match_sides sides target = OneSide w \<longrightarrow>
        (\<exists>s kind. apply_decision E cfg c target p =
           Inr (Wrote (unlines (merged (\<lambda>ours theirs. theirs) segs)) (pick_single_side_mode c target) kind s)
           \<and> kind = (if list_ex is_hunk segs then ThreeWayWsWins else ThreeWayClean))"
    using c(1) base ep read t style texts merged_clean [of segs "(@)" "\<lambda>ours theirs. theirs"]
    by (auto simp: apply_decision_def EPOCH_LABEL_def keep_workspace_def ws_wins_def merge_failed_def merge_result_def
        merge_text_def Let_def)
qed


section \<open>Deletion\<close>

lemma single_deletes:
  "keep_single E c target = Inr DeletedPath \<longleftrightarrow> pick_single_side_oid c target = Inr None"
  by (auto simp: keep_single_def result_simps split: option.splits)

lemma pick_from_sides_some: "pick_from_sides sides target \<noteq> Inr None"
  by (auto simp: pick_from_sides_def split: side_match.splits)

lemma picks_none:
  "pick_single_side_oid c target = Inr None \<longleftrightarrow>
    (\<exists>q fid modifier deleter content hint df. c = CModifyDelete q fid modifier deleter content hint df
       \<and> \<not> name_matches target (cs_workspace modifier) \<and> name_matches target (cs_workspace deleter))"
  by (cases c) (simp_all add: pick_from_sides_some)

lemma concat_keeps:
  "concat_outcome E c \<noteq> Inr DeletedPath" "concat_outcome E c = Inr (SkippedPath reason) \<Longrightarrow> all_sides c = []"
  by (auto simp: concat_outcome_def result_simps split: list.splits)

lemma union_texts_writes: "union_texts E dedup p n t \<noteq> Inr DeletedPath \<and> union_texts E dedup p n t \<noteq> Inr (SkippedPath reason)"
  by (cases t) (auto simp: union_texts_def result_simps)

lemma epoch_wins_writes:
  "epoch_wins E cfg c p n t \<noteq> Inr DeletedPath \<and> epoch_wins E cfg c p n t \<noteq> Inr (SkippedPath reason)"
  by (cases t) (auto simp: epoch_wins_def result_simps)

lemma ws_wins_writes: "ws_wins E cfg c p n t \<noteq> Inr DeletedPath \<and> ws_wins E cfg c p n t \<noteq> Inr (SkippedPath reason)"
  by (cases t) (auto simp: ws_wins_def result_simps Let_def split: text_merge.splits)

lemma single_no_skip: "keep_single E c target \<noteq> Inr (SkippedPath reason)"
  by (auto simp: keep_single_def result_simps split: option.splits)

lemma two_sides_content: "two_sides c = Some x \<Longrightarrow> \<exists>q fid base sides atoms. c = CContent q fid base sides atoms"
  by (cases c) (auto simp: two_sides_def)

lemma both_outcome:
  "keep_both E dedup c p \<noteq> Inr DeletedPath" "keep_both E dedup c p = Inr (SkippedPath reason) \<Longrightarrow> all_sides c = []"
  using concat_keeps(1) [of E c] concat_keeps(2) [of E c reason] union_texts_writes [of E dedup p _ _ reason]
  by (cases c; auto simp: keep_both_def result_simps split: option.splits prod.splits if_splits)+

lemma epoch_outcome:
  "keep_epoch E cfg c p = Inr DeletedPath \<longleftrightarrow> pick_single_side_oid c EPOCH_LABEL = Inr None"
  "keep_epoch E cfg c p \<noteq> Inr (SkippedPath reason)"
  using epoch_wins_writes [of E cfg c p _ _ reason] single_no_skip [of E c EPOCH_LABEL reason] two_sides_content [of c]
    picks_none [of c EPOCH_LABEL]
  by (auto simp: keep_epoch_def result_simps single_deletes split: option.splits prod.splits if_splits)

lemma workspace_outcome:
  "keep_workspace E cfg c target p = Inr DeletedPath \<longleftrightarrow> pick_single_side_oid c target = Inr None"
  "keep_workspace E cfg c target p \<noteq> Inr (SkippedPath reason)"
  using ws_wins_writes [of E cfg c p target _ reason] single_no_skip [of E c target reason] picks_none [of c target]
  by (auto simp: keep_workspace_def result_simps single_deletes split: option.splits prod.splits side_match.splits conflict.splits)

lemma decision_deletes:
  "apply_decision E cfg c target p = Inr DeletedPath \<longleftrightarrow>
      (\<exists>q fid modifier deleter content hint df. c = CModifyDelete q fid modifier deleter content hint df
         \<and> target \<noteq> ''both'' \<and> target \<noteq> ''union'' \<and> \<not> name_matches target (cs_workspace modifier)
         \<and> name_matches target (cs_workspace deleter))"
proof (cases "target = ''both'' \<or> target = ''union''")
  case True
  then show ?thesis using both_outcome(1) by (auto simp: apply_decision_def)
next
  case False
  then show ?thesis using epoch_outcome(1) [of E cfg c p] workspace_outcome(1) [of E cfg c target p] picks_none [of c target]
    by (cases "target = EPOCH_LABEL") (simp_all add: apply_decision_def)
qed

lemma decision_skips: "apply_decision E cfg c target p = Inr (SkippedPath reason) \<Longrightarrow> all_sides c = []"
  using both_outcome(2) epoch_outcome(2) [of E cfg c p reason] workspace_outcome(2) [of E cfg c target p reason]
  by (auto simp: apply_decision_def split: if_splits)

section \<open>Properties\<close>

text \<open>For a text conflict of the epoch and one workspace whose merge works by hunks, every choice of \<open>--keep\<close> writes
  the same lines outside the conflicting hunks, those that the merge combined from both sides; in a hunk, \<open>epoch\<close>
  takes the epoch's lines, the workspace its own, \<open>both\<close> those of the epoch and then those of the workspace, and
  \<open>union\<close> the same without the workspace's lines that the epoch's side of the hunk already has. No choice replaces
  the file by the blob of a side.\<close>

theorem keep_resolves_hunks:
  assumes "c = CContent q fid base0 sides atoms" "two_sides c = Some (b, e, w)" "effective_base_oid base0 w = Some b"
    and "read_three E b (cs_content e) (cs_content w) = Inr t" "all_text t"
    and "merges_by E t segs" "unmarked (cs_workspace w) segs"
  shows "(\<exists>s. apply_decision E cfg c ''epoch'' p =
        Inr (Wrote (unlines (merged (\<lambda>ours theirs. ours) segs)) (pick_single_side_mode c ''epoch'') ThreeWayEpochWins s))
    \<and> (\<forall>target. target \<notin> {''epoch'', ''both'', ''union''} \<and> match_sides sides target = OneSide w \<longrightarrow>
        (\<exists>s kind. apply_decision E cfg c target p =
           Inr (Wrote (unlines (merged (\<lambda>ours theirs. theirs) segs)) (pick_single_side_mode c target) kind s)
           \<and> kind = (if list_ex is_hunk segs then ThreeWayWsWins else ThreeWayClean)))
    \<and> (\<exists>s. apply_decision E cfg c ''both'' p = Inr (Wrote (unlines (merged (@) segs)) None ThreeWayUnion s))
    \<and> (\<exists>s. apply_decision E cfg c ''union'' p = Inr (Wrote (unlines (merged union_once segs)) None ThreeWayUnionDedup s))"
  using keep_by_hunks [OF assms] by (intro conjI)

text \<open>A choice deletes the path only for a conflict of a modification and a deletion, when it names the deleting
  side and not also the modifying one; \<open>both\<close> and \<open>union\<close> never delete. And a choice without an outcome needs a
  conflict without sides.\<close>

theorem only_deleter_deletes:
  "(apply_decision E cfg c target p = Inr DeletedPath \<longleftrightarrow>
      (\<exists>q fid modifier deleter content hint df. c = CModifyDelete q fid modifier deleter content hint df
         \<and> target \<noteq> ''both'' \<and> target \<noteq> ''union'' \<and> \<not> name_matches target (cs_workspace modifier)
         \<and> name_matches target (cs_workspace deleter)))
   \<and> (apply_decision E cfg c target p = Inr (SkippedPath reason) \<longrightarrow> all_sides c = [])"
  using decision_deletes [of E cfg c target p] decision_skips [of E cfg c target p reason] by blast


section \<open>Witnesses\<close>

definition sample_segs :: "segment list" where
  "sample_segs = [Same [''a''], Hunk [''E'', ''s''] [''b''] [''W'', ''s''], Same [''z'']]"

definition sample_keep_env :: resolve_env where
  "sample_keep_env = \<lparr>re_read_blob = (\<lambda>o'. Inr (raw_oid_str o')),
     re_merge = (\<lambda>_ _ _ ol bl cl style. Inr (merge_result sample_segs ol bl cl style)),
     re_parse_status = (\<lambda>_. None), re_ratio = (\<lambda>_ _. 1)\<rparr>"

definition sample_keep_conflict :: conflict where
  "sample_keep_conflict = CContent [''f''] (FileId 1) (Some (sample_oid CHR ''1''))
     [sample_side ''epoch'' CHR ''2'', sample_side ''alice'' CHR ''3''] []"

lemma keep_resolves_hunks_witness:
  "(\<exists>s. apply_decision sample_keep_env None sample_keep_conflict ''epoch'' [''f''] =
      Inr (Wrote (unlines [''a'', ''E'', ''s'', ''z'']) None ThreeWayEpochWins s))
   \<and> (\<exists>s kind. apply_decision sample_keep_env None sample_keep_conflict ''alice'' [''f''] =
      Inr (Wrote (unlines [''a'', ''W'', ''s'', ''z'']) None kind s))
   \<and> (\<exists>s. apply_decision sample_keep_env None sample_keep_conflict ''union'' [''f''] =
      Inr (Wrote (unlines [''a'', ''E'', ''s'', ''W'', ''z'']) None ThreeWayUnionDedup s))"
proof -
  let ?e = "sample_side ''epoch'' CHR ''2''" and ?w = "sample_side ''alice'' CHR ''3''" and ?b = "sample_oid CHR ''1''"
  let ?t = "(replicate 40 CHR ''1'', replicate 40 CHR ''2'', replicate 40 CHR ''3'')"
  have two: "two_sides sample_keep_conflict = Some (?b, ?e, ?w)" by code_simp
  have base: "effective_base_oid (Some ?b) ?w = Some ?b" by code_simp
  have read: "read_three sample_keep_env ?b (cs_content ?e) (cs_content ?w) = Inr ?t" by code_simp
  have texts: "all_text ?t" by code_simp
  have hunks: "merges_by sample_keep_env ?t sample_segs" by (simp add: merges_by_def sample_keep_env_def)
  have plain: "unmarked (cs_workspace ?w) sample_segs" by code_simp
  have alice: "match_sides [?e, ?w] ''alice'' = OneSide ?w" by code_simp
  have modes: "pick_single_side_mode sample_keep_conflict ''epoch'' = None"
    "pick_single_side_mode sample_keep_conflict ''alice'' = None" by code_simp+
  have lines: "merged (\<lambda>ours theirs. ours) sample_segs = [''a'', ''E'', ''s'', ''z'']"
    "merged (\<lambda>ours theirs. theirs) sample_segs = [''a'', ''W'', ''s'', ''z'']"
    "merged union_once sample_segs = [''a'', ''E'', ''s'', ''W'', ''z'']" by code_simp+
  note keep = keep_resolves_hunks [OF sample_keep_conflict_def two base read texts hunks plain, of None "[''f'']",
      unfolded modes lines]
  have "\<exists>s kind. apply_decision sample_keep_env None sample_keep_conflict ''alice'' [''f''] =
      Inr (Wrote (unlines [''a'', ''W'', ''s'', ''z'']) None kind s)"
    using spec [OF conjunct1 [OF conjunct2 [OF keep]], of "''alice''"] by (auto simp: alice modes)
  then show ?thesis using keep by blast
qed

lemma only_deleter_deletes_witness:
  "apply_decision sample_keep_env None
     (CModifyDelete [''f''] (FileId 1) (sample_side ''alice'' CHR ''1'') (sample_side ''epoch'' CHR ''2'') (sample_oid CHR ''1'') None None)
     ''epoch'' [''f''] = Inr DeletedPath
   \<and> apply_decision sample_keep_env None (CAddAdd [''f''] []) ''both'' [''f''] = Inr (SkippedPath ''no sides to concatenate'')
   \<and> all_sides (CAddAdd [''f''] []) = []"
proof -
  have "apply_decision sample_keep_env None (CAddAdd [''f''] []) ''both'' [''f''] = Inr (SkippedPath ''no sides to concatenate'')"
    by code_simp
  moreover have "\<not> name_matches ''epoch'' (cs_workspace (sample_side ''alice'' CHR ''1''))"
    "name_matches ''epoch'' (cs_workspace (sample_side ''epoch'' CHR ''2''))" by code_simp+
  ultimately show ?thesis
    using only_deleter_deletes [of sample_keep_env None "CModifyDelete [''f''] (FileId 1) (sample_side ''alice'' CHR ''1'')
        (sample_side ''epoch'' CHR ''2'') (sample_oid CHR ''1'') None None" "''epoch''" "[''f'']" "[]"]
      only_deleter_deletes [of sample_keep_env None "CAddAdd [''f''] []" "''both''" "[''f'']" "''no sides to concatenate''"]
    by simp
qed

end
