(* ===== verification/Worktree.thy ===== *)
theory Worktree
  imports Materialize
begin

text \<open>
  The files of a work tree as the command line changes them with \<open>std::fs\<close>: a node per path below its root, a
  failure possible at every call. What a link leads to is not part of the tree: whether it is a directory, and what
  writing through it does, are fields of \<open>wt_env\<close>.
\<close>

datatype wt_node = WFile bool blob | WLink string | WDir

type_synonym worktree = "(path, wt_node) btree"

datatype wt_call = WtCreateDirs | WtRemoveFile | WtRemoveDir | WtWrite | WtSymlink | WtChmod

record wt_env =
  we_fault :: "wt_call \<Rightarrow> path \<Rightarrow> string option"
  we_link_dir :: "path \<Rightarrow> string \<Rightarrow> bool"
  we_through :: "path \<Rightarrow> string \<Rightarrow> blob \<Rightarrow> worktree \<Rightarrow> (string + unit) \<times> worktree"

type_synonym 'a wt = "worktree \<Rightarrow> (string + 'a) \<times> worktree"

definition wt_ok :: "'a \<Rightarrow> 'a wt" where
  "wt_ok x w = (Inr x, w)"

definition wt_fail :: "string \<Rightarrow> 'a wt" where
  "wt_fail e w = (Inl e, w)"

definition wt_bind :: "'a wt \<Rightarrow> ('a \<Rightarrow> 'b wt) \<Rightarrow> 'b wt" where
  "wt_bind m f w = (case m w of (Inl e, w') \<Rightarrow> (Inl e, w') | (Inr x, w') \<Rightarrow> f x w')"

definition wt_context :: "(string \<Rightarrow> string) \<Rightarrow> 'a wt \<Rightarrow> 'a wt" where
  "wt_context f m w = (case m w of (Inl e, w') \<Rightarrow> (Inl (f e), w') | (Inr x, w') \<Rightarrow> (Inr x, w'))"

definition wt_guard :: "wt_env \<Rightarrow> wt_call \<Rightarrow> path \<Rightarrow> 'a wt \<Rightarrow> 'a wt" where
  "wt_guard V call p m = (case we_fault V call p of Some e \<Rightarrow> wt_fail e | None \<Rightarrow> m)"

text \<open>\<open>is_file() || is_symlink()\<close>.\<close>

definition wt_is_entry :: "path \<Rightarrow> worktree \<Rightarrow> bool" where
  "wt_is_entry p w = (case bm_get w p of Some (WFile _ _) \<Rightarrow> True | Some (WLink _) \<Rightarrow> True | _ \<Rightarrow> False)"

definition wt_is_dir :: "wt_env \<Rightarrow> path \<Rightarrow> worktree \<Rightarrow> bool" where
  "wt_is_dir V p w \<longleftrightarrow> p = [] \<or>
     (case bm_get w p of Some WDir \<Rightarrow> True | Some (WLink t) \<Rightarrow> we_link_dir V p t | _ \<Rightarrow> False)"

fun make_dirs :: "wt_env \<Rightarrow> path list \<Rightarrow> unit wt" where
  "make_dirs V [] w = (Inr (), w)"
| "make_dirs V (p # ps) w =
     (if wt_is_dir V p w then make_dirs V ps w
      else if bm_contains w p then (Inl ''Not a directory'', w)
      else make_dirs V ps (bm_insert p WDir w))"

definition wt_create_dirs :: "wt_env \<Rightarrow> path \<Rightarrow> unit wt" where
  "wt_create_dirs V p = wt_guard V WtCreateDirs p (make_dirs V (map (\<lambda>n. take n p) [1 ..< Suc (length p)]))"

definition wt_remove_file :: "wt_env \<Rightarrow> path \<Rightarrow> unit wt" where
  "wt_remove_file V p = wt_guard V WtRemoveFile p
     (\<lambda>w. if wt_is_entry p w then (Inr (), bm_remove p w) else (Inl ''No such file or directory'', w))"

definition wt_empty_dir :: "path \<Rightarrow> worktree \<Rightarrow> bool" where
  "wt_empty_dir p w \<longleftrightarrow> list_all (\<lambda>q. \<not> strict_prefix p q) (bm_keys w)"

definition wt_remove_dir :: "wt_env \<Rightarrow> path \<Rightarrow> unit wt" where
  "wt_remove_dir V p = wt_guard V WtRemoveDir p
     (\<lambda>w. if bm_get w p = Some WDir \<and> wt_empty_dir p w then (Inr (), bm_remove p w) else (Inl ''Directory not empty'', w))"

definition wt_write :: "wt_env \<Rightarrow> path \<Rightarrow> blob \<Rightarrow> unit wt" where
  "wt_write V p b = wt_guard V WtWrite p (\<lambda>w.
     (case bm_get w p of
        Some (WFile x _) \<Rightarrow> (Inr (), bm_insert p (WFile x b) w)
      | Some (WLink t) \<Rightarrow> we_through V p t b w
      | Some WDir \<Rightarrow> (Inl ''Is a directory'', w)
      | None \<Rightarrow> if p \<noteq> [] \<and> wt_is_dir V (butlast p) w then (Inr (), bm_insert p (WFile False b) w)
                else (Inl ''No such file or directory'', w)))"

definition wt_symlink :: "wt_env \<Rightarrow> path \<Rightarrow> string \<Rightarrow> unit wt" where
  "wt_symlink V p t = wt_guard V WtSymlink p (\<lambda>w.
     if bm_contains w p then (Inl ''File exists'', w)
     else if p \<noteq> [] \<and> wt_is_dir V (butlast p) w then (Inr (), bm_insert p (WLink t) w)
     else (Inl ''No such file or directory'', w))"

definition wt_make_executable :: "wt_env \<Rightarrow> path \<Rightarrow> unit wt" where
  "wt_make_executable V p = wt_guard V WtChmod p (\<lambda>w.
     (case bm_get w p of Some (WFile _ b) \<Rightarrow> (Inr (), bm_insert p (WFile True b) w) | _ \<Rightarrow> (Inr (), w)))"

lemmas wt_defs = wt_ok_def wt_fail_def wt_bind_def wt_context_def wt_guard_def

text \<open>A work tree in which no call fails and that has no links to directories outside.\<close>

definition wt_healthy :: wt_env where
  "wt_healthy = \<lparr>we_fault = (\<lambda>_ _. None), we_link_dir = (\<lambda>_ _. False), we_through = (\<lambda>_ _ _ w. (Inl ''dangling link'', w))\<rparr>"

section \<open>What a call leaves\<close>

lemma make_dirs_keeps:
  "bm_get w q \<noteq> None \<Longrightarrow> bm_get (snd (make_dirs V ps w)) q = bm_get w q"
  by (induction V ps w rule: make_dirs.induct) (auto simp: bm_contains_def)

lemma make_dirs_only_dirs:
  "bm_get (snd (make_dirs V ps w)) q = bm_get w q \<or> bm_get (snd (make_dirs V ps w)) q = Some WDir \<and> q \<in> set ps"
  by (induction V ps w rule: make_dirs.induct) (auto simp: bm_contains_def split: if_splits)

end
