(* ===== verification/Structured_Run.thy ===== *)
theory Structured_Run
  imports Structured_Resolve Worktree Merge_Gate Disk
begin

text \<open>
  The run of \<open>maw ws resolve --keep\<close> over the structured sidecar (\<open>resolve_structured.rs\<close>): every path is decided and
  written to the work tree, regions of a clash of file and directory are restored from the epoch, the sidecar is
  rewritten, and what this run resolved is committed. The work tree is the one of \<open>Worktree\<close>, the sidecars live on the
  disk of \<open>Disk\<close>, the repository is \<open>gate_repo\<close>; the \<open>git\<close> command is a parameter.
\<close>

section \<open>The sidecar\<close>

definition io_text :: "io_error \<Rightarrow> string" where
  "io_text e = (case e of IoNotFound \<Rightarrow> ''No such file or directory'' | IoAlreadyExists \<Rightarrow> ''File exists'' | IoOther m \<Rightarrow> m)"

definition sidecar_dir :: "path \<Rightarrow> string \<Rightarrow> path" where
  "sidecar_dir manifold_dir ws_name = manifold_dir @ [''artifacts'', ''ws'', ws_name]"

definition structured_sidecar_path :: "path \<Rightarrow> string \<Rightarrow> path" where
  "structured_sidecar_path manifold_dir ws_name = sidecar_dir manifold_dir ws_name @ [''conflict-tree.json'']"

definition legacy_sidecar_path :: "path \<Rightarrow> string \<Rightarrow> path" where
  "legacy_sidecar_path manifold_dir ws_name = sidecar_dir manifold_dir ws_name @ [''rebase-conflicts.json'']"

record tree_json =
  tj_print :: "conflict_tree \<Rightarrow> string + string"
  tj_parse :: "string \<Rightarrow> conflict_tree option"

definition read_conflict_tree_sidecar :: "io_env \<Rightarrow> tree_json \<Rightarrow> path \<Rightarrow> string \<Rightarrow> disk \<Rightarrow> conflict_tree option" where
  "read_conflict_tree_sidecar io J dir ws_name d =
     (case fst (fs_read_to_string io (structured_sidecar_path dir ws_name) d) of
        Inl _ \<Rightarrow> None | Inr s \<Rightarrow> tj_parse J s)"

definition write_conflict_tree_sidecar ::
  "io_env \<Rightarrow> tree_json \<Rightarrow> path \<Rightarrow> string \<Rightarrow> conflict_tree \<Rightarrow> (string, unit) io" where
  "write_conflict_tree_sidecar io J dir ws_name t d =
     (let p = structured_sidecar_path dir ws_name
      in if bm_is_empty (ct_conflicts t) \<and> bm_is_empty (ct_clean t) then
           (if bm_contains d p
            then io_map_err (\<lambda>e. ''failed to delete '' @ display_path p @ '': '' @ io_text e) (fs_remove_file io p) d
            else (Inr (), d))
         else io_bind (io_map_err io_text (fs_create_dir_all io))
                (\<lambda>_. case tj_print J t of
                   Inl e \<Rightarrow> io_err e
                 | Inr json \<Rightarrow> io_map_err io_text (fs_write io p json)) d)"

definition sweep_legacy_sidecar :: "io_env \<Rightarrow> path \<Rightarrow> string \<Rightarrow> disk \<Rightarrow> disk" where
  "sweep_legacy_sidecar io dir ws_name d =
     (if bm_contains d (legacy_sidecar_path dir ws_name) then snd (fs_remove_file io (legacy_sidecar_path dir ws_name) d) else d)"

section \<open>Writing an outcome\<close>

definition strip_newline :: "string \<Rightarrow> string" where
  "strip_newline s = (if s \<noteq> [] \<and> last s = newline then butlast s else s)"

definition write_link :: "wt_env \<Rightarrow> path \<Rightarrow> path \<Rightarrow> blob \<Rightarrow> unit wt" where
  "write_link V ws rel bytes = (\<lambda>w.
     wt_bind (if wt_is_entry rel w
              then wt_context (\<lambda>e. ''remove '' @ display_path (ws @ rel) @ '': '' @ e) (wt_remove_file V rel)
              else wt_ok ())
       (\<lambda>_. if \<not> utf8_valid bytes
          then wt_fail (''symlink target at '' @ display_path (ws @ rel) @ '' is not valid UTF-8: invalid utf-8 sequence'')
          else wt_context (\<lambda>e. ''symlink '' @ display_path (ws @ rel) @ '' -> '' @ strip_newline bytes @ '': '' @ e)
                 (wt_symlink V rel (strip_newline bytes))) w)"

definition write_regular :: "wt_env \<Rightarrow> path \<Rightarrow> path \<Rightarrow> blob \<Rightarrow> bool \<Rightarrow> unit wt" where
  "write_regular V ws rel bytes executable =
     wt_bind (wt_context (\<lambda>e. ''write '' @ display_path (ws @ rel) @ '': '' @ e) (wt_write V rel bytes))
       (\<lambda>_. if executable
          then wt_context (\<lambda>e. ''chmod +x '' @ display_path (ws @ rel) @ '': '' @ e) (wt_make_executable V rel)
          else wt_ok ())"

fun apply_outcome :: "wt_env \<Rightarrow> path \<Rightarrow> path \<Rightarrow> path_outcome \<Rightarrow> (bool \<times> resolve_kind \<times> sanity_failure option) wt" where
  "apply_outcome V ws rel (Wrote bytes mode kind sanity) =
     wt_bind (wt_create_dirs V (butlast rel)) (\<lambda>_.
     wt_bind (if mode = Some SLink then write_link V ws rel bytes
              else write_regular V ws rel bytes (mode = Some SBlobExecutable))
       (\<lambda>_. wt_ok (True, kind, sanity)))"
| "apply_outcome V ws rel DeletedPath = (\<lambda>w.
     wt_bind (if wt_is_entry rel w
              then wt_context (\<lambda>e. ''remove '' @ display_path (ws @ rel) @ '': '' @ e) (wt_remove_file V rel)
              else wt_ok ())
       (\<lambda>_. wt_ok (True, BlobReplace, None)) w)"
| "apply_outcome V ws rel (SkippedPath _) = wt_ok (False, BlobReplace, None)"

section \<open>Restoring a region from the epoch\<close>

partial_function (option) collect_epoch_files ::
  "(raw_oid \<Rightarrow> git_error + tree_entry list) \<Rightarrow> (path \<times> tree_entry) list \<Rightarrow> (path \<times> raw_oid \<times> git_entry_mode) list \<Rightarrow>
   (string + (path \<times> raw_oid \<times> git_entry_mode) list) option" where
  "collect_epoch_files read_tree entries out =
     (case entries of
        [] \<Rightarrow> Some (Inr out)
      | (rel, e) # rest \<Rightarrow>
          (case te_mode e of
             GTree \<Rightarrow>
               (case read_tree (te_oid e) of
                  Inl er \<Rightarrow> Some (Inl (''read_tree('' @ raw_oid_str (te_oid e) @ '') failed: '' @ git_error_str er))
                | Inr es \<Rightarrow>
                    Option.bind (collect_epoch_files read_tree (map (\<lambda>c. (join_name rel (te_name c), c)) es) out)
                      (\<lambda>r. case r of Inl er \<Rightarrow> Some (Inl er) | Inr out' \<Rightarrow> collect_epoch_files read_tree rest out'))
           | GCommit \<Rightarrow> collect_epoch_files read_tree rest out
           | _ \<Rightarrow> collect_epoch_files read_tree rest (out @ [(rel, te_oid e, te_mode e)])))"

text \<open>The entry of the epoch at a region, if the epoch has one.\<close>

fun entry_at ::
  "(raw_oid \<Rightarrow> git_error + tree_entry list) \<Rightarrow> raw_oid \<Rightarrow> string list \<Rightarrow> string + tree_entry option" where
  "entry_at read_tree tree [] = Inr None"
| "entry_at read_tree tree (c # cs) =
     (case read_tree tree of
        Inl er \<Rightarrow> Inl (''read_tree('' @ raw_oid_str tree @ '') failed: '' @ git_error_str er)
      | Inr es \<Rightarrow>
          (case find (\<lambda>e. te_name e = c) es of
             None \<Rightarrow> Inr None
           | Some e \<Rightarrow>
               if cs = [] then Inr (Some e)
               else if te_mode e = GTree then entry_at read_tree (te_oid e) cs
               else Inr None))"

definition write_restored_entry :: "wt_env \<Rightarrow> path \<Rightarrow> path \<Rightarrow> blob \<Rightarrow> git_entry_mode \<Rightarrow> unit wt" where
  "write_restored_entry V ws rel bytes mode =
     wt_bind (wt_context (\<lambda>e. ''create_dir_all('' @ display_path (ws @ butlast rel) @ ''): '' @ e) (wt_create_dirs V (butlast rel)))
       (\<lambda>_. if mode = GLink then (\<lambda>w.
              wt_bind (if wt_is_entry rel w
                       then wt_context (\<lambda>e. ''remove '' @ display_path (ws @ rel) @ '': '' @ e) (wt_remove_file V rel)
                       else wt_ok ())
                (\<lambda>_. wt_context (\<lambda>e. ''symlink '' @ display_path (ws @ rel) @ '': '' @ e)
                   (wt_symlink V rel (from_utf8_lossy bytes))) w)
            else write_regular V ws rel bytes (mode = GBlobExecutable))"

fun write_restored ::
  "wt_env \<Rightarrow> (raw_oid \<Rightarrow> git_error + blob) \<Rightarrow> path \<Rightarrow> (path \<times> raw_oid \<times> git_entry_mode) list \<Rightarrow> path list \<Rightarrow> path list wt" where
  "write_restored V read_blob ws [] written = wt_ok written"
| "write_restored V read_blob ws ((rel, oid, mode) # files) written =
     (case read_blob oid of
        Inl e \<Rightarrow> wt_fail (''read_blob('' @ raw_oid_str oid @ '') failed: '' @ git_error_str e)
      | Inr bytes \<Rightarrow>
          wt_bind (write_restored_entry V ws rel bytes mode) (\<lambda>_. write_restored V read_blob ws files (written @ [rel])))"

definition non_empty_region :: "path \<Rightarrow> string" where
  "non_empty_region region = ''cannot restore epoch file at '' @ quoted (display_path region)
     @ '': a non-empty directory exists there. Move or remove its contents, then re-run the resolve.''"

definition restore_entry ::
  "wt_env \<Rightarrow> gate_repo \<Rightarrow> path \<Rightarrow> path \<Rightarrow> tree_entry \<Rightarrow> (path \<times> raw_oid \<times> git_entry_mode) list \<Rightarrow> path list wt" where
  "restore_entry V R ws region entry files = (\<lambda>w.
     wt_bind (if te_mode entry \<noteq> GTree \<and> wt_is_dir V region w
              then wt_context (\<lambda>_. non_empty_region region) (wt_remove_dir V region)
              else wt_ok ())
       (\<lambda>_. write_restored V (gr_read_blob R) ws files []) w)"

definition region_entry :: "gate_repo \<Rightarrow> (string \<Rightarrow> git_oid option) \<Rightarrow> string \<Rightarrow> path \<Rightarrow> string + tree_entry option" where
  "region_entry R epoch_of workspace region =
     (case (case epoch_of (workspace_epoch_ref workspace) of
              Some oid \<Rightarrow> Some oid | None \<Rightarrow> epoch_of ''refs/manifold/epoch/current'') of
        None \<Rightarrow> Inl (''cannot restore epoch side of D/F clash at '' @ quoted (display_path region)
          @ '': no epoch ref found (looked at refs/manifold/epoch/ws/'' @ workspace @ '' and refs/manifold/epoch/current)'')
      | Some oid \<Rightarrow>
          res_bind (parse_side_oid ''epoch'' oid) (\<lambda>raw.
            (case gr_read_commit R raw of
               Inl e \<Rightarrow> Inl (''read_commit('' @ raw_oid_str raw @ '') failed: '' @ git_error_str e)
             | Inr c \<Rightarrow> entry_at (gr_read_tree R) (ci_tree_oid c) (map from_utf8_lossy region))))"

definition restore_epoch_region ::
  "wt_env \<Rightarrow> gate_repo \<Rightarrow> (string \<Rightarrow> git_oid option) \<Rightarrow> string \<Rightarrow> path \<Rightarrow> path \<Rightarrow> worktree \<Rightarrow>
   ((string + path list) \<times> worktree) option" where
  "restore_epoch_region V R epoch_of workspace ws region w =
     (case region_entry R epoch_of workspace region of
        Inl e \<Rightarrow> Some (Inl e, w)
      | Inr None \<Rightarrow> Some (Inr [], w)
      | Inr (Some entry) \<Rightarrow>
          map_option (\<lambda>r. case r of
              Inl e \<Rightarrow> (Inl e, w)
            | Inr files \<Rightarrow> restore_entry V R ws region entry files w)
            (collect_epoch_files (gr_read_tree R) [(region, entry)] []))"

section \<open>The paths\<close>

record run_env =
  rn_resolve :: resolve_env
  rn_wt_env :: wt_env
  rn_ratio :: "rat option"
  rn_ws :: path

record run_state =
  rn_tree :: conflict_tree
  rn_work :: worktree
  rn_resolved :: "path list"
  rn_skipped :: "(path \<times> string) list"
  rn_sanity :: "(path \<times> sanity_failure) list"
  rn_kinds :: "(path \<times> resolve_kind) list"
  rn_regions :: "(path, unit) btree"

definition run_start :: "conflict_tree \<Rightarrow> worktree \<Rightarrow> run_state" where
  "run_start t w = \<lparr>rn_tree = t, rn_work = w, rn_resolved = [], rn_skipped = [], rn_sanity = [], rn_kinds = [],
     rn_regions = bm_empty\<rparr>"

definition skip :: "path \<Rightarrow> string \<Rightarrow> run_state \<Rightarrow> run_state" where
  "skip rel reason st = st\<lparr>rn_skipped := rn_skipped st @ [(rel, reason)]\<rparr>"

fun df_region :: "conflict \<Rightarrow> path option" where
  "df_region (CModifyDelete _ _ _ _ _ _ hint) = hint"
| "df_region _ = None"

definition schedule_region :: "conflict \<Rightarrow> path_outcome \<Rightarrow> run_state \<Rightarrow> run_state" where
  "schedule_region c out st =
     (case (out, df_region c) of
        (DeletedPath, Some region) \<Rightarrow> st\<lparr>rn_regions := bm_insert region () (rn_regions st)\<rparr>
      | _ \<Rightarrow> st)"

definition record_resolved :: "path \<Rightarrow> resolve_kind \<Rightarrow> sanity_failure option \<Rightarrow> run_state \<Rightarrow> run_state" where
  "record_resolved rel kind failure st =
     st\<lparr>rn_tree := (rn_tree st)\<lparr>ct_conflicts := bm_remove rel (ct_conflicts (rn_tree st))\<rparr>,
        rn_resolved := rn_resolved st @ [rel],
        rn_sanity := rn_sanity st @ (case failure of None \<Rightarrow> [] | Some f \<Rightarrow> [(rel, f)]),
        rn_kinds := rn_kinds st @ (if kind = BlobReplace \<or> kind = LegacyBlobReplaceWarned then [] else [(rel, kind)])\<rparr>"

text \<open>One path: the error of a call that ends the command, with the state it leaves.\<close>

definition process_path ::
  "run_env \<Rightarrow> string option \<Rightarrow> (path, string) btree \<Rightarrow> path \<Rightarrow> run_state \<Rightarrow> string option \<times> run_state" where
  "process_path N all_side file_sides rel st =
     (case bm_get (ct_conflicts (rn_tree st)) rel of
        None \<Rightarrow> (None, skip rel ''not in structured sidecar'' st)
      | Some c \<Rightarrow>
          (case (case bm_get file_sides rel of Some t \<Rightarrow> Some t | None \<Rightarrow> all_side) of
             None \<Rightarrow> (None, skip rel ''no --keep side chosen for path'' st)
           | Some target \<Rightarrow>
               (case apply_decision (rn_resolve N) (rn_ratio N) c target rel of
                  Inl e \<Rightarrow> (None, skip rel e st)
                | Inr out \<Rightarrow>
                    (let st1 = schedule_region c out st
                     in case apply_outcome (rn_wt_env N) (rn_ws N) rel out (rn_work st1) of
                          (Inl e, w) \<Rightarrow> (Some e, st1\<lparr>rn_work := w\<rparr>)
                        | (Inr (True, kind, failure), w) \<Rightarrow> (None, record_resolved rel kind failure (st1\<lparr>rn_work := w\<rparr>))
                        | (Inr (False, _, _), w) \<Rightarrow> (None, skip rel ''decision produced no output'' (st1\<lparr>rn_work := w\<rparr>))))))"

fun process_paths ::
  "run_env \<Rightarrow> string option \<Rightarrow> (path, string) btree \<Rightarrow> path list \<Rightarrow> run_state \<Rightarrow> string option \<times> run_state" where
  "process_paths N all_side file_sides [] st = (None, st)"
| "process_paths N all_side file_sides (rel # rels) st =
     (case process_path N all_side file_sides rel st of
        (Some e, st') \<Rightarrow> (Some e, st')
      | (None, st') \<Rightarrow> process_paths N all_side file_sides rels st')"

definition still_contested :: "conflict_tree \<Rightarrow> path \<Rightarrow> bool" where
  "still_contested t region \<longleftrightarrow> list_ex (\<lambda>c. df_region c = Some region) (map snd (bm_entries (ct_conflicts t)))"

fun restore_regions ::
  "run_env \<Rightarrow> gate_repo \<Rightarrow> (string \<Rightarrow> git_oid option) \<Rightarrow> string \<Rightarrow> path list \<Rightarrow> run_state \<Rightarrow> run_state option" where
  "restore_regions N R epoch_of workspace [] st = Some st"
| "restore_regions N R epoch_of workspace (region # regions) st =
     (if still_contested (rn_tree st) region then restore_regions N R epoch_of workspace regions st
      else Option.bind (restore_epoch_region (rn_wt_env N) R epoch_of workspace (rn_ws N) region (rn_work st)) (\<lambda>(r, w).
        restore_regions N R epoch_of workspace regions
          (st\<lparr>rn_work := w, rn_resolved := rn_resolved st @ (case r of Inl _ \<Rightarrow> [] | Inr restored \<Rightarrow> restored)\<rparr>)))"

section \<open>The commit\<close>

text \<open>Running \<open>git\<close> in the workspace: it cannot be started, fails with a text, or succeeds with its output.\<close>

datatype git_run = NotStarted string | GitFails string | GitSucceeds string

type_synonym 's git_cmd = "string list \<Rightarrow> worktree \<Rightarrow> 's \<Rightarrow> git_run \<times> 's"

definition auto_commit_message :: "string \<Rightarrow> path list \<Rightarrow> string" where
  "auto_commit_message workspace resolved =
     (case resolved of
        [p] \<Rightarrow> ''resolve: '' @ display_path p @ '' (bn-gjm8 auto-commit)''
      | _ \<Rightarrow> ''resolve: apply structured --keep decisions for '' @ show_nat (length resolved) @ '' path(s) in ''
           @ quoted workspace @ '' (bn-gjm8 auto-commit)'')"

definition commit_staged :: "'s git_cmd \<Rightarrow> string \<Rightarrow> worktree \<Rightarrow> 's \<Rightarrow> (string + string option) \<times> 's" where
  "commit_staged git msg w s =
     (case git [''commit'', ''-m'', msg] w s of
        (NotStarted e, s1) \<Rightarrow> (Inl (''git commit failed to spawn: '' @ e), s1)
      | (GitFails e, s1) \<Rightarrow> (Inl (''git commit failed: '' @ str_trim e), s1)
      | (GitSucceeds _, s1) \<Rightarrow>
          (case git [''rev-parse'', ''HEAD''] w s1 of
             (NotStarted e, s2) \<Rightarrow> (Inl (''git rev-parse HEAD failed: '' @ e), s2)
           | (GitFails _, s2) \<Rightarrow> (Inr (Some []), s2)
           | (GitSucceeds out, s2) \<Rightarrow> (Inr (Some (str_trim (from_utf8_lossy out))), s2)))"

definition auto_commit_resolution ::
  "'s git_cmd \<Rightarrow> string \<Rightarrow> path list \<Rightarrow> worktree \<Rightarrow> 's \<Rightarrow> (string + string option) \<times> 's" where
  "auto_commit_resolution git workspace resolved w s =
     (case git ([''add'', ''--''] @ map path_str resolved) w s of
        (NotStarted e, s1) \<Rightarrow> (Inl (''git add failed to spawn: '' @ e), s1)
      | (GitFails e, s1) \<Rightarrow> (Inl (''git add failed: '' @ str_trim e), s1)
      | (GitSucceeds _, s1) \<Rightarrow>
          (case git [''diff'', ''--cached'', ''--quiet''] w s1 of
             (NotStarted e, s2) \<Rightarrow> (Inl (''git diff --cached failed: '' @ e), s2)
           | (GitSucceeds _, s2) \<Rightarrow> (Inr None, s2)
           | (GitFails _, s2) \<Rightarrow> commit_staged git (auto_commit_message workspace resolved) w s2))"

section \<open>The run\<close>

fun keep_sides :: "decision list \<Rightarrow> string option \<Rightarrow> (path, string) btree \<Rightarrow> string + string option \<times> (path, string) btree" where
  "keep_sides [] all_side file_sides = Inr (all_side, file_sides)"
| "keep_sides (DecideAll n # ds) all_side file_sides =
     (if all_side \<noteq> None then Inl ''Multiple blanket --keep flags. Use one, or use PATH=NAME per-file.''
      else keep_sides ds (Some n) file_sides)"
| "keep_sides (DecideFile p n # ds) all_side file_sides = keep_sides ds all_side (bm_insert p n file_sides)"

definition target_paths :: "string option \<Rightarrow> (path, string) btree \<Rightarrow> string list \<Rightarrow> conflict_tree \<Rightarrow> path list" where
  "target_paths all_side file_sides paths t =
     (if \<not> bm_is_empty file_sides \<and> all_side = None then bm_keys file_sides
      else if paths \<noteq> [] then map path_from paths
      else bm_keys (ct_conflicts t))"

record 's run_world =
  rw_work :: worktree
  rw_disk :: disk
  rw_git :: 's

text \<open>The state after the run and the commit it made; without conflicts there is nothing to do.\<close>

record run_report =
  rp_state :: run_state
  rp_committed :: "string option"

record 's run_setup =
  su_run :: run_env
  su_repo :: gate_repo
  su_ref :: "string \<Rightarrow> git_oid option"
  su_git :: "'s git_cmd"
  su_io :: io_env
  su_json :: tree_json
  su_dir :: path

definition finish_run ::
  "'s run_setup \<Rightarrow> string \<Rightarrow> run_state \<Rightarrow> 's run_world \<Rightarrow> (string + run_report option) \<times> 's run_world" where
  "finish_run U workspace st rw =
     (case write_conflict_tree_sidecar (su_io U) (su_json U) (su_dir U) workspace (rn_tree st) (rw_disk rw) of
        (Inl e, d) \<Rightarrow> (Inl e, rw\<lparr>rw_work := rn_work st, rw_disk := d\<rparr>)
      | (Inr _, d) \<Rightarrow>
          (let solved = bm_is_empty (ct_conflicts (rn_tree st));
               d1 = (if solved then sweep_legacy_sidecar (su_io U) (su_dir U) workspace d else d);
               rw1 = rw\<lparr>rw_work := rn_work st, rw_disk := d1\<rparr>
           in if solved \<and> rn_resolved st \<noteq> [] \<and> rn_sanity st = [] then
                (case auto_commit_resolution (su_git U) workspace (rn_resolved st) (rn_work st) (rw_git rw) of
                   (Inr c, s) \<Rightarrow> (Inr (Some \<lparr>rp_state = st, rp_committed = c\<rparr>), rw1\<lparr>rw_git := s\<rparr>)
                 | (Inl _, s) \<Rightarrow> (Inr (Some \<lparr>rp_state = st, rp_committed = None\<rparr>), rw1\<lparr>rw_git := s\<rparr>))
              else (Inr (Some \<lparr>rp_state = st, rp_committed = None\<rparr>), rw1)))"

text \<open>The error for a missing \<open>--keep\<close> is its first line; the examples it goes on to print are left out.\<close>

definition run_structured ::
  "'s run_setup \<Rightarrow> string \<Rightarrow> string list \<Rightarrow> string list \<Rightarrow> conflict_tree \<Rightarrow> 's run_world \<Rightarrow>
   ((string + run_report option) \<times> 's run_world) option" where
  "run_structured U workspace paths keep t rw =
     (if keep = [] then Some (Inl ''Must specify --keep or --list.'', rw)
      else case res_bind (parse_decisions keep) (\<lambda>ds. keep_sides ds None bm_empty) of
        Inl e \<Rightarrow> Some (Inl e, rw)
      | Inr (all_side, file_sides) \<Rightarrow>
          (case gr_open (su_repo U) of
             Some e \<Rightarrow> Some (Inl (''Failed to open git repo at '' @ display_path (rn_ws (su_run U)) @ '': '' @ git_error_str e), rw)
           | None \<Rightarrow>
               (let rels = target_paths all_side file_sides paths t
                in if rels = [] then Some (Inr None, rw)
                   else case process_paths (su_run U) all_side file_sides rels (run_start t (rw_work rw)) of
                     (Some e, st) \<Rightarrow> Some (Inl e, rw\<lparr>rw_work := rn_work st\<rparr>)
                   | (None, st) \<Rightarrow>
                       map_option (\<lambda>st'. finish_run U workspace st' rw)
                         (restore_regions (su_run U) (su_repo U) (su_ref U) workspace (bm_keys (rn_regions st)) st))))"

end
