(* ===== verification/Run_Facts.thy ===== *)
theory Run_Facts
  imports Structured_Run Partition
begin

text \<open>
  What a run of the structured resolution leaves: in the work tree, in the sidecar, and in the commit it makes.
\<close>

section \<open>Calls that leave a path alone\<close>

text \<open>A node stays, or a directory appears where there was nothing.\<close>

definition kept :: "worktree \<Rightarrow> worktree \<Rightarrow> path \<Rightarrow> bool" where
  "kept w w' q \<longleftrightarrow> bm_get w' q = bm_get w q \<or> bm_get w q = None \<and> bm_get w' q = Some WDir"

definition frames :: "'a wt \<Rightarrow> path \<Rightarrow> bool" where
  "frames m q \<longleftrightarrow> (\<forall>w. kept w (snd (m w)) q)"

text \<open>What is written through a link is outside of the work tree.\<close>

definition links_leave :: "wt_env \<Rightarrow> bool" where
  "links_leave V \<longleftrightarrow> (\<forall>p t b w. snd (we_through V p t b w) = w)"

lemma kept_refl [simp]: "kept w w q"
  by (simp add: kept_def)

lemma kept_trans: "kept w1 w2 q \<Longrightarrow> kept w2 w3 q \<Longrightarrow> kept w1 w3 q"
  by (auto simp: kept_def)

named_theorems frame_rules

lemma framesI: "(\<And>w. kept w (snd (m w)) q) \<Longrightarrow> frames m q"
  by (simp add: frames_def)

lemma frames_ok [frame_rules]: "frames (wt_ok x) q"
  by (simp add: frames_def wt_ok_def)

lemma frames_fail [frame_rules]: "frames (wt_fail e) q"
  by (simp add: frames_def wt_fail_def)

lemma frames_bind [frame_rules]: "frames m q \<Longrightarrow> (\<And>x. frames (f x) q) \<Longrightarrow> frames (wt_bind m f) q"
  unfolding frames_def wt_bind_def
  by (auto split: prod.splits sum.splits) (metis kept_trans snd_conv)+

lemma frames_context [frame_rules]: "frames m q \<Longrightarrow> frames (wt_context f m) q"
  unfolding frames_def wt_context_def by (auto split: prod.splits sum.splits) (metis snd_conv)+

lemma frames_guard: "frames m q \<Longrightarrow> frames (wt_guard V call p m) q"
  by (auto simp: wt_guard_def frames_fail split: option.splits)

lemma frames_if [frame_rules]: "frames m q \<Longrightarrow> frames n q \<Longrightarrow> frames (if b then m else n) q"
  by simp

lemma frames_look: "(\<And>w0. frames (m w0) q) \<Longrightarrow> frames (\<lambda>w. m w w) q"
  by (simp add: frames_def)

lemma frames_create_dirs [frame_rules]: "frames (wt_create_dirs V p) q"
  unfolding wt_create_dirs_def
proof (rule frames_guard, rule framesI)
  fix w
  show "kept w (snd (make_dirs V (map (\<lambda>n. take n p) [1 ..< Suc (length p)]) w)) q"
    using make_dirs_only_dirs [of V "map (\<lambda>n. take n p) [1 ..< Suc (length p)]" w q]
      make_dirs_keeps [of w q V "map (\<lambda>n. take n p) [1 ..< Suc (length p)]"]
    by (cases "bm_get w q") (auto simp: kept_def)
qed

lemma frames_remove_file [frame_rules]: "q \<noteq> p \<Longrightarrow> frames (wt_remove_file V p) q"
  unfolding wt_remove_file_def by (intro frames_guard framesI) (simp add: kept_def)

lemma frames_write [frame_rules]: "links_leave V \<Longrightarrow> q \<noteq> p \<Longrightarrow> frames (wt_write V p b) q"
  unfolding wt_write_def
  by (intro frames_guard framesI) (auto simp: kept_def links_leave_def split: option.splits wt_node.splits)

lemma frames_symlink [frame_rules]: "q \<noteq> p \<Longrightarrow> frames (wt_symlink V p t) q"
  unfolding wt_symlink_def by (intro frames_guard framesI) (auto simp: kept_def)

lemma frames_make_executable [frame_rules]: "q \<noteq> p \<Longrightarrow> frames (wt_make_executable V p) q"
  unfolding wt_make_executable_def
  by (intro frames_guard framesI) (auto simp: kept_def split: option.splits wt_node.splits)

lemma frames_write_link: "q \<noteq> rel \<Longrightarrow> frames (write_link V ws rel bytes) q"
  unfolding write_link_def by (rule frames_look) (intro frame_rules)

lemma frames_write_regular: "links_leave V \<Longrightarrow> q \<noteq> rel \<Longrightarrow> frames (write_regular V ws rel bytes x) q"
  unfolding write_regular_def by (intro frame_rules)

lemma frames_apply_outcome:
  assumes "links_leave V" "q \<noteq> rel"
  shows "frames (apply_outcome V ws rel out) q"
proof (cases out)
  case (Wrote bytes mode kind sanity)
  show ?thesis unfolding Wrote apply_outcome.simps
    by (intro frame_rules frames_write_link frames_write_regular assms)
next
  case DeletedPath
  show ?thesis unfolding DeletedPath apply_outcome.simps by (rule frames_look) (intro frame_rules assms)
next
  case (SkippedPath r)
  show ?thesis unfolding SkippedPath apply_outcome.simps by (intro frame_rules)
qed

section \<open>What an outcome leaves at its path\<close>

fun leaves :: "worktree \<Rightarrow> path \<Rightarrow> path_outcome \<Rightarrow> bool" where
  "leaves w rel (Wrote bytes mode _ _) \<longleftrightarrow>
     (if mode = Some SLink then bm_get w rel = Some (WLink (strip_newline bytes))
      else \<exists>x. bm_get w rel = Some (WFile x bytes) \<and> (mode = Some SBlobExecutable \<longrightarrow> x))"
| "leaves w rel DeletedPath \<longleftrightarrow> \<not> wt_is_entry rel w"
| "leaves w rel (SkippedPath _) \<longleftrightarrow> False"

definition is_link :: "wt_node option \<Rightarrow> bool" where
  "is_link n \<longleftrightarrow> (\<exists>t. n = Some (WLink t))"

lemma kept_shows: "kept w w' rel \<Longrightarrow> leaves w rel out \<Longrightarrow> leaves w' rel out"
  by (cases out) (auto simp: kept_def wt_is_entry_def split: if_splits)

lemma kept_link: "kept w w' q \<Longrightarrow> is_link (bm_get w' q) \<Longrightarrow> is_link (bm_get w q)"
  by (auto simp: kept_def is_link_def)

lemma wt_bind_Inr: "wt_bind m f w = (Inr y, w') \<longleftrightarrow> (\<exists>x w1. m w = (Inr x, w1) \<and> f x w1 = (Inr y, w'))"
  by (auto simp: wt_bind_def split: prod.splits sum.splits)

lemma wt_context_Inr [simp]: "wt_context g m w = (Inr x, w') \<longleftrightarrow> m w = (Inr x, w')"
  by (auto simp: wt_context_def split: prod.splits sum.splits)

lemma wt_guard_Inr: "wt_guard V call p m w = (Inr x, w') \<longleftrightarrow> we_fault V call p = None \<and> m w = (Inr x, w')"
  by (auto simp: wt_guard_def wt_fail_def split: option.splits)

lemma remove_file_shows: "wt_remove_file V p w = (Inr x, w') \<Longrightarrow> \<not> wt_is_entry p w' \<and> bm_get w' p = None"
  by (auto simp: wt_remove_file_def wt_guard_Inr wt_is_entry_def split: if_splits)

lemma symlink_shows: "wt_symlink V p t w = (Inr x, w') \<Longrightarrow> bm_get w' p = Some (WLink t)"
  by (auto simp: wt_symlink_def wt_guard_Inr split: if_splits)

lemma write_shows:
  "wt_write V p b w = (Inr x, w') \<Longrightarrow> \<not> is_link (bm_get w p) \<Longrightarrow> \<exists>y. bm_get w' p = Some (WFile y b)"
  by (auto simp: wt_write_def wt_guard_Inr is_link_def split: option.splits wt_node.splits if_splits)

lemma executable_shows:
  "wt_make_executable V p w = (Inr x, w') \<Longrightarrow> bm_get w p = Some (WFile y b) \<Longrightarrow> bm_get w' p = Some (WFile True b)"
  by (auto simp: wt_make_executable_def wt_guard_Inr)

lemma write_link_shows: "write_link V ws rel b w = (Inr x, w') \<Longrightarrow> bm_get w' rel = Some (WLink (strip_newline b))"
  by (auto simp: write_link_def wt_bind_Inr wt_fail_def split: if_splits dest: symlink_shows)

lemma write_regular_shows:
  "write_regular V ws rel b exe w = (Inr x, w') \<Longrightarrow> \<not> is_link (bm_get w rel) \<Longrightarrow>
   \<exists>y. bm_get w' rel = Some (WFile y b) \<and> (exe \<longrightarrow> y)"
proof -
  assume run: "write_regular V ws rel b exe w = (Inr x, w')" and link: "\<not> is_link (bm_get w rel)"
  obtain w1 where w1: "wt_write V rel b w = (Inr (), w1)"
      and rest: "(if exe then wt_context (\<lambda>e. ''chmod +x '' @ display_path (ws @ rel) @ '': '' @ e) (wt_make_executable V rel)
        else wt_ok ()) w1 = (Inr x, w')"
    using run by (auto simp: write_regular_def wt_bind_Inr)
  obtain y where y: "bm_get w1 rel = Some (WFile y b)" using write_shows [OF w1 link] by blast
  show ?thesis
  proof (cases exe)
    case True
    then show ?thesis using rest executable_shows [OF _ y, of V x w'] by auto
  next
    case False
    then show ?thesis using rest y by (simp add: wt_ok_def)
  qed
qed

lemma apply_outcome_shows:
  assumes run: "apply_outcome V ws rel out w = (Inr (True, kind, failure), w')" and link: "\<not> is_link (bm_get w rel)"
  shows "leaves w' rel out"
proof (cases out)
  case (Wrote bytes mode k s)
  then obtain w1 where dirs: "wt_create_dirs V (butlast rel) w = (Inr (), w1)"
      and wr: "\<exists>x. (if mode = Some SLink then write_link V ws rel bytes
        else write_regular V ws rel bytes (mode = Some SBlobExecutable)) w1 = (Inr x, w')"
    using run by (auto simp: wt_bind_Inr wt_ok_def)
  have "kept w w1 rel"
    using frames_create_dirs [of V "butlast rel" rel] dirs unfolding frames_def by (metis snd_conv)
  then have "\<not> is_link (bm_get w1 rel)" using kept_link link by blast
  then show ?thesis using wr Wrote write_link_shows write_regular_shows by (auto split: if_splits)
next
  case DeletedPath
  then show ?thesis using run by (auto simp: wt_bind_Inr wt_ok_def split: if_splits dest: remove_file_shows)
next
  case (SkippedPath r)
  then show ?thesis using run by (simp add: wt_ok_def)
qed


section \<open>The loop over the paths\<close>

definition keep_target :: "string option \<Rightarrow> (path, string) btree \<Rightarrow> path \<Rightarrow> string option" where
  "keep_target all_side file_sides p = (case bm_get file_sides p of Some t \<Rightarrow> Some t | None \<Rightarrow> all_side)"

text \<open>A resolved path: its conflict was decided and the work tree shows the decision.\<close>

definition decided :: "run_env \<Rightarrow> string option \<Rightarrow> (path, string) btree \<Rightarrow> conflict_tree \<Rightarrow> worktree \<Rightarrow> path \<Rightarrow> bool" where
  "decided N all_side file_sides t w p \<longleftrightarrow> (\<exists>c target out.
     bm_get (ct_conflicts t) p = Some c \<and> keep_target all_side file_sides p = Some target
     \<and> apply_decision (rn_resolve N) (rn_ratio N) c target p = Inr out \<and> leaves w p out)"

text \<open>A skipped path with the reason given for it.\<close>

definition undecided :: "run_env \<Rightarrow> string option \<Rightarrow> (path, string) btree \<Rightarrow> conflict_tree \<Rightarrow> path \<Rightarrow> string \<Rightarrow> bool" where
  "undecided N all_side file_sides t p reason \<longleftrightarrow>
     (case bm_get (ct_conflicts t) p of
        None \<Rightarrow> reason = ''not in structured sidecar''
      | Some c \<Rightarrow>
          (case keep_target all_side file_sides p of
             None \<Rightarrow> reason = ''no --keep side chosen for path''
           | Some target \<Rightarrow>
               (case apply_decision (rn_resolve N) (rn_ratio N) c target p of
                  Inl e \<Rightarrow> reason = e
                | Inr out \<Rightarrow> (\<exists>r. out = SkippedPath r) \<and> reason = ''decision produced no output'')))"

record run_inv =
  ri_env :: run_env
  ri_all :: "string option"
  ri_files :: "(path, string) btree"
  ri_tree :: conflict_tree
  ri_work :: worktree

definition run_ok :: "run_inv \<Rightarrow> path list \<Rightarrow> run_state \<Rightarrow> bool" where
  "run_ok I ps st \<longleftrightarrow>
     distinct (rn_resolved st) \<and> set (rn_resolved st) \<inter> fst ` set (rn_skipped st) = {}
     \<and> set (rn_resolved st) \<union> fst ` set (rn_skipped st) = set ps
     \<and> ct_clean (rn_tree st) = ct_clean (ri_tree I) \<and> ct_base_epoch (rn_tree st) = ct_base_epoch (ri_tree I)
     \<and> (\<forall>p. bm_get (ct_conflicts (rn_tree st)) p = (if p \<in> set (rn_resolved st) then None else bm_get (ct_conflicts (ri_tree I)) p))
     \<and> (\<forall>p \<in> set (rn_resolved st). decided (ri_env I) (ri_all I) (ri_files I) (ri_tree I) (rn_work st) p)
     \<and> (\<forall>p. p \<notin> set (rn_resolved st) \<longrightarrow> kept (ri_work I) (rn_work st) p)
     \<and> (\<forall>(p, reason) \<in> set (rn_skipped st). undecided (ri_env I) (ri_all I) (ri_files I) (ri_tree I) p reason)
     \<and> fst ` set (rn_sanity st) \<subseteq> set (rn_resolved st)
     \<and> (\<forall>region. bm_get (rn_regions st) region \<noteq> None \<longrightarrow>
          (\<exists>p c. bm_get (ct_conflicts (ri_tree I)) p = Some c \<and> df_region c = Some region))"

lemma run_okD:
  assumes "run_ok I ps st"
  shows "p \<in> set (rn_resolved st) \<Longrightarrow> decided (ri_env I) (ri_all I) (ri_files I) (ri_tree I) (rn_work st) p"
    and "p \<notin> set (rn_resolved st) \<Longrightarrow> kept (ri_work I) (rn_work st) p"
    and "bm_get (ct_conflicts (rn_tree st)) p = (if p \<in> set (rn_resolved st) then None else bm_get (ct_conflicts (ri_tree I)) p)"
    and "bm_get (rn_regions st) region \<noteq> None \<Longrightarrow>
      \<exists>p c. bm_get (ct_conflicts (ri_tree I)) p = Some c \<and> df_region c = Some region"
    and "set (rn_resolved st) \<union> fst ` set (rn_skipped st) = set ps"
    and "fst ` set (rn_sanity st) \<subseteq> set (rn_resolved st)"
  using assms unfolding run_ok_def by (elim conjE; simp)+

lemma run_ok_start: "run_ok I [] (run_start (ri_tree I) (ri_work I))"
  by (simp add: run_ok_def run_start_def)

lemma skip_fields [simp]:
  "rn_tree (skip rel reason st) = rn_tree st" "rn_work (skip rel reason st) = rn_work st"
  "rn_resolved (skip rel reason st) = rn_resolved st" "rn_sanity (skip rel reason st) = rn_sanity st"
  "rn_regions (skip rel reason st) = rn_regions st" "rn_skipped (skip rel reason st) = rn_skipped st @ [(rel, reason)]"
  by (simp_all add: skip_def)

lemma run_ok_skip:
  assumes ok: "run_ok I ps st" and new: "rel \<notin> set ps"
    and why: "undecided (ri_env I) (ri_all I) (ri_files I) (ri_tree I) rel reason"
  shows "run_ok I (ps @ [rel]) (skip rel reason st)"
proof -
  have "rel \<notin> set (rn_resolved st)" using ok new by (auto simp: run_ok_def)
  then have "set (rn_resolved st) \<inter> fst ` set (rn_skipped (skip rel reason st)) = {}"
    using ok unfolding run_ok_def by auto
  moreover have "set (rn_resolved st) \<union> fst ` set (rn_skipped (skip rel reason st)) = set (ps @ [rel])"
    using ok unfolding run_ok_def by auto
  moreover have "\<forall>(p, reason) \<in> set (rn_skipped (skip rel reason st)).
      undecided (ri_env I) (ri_all I) (ri_files I) (ri_tree I) p reason"
    using ok why unfolding run_ok_def by auto
  ultimately show ?thesis using ok unfolding run_ok_def skip_fields(1-5) by (elim conjE) (intro conjI, assumption+)
qed

lemma schedule_region_fields [simp]:
  "rn_tree (schedule_region c out st) = rn_tree st" "rn_work (schedule_region c out st) = rn_work st"
  "rn_resolved (schedule_region c out st) = rn_resolved st" "rn_skipped (schedule_region c out st) = rn_skipped st"
  "rn_sanity (schedule_region c out st) = rn_sanity st"
  by (auto simp: schedule_region_def split: path_outcome.splits option.splits)

lemma schedule_region_skip [simp]: "schedule_region c (SkippedPath r) st = st"
  by (simp add: schedule_region_def)

lemma schedule_region_regions:
  "bm_get (rn_regions (schedule_region c out st)) region \<noteq> None \<Longrightarrow>
   bm_get (rn_regions st) region \<noteq> None \<or> df_region c = Some region"
  by (auto simp: schedule_region_def split: path_outcome.splits option.splits if_splits)

lemma run_ok_resolve:
  assumes ok: "run_ok I ps st" and new: "rel \<notin> set ps" and links: "links_leave (rn_wt_env (ri_env I))"
    and c: "bm_get (ct_conflicts (ri_tree I)) rel = Some c" "keep_target (ri_all I) (ri_files I) rel = Some target"
      "apply_decision (rn_resolve (ri_env I)) (rn_ratio (ri_env I)) c target rel = Inr out"
    and run: "apply_outcome (rn_wt_env (ri_env I)) ws rel out (rn_work st) = (Inr (True, kind, failure), w)"
    and link: "\<not> is_link (bm_get (ri_work I) rel)"
  shows "run_ok I (ps @ [rel]) (record_resolved rel kind failure ((schedule_region c out st)\<lparr>rn_work := w\<rparr>))"
proof -
  let ?st = "record_resolved rel kind failure ((schedule_region c out st)\<lparr>rn_work := w\<rparr>)"
  have rel: "rel \<notin> set (rn_resolved st)" "rel \<notin> fst ` set (rn_skipped st)" using ok new by (auto simp: run_ok_def)
  have frame: "kept (rn_work st) w q" if "q \<noteq> rel" for q
    using frames_apply_outcome [OF links that, of ws out] run unfolding frames_def by (metis snd_conv)
  have "\<not> is_link (bm_get (rn_work st) rel)" using kept_link [OF run_okD(2) [OF ok rel(1)]] link by blast
  then have left: "leaves w rel out" by (rule apply_outcome_shows [OF run])
  have fields: "rn_resolved ?st = rn_resolved st @ [rel]" "rn_skipped ?st = rn_skipped st" "rn_work ?st = w"
    "rn_tree ?st = (rn_tree st)\<lparr>ct_conflicts := bm_remove rel (ct_conflicts (rn_tree st))\<rparr>"
    "rn_regions ?st = rn_regions (schedule_region c out st)"
    by (auto simp: record_resolved_def split: option.splits)
  have "fst ` set (rn_sanity ?st) \<subseteq> insert rel (fst ` set (rn_sanity st))"
    by (auto simp: record_resolved_def split: option.splits)
  then have sane: "fst ` set (rn_sanity ?st) \<subseteq> insert rel (set (rn_resolved st))"
    using run_okD(6) [OF ok] by blast
  have dec: "decided (ri_env I) (ri_all I) (ri_files I) (ri_tree I) w p" if "p \<in> set (rn_resolved st)" for p
  proof -
    have "p \<noteq> rel" using rel(1) that by blast
    then show ?thesis using run_okD(1) [OF ok that] kept_shows [OF frame] unfolding decided_def by blast
  qed
  have here: "decided (ri_env I) (ri_all I) (ri_files I) (ri_tree I) w rel" using c left unfolding decided_def by blast
  have far: "kept (ri_work I) w p" if "p \<notin> set (rn_resolved st)" "p \<noteq> rel" for p
    using kept_trans [OF run_okD(2) [OF ok that(1)] frame [OF that(2)]] .
  have regions: "\<exists>p c. bm_get (ct_conflicts (ri_tree I)) p = Some c \<and> df_region c = Some region"
    if "bm_get (rn_regions (schedule_region c out st)) region \<noteq> None" for region
    using schedule_region_regions [OF that] run_okD(4) [OF ok] c(1) by blast
  show ?thesis
    using ok rel fields sane dec here far regions by (auto simp: run_ok_def)
qed


lemma process_path_ok:
  assumes ok: "run_ok I ps st" and new: "rel \<notin> set ps" and links: "links_leave (rn_wt_env (ri_env I))"
    and link: "bm_get (ct_conflicts (ri_tree I)) rel \<noteq> None \<Longrightarrow> \<not> is_link (bm_get (ri_work I) rel)"
    and run: "process_path (ri_env I) (ri_all I) (ri_files I) rel st = (None, st')"
  shows "run_ok I (ps @ [rel]) st'"
proof -
  have "rel \<notin> set (rn_resolved st)" using ok new by (auto simp: run_ok_def)
  then have get: "bm_get (ct_conflicts (rn_tree st)) rel = bm_get (ct_conflicts (ri_tree I)) rel"
    using run_okD(3) [OF ok] by simp
  note skip = run_ok_skip [OF ok new]
  show ?thesis
  proof (cases "bm_get (ct_conflicts (ri_tree I)) rel")
    case None
    then show ?thesis using run get skip by (auto simp: process_path_def undecided_def)
  next
    case (Some c)
    show ?thesis
    proof (cases "keep_target (ri_all I) (ri_files I) rel")
      case None
      then show ?thesis using run get Some skip
        by (auto simp: process_path_def undecided_def keep_target_def split: option.splits)
    next
      case target: (Some target)
      then have pick: "(case bm_get (ri_files I) rel of None \<Rightarrow> ri_all I | Some t \<Rightarrow> Some t) = Some target"
        by (simp add: keep_target_def)
      show ?thesis
      proof (cases "apply_decision (rn_resolve (ri_env I)) (rn_ratio (ri_env I)) c target rel")
        case (Inl e)
        then show ?thesis using run get Some target skip pick by (auto simp: process_path_def undecided_def)
      next
        case (Inr out)
        obtain r w where r: "apply_outcome (rn_wt_env (ri_env I)) (rn_ws (ri_env I)) rel out (rn_work st) = (r, w)"
          by (cases "apply_outcome (rn_wt_env (ri_env I)) (rn_ws (ri_env I)) rel out (rn_work st)")
        show ?thesis
        proof (cases "\<exists>reason. out = SkippedPath reason")
          case True
          then have "st' = skip rel ''decision produced no output'' st"
            using run get Some pick Inr by (auto simp: process_path_def wt_ok_def)
          then show ?thesis using skip True Some target Inr by (simp add: undecided_def)
        next
          case False
          then obtain kind failure where fin: "r = Inr (True, kind, failure)"
            using run get Some pick Inr r
            by (cases out) (auto simp: process_path_def wt_bind_def wt_ok_def split: sum.splits prod.splits if_splits)
          then have "st' = record_resolved rel kind failure ((schedule_region c out st)\<lparr>rn_work := w\<rparr>)"
            using run get Some pick Inr r by (simp add: process_path_def)
          then show ?thesis using run_ok_resolve [OF ok new links Some target Inr r [unfolded fin]] link Some by simp
        qed
      qed
    qed
  qed
qed

lemma process_paths_ok:
  assumes "run_ok I ps st" "distinct (ps @ rels)" "links_leave (rn_wt_env (ri_env I))"
    "\<forall>p. bm_get (ct_conflicts (ri_tree I)) p \<noteq> None \<longrightarrow> \<not> is_link (bm_get (ri_work I) p)"
    "process_paths (ri_env I) (ri_all I) (ri_files I) rels st = (None, st')"
  shows "run_ok I (ps @ rels) st'"
  using assms
proof (induction rels arbitrary: ps st)
  case (Cons rel rels)
  obtain st1 where st1: "process_path (ri_env I) (ri_all I) (ri_files I) rel st = (None, st1)"
      "process_paths (ri_env I) (ri_all I) (ri_files I) rels st1 = (None, st')"
    using Cons.prems(5) by (auto split: prod.splits option.splits)
  have "run_ok I (ps @ [rel]) st1"
    using process_path_ok [OF Cons.prems(1) _ Cons.prems(3) _ st1(1)] Cons.prems(2,4) by simp
  then show ?case using Cons.IH [of "ps @ [rel]" st1] Cons.prems st1(2) by simp
qed simp


section \<open>The sidecar and the commit\<close>

definition json_inverse :: "tree_json \<Rightarrow> bool" where
  "json_inverse J \<longleftrightarrow> (\<forall>t s. tj_print J t = Inr s \<longrightarrow> tj_parse J s = Some t)"

lemma sidecar_paths_differ: "legacy_sidecar_path dir ws \<noteq> structured_sidecar_path dir ws"
  by (simp add: legacy_sidecar_path_def structured_sidecar_path_def)

lemma write_sidecar_reads_back:
  assumes "write_conflict_tree_sidecar io_healthy J dir ws t d = (Inr (), d')" "json_inverse J"
  shows "read_conflict_tree_sidecar io_healthy J dir ws d' =
     (if bm_is_empty (ct_conflicts t) \<and> bm_is_empty (ct_clean t) then None else Some t)"
  using assms
  by (auto simp: write_conflict_tree_sidecar_def read_conflict_tree_sidecar_def fs_defs io_defs io_healthy_def Let_def
      bm_contains_def json_inverse_def split: if_splits sum.splits option.splits)

lemma sweep_keeps_sidecar:
  "read_conflict_tree_sidecar io_healthy J dir ws (sweep_legacy_sidecar io_healthy dir ws d) =
   read_conflict_tree_sidecar io_healthy J dir ws d"
  using sidecar_paths_differ [of dir ws]
  by (auto simp: sweep_legacy_sidecar_def read_conflict_tree_sidecar_def fs_defs io_defs io_healthy_def split: option.split)

lemma finish_run_effect:
  assumes run: "finish_run U ws st rw = (Inr (Some rep), rw')"
  shows "rp_state rep = st \<and> rw_work rw' = rn_work st
    \<and> (rp_committed rep \<noteq> None \<longrightarrow> bm_is_empty (ct_conflicts (rn_tree st)) \<and> rn_sanity st = [])
    \<and> (rw_git rw' = rw_git rw \<or> bm_is_empty (ct_conflicts (rn_tree st))
        \<and> rw_git rw' = snd (auto_commit_resolution (su_git U) ws (rn_resolved st) (rn_work st) (rw_git rw)))
    \<and> (su_io U = io_healthy \<longrightarrow> json_inverse (su_json U) \<longrightarrow>
        read_conflict_tree_sidecar io_healthy (su_json U) (su_dir U) ws (rw_disk rw') =
          (if bm_is_empty (ct_conflicts (rn_tree st)) \<and> bm_is_empty (ct_clean (rn_tree st)) then None else Some (rn_tree st)))"
proof -
  obtain d where d: "write_conflict_tree_sidecar (su_io U) (su_json U) (su_dir U) ws (rn_tree st) (rw_disk rw) = (Inr (), d)"
    using run by (auto simp: finish_run_def split: prod.splits sum.splits)
  obtain r s where c: "auto_commit_resolution (su_git U) ws (rn_resolved st) (rn_work st) (rw_git rw) = (r, s)" by fastforce
  have side: "su_io U = io_healthy \<longrightarrow> json_inverse (su_json U) \<longrightarrow>
      read_conflict_tree_sidecar io_healthy (su_json U) (su_dir U) ws d =
        (if bm_is_empty (ct_conflicts (rn_tree st)) \<and> bm_is_empty (ct_clean (rn_tree st)) then None else Some (rn_tree st))"
    using write_sidecar_reads_back d by metis
  show ?thesis using run side
    by (cases r) (auto simp: finish_run_def d c Let_def sweep_keeps_sidecar split: if_splits)
qed

lemma run_structured_steps:
  assumes "run_structured U ws paths keep t rw = Some (Inr (Some rep), rw')"
  obtains all_side files st st' where
    "res_bind (parse_decisions keep) (\<lambda>ds. keep_sides ds None bm_empty) = Inr (all_side, files)"
    "process_paths (su_run U) all_side files (target_paths all_side files paths t) (run_start t (rw_work rw)) = (None, st)"
    "restore_regions (su_run U) (su_repo U) (su_ref U) ws (bm_keys (rn_regions st)) st = Some st'"
    "finish_run U ws st' rw = (Inr (Some rep), rw')"
  using assms
  by (auto simp: run_structured_def Let_def simp del: res_bind.simps split: if_splits sum.splits option.splits prod.splits)

lemma bm_keys_distinct: "distinct (bm_keys m)"
  using bm_keys_increasing strict_sorted_iff by blast

lemma target_paths_distinct: "distinct (map path_from paths) \<Longrightarrow> distinct (target_paths all_side files paths t)"
  by (simp add: target_paths_def bm_keys_distinct)

definition no_clashes :: "conflict_tree \<Rightarrow> bool" where
  "no_clashes t \<longleftrightarrow> (\<forall>p c. bm_get (ct_conflicts t) p = Some c \<longrightarrow> df_region c = None)"

definition no_links :: "conflict_tree \<Rightarrow> worktree \<Rightarrow> bool" where
  "no_links t w \<longleftrightarrow> (\<forall>p. bm_get (ct_conflicts t) p \<noteq> None \<longrightarrow> \<not> is_link (bm_get w p))"

lemma run_structured_ok:
  assumes run: "run_structured U ws paths keep t rw = Some (Inr (Some rep), rw')"
    and env: "links_leave (rn_wt_env (su_run U))" "no_links t (rw_work rw)" "no_clashes t" "distinct (map path_from paths)"
  obtains all_side files where
    "res_bind (parse_decisions keep) (\<lambda>ds. keep_sides ds None bm_empty) = Inr (all_side, files)"
    "run_ok \<lparr>ri_env = su_run U, ri_all = all_side, ri_files = files, ri_tree = t, ri_work = rw_work rw\<rparr>
       (target_paths all_side files paths t) (rp_state rep)"
    "finish_run U ws (rp_state rep) rw = (Inr (Some rep), rw')"
proof -
  from run obtain all_side files st st' where steps:
    "res_bind (parse_decisions keep) (\<lambda>ds. keep_sides ds None bm_empty) = Inr (all_side, files)"
    "process_paths (su_run U) all_side files (target_paths all_side files paths t) (run_start t (rw_work rw)) = (None, st)"
    "restore_regions (su_run U) (su_repo U) (su_ref U) ws (bm_keys (rn_regions st)) st = Some st'"
    "finish_run U ws st' rw = (Inr (Some rep), rw')"
    by (rule run_structured_steps)
  let ?I = "\<lparr>ri_env = su_run U, ri_all = all_side, ri_files = files, ri_tree = t, ri_work = rw_work rw\<rparr>"
  have ok: "run_ok ?I (target_paths all_side files paths t) st"
    using process_paths_ok [of ?I "[]" "run_start t (rw_work rw)" "target_paths all_side files paths t" st]
      run_ok_start [of ?I] steps(2) env target_paths_distinct [OF env(4)]
    by (simp add: no_links_def)
  have "bm_keys (rn_regions st) = []"
  proof (rule ccontr)
    assume "bm_keys (rn_regions st) \<noteq> []"
    then obtain region where "region \<in> set (bm_keys (rn_regions st))" by (cases "bm_keys (rn_regions st)") auto
    then have "bm_get (rn_regions st) region \<noteq> None" by (auto simp: set_bm_keys)
    then show False using run_okD(4) [OF ok, of region] env(3) by (auto simp: no_clashes_def)
  qed
  then have "st' = st" using steps(3) by simp
  moreover have "rp_state rep = st'" using finish_run_effect [OF steps(4)] by blast
  ultimately show thesis using that steps(1,4) ok by simp
qed

section \<open>What git commits\<close>

text \<open>\<open>git add\<close> stages the named paths and what lies below them, \<open>git commit\<close> makes the staged state the head or
  fails, and the other commands change nothing.\<close>

definition git_stages :: "'s git_cmd \<Rightarrow> ('s \<Rightarrow> path \<Rightarrow> wt_node option) \<Rightarrow> ('s \<Rightarrow> path \<Rightarrow> wt_node option) \<Rightarrow> bool" where
  "git_stages git index head \<longleftrightarrow>
     (\<forall>args w s q. (\<forall>a \<in> set args. path_str q \<noteq> a \<and> \<not> prefix (a @ ''/'') (path_str q)) \<longrightarrow>
        index (snd (git ([''add'', ''--''] @ args) w s)) q = index s q)
     \<and> (\<forall>args w s. head (snd (git ([''add'', ''--''] @ args) w s)) = head s)
     \<and> (\<forall>msg w s. index (snd (git [''commit'', ''-m'', msg] w s)) = index s
        \<and> head (snd (git [''commit'', ''-m'', msg] w s)) \<in> {head s, index s})
     \<and> (\<forall>w s. snd (git [''diff'', ''--cached'', ''--quiet''] w s) = s \<and> snd (git [''rev-parse'', ''HEAD''] w s) = s)"

lemma auto_commit_elsewhere:
  assumes git: "git_stages git index head"
    and q: "\<forall>p \<in> set ps. path_str q \<noteq> path_str p \<and> \<not> prefix (path_str p @ ''/'') (path_str q)" and clean: "index s q = head s q"
  shows "head (snd (auto_commit_resolution git ws ps w s)) q = head s q"
proof -
  let ?add = "git ([''add'', ''--''] @ map path_str ps) w s"
  obtain r s1 where add: "?add = (r, s1)" by fastforce
  have args: "\<forall>a \<in> set (map path_str ps). path_str q \<noteq> a \<and> \<not> prefix (a @ ''/'') (path_str q)" using q by simp
  have i1: "index s1 q = index s q" and h1: "head s1 = head s"
    using git [unfolded git_stages_def] args add by (metis snd_conv)+
  have commit: "head (snd (commit_staged git msg w s1)) q = head s q" for msg
  proof -
    obtain r2 s2 where c: "git [''commit'', ''-m'', msg] w s1 = (r2, s2)" by fastforce
    have "head s2 \<in> {head s1, index s1}" using git [unfolded git_stages_def] c by (metis snd_conv)
    then have h2: "head s2 q = head s q" using i1 h1 clean by auto
    obtain r3 s3 where v: "git [''rev-parse'', ''HEAD''] w s2 = (r3, s3)" by fastforce
    have "s3 = s2" using git [unfolded git_stages_def] v by (metis snd_conv)
    then show ?thesis using c v h2 by (auto simp: commit_staged_def split: git_run.splits)
  qed
  obtain r4 s4 where d: "git [''diff'', ''--cached'', ''--quiet''] w s1 = (r4, s4)" by fastforce
  have "s4 = s1" using git [unfolded git_stages_def] d by (metis snd_conv)
  then show ?thesis using add d h1 commit by (auto simp: auto_commit_resolution_def split: git_run.splits)
qed

lemma path_str_below:
  assumes "path_wf p" "path_wf q" "path_str q = path_str p \<or> prefix (path_str p @ ''/'') (path_str q)"
  shows "prefix p q"
  using assms(3)
proof
  assume "path_str q = path_str p"
  then have "q = p" using path_str_split [OF assms(1)] path_str_split [OF assms(2)] by simp
  then show ?thesis by simp
next
  assume "prefix (path_str p @ ''/'') (path_str q)"
  then obtain r where "path_str q = path_str p @ CHR ''/'' # r" by (auto simp: prefix_def)
  then have "split_on CHR ''/'' (path_str q) = split_on CHR ''/'' (path_str p) @ split_on CHR ''/'' r"
    by (simp add: split_on_snoc)
  then show ?thesis using path_str_split [OF assms(1)] path_str_split [OF assms(2)] by simp
qed


section \<open>Properties\<close>


text \<open>What a run resolves while other conflicts remain is never committed by a later run: the first run makes no
  commit, and the commit of the run that resolves the rest leaves at such a path what the head had before, the file
  with conflict markers, although no conflict is recorded any more.\<close>

theorem partial_resolution_not_committed:
  assumes git: "git_stages (su_git U) index head" "index (rw_git rw) p = head (rw_git rw) p"
    and env: "links_leave (rn_wt_env (su_run U))" "no_links t (rw_work rw)" "no_clashes t"
      "distinct (map path_from paths1)" "distinct (map path_from paths2)"
    and run1: "run_structured U ws paths1 keep1 t rw = Some (Inr (Some rep1), rw1)"
      "p \<in> set (rn_resolved (rp_state rep1))" "\<not> bm_is_empty (ct_conflicts (rn_tree (rp_state rep1)))"
    and run2: "run_structured U ws paths2 keep2 (rn_tree (rp_state rep1)) rw1 = Some (Inr (Some rep2), rw2)"
    and wf: "path_wf p" "\<forall>q c. bm_get (ct_conflicts t) q = Some c \<longrightarrow> path_wf q \<and> \<not> strict_prefix q p"
  shows "rw_git rw1 = rw_git rw \<and> rp_committed rep1 = None \<and> head (rw_git rw2) p = head (rw_git rw) p"
proof -
  let ?t1 = "rn_tree (rp_state rep1)"
  from run_structured_ok [OF run1(1) env(1-4)] obtain all1 files1 where
    ok1: "run_ok \<lparr>ri_env = su_run U, ri_all = all1, ri_files = files1, ri_tree = t, ri_work = rw_work rw\<rparr>
       (target_paths all1 files1 paths1 t) (rp_state rep1)"
    and fin1: "finish_run U ws (rp_state rep1) rw = (Inr (Some rep1), rw1)" .
  have quiet: "rw_git rw1 = rw_git rw" "rp_committed rep1 = None" "rw_work rw1 = rn_work (rp_state rep1)"
    using finish_run_effect [OF fin1] run1(3) by blast+
  have left: "bm_get (ct_conflicts ?t1) q = (if q \<in> set (rn_resolved (rp_state rep1)) then None else bm_get (ct_conflicts t) q)" for q
    using run_okD(3) [OF ok1] by simp
  have "no_links ?t1 (rw_work rw1)"
    unfolding no_links_def
  proof (intro allI impI)
    fix q
    assume "bm_get (ct_conflicts ?t1) q \<noteq> None"
    then have q: "q \<notin> set (rn_resolved (rp_state rep1))" "bm_get (ct_conflicts t) q \<noteq> None" using left [of q] by (auto split: if_splits)
    then show "\<not> is_link (bm_get (rw_work rw1) q)"
      using env(2) run_okD(2) [OF ok1 q(1)] kept_link quiet(3) by (auto simp: no_links_def)
  qed
  moreover have "no_clashes ?t1" using env(3) left by (simp add: no_clashes_def)
  ultimately obtain all2 files2 where
    ok2: "run_ok \<lparr>ri_env = su_run U, ri_all = all2, ri_files = files2, ri_tree = ?t1, ri_work = rw_work rw1\<rparr>
       (target_paths all2 files2 paths2 ?t1) (rp_state rep2)"
    and fin2: "finish_run U ws (rp_state rep2) rw1 = (Inr (Some rep2), rw2)"
    using run_structured_ok [OF run2 env(1) _ _ env(5)] by blast
  have "path_str p \<noteq> path_str q \<and> \<not> prefix (path_str q @ ''/'') (path_str p)" if q: "q \<in> set (rn_resolved (rp_state rep2))" for q
  proof -
    obtain c where "bm_get (ct_conflicts ?t1) q = Some c" using run_okD(1) [OF ok2 q] by (auto simp: decided_def)
    then have "q \<notin> set (rn_resolved (rp_state rep1))" "bm_get (ct_conflicts t) q = Some c" using left [of q] by (auto split: if_splits)
    then have "q \<noteq> p" "path_wf q" "\<not> strict_prefix q p" using run1(2) wf(2) by auto
    then show ?thesis using path_str_below [OF \<open>path_wf q\<close> wf(1)] by (auto simp: strict_prefix_def)
  qed
  then have "head (snd (auto_commit_resolution (su_git U) ws (rn_resolved (rp_state rep2)) (rn_work (rp_state rep2)) (rw_git rw1))) p
      = head (rw_git rw1) p"
    using git quiet(1) by (intro auto_commit_elsewhere [OF git(1)]) auto
  then have "head (rw_git rw2) p = head (rw_git rw1) p" using finish_run_effect [OF fin2] by metis
  then show ?thesis using quiet by simp
qed

end
