(* ===== verification/Run_Samples.thy ===== *)
theory Run_Samples
  imports Structured_Facts Run_Facts
begin

text \<open>
  Two runs of the structured resolution on a small workspace: the first resolves one of two conflicts, the second the
  other. The theorems of \<open>Run_Facts\<close> are applied to them.
\<close>

declare collect_epoch_files.simps [code]

section \<open>A workspace\<close>

text \<open>A \<open>git\<close> that keeps its index and its head as maps.\<close>

definition stage :: "worktree \<Rightarrow> path list \<Rightarrow> worktree \<Rightarrow> worktree" where
  "stage w ps ix = fold (\<lambda>p ix. case bm_get w p of None \<Rightarrow> bm_remove p ix | Some n \<Rightarrow> bm_insert p n ix) ps ix"

definition mem_git :: "(worktree \<times> worktree) git_cmd" where
  "mem_git args w s =
     (case args of
        [] \<Rightarrow> (GitFails [], s)
      | c # rest \<Rightarrow>
          if c = ''add'' then (GitSucceeds [], (stage w (map (split_on CHR ''/'') (drop 1 rest)) (fst s), snd s))
          else if c = ''commit'' then (GitSucceeds [], (fst s, fst s))
          else if c = ''diff'' then (if fst s = snd s then GitSucceeds [] else GitFails [], s)
          else (GitSucceeds ''c0ffee'', s))"

lemma stage_elsewhere: "q \<notin> set ps \<Longrightarrow> bm_get (stage w ps ix) q = bm_get ix q"
  by (induction ps arbitrary: ix) (auto simp: stage_def split: option.splits)

lemma mem_git_stages: "git_stages mem_git (\<lambda>s. bm_get (fst s)) (\<lambda>s. bm_get (snd s))"
proof -
  have other: "bm_get (stage w (map (split_on CHR ''/'') args) ix) q = bm_get ix q"
    if "\<forall>a \<in> set args. path_str q \<noteq> a \<and> \<not> prefix (a @ ''/'') (path_str q)" for args w ix q
  proof (rule stage_elsewhere)
    show "q \<notin> set (map (split_on CHR ''/'') args)"
      using that by (auto simp: path_str_def join_split_on)
  qed
  then show ?thesis by (simp add: git_stages_def mem_git_def)
qed

definition two_conflict_at :: "path \<Rightarrow> conflict" where
  "two_conflict_at p = CContent p (FileId 1) (Some (sample_oid CHR ''1''))
     [sample_side ''epoch'' CHR ''2'', sample_side ''alice'' CHR ''3''] []"

definition sample_two_conflicts :: conflict_tree where
  "sample_two_conflicts = \<lparr>ct_clean = bm_empty,
     ct_conflicts = bm_of_list [([''a''], two_conflict_at [''a'']), ([''b''], two_conflict_at [''b''])],
     ct_base_epoch = sample_epoch CHR ''a''\<rparr>"

definition sample_one_conflict :: conflict_tree where
  "sample_one_conflict = sample_two_conflicts\<lparr>ct_conflicts := bm_of_list [([''b''], two_conflict_at [''b''])]\<rparr>"

definition sample_marked_work :: worktree where
  "sample_marked_work = bm_of_list [([''a''], WFile False ''<<<<<<< a''), ([''b''], WFile False ''<<<<<<< b'')]"

definition sample_setup :: "(worktree \<times> worktree) run_setup" where
  "sample_setup = \<lparr>su_run = \<lparr>rn_resolve = sample_keep_env, rn_wt_env = wt_healthy, rn_ratio = None, rn_ws = [''ws'', ''alice'']\<rparr>,
     su_repo = \<lparr>gr_open = None, gr_read_commit = (\<lambda>_. Inl (GitNotFound [])), gr_read_tree = (\<lambda>_. Inl (GitNotFound [])),
       gr_read_blob = (\<lambda>_. Inl (GitNotFound [])), gr_read_blob_at_path = (\<lambda>_ _. Inl (GitNotFound []))\<rparr>,
     su_ref = (\<lambda>_. None), su_git = mem_git, su_io = io_healthy,
     su_json = \<lparr>tj_print = (\<lambda>t. if t = sample_one_conflict then Inr ''one'' else Inl ''no''),
       tj_parse = (\<lambda>s. if s = ''one'' then Some sample_one_conflict else None)\<rparr>,
     su_dir = [''.manifold'']\<rparr>"

definition sample_world :: "(worktree \<times> worktree) run_world" where
  "sample_world = \<lparr>rw_work = sample_marked_work, rw_disk = bm_empty, rw_git = (sample_marked_work, sample_marked_work)\<rparr>"

definition first_run :: "((string + run_report option) \<times> (worktree \<times> worktree) run_world) option" where
  "first_run = run_structured sample_setup ''alice'' [] [''a=alice''] sample_two_conflicts sample_world"

definition run_check :: "((string + run_report option) \<times> 'w) option \<Rightarrow> (run_report \<Rightarrow> 'w \<Rightarrow> bool) \<Rightarrow> bool" where
  "run_check r P \<longleftrightarrow> (case r of Some (Inr (Some rep), w) \<Rightarrow> P rep w | _ \<Rightarrow> False)"

lemma run_checkD: "run_check r P \<Longrightarrow> \<exists>rep w. r = Some (Inr (Some rep), w) \<and> P rep w"
  by (auto simp: run_check_def split: option.splits prod.splits sum.splits)

definition second_run ::
  "run_report \<Rightarrow> (worktree \<times> worktree) run_world \<Rightarrow> ((string + run_report option) \<times> (worktree \<times> worktree) run_world) option" where
  "second_run rep rw = run_structured sample_setup ''alice'' [] [''epoch''] (rn_tree (rp_state rep)) rw"

lemma runs_checked:
  "run_check first_run (\<lambda>rep1 rw1. rn_resolved (rp_state rep1) = [[''a'']] \<and> rn_skipped (rp_state rep1) = []
     \<and> rn_tree (rp_state rep1) = sample_one_conflict
     \<and> run_check (second_run rep1 rw1) (\<lambda>rep2 rw2. rn_resolved (rp_state rep2) = [[''b'']]
         \<and> rp_committed rep2 = Some ''c0ffee'' \<and> bm_is_empty (ct_conflicts (rn_tree (rp_state rep2)))
         \<and> bm_get (rw_work rw2) [''a''] \<noteq> bm_get (snd (rw_git rw2)) [''a'']))"
  by code_simp

lemma sample_links_leave: "links_leave (rn_wt_env (su_run sample_setup))"
  by (simp add: links_leave_def sample_setup_def wt_healthy_def)

lemma sample_two_get:
  "bm_get (ct_conflicts sample_two_conflicts) p =
     (if p = [''a''] then Some (two_conflict_at [''a'']) else if p = [''b''] then Some (two_conflict_at [''b'']) else None)"
  by (simp add: sample_two_conflicts_def bm_of_list_def)

lemma sample_no_links: "no_links sample_two_conflicts (rw_work sample_world)"
  by (simp add: no_links_def sample_two_get sample_world_def sample_marked_work_def bm_of_list_def is_link_def)

lemma sample_no_clashes: "no_clashes sample_two_conflicts"
  by (auto simp: no_clashes_def sample_two_get two_conflict_at_def split: if_splits)


section \<open>Witnesses\<close>


lemma partial_resolution_not_committed_witness:
  "\<exists>rep1 rw1 rep2 rw2. first_run = Some (Inr (Some rep1), rw1) \<and> second_run rep1 rw1 = Some (Inr (Some rep2), rw2)
     \<and> rp_committed rep2 = Some ''c0ffee'' \<and> bm_is_empty (ct_conflicts (rn_tree (rp_state rep2)))
     \<and> bm_get (snd (rw_git rw2)) [''a''] = Some (WFile False ''<<<<<<< a'')
     \<and> bm_get (rw_work rw2) [''a''] \<noteq> Some (WFile False ''<<<<<<< a'')"
proof -
  obtain rep1 rw1 where run1: "first_run = Some (Inr (Some rep1), rw1)" and res1: "rn_resolved (rp_state rep1) = [[''a'']]"
      and tree1: "rn_tree (rp_state rep1) = sample_one_conflict"
      and check: "run_check (second_run rep1 rw1) (\<lambda>rep2 rw2. rn_resolved (rp_state rep2) = [[''b'']]
         \<and> rp_committed rep2 = Some ''c0ffee'' \<and> bm_is_empty (ct_conflicts (rn_tree (rp_state rep2)))
         \<and> bm_get (rw_work rw2) [''a''] \<noteq> bm_get (snd (rw_git rw2)) [''a''])"
    using run_checkD [OF runs_checked] by blast
  obtain rep2 rw2 where run2: "second_run rep1 rw1 = Some (Inr (Some rep2), rw2)"
      and fin: "rp_committed rep2 = Some ''c0ffee''" "bm_is_empty (ct_conflicts (rn_tree (rp_state rep2)))"
        "bm_get (rw_work rw2) [''a''] \<noteq> bm_get (snd (rw_git rw2)) [''a'']"
    using run_checkD [OF check] by blast
  have ne: "\<not> bm_is_empty (ct_conflicts (rn_tree (rp_state rep1)))" unfolding tree1 by code_simp
  have git: "git_stages (su_git sample_setup) (\<lambda>s. bm_get (fst s)) (\<lambda>s. bm_get (snd s))"
    using mem_git_stages by (simp add: sample_setup_def)
  have clean: "bm_get (fst (rw_git sample_world)) [''a''] = bm_get (snd (rw_git sample_world)) [''a'']"
    by (simp add: sample_world_def)
  have wf: "path_wf [''a'']" "\<forall>q c. bm_get (ct_conflicts sample_two_conflicts) q = Some c \<longrightarrow> path_wf q \<and> \<not> strict_prefix q [''a'']"
    by (auto simp: sample_two_get path_wf_def strict_prefix_def split: if_splits)
  have "[''a''] \<in> set (rn_resolved (rp_state rep1))" using res1 by simp
  from partial_resolution_not_committed [OF git clean sample_links_leave sample_no_links sample_no_clashes _ _
      run1 [unfolded first_run_def] this ne run2 [unfolded second_run_def] wf]
  have "bm_get (snd (rw_git rw2)) [''a''] = bm_get (snd (rw_git sample_world)) [''a'']" by simp
  then have "bm_get (snd (rw_git rw2)) [''a''] = Some (WFile False ''<<<<<<< a'')"
    by (simp add: sample_world_def sample_marked_work_def bm_of_list_def)
  then show ?thesis using run1 run2 fin by auto
qed

end
