(* ===== verification/Spec2Isabelle.thy ===== *)
theory Spec2Isabelle
  imports Patch_Join File_Id_Map Merge_State Commit_Phase Merge_Protocol Conflict_Model Resolve_Facts
    Oplog_Facts Global_View Stale_Add Marker_Labels Gate_Facts Reconstruct_Facts Inline_Facts Run_Samples
begin

text \<open>
  Verification development for maw, a multi-agent workspace manager on top of git. Every agent works
  in a workspace of its own; a merge collects what the workspaces changed against a common epoch,
  resolves the changes path by path into one commit, and moves the epoch and branch references to it.

  The parts, in the order in which the program composes them, and the theories that model them:

  \<^item> \<open>Prelude\<close>: results, comparators and strings of the Rust standard library; the interface
    \<open>total_cmp\<close> of \<open>Ord\<close>. \<open>Ordered_Map\<close>: \<open>BTreeMap\<close> as a type of sorted association lists with
    the interfaces \<open>ordered_map\<close> and \<open>grouped_map\<close>. \<open>Disk\<close>: files, with a failure or crash
    possible at every call and torn writes, and the interface \<open>atomic_writer\<close> of the
    write-to-temporary-then-rename idiom.
  \<^item> \<open>Core_Types\<close>, \<open>Ordering_Key\<close>, \<open>Patch_Model\<close>, \<open>Patch_Join\<close>, \<open>File_Id_Map\<close>,
    \<open>Conflict_Model\<close>: \<open>crates/maw-core/src/model/\<close> (\<open>types\<close>, \<open>ordering\<close>, \<open>patch\<close>, \<open>join\<close>,
    \<open>file_id\<close>, \<open>conflict\<close>). Identifiers and their validation, causal ordering keys, patch sets and
    their join, the map between file identities and paths, structured conflicts.
  \<^item> \<open>Merge_Types\<close>, \<open>Partition\<close>: \<open>crates/maw-core/src/merge/\<close> (\<open>types\<close>, \<open>partition\<close>). The
    changes of each workspace, their inverted index by path, and directory/file clashes.
  \<^item> \<open>Text_Lines\<close>, \<open>Diff3_Atoms\<close>, \<open>Shifted_Blocks\<close>, \<open>Resolve_Algebra\<close>, \<open>Resolve_Partition\<close>:
    \<open>src/merge/resolve.rs\<close>. Lines of a text, the parser of diff3 conflict markers, the alignment of moved
    blocks before a second attempt, the generic resolution of a path that several workspaces changed, and
    the two pipelines (with and without the AST merge) over a whole partition. \<open>Resolve_Facts\<close> shows that
    either gives every path outside the clashes exactly one outcome and every clash a conflict, who is named in a
    conflict, and that the two agree except on conflicts that only one of them retries.
  \<^item> \<open>Build_Tree\<close>: \<open>crates/maw-core/src/merge/build.rs\<close>. Reading the epoch's trees into a flat map, applying
    the changes, writing trees and the commit, over an object store given by its contract. \<open>Build_Facts\<close> and
    \<open>Build_Result\<close> show that what is written reads back, in git's canonical order.
  \<^item> \<open>Merge_Drivers\<close>, \<open>Build_Phase\<close>: \<open>src/merge/build_phase.rs\<close> and the driver part of
    \<open>crates/maw-core/src/config.rs\<close>. The configured merge drivers with the temporary worktree of the
    regenerating ones, the synthetic participant that carries what the epoch changed since a stale workspace
    forked, and the BUILD phase from the collected snapshots to the candidate commit and the merge-state file.
    \<open>Driver_Facts\<close>, \<open>Pipeline_Facts\<close>, \<open>Pipeline_Result\<close> and \<open>Stale_Add\<close> hold what it guarantees and
    where it does not do what its comments say.
  \<^item> \<open>Merge_State\<close>: \<open>crates/maw-core/src/merge_state.rs\<close>, the persistent state machine of a running
    merge with its exclusive creation, recovery, staleness and abort.
  \<^item> \<open>Git_Refs\<close>, \<open>Commit_Phase\<close>: \<open>crates/maw-core/src/refs.rs\<close>, \<open>crates/maw-git/src/types.rs\<close>,
    \<open>src/merge/commit.rs\<close>. References over a backend given by its contract, and the COMMIT phase
    with its recovery.
  \<^item> \<open>Oplog_Core\<close>, \<open>Oplog_View\<close>, \<open>Oplog_Checkpoint\<close>, \<open>Global_View\<close>: \<open>crates/maw-core/src/oplog/\<close> and
    \<open>crates/maw-cli/src/workspace/oplog_runtime.rs\<close>. The operation log of a workspace as a chain of blobs behind a
    reference, its replay to a view, checkpoints and compaction, and the view over all workspaces. \<open>Oplog_Log\<close>
    and \<open>Oplog_Facts\<close> show what an append leaves of every log, and that replay from a checkpoint agrees with full
    replay up to the count of operations and the checkpoint annotations, on logs whose checkpoints record the view below
    them. The runtime's appends keep that, except of annotations under the reserved key; logs that transport merged, or
    whose head was deleted, are outside this statement.
  \<^item> \<open>Conflict_Apply\<close>, \<open>Materialize\<close>: \<open>crates/maw-core/src/merge/\<close> (\<open>types\<close>, \<open>apply\<close>, \<open>materialize\<close>). The
    conflict tree of clean entries and structured conflicts, the application of one workspace's patch set to it,
    and the rendering of every conflict as a file with header and markers. \<open>Materialize_Facts\<close> shows that
    materialising projects the tree path by path and that no conflict is rendered without markers.
  \<^item> \<open>Str_Ops\<close>, \<open>Marker_Files\<close>, \<open>Header_Reconstruct\<close>: \<open>crates/maw-cli/src/workspace/resolve.rs\<close>. The
    resolution of files that carry markers, and the reconstruction of a lost sidecar from the headers of
    rendered conflicts. \<open>Marker_Facts\<close>, \<open>Marker_Labels\<close> and \<open>Reconstruct_Facts\<close> relate both to what
    \<open>Materialize\<close> writes.
  \<^item> \<open>Merge_Gate\<close>: \<open>conflict_state.rs\<close>, and the gate of \<open>merge.rs\<close> with the scans of \<open>resolve.rs\<close>, in
    \<open>crates/maw-cli/src/workspace/\<close>. Whether a workspace is still in conflict, from its sidecars, its work tree and
    its HEAD, and the check that keeps conflicted sources out of a merge. Deleting a stale sidecar can fail at either
    file, and the failure is ignored, as in the code. \<open>Gate_Facts\<close> shows what the gate keeps out and what it lets
    through.
  \<^item> \<open>Inline_Resolve\<close>: the options \<open>--resolve\<close> and \<open>--resolve-all\<close> of \<open>merge.rs\<close>, from the ids of the
    conflicts to the patched candidate commit and the reports. \<open>Inline_Facts\<close> shows that every conflict is
    accounted for and what resolving single regions writes.
  \<^item> \<open>Structured_Resolve\<close>, \<open>Worktree\<close>, \<open>Structured_Run\<close>: \<open>maw ws resolve --keep\<close> over a recorded conflict tree, in
    \<open>resolve_structured.rs\<close> and \<open>sync/sanity.rs\<close> of \<open>crates/maw-cli/src/workspace/\<close> and \<open>crates/maw-git/src/merge.rs\<close>.
    What each choice makes of a conflict, the check of a merged text, the files, links and directories of a work tree
    with a failure possible at every call, and the run: all paths, the regions restored from the epoch, the rewritten
    sidecar and the commit. \<open>Structured_Facts\<close> shows what the choices decide, \<open>Run_Facts\<close> that a run accounts for
    every path and what it leaves uncommitted, \<open>Run_Samples\<close> runs both on concrete trees. The ratio that the size
    check allows is a field of the run, where the code loads it from the configuration; \<open>--list\<close> and what a run
    prints are not modelled.
  \<^item> \<open>Merge_Protocol\<close>: \<open>crates/maw-assurance/src/model.rs\<close>, the transition system the repository
    itself model-checks for up to three workspaces, here for any number.

  Machine integers are words at their width, strings are byte lists, a \<open>PathBuf\<close> is the list of its
  components, \<open>Result\<close> is the sum type with the error on the left, and a panic is an error of its own or
  \<open>None\<close>. Walks over stored data that need not end (the trees of a commit, the history of a log) are partial
  functions with the value \<open>None\<close> for a walk that does not return; that they return on finite histories is a
  theorem, and no bound or fuel is chosen. Code outside the repository is a parameter: the JSON serializer and
  parser, the git object and reference backend, the three-way text merge, the glob matcher, random identities,
  the clock, the temporary worktree and the commands run in it, the \<open>git\<close> command, the syntax check of a merged text, what the standard library leaves open in
  \<open>sort_unstable\<close>, \<open>binary_search\<close> and the iteration of a hash map. What the theorems need of them is stated as a
  named contract, with an instance that satisfies it.

  Not modelled: the command line apart from the parts named above, terminal interface, benchmark and assurance harness crates, which
  drive the parts above, print and measure; the git backend itself, which calls gix; the AST merge,
  which rests on tree-sitter grammars; \<open>repair_oplog\<close>, which prints and calls git.
\<close>

end
